(* ===== verification/Prelude.thy ===== *)
theory Prelude
  imports Main "HOL-Library.Word" "HOL-Library.AList"
begin

text \<open>
  Shared vocabulary of the development: machine integers at the width the Rust code
  declares, \<^verbatim>\<open>HashMap\<close> and \<^verbatim>\<open>HashSet\<close> as lists whose order stands for the
  (unspecified) iteration order, results of fallible readers, and the generic lemmas the
  component theories share.

  A signed Rust integer is kept as a word of its width and read with \<open>sint\<close>.  A hash map
  is an association list: lookups use the first entry of a key, and every theorem that
  quantifies over the list covers every iteration order of the real table.
\<close>

subsection \<open>Machine integers\<close>

type_synonym u8 = "8 word"
type_synonym u16 = "16 word"
type_synonym i16 = "16 word"
type_synonym u32 = "32 word"
type_synonym i32 = "32 word"
type_synonym u64 = "64 word"
type_synonym i64 = "64 word"

text \<open>\<open>positive x\<close> is Rust's \<open>x > 0\<close> on a signed integer.\<close>

definition positive :: "'a::len word \<Rightarrow> bool" where
  "positive x \<longleftrightarrow> 0 < sint x"

lemma positive_neq_minus_one [simp]: "positive x \<Longrightarrow> x \<noteq> - 1"
  by (auto simp: positive_def)

lemma not_positive_minus_one [simp]: "\<not> positive (- 1 :: 'a::len word)"
  by (simp add: positive_def)

lemma unat_of_nat_small:
  "n < 2 ^ LENGTH('a) \<Longrightarrow> unat (of_nat n :: 'a::len word) = n"
  by (simp add: unat_of_nat take_bit_nat_eq_self)

named_theorems frames
  \<open>which fields of the state an operation leaves alone\<close>
named_theorems keeps
  \<open>invariants an operation preserves\<close>

subsection \<open>Hash maps and hash sets\<close>

type_synonym ('k, 'v) hmap = "('k \<times> 'v) list"

abbreviation hget :: "('k, 'v) hmap \<Rightarrow> 'k \<Rightarrow> 'v option" where
  "hget \<equiv> map_of"

definition hput :: "'k \<Rightarrow> 'v \<Rightarrow> ('k, 'v) hmap \<Rightarrow> ('k, 'v) hmap" where
  "hput = AList.update"

definition hdel :: "'k \<Rightarrow> ('k, 'v) hmap \<Rightarrow> ('k, 'v) hmap" where
  "hdel = AList.delete"

text \<open>Writing through \<open>get_mut\<close>: nothing happens when the key is absent.\<close>

fun hmod :: "'k \<Rightarrow> ('v \<Rightarrow> 'v) \<Rightarrow> ('k, 'v) hmap \<Rightarrow> ('k, 'v) hmap" where
  "hmod k f [] = []"
| "hmod k f ((k', v) # m) = (if k' = k then (k', f v) # m else (k', v) # hmod k f m)"

abbreviation hkeys :: "('k, 'v) hmap \<Rightarrow> 'k list" where
  "hkeys m \<equiv> map fst m"

definition hs_insert :: "'a \<Rightarrow> 'a list \<Rightarrow> 'a list" where
  "hs_insert x xs = (if x \<in> set xs then xs else xs @ [x])"

definition hs_remove :: "'a \<Rightarrow> 'a list \<Rightarrow> 'a list" where
  "hs_remove x xs = filter (\<lambda>y. y \<noteq> x) xs"

lemma set_hs_insert [simp]: "set (hs_insert x xs) = insert x (set xs)"
  by (auto simp: hs_insert_def)

lemma distinct_hs_insert [simp]: "distinct (hs_insert x xs) = distinct xs"
  by (auto simp: hs_insert_def)

lemma set_hs_remove [simp]: "set (hs_remove x xs) = set xs - {x}"
  by (auto simp: hs_remove_def)

lemma distinct_hs_remove [simp]: "distinct xs \<Longrightarrow> distinct (hs_remove x xs)"
  by (simp add: hs_remove_def)

text \<open>
  What the code relies on when it uses \<^verbatim>\<open>HashMap\<close>: the laws of lookup after each
  update, and that a key occurs once in an iteration.
\<close>

locale hash_map =
  fixes lookup :: "'m \<Rightarrow> 'k \<Rightarrow> 'v option"
    and put :: "'k \<Rightarrow> 'v \<Rightarrow> 'm \<Rightarrow> 'm"
    and del :: "'k \<Rightarrow> 'm \<Rightarrow> 'm"
    and upd :: "'k \<Rightarrow> ('v \<Rightarrow> 'v) \<Rightarrow> 'm \<Rightarrow> 'm"
    and keys :: "'m \<Rightarrow> 'k list"
  assumes lookup_put: "lookup (put k v m) = (lookup m)(k \<mapsto> v)"
    and lookup_del: "lookup (del k m) = (lookup m)(k := None)"
    and lookup_upd: "lookup (upd k f m) = (lookup m)(k := map_option f (lookup m k))"
    and keys_dom: "set (keys m) = dom (lookup m)"
    and distinct_put: "distinct (keys m) \<Longrightarrow> distinct (keys (put k v m))"
    and distinct_del: "distinct (keys m) \<Longrightarrow> distinct (keys (del k m))"
    and keys_upd: "keys (upd k f m) = keys m"
begin

lemma keys_put: "set (keys (put k v m)) = insert k (set (keys m))"
  by (auto simp: keys_dom lookup_put)

lemma keys_del: "set (keys (del k m)) = set (keys m) - {k}"
  by (auto simp: keys_dom lookup_del)

lemma lookup_upd_absent: "lookup m k = None \<Longrightarrow> lookup (upd k f m) = lookup m"
  by (simp add: lookup_upd fun_upd_idem)

lemma upd_eq_put: "lookup m k = Some v \<Longrightarrow> lookup (upd k f m) = lookup (put k (f v) m)"
  by (simp add: lookup_upd lookup_put)

lemma put_idem: "lookup (put k v (put k w m)) = lookup (put k v m)"
  by (simp add: lookup_put)

lemma fresh_key: "lookup m k = None \<longleftrightarrow> k \<notin> set (keys m)"
  by (auto simp: keys_dom)

end

lemma map_of_hmod: "map_of (hmod k f m) = (map_of m)(k := map_option f (map_of m k))"
  by (induction m) (auto simp: fun_eq_iff)

lemma hkeys_hmod: "hkeys (hmod k f m) = hkeys m"
  by (induction m) auto

interpretation hm: hash_map map_of hput hdel hmod "map fst"
  by unfold_locales
    (simp_all add: hput_def hdel_def update_conv' delete_conv' map_of_hmod hkeys_hmod
      dom_map_of_conv_image_fst distinct_update distinct_delete)

lemmas hm_simps [simp] = hm.lookup_put hm.lookup_del hm.lookup_upd
lemmas hm_keys [simp] = hm.keys_put hm.keys_del hm.keys_upd hm.distinct_put hm.distinct_del

text \<open>Mapping every value keeps the keys and acts under the lookup.\<close>

definition hmap_values :: "('k \<Rightarrow> 'v \<Rightarrow> 'w) \<Rightarrow> ('k, 'v) hmap \<Rightarrow> ('k, 'w) hmap" where
  "hmap_values f m = map (\<lambda>(k, v). (k, f k v)) m"

lemma hget_hmap_values [simp]: "map_of (hmap_values f m) k = map_option (f k) (map_of m k)"
  by (induction m) (auto simp: hmap_values_def)

lemma hkeys_hmap_values [simp]: "hkeys (hmap_values f m) = hkeys m"
  by (simp add: hmap_values_def split_def comp_def)

subsection \<open>Lists indexed and updated in place\<close>

text \<open>\<open>iter().position(p)\<close> and a write through \<open>iter_mut().find(p)\<close>.\<close>

fun position :: "('a \<Rightarrow> bool) \<Rightarrow> 'a list \<Rightarrow> nat option" where
  "position p [] = None"
| "position p (x # xs) = (if p x then Some 0 else map_option Suc (position p xs))"

fun update_first :: "('a \<Rightarrow> bool) \<Rightarrow> ('a \<Rightarrow> 'a) \<Rightarrow> 'a list \<Rightarrow> 'a list" where
  "update_first p f [] = []"
| "update_first p f (x # xs) = (if p x then f x # xs else x # update_first p f xs)"

lemma position_Some:
  "position p xs = Some i \<Longrightarrow> i < length xs \<and> p (xs ! i) \<and> (\<forall>j < i. \<not> p (xs ! j))"
proof (induction xs arbitrary: i)
  case (Cons x xs)
  then show ?case
    by (auto split: if_splits simp: nth_Cons split: nat.splits)
qed simp

lemma position_None: "position p xs = None \<longleftrightarrow> (\<forall>x \<in> set xs. \<not> p x)"
  by (induction xs) auto

lemma length_update_first [simp]: "length (update_first p f xs) = length xs"
  by (induction xs) auto

lemma update_first_position:
  "update_first p f xs = (case position p xs of None \<Rightarrow> xs | Some i \<Rightarrow> xs[i := f (xs ! i)])"
  by (induction xs) (auto split: option.splits)

lemma update_first_absent: "\<forall>x \<in> set xs. \<not> p x \<Longrightarrow> update_first p f xs = xs"
  by (induction xs) auto

lemma set_update_first_subset: "set (update_first p f xs) \<subseteq> set xs \<union> f ` {x \<in> set xs. p x}"
  by (induction xs) auto

end
