(* ===== verification/Rust_Strings.thy ===== *)
theory Rust_Strings
  imports Prelude
begin

text \<open>
  The part of Rust's \<^verbatim>\<open>str\<close> the server uses.  A string is the list of its Unicode
  scalar values (as integers), so \<^verbatim>\<open>chars()\<close> is the list itself and \<^verbatim>\<open>as_bytes()\<close> is
  its UTF-8 encoding, defined here with the strict decoder of
  \<^verbatim>\<open>String::from_utf8\<close> (no overlong forms, no surrogates, nothing above U+10FFFF).
  Unicode case folding beyond ASCII is the standard library's table: a parameter where a
  component needs it.
\<close>

type_synonym rchar = int
type_synonym rstr = "rchar list"

text \<open>ASCII literals of the source.\<close>

definition lit :: "string \<Rightarrow> rstr" where
  "lit s = map of_char s"

subsection \<open>UTF-8\<close>

definition is_surrogate :: "rchar \<Rightarrow> bool" where
  "is_surrogate c \<longleftrightarrow> 0xD800 \<le> c \<and> c < 0xE000"

definition is_scalar :: "rchar \<Rightarrow> bool" where
  "is_scalar c \<longleftrightarrow> 0 \<le> c \<and> c < 0x110000 \<and> \<not> is_surrogate c"

definition valid_str :: "rstr \<Rightarrow> bool" where
  "valid_str s \<longleftrightarrow> (\<forall>c \<in> set s. is_scalar c)"

definition byte :: "int \<Rightarrow> u8" where
  "byte k = word_of_int k"

definition utf8_char :: "rchar \<Rightarrow> u8 list" where
  "utf8_char c =
     (if c < 0x80 then [byte c]
      else if c < 0x800 then
        [byte (0xC0 + c div 64), byte (0x80 + c mod 64)]
      else if c < 0x10000 then
        [byte (0xE0 + c div 4096), byte (0x80 + c div 64 mod 64),
         byte (0x80 + c mod 64)]
      else
        [byte (0xF0 + c div 262144), byte (0x80 + c div 4096 mod 64),
         byte (0x80 + c div 64 mod 64), byte (0x80 + c mod 64)])"

definition utf8_encode :: "rstr \<Rightarrow> u8 list" where
  "utf8_encode s = concat (map utf8_char s)"

definition is_cont :: "u8 \<Rightarrow> bool" where
  "is_cont b \<longleftrightarrow> 0x80 \<le> uint b \<and> uint b < 0xC0"

definition utf8_step :: "u8 list \<Rightarrow> (rchar \<times> u8 list) option" where
  "utf8_step bs =
     (case bs of [] \<Rightarrow> None
      | b0 # r \<Rightarrow>
        if uint b0 < 0x80 then Some (uint b0, r)
        else if uint b0 < 0xC2 then None
        else if uint b0 < 0xE0 then
          (case r of
             b1 # r' \<Rightarrow>
               if is_cont b1 then Some ((uint b0 - 0xC0) * 64 + (uint b1 - 0x80), r') else None
           | _ \<Rightarrow> None)
        else if uint b0 < 0xF0 then
          (case r of
             b1 # b2 # r' \<Rightarrow>
               (let c = (uint b0 - 0xE0) * 4096 + (uint b1 - 0x80) * 64 + (uint b2 - 0x80)
                in if is_cont b1 \<and> is_cont b2 \<and> 0x800 \<le> c \<and> \<not> is_surrogate c
                   then Some (c, r') else None)
           | _ \<Rightarrow> None)
        else if uint b0 < 0xF5 then
          (case r of
             b1 # b2 # b3 # r' \<Rightarrow>
               (let c = (uint b0 - 0xF0) * 262144 + (uint b1 - 0x80) * 4096
                        + (uint b2 - 0x80) * 64 + (uint b3 - 0x80)
                in if is_cont b1 \<and> is_cont b2 \<and> is_cont b3 \<and> 0x10000 \<le> c \<and> c < 0x110000
                   then Some (c, r') else None)
           | _ \<Rightarrow> None)
        else None)"

lemma utf8_step_shrinks: "utf8_step bs = Some (c, r) \<Longrightarrow> length r < length bs"
  by (auto simp: utf8_step_def Let_def split: list.splits if_splits)

function utf8_decode :: "u8 list \<Rightarrow> rstr option" where
  "utf8_decode bs =
     (if bs = [] then Some []
      else case utf8_step bs of
             None \<Rightarrow> None
           | Some (c, r) \<Rightarrow> map_option ((#) c) (utf8_decode r))"
  by pat_completeness auto
termination
  by (relation "measure length") (auto dest: utf8_step_shrinks)

declare utf8_decode.simps [simp del]

lemma uint_byte [simp]: "0 \<le> k \<Longrightarrow> k < 256 \<Longrightarrow> uint (byte k) = k"
  by (simp add: byte_def uint_word_of_int_eq take_bit_int_eq_self)

lemma byte_uint: "k = uint b \<Longrightarrow> byte k = b"
  by (simp add: byte_def)

lemma utf8_char_nonempty [simp]: "utf8_char c \<noteq> []"
  by (simp add: utf8_char_def)

text \<open>The base-64 digits of a code point, as linear equations over its quotients.\<close>

lemma base64_digits:
  "c div 64 * 64 + c mod 64 = (c::int)"
  "c div 4096 * 64 + c div 64 mod 64 = c div 64"
  "c div 262144 * 64 + c div 4096 mod 64 = c div 4096"
proof -
  show "c div 64 * 64 + c mod 64 = c" by (rule div_mult_mod_eq)
  have "c div 64 div 64 = c div 4096" "c div 4096 div 64 = c div 262144"
    using zdiv_zmult2_eq[of 64 c 64] zdiv_zmult2_eq[of 64 c 4096] by simp_all
  then show "c div 4096 * 64 + c div 64 mod 64 = c div 64"
    "c div 262144 * 64 + c div 4096 mod 64 = c div 4096"
    using div_mult_mod_eq[of "c div 64" 64] div_mult_mod_eq[of "c div 4096" 64] by simp_all
qed

lemma base64_bounds:
  "0 \<le> c mod 64" "c mod (64::int) < 64" "0 \<le> c div 64 mod 64" "c div 64 mod 64 < 64"
  "0 \<le> c div 4096 mod 64" "c div 4096 mod 64 < 64"
  by simp_all

text \<open>Reading the digits back from a sum of shifted digits.\<close>

lemma base64_unique:
  assumes "(0::int) \<le> d" "d < 64"
  shows "(q * 64 + d) div 64 = q" and "(q * 64 + d) mod 64 = d"
  using assms by (auto simp: div_pos_pos_trivial)

lemma base64_unique3:
  assumes c: "c = q * 4096 + e * 64 + d" and "(0::int) \<le> d" "d < 64" "0 \<le> e" "e < 64"
  shows "c mod 64 = d \<and> c div 64 mod 64 = e \<and> c div 4096 = q"
proof -
  have "c = (q * 64 + e) * 64 + d" by (simp add: c)
  then have "c mod 64 = d" "c div 64 = q * 64 + e"
    using base64_unique[OF assms(2,3)] by metis+
  moreover have "c div 4096 = c div 64 div 64"
    using zdiv_zmult2_eq[of 64 c 64] by simp
  ultimately show ?thesis using base64_unique[OF assms(4,5)] by metis
qed

lemma base64_unique4:
  assumes c: "c = q * 262144 + f * 4096 + e * 64 + d"
    and "(0::int) \<le> d" "d < 64" "0 \<le> e" "e < 64" "0 \<le> f" "f < 64"
  shows "c mod 64 = d \<and> c div 64 mod 64 = e \<and> c div 4096 mod 64 = f \<and> c div 262144 = q"
proof -
  have "c = (q * 64 + f) * 4096 + e * 64 + d" by (simp add: c)
  from base64_unique3[OF this assms(2-5)]
  have "c mod 64 = d" "c div 64 mod 64 = e" "c div 4096 = q * 64 + f" by auto
  moreover have "c div 262144 = c div 4096 div 64"
    using zdiv_zmult2_eq[of 64 c 4096] by simp
  ultimately show ?thesis using base64_unique[OF assms(6,7)] by metis
qed

lemma utf8_step2:
  assumes "2 \<le> q" "q < 32" "0 \<le> d" "d < 64"
  shows "utf8_step (byte (0xC0 + q) # byte (0x80 + d) # r) = Some (q * 64 + d, r)"
  using assms by (simp add: is_cont_def utf8_step_def)

lemma utf8_step3:
  assumes "0 \<le> q" "q < 16" "0 \<le> e" "e < 64" "0 \<le> d" "d < 64"
    and "0x800 \<le> q * 4096 + e * 64 + d" "\<not> is_surrogate (q * 4096 + e * 64 + d)"
  shows "utf8_step (byte (0xE0 + q) # byte (0x80 + e) # byte (0x80 + d) # r)
    = Some (q * 4096 + e * 64 + d, r)"
  using assms by (simp add: is_cont_def utf8_step_def Let_def add.assoc)

lemma utf8_step4:
  assumes "0 \<le> q" "q < 5" "0 \<le> f" "f < 64" "0 \<le> e" "e < 64" "0 \<le> d" "d < 64"
    and "0x10000 \<le> q * 262144 + f * 4096 + e * 64 + d"
    and "q * 262144 + f * 4096 + e * 64 + d < 0x110000"
  shows "utf8_step (byte (0xF0 + q) # byte (0x80 + f) # byte (0x80 + e) # byte (0x80 + d) # r)
    = Some (q * 262144 + f * 4096 + e * 64 + d, r)"
  using assms by (simp add: is_cont_def utf8_step_def Let_def add.assoc)

lemma utf8_step_char:
  assumes "is_scalar c"
  shows "utf8_step (utf8_char c @ r) = Some (c, r)"
proof -
  have c: "0 \<le> c" "c < 0x110000" "\<not> is_surrogate c"
    using assms by (auto simp: is_scalar_def)
  note d = base64_digits[of c] and b = base64_bounds[of c]
  consider "c < 0x80" | "0x80 \<le> c" "c < 0x800" | "0x800 \<le> c" "c < 0x10000" | "0x10000 \<le> c"
    by linarith
  then show ?thesis
  proof cases
    case 1
    then show ?thesis using c by (simp add: utf8_step_def utf8_char_def)
  next
    case 2
    then have q: "2 \<le> c div 64" "c div 64 < 32" using d b by linarith+
    from utf8_step2[OF q b(1,2), of r] 2 show ?thesis
      by (simp add: utf8_char_def)
  next
    case 3
    then have q: "0 \<le> c div 4096" "c div 4096 < 16" using d b by linarith+
    have s: "c div 4096 * 4096 + c div 64 mod 64 * 64 + c mod 64 = c"
      using d by linarith
    have "utf8_step (byte (0xE0 + c div 4096) # byte (0x80 + c div 64 mod 64)
        # byte (0x80 + c mod 64) # r) = Some (c, r)"
      using utf8_step3[OF q b(3,4) b(1,2), of r] 3(1) c(3) unfolding s by blast
    then show ?thesis using 3 by (simp add: utf8_char_def)
  next
    case 4
    then have q: "0 \<le> c div 262144" "c div 262144 < 5" using d b c by linarith+
    have s: "c div 262144 * 262144 + c div 4096 mod 64 * 4096 + c div 64 mod 64 * 64
        + c mod 64 = c"
      using d by linarith
    have "utf8_step (byte (0xF0 + c div 262144) # byte (0x80 + c div 4096 mod 64)
        # byte (0x80 + c div 64 mod 64) # byte (0x80 + c mod 64) # r) = Some (c, r)"
      using utf8_step4[OF q b(5,6) b(3,4) b(1,2), of r] 4 c(2) unfolding s by blast
    then show ?thesis using 4 by (simp add: utf8_char_def)
  qed
qed

lemma utf8_decode_append:
  "valid_str s \<Longrightarrow> utf8_decode (utf8_encode s @ r) = map_option ((@) s) (utf8_decode r)"
proof (induction s)
  case Nil
  then show ?case by (simp add: utf8_encode_def map_option.id[unfolded id_def])
next
  case (Cons c s)
  then have "is_scalar c" and s: "valid_str s" by (auto simp: valid_str_def)
  then show ?case
    using Cons.IH[OF s]
    by (simp add: utf8_encode_def utf8_decode.simps[of "utf8_char c @ _"] utf8_step_char
        option.map_comp comp_def)
qed

lemma utf8_decode_encode: "valid_str s \<Longrightarrow> utf8_decode (utf8_encode s) = Some s"
  using utf8_decode_append[of s "[]"] by (simp add: utf8_decode.simps)

lemma utf8_char3:
  "0x800 \<le> c \<Longrightarrow> c < 0x10000 \<Longrightarrow>
   utf8_char c = [byte (0xE0 + c div 4096), byte (0x80 + c div 64 mod 64), byte (0x80 + c mod 64)]"
  by (simp add: utf8_char_def)

lemma utf8_char4:
  "0x10000 \<le> c \<Longrightarrow>
   utf8_char c = [byte (0xF0 + c div 262144), byte (0x80 + c div 4096 mod 64),
     byte (0x80 + c div 64 mod 64), byte (0x80 + c mod 64)]"
  by (simp add: utf8_char_def)

lemma utf8_step_sound:
  assumes "utf8_step bs = Some (c, r)"
  shows "is_scalar c \<and> bs = utf8_char c @ r"
proof -
  obtain b0 bs' where bs: "bs = b0 # bs'"
    using assms by (cases bs) (auto simp: utf8_step_def)
  have b0: "0 \<le> uint b0" by simp
  consider "uint b0 < 0x80" | "0xC2 \<le> uint b0" "uint b0 < 0xE0"
    | "0xE0 \<le> uint b0" "uint b0 < 0xF0" | "0xF0 \<le> uint b0" "uint b0 < 0xF5"
    using assms by (fastforce simp: bs utf8_step_def split: if_splits)
  then show ?thesis
  proof cases
    case 1
    then show ?thesis
      using assms
      by (auto simp: bs utf8_step_def is_scalar_def is_surrogate_def utf8_char_def byte_uint)
  next
    case 2
    then obtain b1 where r: "bs' = b1 # r" and h: "is_cont b1"
      and c: "c = (uint b0 - 0xC0) * 64 + (uint b1 - 0x80)"
      using assms by (auto simp: bs utf8_step_def split: if_splits list.splits)
    have d: "0 \<le> uint b1 - 0x80" "uint b1 - 0x80 < 64" using h by (simp_all add: is_cont_def)
    have "c div 64 = uint b0 - 0xC0" "c mod 64 = uint b1 - 0x80"
      unfolding c by (rule base64_unique[OF d])+
    moreover have "0x80 \<le> c" "c < 0x800" using c 2 h by (simp_all add: is_cont_def)
    ultimately show ?thesis
      by (simp add: bs r utf8_char_def is_scalar_def is_surrogate_def byte_uint)
  next
    case 3
    then obtain b1 b2 where r: "bs' = b1 # b2 # r" and h: "is_cont b1" "is_cont b2"
      and c: "c = (uint b0 - 0xE0) * 4096 + (uint b1 - 0x80) * 64 + (uint b2 - 0x80)"
        "0x800 \<le> c" "\<not> is_surrogate c"
      using assms by (auto simp: bs utf8_step_def Let_def split: if_splits list.splits)
    have d: "0 \<le> uint b - 0x80" "uint b - 0x80 < 64" if "is_cont b" for b
      using that by (simp_all add: is_cont_def)
    have q: "c mod 64 = uint b2 - 0x80" "c div 64 mod 64 = uint b1 - 0x80"
      "c div 4096 = uint b0 - 0xE0"
      using base64_unique3[OF c(1) d[OF h(2)] d[OF h(1)]] by auto
    have lt: "c < 0x10000" using c(1) 3 h by (simp add: is_cont_def)
    have "utf8_char c = [b0, b1, b2]"
      unfolding utf8_char3[OF c(2) lt] q by (simp add: byte_uint)
    then show ?thesis
      using c(2,3) lt by (simp add: bs r is_scalar_def)
  next
    case 4
    then obtain b1 b2 b3 where r: "bs' = b1 # b2 # b3 # r"
      and h: "is_cont b1" "is_cont b2" "is_cont b3"
      and c: "c = (uint b0 - 0xF0) * 262144 + (uint b1 - 0x80) * 4096
               + (uint b2 - 0x80) * 64 + (uint b3 - 0x80)"
        "0x10000 \<le> c" "c < 0x110000"
      using assms by (auto simp: bs utf8_step_def Let_def split: if_splits list.splits)
    have d: "0 \<le> uint b - 0x80" "uint b - 0x80 < 64" if "is_cont b" for b
      using that by (simp_all add: is_cont_def)
    have q: "c mod 64 = uint b3 - 0x80" "c div 64 mod 64 = uint b2 - 0x80"
      "c div 4096 mod 64 = uint b1 - 0x80" "c div 262144 = uint b0 - 0xF0"
      using base64_unique4[OF c(1) d[OF h(3)] d[OF h(2)] d[OF h(1)]] by auto
    have "utf8_char c = [b0, b1, b2, b3]"
      unfolding utf8_char4[OF c(2)] q by (simp add: byte_uint)
    then show ?thesis
      using c(2,3) by (simp add: bs r is_scalar_def is_surrogate_def)
  qed
qed

lemma utf8_decode_sound: "utf8_decode bs = Some s \<Longrightarrow> valid_str s \<and> utf8_encode s = bs"
proof (induction bs arbitrary: s rule: utf8_decode.induct)
  case (1 bs)
  show ?case
  proof (cases "bs = []")
    case True
    with "1.prems" show ?thesis
      by (simp add: utf8_decode.simps valid_str_def utf8_encode_def)
  next
    case False
    with "1.prems" obtain c r s' where st: "utf8_step bs = Some (c, r)"
      and s: "s = c # s'" and s': "utf8_decode r = Some s'"
      by (auto simp: utf8_decode.simps[of bs] split: option.splits)
    have "valid_str s' \<and> utf8_encode s' = r"
      using "1.IH"[OF False st refl s'] .
    with utf8_step_sound[OF st] s show ?thesis
      by (simp add: valid_str_def utf8_encode_def)
  qed
qed

lemma utf8_encode_empty [simp]: "utf8_encode s = [] \<longleftrightarrow> s = []"
  by (auto simp: utf8_encode_def)

lemma utf8_encode_inj: "valid_str s \<Longrightarrow> valid_str t \<Longrightarrow> utf8_encode s = utf8_encode t \<Longrightarrow> s = t"
  by (metis option.inject utf8_decode_encode)

subsection \<open>Trimming, splitting, comparing\<close>

text \<open>\<^verbatim>\<open>char::is_whitespace\<close>: the Unicode White\_Space property.\<close>

definition is_whitespace :: "rchar \<Rightarrow> bool" where
  "is_whitespace c \<longleftrightarrow> 9 \<le> c \<and> c \<le> 13 \<or> c = 0x20 \<or> c = 0x85 \<or> c = 0xA0 \<or> c = 0x1680
     \<or> 0x2000 \<le> c \<and> c \<le> 0x200A \<or> c = 0x2028 \<or> c = 0x2029 \<or> c = 0x202F \<or> c = 0x205F
     \<or> c = 0x3000"

definition trim_start :: "rstr \<Rightarrow> rstr" where
  "trim_start s = dropWhile is_whitespace s"

definition trim :: "rstr \<Rightarrow> rstr" where
  "trim s = rev (dropWhile is_whitespace (rev (trim_start s)))"

fun split_by :: "(rchar \<Rightarrow> bool) \<Rightarrow> rstr \<Rightarrow> rstr list" where
  "split_by p [] = [[]]"
| "split_by p (c # s) =
     (if p c then [] # split_by p s
      else case split_by p s of [] \<Rightarrow> [[c]] | w # ws \<Rightarrow> (c # w) # ws)"

abbreviation split_on :: "rchar \<Rightarrow> rstr \<Rightarrow> rstr list" where
  "split_on d \<equiv> split_by (\<lambda>c. c = d)"

definition split_whitespace :: "rstr \<Rightarrow> rstr list" where
  "split_whitespace s = filter (\<lambda>w. w \<noteq> []) (split_by is_whitespace s)"

text \<open>\<^verbatim>\<open>split_once\<close>: the text before and after the first separator.\<close>

fun split_once :: "rchar \<Rightarrow> rstr \<Rightarrow> (rstr \<times> rstr) option" where
  "split_once d [] = None"
| "split_once d (c # s) =
     (if c = d then Some ([], s)
      else map_option (\<lambda>(a, b). (c # a, b)) (split_once d s))"

text \<open>\<^verbatim>\<open>lines()\<close>: a final empty line is dropped, and CR is stripped before LF only.\<close>

definition strip_cr :: "rstr \<Rightarrow> rstr" where
  "strip_cr l = (if l \<noteq> [] \<and> last l = 13 then butlast l else l)"

definition str_lines :: "rstr \<Rightarrow> rstr list" where
  "str_lines s =
     (let ps = split_on 10 s
      in map strip_cr (butlast ps) @ (if last ps = [] then [] else [last ps]))"

fun starts_with :: "rstr \<Rightarrow> rstr \<Rightarrow> bool" where
  "starts_with s [] = True"
| "starts_with [] (p # ps) = False"
| "starts_with (c # s) (p # ps) = (c = p \<and> starts_with s ps)"

definition ascii_lower :: "rchar \<Rightarrow> rchar" where
  "ascii_lower c = (if 65 \<le> c \<and> c \<le> 90 then c + 32 else c)"

definition eq_ignore_ascii_case :: "rstr \<Rightarrow> rstr \<Rightarrow> bool" where
  "eq_ignore_ascii_case a b \<longleftrightarrow> map ascii_lower a = map ascii_lower b"

lemma split_by_nonempty [simp]: "split_by p s \<noteq> []"
  by (cases s) (auto split: list.splits)

lemma concat_split_by: "concat (split_by p s) = filter (\<lambda>c. \<not> p c) s"
proof (induction s)
  case (Cons c s)
  then show ?case by (cases "split_by p s") auto
qed simp

lemma split_by_no_sep: "w \<in> set (split_by p s) \<Longrightarrow> c \<in> set w \<Longrightarrow> \<not> p c"
proof (induction s arbitrary: w)
  case (Cons a s)
  then show ?case by (cases "split_by p s") (fastforce split: if_splits)+
qed simp

lemma length_split_by: "length (split_by p s) = Suc (length (filter p s))"
proof (induction s)
  case (Cons c s)
  then show ?case by (cases "split_by p s") auto
qed simp

lemma starts_with_append: "starts_with s p \<longleftrightarrow> (\<exists>r. s = p @ r)"
  by (induction s p rule: starts_with.induct) auto

lemma split_once_Some: "split_once d s = Some (a, b) \<Longrightarrow> s = a @ d # b \<and> d \<notin> set a"
  by (induction s arbitrary: a) (auto split: if_splits)

lemma eq_ignore_ascii_case_refl [simp]: "eq_ignore_ascii_case s s"
  by (simp add: eq_ignore_ascii_case_def)

lemma valid_str_trim: "valid_str s \<Longrightarrow> valid_str (trim s)"
  by (auto simp: valid_str_def trim_def trim_start_def dest!: set_dropWhileD)

subsection \<open>Printing and parsing decimal integers\<close>

function dec_digits :: "int \<Rightarrow> rstr" where
  "dec_digits n = (if n < 10 then [48 + n] else dec_digits (n div 10) @ [48 + n mod 10])"
  by pat_completeness auto
termination
  by (relation "measure nat") auto

declare dec_digits.simps [simp del]

definition show_int :: "int \<Rightarrow> rstr" where
  "show_int k = (if k < 0 then 45 # dec_digits (- k) else dec_digits k)"

fun parse_digits :: "int \<Rightarrow> rstr \<Rightarrow> int option" where
  "parse_digits acc [] = Some acc"
| "parse_digits acc (c # s) =
     (if 48 \<le> c \<and> c \<le> 57 then parse_digits (acc * 10 + (c - 48)) s else None)"

text \<open>
  \<^verbatim>\<open>str::parse\<close> for an integer type with values \<open>lo\<close> to \<open>hi\<close>: an optional plus
  sign, a minus sign for signed types only, at least one digit, and no overflow.
\<close>

definition in_range :: "int \<Rightarrow> int \<Rightarrow> int \<Rightarrow> int option" where
  "in_range lo hi k = (if lo \<le> k \<and> k \<le> hi then Some k else None)"

definition parse_int :: "int \<Rightarrow> int \<Rightarrow> rstr \<Rightarrow> int option" where
  "parse_int lo hi s =
     (case s of
        [] \<Rightarrow> None
      | c # r \<Rightarrow>
          if c = 43 \<or> c = 45 \<and> lo < 0 then
            (if r = [] then None
             else Option.bind (parse_digits 0 r)
                    (\<lambda>k. in_range lo hi (if c = 45 then - k else k)))
          else Option.bind (parse_digits 0 s) (in_range lo hi))"

lemma dec_digits_not_Nil [simp]: "dec_digits n \<noteq> []"
  by (subst dec_digits.simps) simp

lemma dec_digits_range: "0 \<le> n \<Longrightarrow> c \<in> set (dec_digits n) \<Longrightarrow> 48 \<le> c \<and> c \<le> 57"
proof (induction n rule: dec_digits.induct)
  case (1 n)
  show ?case
  proof (cases "n < 10")
    case True
    with 1 show ?thesis by (simp add: dec_digits.simps[of n])
  next
    case False
    have "0 \<le> n mod 10" "n mod 10 < 10" by simp_all
    then show ?thesis using 1 False by (auto simp: dec_digits.simps[of n])
  qed
qed

lemma parse_digits_append:
  "parse_digits acc (s @ [c]) =
     Option.bind (parse_digits acc s) (\<lambda>k. parse_digits k [c])"
  by (induction s arbitrary: acc) auto

lemma parse_dec_digits: "0 \<le> n \<Longrightarrow> parse_digits 0 (dec_digits n) = Some n"
proof (induction n rule: dec_digits.induct)
  case (1 n)
  show ?case
  proof (cases "n < 10")
    case True
    with 1 show ?thesis by (simp add: dec_digits.simps[of n])
  next
    case False
    have "0 \<le> n mod 10" "n mod 10 < 10" by simp_all
    then show ?thesis using 1 False
      by (simp add: dec_digits.simps[of n] parse_digits_append)
  qed
qed

lemma parse_show_int:
  assumes "lo \<le> k" and "k \<le> hi"
  shows "parse_int lo hi (show_int k) = Some k"
proof (cases "k < 0")
  case True
  with assms show ?thesis
    by (simp add: show_int_def parse_int_def parse_dec_digits in_range_def)
next
  case False
  then obtain c r where d: "dec_digits k = c # r" by (cases "dec_digits k") simp_all
  have "48 \<le> c" using dec_digits_range[of k c] False d by simp
  then show ?thesis
    using False assms parse_dec_digits[of k]
    by (simp add: show_int_def parse_int_def d in_range_def)
qed

end
