(* ===== verification/Uleb128.thy ===== *)
theory Uleb128
  imports Prelude
begin

unbundle bit_operations_syntax

text \<open>
  \<^verbatim>\<open>src/protocol/uleb128.rs\<close>: the variable-length integers that carry string
  lengths.  The writer's loop is a recursion on the remaining number; the reader's loop
  carries the accumulated result and the shift, and returns the rest of the slice (the
  cursor it advances).
\<close>

text \<open>
  What reading can end in: a result, an \<^verbatim>\<open>io::Error\<close> with its kind, or a panic, which
  no \<^verbatim>\<open>unwrap_or\<close> of the callers catches.
\<close>

datatype io_kind = UnexpectedEof | InvalidData

datatype 'a io_res = ROk 'a | RErr io_kind | RPanic

subsection \<open>Writing\<close>

function write_uleb128 :: "u64 \<Rightarrow> u8 list" where
  "write_uleb128 v =
     (let low = (ucast (v AND 0x7F) :: u8);
          rest = drop_bit 7 v
      in if rest = 0 then [low] else (low OR 0x80) # write_uleb128 rest)"
  by pat_completeness auto
termination
proof (relation "measure unat")
  fix v low and rest :: u64
  assume "rest = drop_bit 7 v" "rest \<noteq> 0"
  moreover have "unat (drop_bit 7 v) = unat v div 128"
    unfolding unat_drop_bit_eq by (simp add: drop_bit_eq_div)
  ultimately show "(rest, v) \<in> measure unat"
    using div_less_dividend[of 128 "unat v"] by (cases "v = 0") (auto simp: unat_gt_0)
qed simp

declare write_uleb128.simps [simp del]

subsection \<open>Reading\<close>

fun read_uleb128_loop :: "u64 \<Rightarrow> nat \<Rightarrow> u8 list \<Rightarrow> (u64 \<times> u8 list) io_res" where
  "read_uleb128_loop result shift [] = RErr UnexpectedEof"
| "read_uleb128_loop result shift (b # cursor) =
     (let result' = result OR push_bit shift (ucast (b AND 0x7F))
      in if b AND 0x80 = 0 then ROk (result', cursor)
         else if shift + 7 \<ge> 64 then RErr InvalidData
         else read_uleb128_loop result' (shift + 7) cursor)"

definition read_uleb128 :: "u8 list \<Rightarrow> (u64 \<times> u8 list) io_res" where
  "read_uleb128 cursor = read_uleb128_loop 0 0 cursor"

subsection \<open>Round trip, bounds and rejection\<close>

lemma mask7: "(0x7F :: 'a::len word) = mask 7"
  by (simp add: mask_eq_decr_exp)

lemma bit_0x80: "bit (0x80 :: int) n \<longleftrightarrow> n = 7"
  using bit_exp_iff[of 7 n, where 'a = int] by auto

lemma uleb_low_byte:
  "ucast ((ucast (v AND 0x7F) :: u8) AND 0x7F) = (v AND 0x7F :: u64)"
  "ucast (((ucast (v AND 0x7F) :: u8) OR 0x80) AND 0x7F) = (v AND 0x7F :: u64)"
  "(ucast (v AND 0x7F) :: u8) AND 0x80 = 0"
  "((ucast (v AND 0x7F) :: u8) OR 0x80) AND 0x80 = 0x80"
  unfolding mask7
  by (rule bit_word_eqI; auto simp: bit_simps bit_0x80)+

lemma uleb_split: "push_bit s (v AND 0x7F) OR push_bit (s + 7) (drop_bit 7 v) = push_bit s (v :: u64)"
  unfolding mask7
proof (rule bit_word_eqI)
  fix n
  have "7 + (n - (s + 7)) = n - s" if "s + 7 \<le> n" using that by simp
  then show "bit (push_bit s (v AND mask 7) OR push_bit (s + 7) (drop_bit 7 v)) n
      = bit (push_bit s v) n"
    by (cases "s + 7 \<le> n") (auto simp: bit_simps)
qed

lemma unat_drop7: "unat (drop_bit 7 (v :: u64)) = unat v div 128"
  unfolding unat_drop_bit_eq by (simp add: drop_bit_eq_div)

lemma read_write_loop:
  "drop_bit (64 - s) v = 0 \<Longrightarrow> s < 64 \<Longrightarrow>
   read_uleb128_loop r s (write_uleb128 v @ rest) = ROk (r OR push_bit s v, rest)"
proof (induction v arbitrary: r s rule: write_uleb128.induct)
  case (1 v)
  show ?case
  proof (cases "drop_bit 7 v = 0")
    case True
    then have "push_bit s (v AND 0x7F) = push_bit s v"
      using uleb_split[of s v] by simp
    with True show ?thesis
      by (subst write_uleb128.simps) (simp add: Let_def uleb_low_byte)
  next
    case False
    have s7: "s + 7 < 64"
    proof (rule ccontr)
      assume "\<not> s + 7 < 64"
      then have "drop_bit 7 v = drop_bit (7 - (64 - s)) (drop_bit (64 - s) v)"
        by (simp add: drop_bit_drop_bit)
      with False "1.prems"(1) show False by simp
    qed
    then have "drop_bit (64 - (s + 7)) (drop_bit 7 v) = drop_bit (64 - s) v"
      by (simp add: drop_bit_drop_bit)
    with "1.IH"[OF refl refl False] "1.prems"(1) s7
    have "read_uleb128_loop r' (s + 7) (write_uleb128 (drop_bit 7 v) @ rest)
        = ROk (r' OR push_bit (s + 7) (drop_bit 7 v), rest)" for r'
      by simp
    note IH = this
    have w: "write_uleb128 v = (ucast (v AND 0x7F) OR 0x80) # write_uleb128 (drop_bit 7 v)"
      using False by (subst write_uleb128.simps) (simp only: Let_def if_False)
    have "read_uleb128_loop r s (write_uleb128 v @ rest)
        = read_uleb128_loop (r OR push_bit s (v AND 0x7F)) (s + 7)
            (write_uleb128 (drop_bit 7 v) @ rest)"
      using s7 unfolding w append_Cons read_uleb128_loop.simps Let_def uleb_low_byte by simp
    also have "\<dots> = ROk (r OR push_bit s v, rest)"
      unfolding IH or.assoc uleb_split ..
    finally show ?thesis .
  qed
qed

lemma read_write_uleb128: "read_uleb128 (write_uleb128 v @ rest) = ROk (v, rest)"
proof -
  have "drop_bit 64 v = 0" by (rule bit_word_eqI) (simp add: bit_simps)
  from read_write_loop[of 0 v 0 rest] this show ?thesis by (simp add: read_uleb128_def)
qed

lemma write_uleb128_length_le: "unat v < 2 ^ (7 * Suc n) \<Longrightarrow> length (write_uleb128 v) \<le> Suc n"
proof (induction n arbitrary: v)
  case 0
  then have "drop_bit 7 v = 0"
    by (simp only: word_unat_eq_iff unat_drop7) simp
  then show ?case by (subst write_uleb128.simps) (simp add: Let_def)
next
  case (Suc n)
  have "unat (drop_bit 7 v) < 2 ^ (7 * Suc n)"
    using Suc.prems unfolding unat_drop7
    by (simp add: less_mult_imp_div_less power_add)
  with Suc.IH have "length (write_uleb128 (drop_bit 7 v)) \<le> Suc n" by blast
  then show ?case by (subst write_uleb128.simps) (simp add: Let_def)
qed

lemma write_uleb128_length: "1 \<le> length (write_uleb128 v) \<and> length (write_uleb128 v) \<le> 10"
proof
  show "1 \<le> length (write_uleb128 v)"
    by (subst write_uleb128.simps) (simp add: Let_def)
  have "unat v < 2 ^ 64" using unsigned_less[of v] by simp
  then have "unat v < 2 ^ (7 * Suc 9)" by simp
  then show "length (write_uleb128 v) \<le> 10"
    using write_uleb128_length_le[of v 9] by simp
qed

lemma read_loop_consumes:
  "read_uleb128_loop r s bs = ROk (v, rest) \<Longrightarrow> s < 64 \<Longrightarrow>
   \<exists>pre. bs = pre @ rest \<and> pre \<noteq> [] \<and> s + 7 * (length pre - 1) < 64"
proof (induction r s bs rule: read_uleb128_loop.induct)
  case (2 r s b cursor)
  show ?case
  proof (cases "b AND 0x80 = 0")
    case True
    with "2.prems" show ?thesis by (intro exI[of _ "[b]"]) (simp add: Let_def)
  next
    case False
    with "2.prems" have s: "s + 7 < 64" by (auto simp: Let_def split: if_splits)
    with False "2.prems" have "read_uleb128_loop (r OR push_bit s (ucast (b AND 0x7F))) (s + 7) cursor
        = ROk (v, rest)" by (simp add: Let_def)
    from "2.IH"[OF refl False _ this s] s
    obtain pre where "cursor = pre @ rest" "pre \<noteq> []" "s + 7 + 7 * (length pre - 1) < 64"
      by auto
    then show ?thesis by (intro exI[of _ "b # pre"]) (cases pre; simp)
  qed
qed simp

lemma read_uleb128_consumes:
  "read_uleb128 bs = ROk (v, rest) \<Longrightarrow>
   \<exists>pre. bs = pre @ rest \<and> 1 \<le> length pre \<and> length pre \<le> 10"
  using read_loop_consumes[of 0 0 bs v rest]
  by (fastforce simp: read_uleb128_def Suc_le_eq)

lemma read_uleb128_no_panic [simp]: "read_uleb128 bs \<noteq> RPanic"
proof -
  have "read_uleb128_loop r s bs \<noteq> RPanic" for r s
    by (induction r s bs rule: read_uleb128_loop.induct) (auto simp: Let_def)
  then show ?thesis by (simp add: read_uleb128_def)
qed

end
