(* ===== verification/Wire.thy ===== *)
theory Wire
  imports Rust_Strings Uleb128
begin

text \<open>
  \<^verbatim>\<open>src/protocol/writer.rs\<close> and \<^verbatim>\<open>src/protocol/reader.rs\<close>: the byte layer of the
  Bancho protocol.  A \<^verbatim>\<open>write_*\<close> method appends to the writer's buffer; its model is the
  bytes it appends, so a sequence of writes is a concatenation in the same order.  A
  \<^verbatim>\<open>read_*\<close> method advances a cursor; its model returns the unread rest beside the
  result, on errors too, because callers that ignore an error go on reading.  A failed
  \<^verbatim>\<open>read_exact\<close> leaves the cursor at the end of the input.  \<^verbatim>\<open>usize\<close> is 64 bits wide.

  The locale \<open>codec\<close> is the contract between the two files: what is written is read
  back, with the rest of the input untouched.
\<close>

type_synonym 'a rd = "u8 list \<Rightarrow> 'a io_res \<times> u8 list"

definition rd_return :: "'a \<Rightarrow> 'a rd" where
  "rd_return a = (\<lambda>bs. (ROk a, bs))"

text \<open>The question mark operator: stop at the first error or panic.\<close>

definition rd_bind :: "'a rd \<Rightarrow> ('a \<Rightarrow> 'b rd) \<Rightarrow> 'b rd" where
  "rd_bind m f = (\<lambda>bs. case m bs of
     (ROk a, rest) \<Rightarrow> f a rest
   | (RErr k, rest) \<Rightarrow> (RErr k, rest)
   | (RPanic, rest) \<Rightarrow> (RPanic, rest))"

definition rd_map :: "('a \<Rightarrow> 'b) \<Rightarrow> 'a rd \<Rightarrow> 'b rd" where
  "rd_map f m = rd_bind m (\<lambda>a. rd_return (f a))"

definition remaining :: "u8 list \<Rightarrow> nat" where
  "remaining bs = length bs"

definition read_exact :: "nat \<Rightarrow> u8 list rd" where
  "read_exact n bs =
     (if n \<le> length bs then (ROk (take n bs), drop n bs) else (RErr UnexpectedEof, []))"

subsection \<open>Little-endian integers\<close>

fun le_bytes :: "nat \<Rightarrow> 'a::len word \<Rightarrow> u8 list" where
  "le_bytes 0 w = []"
| "le_bytes (Suc n) w = ucast w # le_bytes n (drop_bit 8 w)"

fun of_le :: "u8 list \<Rightarrow> 'a::len word" where
  "of_le [] = 0"
| "of_le (b # bs) = ucast b OR push_bit 8 (of_le bs)"

lemma length_le_bytes [simp]: "length (le_bytes n w) = n"
  by (induction n arbitrary: w) auto

lemma of_le_le_bytes_take: "of_le (le_bytes n w) = take_bit (8 * n) (w :: 'a::len word)"
proof (induction n arbitrary: w)
  case (Suc n)
  have "ucast (ucast w :: u8) OR push_bit 8 (take_bit (8 * n) (drop_bit 8 w))
      = take_bit (8 * Suc n) w"
    by (rule bit_word_eqI) (auto simp: bit_simps)
  with Suc show ?case by simp
qed simp

lemma of_le_le_bytes [simp]: "LENGTH('a) \<le> 8 * n \<Longrightarrow> of_le (le_bytes n w) = (w :: 'a::len word)"
  by (simp add: of_le_le_bytes_take take_bit_word_eq_self)

subsection \<open>Writers\<close>

definition write_u8 :: "u8 \<Rightarrow> u8 list" where "write_u8 v = [v]"
definition write_bool :: "bool \<Rightarrow> u8 list" where "write_bool v = [if v then 1 else 0]"
definition write_u16 :: "u16 \<Rightarrow> u8 list" where "write_u16 v = le_bytes 2 v"
definition write_i16 :: "i16 \<Rightarrow> u8 list" where "write_i16 v = le_bytes 2 v"
definition write_u32 :: "u32 \<Rightarrow> u8 list" where "write_u32 v = le_bytes 4 v"
definition write_i32 :: "i32 \<Rightarrow> u8 list" where "write_i32 v = le_bytes 4 v"
definition write_u64 :: "u64 \<Rightarrow> u8 list" where "write_u64 v = le_bytes 8 v"
definition write_i64 :: "i64 \<Rightarrow> u8 list" where "write_i64 v = le_bytes 8 v"

text \<open>Floating-point values travel as their IEEE bit patterns.\<close>

definition write_f32 :: "32 word \<Rightarrow> u8 list" where "write_f32 bits = le_bytes 4 bits"
definition write_f64 :: "64 word \<Rightarrow> u8 list" where "write_f64 bits = le_bytes 8 bits"

definition write_osu_string :: "rstr \<Rightarrow> u8 list" where
  "write_osu_string s =
     (if s = [] then [0x00]
      else 0x0B # write_uleb128 (of_nat (length (utf8_encode s))) @ utf8_encode s)"

text \<open>A packet: id, an unused compression flag, the payload length as \<^verbatim>\<open>u32\<close>, the payload.\<close>

definition build_packet :: "u16 \<Rightarrow> u8 list \<Rightarrow> u8 list" where
  "build_packet packet_id payload =
     write_u16 packet_id @ [0] @ write_u32 (of_nat (length payload)) @ payload"

subsection \<open>Readers\<close>

definition read_u8 :: "u8 rd" where "read_u8 = rd_map hd (read_exact 1)"
definition read_bool :: "bool rd" where "read_bool = rd_map (\<lambda>b. b \<noteq> 0) read_u8"
definition read_u16 :: "u16 rd" where "read_u16 = rd_map of_le (read_exact 2)"
definition read_i16 :: "i16 rd" where "read_i16 = rd_map of_le (read_exact 2)"
definition read_u32 :: "u32 rd" where "read_u32 = rd_map of_le (read_exact 4)"
definition read_i32 :: "i32 rd" where "read_i32 = rd_map of_le (read_exact 4)"
definition read_u64 :: "u64 rd" where "read_u64 = rd_map of_le (read_exact 8)"
definition read_i64 :: "i64 rd" where "read_i64 = rd_map of_le (read_exact 8)"
definition read_f32 :: "32 word rd" where "read_f32 = rd_map of_le (read_exact 4)"
definition read_f64 :: "64 word rd" where "read_f64 = rd_map of_le (read_exact 8)"

definition read_bytes :: "nat \<Rightarrow> u8 list rd" where
  "read_bytes len = read_exact len"

text \<open>\<^verbatim>\<open>isize::MAX\<close>, the limit above which \<^verbatim>\<open>vec![0u8; len]\<close> panics.\<close>

definition isize_max :: nat where
  "isize_max = 2 ^ 63 - 1"

definition read_osu_string :: "rstr rd" where
  "read_osu_string bs =
     (case bs of
        [] \<Rightarrow> (RErr UnexpectedEof, [])
      | indicator # rest \<Rightarrow>
          if indicator = 0x00 then (ROk [], rest)
          else if indicator \<noteq> 0x0B then (RErr InvalidData, rest)
          else
            (case read_uleb128 rest of
               RErr k \<Rightarrow> (RErr k, rest)
             | RPanic \<Rightarrow> (RPanic, rest)
             | ROk (len, rest') \<Rightarrow>
                 if isize_max < unat len then (RPanic, rest')
                 else
                   (case read_exact (unat len) rest' of
                      (ROk str_bytes, rest'') \<Rightarrow>
                        (case utf8_decode str_bytes of
                           None \<Rightarrow> (RErr InvalidData, rest'')
                         | Some s \<Rightarrow> (ROk s, rest''))
                    | (RErr k, rest'') \<Rightarrow> (RErr k, rest'')
                    | (RPanic, rest'') \<Rightarrow> (RPanic, rest''))))"

text \<open>A header needs seven bytes; with fewer there is no header and nothing is read.\<close>

definition read_packet_header :: "(u16 \<times> nat) option rd" where
  "read_packet_header bs =
     (if remaining bs < 7 then (ROk None, bs)
      else rd_bind read_u16 (\<lambda>packet_id.
           rd_bind read_u8 (\<lambda>compression.
           rd_bind read_u32 (\<lambda>len.
           rd_return (Some (packet_id, unat len))))) bs)"

subsection \<open>The codec contract\<close>

locale codec =
  fixes enc :: "'a \<Rightarrow> u8 list"
    and dec :: "'a rd"
    and ok :: "'a \<Rightarrow> bool"
  assumes dec_enc: "ok a \<Longrightarrow> dec (enc a @ rest) = (ROk a, rest)"
begin

lemma bind_enc: "ok a \<Longrightarrow> rd_bind dec f (enc a @ rest) = f a rest"
  by (simp add: rd_bind_def dec_enc)

lemma dec_enc_all: "ok a \<Longrightarrow> dec (enc a) = (ROk a, [])"
  using dec_enc[of a "[]"] by (simp only: append_Nil2)

lemma prefix_free:
  assumes "ok a" and "ok b" and "enc a @ r = enc b @ s"
  shows "a = b \<and> r = s"
  using dec_enc[OF assms(1), of r] dec_enc[OF assms(2), of s] unfolding assms(3) by simp

lemma enc_inj: "ok a \<Longrightarrow> ok b \<Longrightarrow> enc a = enc b \<Longrightarrow> a = b"
  using prefix_free[of a b "[]" "[]"] by simp

end

text \<open>Fixed-width codecs also fail cleanly on short input.\<close>

locale codec_fixed = codec enc dec ok
  for enc :: "'a \<Rightarrow> u8 list" and dec :: "'a rd" and ok :: "'a \<Rightarrow> bool" +
  fixes width :: nat
  assumes enc_width: "length (enc a) = width"
    and dec_short: "length bs < width \<Longrightarrow> dec bs = (RErr UnexpectedEof, [])"
begin

lemma length_concat: "length (concat (map enc as)) = width * length as"
  by (induction as) (simp_all add: enc_width)

lemma bind_short: "length bs < width \<Longrightarrow> rd_bind dec f bs = (RErr UnexpectedEof, [])"
  by (simp add: rd_bind_def dec_short)

end

lemma read_exact_append [simp]: "length xs = n \<Longrightarrow> read_exact n (xs @ rest) = (ROk xs, rest)"
  by (auto simp: read_exact_def)

lemma rd_map_le:
  assumes "LENGTH('a::len) \<le> 8 * n"
  shows "rd_map of_le (read_exact n) (le_bytes n (w :: 'a word) @ rest) = (ROk w, rest)"
  by (simp add: rd_map_def rd_bind_def rd_return_def assms)

lemma rd_map_short: "length bs < n \<Longrightarrow> rd_map f (read_exact n) bs = (RErr UnexpectedEof, [])"
  by (simp add: rd_map_def rd_bind_def read_exact_def)

lemmas wire_defs =
  write_u8_def write_bool_def write_u16_def write_i16_def write_u32_def write_i32_def
  write_u64_def write_i64_def write_f32_def write_f64_def
  read_u8_def read_bool_def read_u16_def read_i16_def read_u32_def read_i32_def
  read_u64_def read_i64_def read_f32_def read_f64_def

interpretation u8c: codec_fixed write_u8 read_u8 "\<lambda>_. True" 1
  by unfold_locales
    (auto simp: wire_defs rd_map_short, simp add: rd_map_def rd_bind_def rd_return_def read_exact_def)

interpretation boolc: codec_fixed write_bool read_bool "\<lambda>_. True" 1
  by unfold_locales
    (simp_all add: read_bool_def write_bool_def rd_map_def rd_bind_def rd_return_def read_u8_def
      read_exact_def)

interpretation u16c: codec_fixed write_u16 read_u16 "\<lambda>_. True" 2
  by unfold_locales (simp_all add: wire_defs rd_map_le rd_map_short)

interpretation i16c: codec_fixed write_i16 read_i16 "\<lambda>_. True" 2
  by unfold_locales (simp_all add: wire_defs rd_map_le rd_map_short)

interpretation u32c: codec_fixed write_u32 read_u32 "\<lambda>_. True" 4
  by unfold_locales (simp_all add: wire_defs rd_map_le rd_map_short)

interpretation i32c: codec_fixed write_i32 read_i32 "\<lambda>_. True" 4
  by unfold_locales (simp_all add: wire_defs rd_map_le rd_map_short)

interpretation u64c: codec_fixed write_u64 read_u64 "\<lambda>_. True" 8
  by unfold_locales (simp_all add: wire_defs rd_map_le rd_map_short)

interpretation i64c: codec_fixed write_i64 read_i64 "\<lambda>_. True" 8
  by unfold_locales (simp_all add: wire_defs rd_map_le rd_map_short)

interpretation f32c: codec_fixed write_f32 read_f32 "\<lambda>_. True" 4
  by unfold_locales (simp_all add: wire_defs rd_map_le rd_map_short)

interpretation f64c: codec_fixed write_f64 read_f64 "\<lambda>_. True" 8
  by unfold_locales (simp_all add: wire_defs rd_map_le rd_map_short)

text \<open>Strings: any valid text short enough for an allocation.\<close>

definition sendable :: "rstr \<Rightarrow> bool" where
  "sendable s \<longleftrightarrow> valid_str s \<and> length (utf8_encode s) \<le> isize_max"

lemma sendable_Nil [simp]: "sendable []"
  by (simp add: sendable_def valid_str_def utf8_encode_def)

lemma sendable_blank: "sendable [32]"
  by (simp add: sendable_def valid_str_def utf8_encode_def utf8_char_def is_scalar_def is_surrogate_def
      isize_max_def)

lemma read_write_osu_string:
  assumes "sendable s"
  shows "read_osu_string (write_osu_string s @ rest) = (ROk s, rest)"
proof (cases "s = []")
  case True
  then show ?thesis by (simp add: write_osu_string_def read_osu_string_def)
next
  case False
  have len: "unat (of_nat (length (utf8_encode s)) :: u64) = length (utf8_encode s)"
    using assms by (simp add: sendable_def isize_max_def unat_of_nat_small)
  show ?thesis
    using assms False
    by (simp add: write_osu_string_def read_osu_string_def read_write_uleb128 len sendable_def
        utf8_decode_encode)
qed

interpretation strc: codec write_osu_string read_osu_string sendable
  by unfold_locales (rule read_write_osu_string)

lemmas codec_binds =
  u8c.bind_enc boolc.bind_enc u16c.bind_enc i16c.bind_enc u32c.bind_enc i32c.bind_enc
  u64c.bind_enc i64c.bind_enc f32c.bind_enc f64c.bind_enc strc.bind_enc

lemma bind_read_u8_Cons: "rd_bind read_u8 f (b # bs) = f b bs"
  by (simp add: rd_bind_def rd_map_def rd_return_def read_u8_def read_exact_def)

lemmas codec_widths =
  u8c.enc_width boolc.enc_width u16c.enc_width i16c.enc_width u32c.enc_width i32c.enc_width
  u64c.enc_width i64c.enc_width f32c.enc_width f64c.enc_width

text \<open>A packet is read back as its header followed by its payload.\<close>

lemma length_build_packet: "length (build_packet packet_id payload) = 7 + length payload"
  by (simp add: build_packet_def codec_widths)

lemma read_built_header:
  assumes "length payload < 2 ^ 32"
  shows "read_packet_header (build_packet packet_id payload @ rest)
    = (ROk (Some (packet_id, length payload)), payload @ rest)"
proof -
  have "unat (of_nat (length payload) :: u32) = length payload"
    using assms by (simp add: unat_of_nat_small)
  then show ?thesis
    by (simp add: read_packet_header_def remaining_def build_packet_def codec_widths codec_binds
        bind_read_u8_Cons rd_return_def)
qed

end
