(* ===== verification/Floats.thy ===== *)
theory Floats
  imports Prelude Complex_Main
begin

text \<open>
  The IEEE 754 arithmetic behind Rust's \<^verbatim>\<open>f32\<close> and \<^verbatim>\<open>f64\<close>: a value is a NaN, a
  signed infinity, a signed zero or a nonzero rational, and an operation is the exact
  rational result rounded to nearest, ties to even, with gradual underflow and overflow
  to infinity.  NaN payloads are not kept.  Everything evaluates.
\<close>

datatype fp = NaN | Inf bool | Zero bool | Fin rat

text \<open>A format: precision, exponent of the smallest subnormal, and exponent width.\<close>

record fp_format =
  prec :: nat
  emin :: int
  ebits :: nat

definition f32 :: fp_format where
  "f32 = \<lparr>prec = 24, emin = - 149, ebits = 8\<rparr>"

definition f64 :: fp_format where
  "f64 = \<lparr>prec = 53, emin = - 1074, ebits = 11\<rparr>"

definition max_finite :: "fp_format \<Rightarrow> rat" where
  "max_finite F = (2 ^ prec F - 1) * 2 powi (emin F + 2 ^ ebits F - 3)"

subsection \<open>Rounding\<close>

function int_log2 :: "int \<Rightarrow> int" where
  "int_log2 n = (if n \<le> 1 then 0 else 1 + int_log2 (n div 2))"
  by pat_completeness auto
termination
  by (relation "measure nat") auto

declare int_log2.simps [simp del]

text \<open>\<open>rat_log2 a\<close> is the exponent \<open>e\<close> with \<open>2^e \<le> a < 2^(e+1)\<close>, for positive \<open>a\<close>.\<close>

definition rat_log2 :: "rat \<Rightarrow> int" where
  "rat_log2 a =
     (let (n, d) = quotient_of a; k = int_log2 n - int_log2 d
      in if 2 powi k \<le> a then k else k - 1)"

definition round_half_even :: "rat \<Rightarrow> int" where
  "round_half_even q =
     (let f = \<lfloor>q\<rfloor>; r = q - of_int f
      in if r < 1 / 2 \<or> r = 1 / 2 \<and> even f then f else f + 1)"

definition ulp :: "fp_format \<Rightarrow> rat \<Rightarrow> rat" where
  "ulp F a = 2 powi max (rat_log2 a - int (prec F) + 1) (emin F)"

definition fp_round :: "fp_format \<Rightarrow> rat \<Rightarrow> fp" where
  "fp_round F r =
     (let a = \<bar>r\<bar>; u = ulp F a; n = round_half_even (a / u); v = of_int n * u
      in if r = 0 then Zero False
         else if n = 0 then Zero (r < 0)
         else if max_finite F < v then Inf (r < 0)
         else Fin (if r < 0 then - v else v))"

subsection \<open>Operations\<close>

definition fp_neg_sign :: "fp \<Rightarrow> bool" where
  "fp_neg_sign x = (case x of NaN \<Rightarrow> False | Inf s \<Rightarrow> s | Zero s \<Rightarrow> s | Fin r \<Rightarrow> r < 0)"

definition fp_of_int :: "fp_format \<Rightarrow> int \<Rightarrow> fp" where
  "fp_of_int F k = fp_round F (of_int k)"

definition fp_cast :: "fp_format \<Rightarrow> fp \<Rightarrow> fp" where
  "fp_cast F x = (case x of Fin r \<Rightarrow> fp_round F r | _ \<Rightarrow> x)"

fun fp_add :: "fp_format \<Rightarrow> fp \<Rightarrow> fp \<Rightarrow> fp" where
  "fp_add F NaN y = NaN"
| "fp_add F x NaN = NaN"
| "fp_add F (Inf s) (Inf t) = (if s = t then Inf s else NaN)"
| "fp_add F (Inf s) y = Inf s"
| "fp_add F x (Inf t) = Inf t"
| "fp_add F (Zero s) (Zero t) = Zero (s \<and> t)"
| "fp_add F (Zero s) (Fin b) = Fin b"
| "fp_add F (Fin a) (Zero t) = Fin a"
| "fp_add F (Fin a) (Fin b) = fp_round F (a + b)"

fun fp_mul :: "fp_format \<Rightarrow> fp \<Rightarrow> fp \<Rightarrow> fp" where
  "fp_mul F NaN y = NaN"
| "fp_mul F x NaN = NaN"
| "fp_mul F (Inf s) (Zero t) = NaN"
| "fp_mul F (Zero s) (Inf t) = NaN"
| "fp_mul F (Fin a) (Fin b) = fp_round F (a * b)"
| "fp_mul F (Inf s) y = Inf (s \<noteq> fp_neg_sign y)"
| "fp_mul F x (Inf t) = Inf (fp_neg_sign x \<noteq> t)"
| "fp_mul F (Zero s) y = Zero (s \<noteq> fp_neg_sign y)"
| "fp_mul F x (Zero t) = Zero (fp_neg_sign x \<noteq> t)"

fun fp_div :: "fp_format \<Rightarrow> fp \<Rightarrow> fp \<Rightarrow> fp" where
  "fp_div F NaN y = NaN"
| "fp_div F x NaN = NaN"
| "fp_div F (Inf s) (Inf t) = NaN"
| "fp_div F (Zero s) (Zero t) = NaN"
| "fp_div F (Inf s) y = Inf (s \<noteq> fp_neg_sign y)"
| "fp_div F x (Inf t) = Zero (fp_neg_sign x \<noteq> t)"
| "fp_div F (Zero s) y = Zero (s \<noteq> fp_neg_sign y)"
| "fp_div F x (Zero t) = Inf (fp_neg_sign x \<noteq> t)"
| "fp_div F (Fin a) (Fin b) = fp_round F (a / b)"

text \<open>Ordering: false on NaN, the two zeros equal.\<close>

definition fp_key :: "fp \<Rightarrow> (int \<times> rat) option" where
  "fp_key x = (case x of NaN \<Rightarrow> None | Inf s \<Rightarrow> Some (if s then - 1 else 1, 0)
     | Zero _ \<Rightarrow> Some (0, 0) | Fin r \<Rightarrow> Some (0, r))"

definition fp_less :: "fp \<Rightarrow> fp \<Rightarrow> bool" where
  "fp_less x y =
     (case (fp_key x, fp_key y) of
        (Some (i, a), Some (j, b)) \<Rightarrow> i < j \<or> i = j \<and> a < b
      | _ \<Rightarrow> False)"

subsection \<open>Bit patterns\<close>

text \<open>
  The encoding of a rounded value: sign, biased exponent (0 for subnormals) and the
  significand below the leading bit.  All NaNs encode as the quiet NaN.
\<close>

definition fp_bits :: "fp_format \<Rightarrow> fp \<Rightarrow> int" where
  "fp_bits F x =
     (let m = int (prec F) - 1; top = 2 ^ ebits F - 1;
          pack = (\<lambda>s e f. (if s then 2 ^ (ebits F + prec F - 1) else 0) + e * 2 ^ (prec F - 1) + f)
      in case x of
           NaN \<Rightarrow> pack False top (2 ^ (prec F - 2))
         | Inf s \<Rightarrow> pack s top 0
         | Zero s \<Rightarrow> pack s 0 0
         | Fin r \<Rightarrow>
             (let a = \<bar>r\<bar>; k = max (rat_log2 a - m) (emin F); n = \<lfloor>a / 2 powi k\<rfloor>
              in if n < 2 ^ (prec F - 1) then pack (r < 0) 0 n
                 else pack (r < 0) (k - emin F + 1) (n - 2 ^ (prec F - 1))))"

definition f32_to_bits :: "fp \<Rightarrow> u32" where
  "f32_to_bits x = word_of_int (fp_bits f32 x)"

subsection \<open>The exponent is the exponent\<close>

lemma int_log2_bounds: "1 \<le> n \<Longrightarrow> 0 \<le> int_log2 n \<and> 2 ^ nat (int_log2 n) \<le> n \<and> n < 2 * 2 ^ nat (int_log2 n)"
proof (induction n rule: int_log2.induct)
  case (1 n)
  show ?case
  proof (cases "n \<le> 1")
    case True
    with 1 have "n = 1" by simp
    then show ?thesis by (simp add: int_log2.simps[of 1])
  next
    case False
    then have "1 \<le> n div 2" by simp
    with 1 False have IH: "0 \<le> int_log2 (n div 2)" "2 ^ nat (int_log2 (n div 2)) \<le> n div 2"
      "n div 2 < 2 * 2 ^ nat (int_log2 (n div 2))" by auto
    then have "nat (1 + int_log2 (n div 2)) = Suc (nat (int_log2 (n div 2)))"
      using Suc_nat_eq_nat_zadd1[OF IH(1)] by simp
    moreover have "2 * (n div 2) \<le> n" "n < 2 * (n div 2) + 2" by presburger+
    ultimately show ?thesis using False IH
      by (simp add: int_log2.simps[of n]; linarith)
  qed
qed

end
