(* ===== verification/Packets.thy ===== *)
theory Packets
  imports Wire Floats
begin

unbundle bit_operations_syntax

text \<open>
  \<^verbatim>\<open>src/protocol/packets.rs\<close> and the part of \<^verbatim>\<open>src/protocol/constants.rs\<close> it and the
  handlers use: the packet payload types, one builder per server packet, the two payload
  parsers, and their round trips.  A floating-point field the server computes with is an
  \<open>fp\<close>; the two ScoreV2 portions, only stored and relayed, are their 64-bit patterns.
\<close>

subsection \<open>Packet identifiers, slot states, teams\<close>

abbreviation CHO_USER_ID :: u16 where "CHO_USER_ID \<equiv> 5"
abbreviation CHO_SEND_MESSAGE :: u16 where "CHO_SEND_MESSAGE \<equiv> 7"
abbreviation CHO_PONG :: u16 where "CHO_PONG \<equiv> 8"
abbreviation CHO_USER_STATS :: u16 where "CHO_USER_STATS \<equiv> 11"
abbreviation CHO_HANDLE_USER_QUIT :: u16 where "CHO_HANDLE_USER_QUIT \<equiv> 12"
abbreviation CHO_SPECTATOR_JOINED :: u16 where "CHO_SPECTATOR_JOINED \<equiv> 13"
abbreviation CHO_SPECTATOR_LEFT :: u16 where "CHO_SPECTATOR_LEFT \<equiv> 14"
abbreviation CHO_SPECTATE_FRAMES :: u16 where "CHO_SPECTATE_FRAMES \<equiv> 15"
abbreviation CHO_SPECTATOR_CANT_SPECTATE :: u16 where "CHO_SPECTATOR_CANT_SPECTATE \<equiv> 22"
abbreviation CHO_NOTIFICATION :: u16 where "CHO_NOTIFICATION \<equiv> 24"
abbreviation CHO_MATCH_UPDATE :: u16 where "CHO_MATCH_UPDATE \<equiv> 26"
abbreviation CHO_MATCH_NEW :: u16 where "CHO_MATCH_NEW \<equiv> 27"
abbreviation CHO_MATCH_DISBAND :: u16 where "CHO_MATCH_DISBAND \<equiv> 28"
abbreviation CHO_MATCH_JOIN_SUCCESS :: u16 where "CHO_MATCH_JOIN_SUCCESS \<equiv> 36"
abbreviation CHO_MATCH_JOIN_FAIL :: u16 where "CHO_MATCH_JOIN_FAIL \<equiv> 37"
abbreviation CHO_FELLOW_SPECTATOR_JOINED :: u16 where "CHO_FELLOW_SPECTATOR_JOINED \<equiv> 42"
abbreviation CHO_FELLOW_SPECTATOR_LEFT :: u16 where "CHO_FELLOW_SPECTATOR_LEFT \<equiv> 43"
abbreviation CHO_MATCH_START :: u16 where "CHO_MATCH_START \<equiv> 46"
abbreviation CHO_MATCH_SCORE_UPDATE :: u16 where "CHO_MATCH_SCORE_UPDATE \<equiv> 48"
abbreviation CHO_MATCH_TRANSFER_HOST :: u16 where "CHO_MATCH_TRANSFER_HOST \<equiv> 50"
abbreviation CHO_MATCH_ALL_PLAYERS_LOADED :: u16 where "CHO_MATCH_ALL_PLAYERS_LOADED \<equiv> 53"
abbreviation CHO_MATCH_PLAYER_FAILED :: u16 where "CHO_MATCH_PLAYER_FAILED \<equiv> 57"
abbreviation CHO_MATCH_COMPLETE :: u16 where "CHO_MATCH_COMPLETE \<equiv> 58"
abbreviation CHO_CHANNEL_JOIN_SUCCESS :: u16 where "CHO_CHANNEL_JOIN_SUCCESS \<equiv> 64"
abbreviation CHO_CHANNEL_INFO :: u16 where "CHO_CHANNEL_INFO \<equiv> 65"
abbreviation CHO_BANCHO_PRIVILEGES :: u16 where "CHO_BANCHO_PRIVILEGES \<equiv> 71"
abbreviation CHO_PROTOCOL_VERSION :: u16 where "CHO_PROTOCOL_VERSION \<equiv> 75"
abbreviation CHO_MATCH_PLAYER_SKIPPED :: u16 where "CHO_MATCH_PLAYER_SKIPPED \<equiv> 81"
abbreviation CHO_USER_PRESENCE :: u16 where "CHO_USER_PRESENCE \<equiv> 83"
abbreviation CHO_RESTART :: u16 where "CHO_RESTART \<equiv> 86"
abbreviation CHO_CHANNEL_INFO_END :: u16 where "CHO_CHANNEL_INFO_END \<equiv> 89"
abbreviation CHO_CHANNEL_PART :: u16 where "CHO_CHANNEL_PART \<equiv> 90"

abbreviation SLOT_OPEN :: u8 where "SLOT_OPEN \<equiv> 1"
abbreviation SLOT_LOCKED :: u8 where "SLOT_LOCKED \<equiv> 2"
abbreviation SLOT_NOT_READY :: u8 where "SLOT_NOT_READY \<equiv> 4"
abbreviation SLOT_READY :: u8 where "SLOT_READY \<equiv> 8"
abbreviation SLOT_NO_MAP :: u8 where "SLOT_NO_MAP \<equiv> 16"
abbreviation SLOT_PLAYING :: u8 where "SLOT_PLAYING \<equiv> 32"
abbreviation SLOT_COMPLETE :: u8 where "SLOT_COMPLETE \<equiv> 64"

definition SLOT_HAS_PLAYER :: u8 where
  "SLOT_HAS_PLAYER =
     SLOT_NOT_READY OR SLOT_READY OR SLOT_NO_MAP OR SLOT_PLAYING OR SLOT_COMPLETE"

abbreviation TEAM_NEUTRAL :: u8 where "TEAM_NEUTRAL \<equiv> 0"
abbreviation TEAM_BLUE :: u8 where "TEAM_BLUE \<equiv> 1"
abbreviation TEAM_RED :: u8 where "TEAM_RED \<equiv> 2"
abbreviation TEAM_TYPE_TEAM_VS :: u8 where "TEAM_TYPE_TEAM_VS \<equiv> 2"

lemma slot_has_player_eq: "SLOT_HAS_PLAYER = 124"
  by (simp add: SLOT_HAS_PLAYER_def)

subsection \<open>Payload types\<close>

record user_presence =
  up_user_id :: i32
  up_username :: rstr
  up_utc_offset :: u8
  up_country_code :: u8
  up_bancho_privileges :: u8
  up_game_mode :: u8
  up_longitude :: fp
  up_latitude :: fp
  up_rank :: i32

record user_stats =
  us_user_id :: i32
  us_action :: u8
  us_info_text :: rstr
  us_map_md5 :: rstr
  us_mods :: u32
  us_mode :: u8
  us_map_id :: i32
  us_ranked_score :: i64
  us_accuracy :: fp
  us_play_count :: i32
  us_total_score :: i64
  us_rank :: i32
  us_pp :: i16

record chat_message =
  cm_sender :: rstr
  cm_content :: rstr
  cm_target :: rstr
  cm_sender_id :: i32

record match_slot =
  sl_status :: u8
  sl_team :: u8
  sl_user_id :: i32
  sl_mods :: u32

definition default_slot :: match_slot where
  "default_slot = \<lparr>sl_status = SLOT_OPEN, sl_team = TEAM_NEUTRAL, sl_user_id = - 1, sl_mods = 0\<rparr>"

definition slot_has_player :: "match_slot \<Rightarrow> bool" where
  "slot_has_player s \<longleftrightarrow> sl_status s AND SLOT_HAS_PLAYER > 0"

record match_score_frame =
  fr_time :: i32
  fr_slot_id :: u8
  fr_total_300 :: u16
  fr_total_100 :: u16
  fr_total_50 :: u16
  fr_total_geki :: u16
  fr_total_katu :: u16
  fr_total_miss :: u16
  fr_total_score :: i32
  fr_max_combo :: u16
  fr_current_combo :: u16
  fr_perfect :: bool
  fr_hp :: u8
  fr_tag :: u8
  fr_score_v2 :: bool
  fr_combo_portion :: u64
  fr_bonus_portion :: u64

record bmatch =
  m_id :: u16
  m_in_progress :: bool
  m_match_type :: u8
  m_active_mods :: u32
  m_name :: rstr
  m_password :: "rstr option"
  m_beatmap_name :: rstr
  m_beatmap_id :: i32
  m_beatmap_md5 :: rstr
  m_slots :: "match_slot list"
  m_host_id :: i32
  m_play_mode :: u8
  m_scoring_type :: u8
  m_team_type :: u8
  m_freemod :: bool
  m_seed :: u32

definition default_slots :: "match_slot list" where
  "default_slots = replicate 16 default_slot"

subsection \<open>Builders\<close>

definition build_user_id :: "i32 \<Rightarrow> u8 list" where
  "build_user_id uid = build_packet CHO_USER_ID (write_i32 uid)"

definition build_protocol_version :: "i32 \<Rightarrow> u8 list" where
  "build_protocol_version version = build_packet CHO_PROTOCOL_VERSION (write_i32 version)"

definition build_bancho_privileges :: "u32 \<Rightarrow> u8 list" where
  "build_bancho_privileges privs = build_packet CHO_BANCHO_PRIVILEGES (write_u32 privs)"

definition build_notification :: "rstr \<Rightarrow> u8 list" where
  "build_notification msg = build_packet CHO_NOTIFICATION (write_osu_string msg)"

definition build_pong :: "u8 list" where
  "build_pong = build_packet CHO_PONG []"

definition build_channel_info_end :: "u8 list" where
  "build_channel_info_end = build_packet CHO_CHANNEL_INFO_END []"

definition build_channel_info :: "rstr \<Rightarrow> rstr \<Rightarrow> i16 \<Rightarrow> u8 list" where
  "build_channel_info name topic user_count = build_packet CHO_CHANNEL_INFO
     (write_osu_string name @ write_osu_string topic @ write_i16 user_count)"

definition build_channel_join_success :: "rstr \<Rightarrow> u8 list" where
  "build_channel_join_success channel =
     build_packet CHO_CHANNEL_JOIN_SUCCESS (write_osu_string channel)"

definition build_channel_part :: "rstr \<Rightarrow> u8 list" where
  "build_channel_part channel = build_packet CHO_CHANNEL_PART (write_osu_string channel)"

definition build_send_message :: "chat_message \<Rightarrow> u8 list" where
  "build_send_message msg = build_packet CHO_SEND_MESSAGE
     (write_osu_string (cm_sender msg) @ write_osu_string (cm_content msg)
      @ write_osu_string (cm_target msg) @ write_i32 (cm_sender_id msg))"

definition build_user_presence :: "user_presence \<Rightarrow> u8 list" where
  "build_user_presence p = build_packet CHO_USER_PRESENCE
     (write_i32 (up_user_id p) @ write_osu_string (up_username p)
      @ write_u8 (up_utc_offset p) @ write_u8 (up_country_code p)
      @ write_u8 (up_bancho_privileges p)
      @ write_f32 (f32_to_bits (up_longitude p)) @ write_f32 (f32_to_bits (up_latitude p))
      @ write_i32 (up_rank p))"

text \<open>The client expects the accuracy as a fraction: the field is divided by 100 in \<^verbatim>\<open>f32\<close>.\<close>

definition build_user_stats :: "user_stats \<Rightarrow> u8 list" where
  "build_user_stats s = build_packet CHO_USER_STATS
     (write_i32 (us_user_id s) @ write_u8 (us_action s)
      @ write_osu_string (us_info_text s) @ write_osu_string (us_map_md5 s)
      @ write_u32 (us_mods s) @ write_u8 (us_mode s) @ write_i32 (us_map_id s)
      @ write_i64 (us_ranked_score s)
      @ write_f32 (f32_to_bits (fp_div f32 (us_accuracy s) (Fin 100)))
      @ write_i32 (us_play_count s) @ write_i64 (us_total_score s)
      @ write_i32 (us_rank s) @ write_i16 (us_pp s))"

definition build_user_quit :: "i32 \<Rightarrow> u8 \<Rightarrow> u8 list" where
  "build_user_quit uid quit_state =
     build_packet CHO_HANDLE_USER_QUIT (write_i32 uid @ write_u8 quit_state)"

definition build_restart :: "i32 \<Rightarrow> u8 list" where
  "build_restart retry_ms = build_packet CHO_RESTART (write_i32 retry_ms)"

definition build_spectator_joined :: "i32 \<Rightarrow> u8 list" where
  "build_spectator_joined uid = build_packet CHO_SPECTATOR_JOINED (write_i32 uid)"

definition build_spectator_left :: "i32 \<Rightarrow> u8 list" where
  "build_spectator_left uid = build_packet CHO_SPECTATOR_LEFT (write_i32 uid)"

definition build_spectator_frames :: "u8 list \<Rightarrow> u8 list" where
  "build_spectator_frames raw_data = build_packet CHO_SPECTATE_FRAMES raw_data"

definition build_fellow_spectator_joined :: "i32 \<Rightarrow> u8 list" where
  "build_fellow_spectator_joined uid = build_packet CHO_FELLOW_SPECTATOR_JOINED (write_i32 uid)"

definition build_fellow_spectator_left :: "i32 \<Rightarrow> u8 list" where
  "build_fellow_spectator_left uid = build_packet CHO_FELLOW_SPECTATOR_LEFT (write_i32 uid)"

definition build_spectator_cant_spectate :: "i32 \<Rightarrow> u8 list" where
  "build_spectator_cant_spectate uid = build_packet CHO_SPECTATOR_CANT_SPECTATE (write_i32 uid)"

text \<open>The password goes out in full, or as a blank marker when \<open>send_password\<close> is off.\<close>

definition match_password_text :: "bmatch \<Rightarrow> bool \<Rightarrow> rstr" where
  "match_password_text m send_password =
     (if send_password then (case m_password m of Some p \<Rightarrow> p | None \<Rightarrow> [])
      else if m_password m \<noteq> None then [32] else [])"

definition match_payload :: "bmatch \<Rightarrow> bool \<Rightarrow> u8 list" where
  "match_payload m send_password =
     write_u16 (m_id m) @ write_bool (m_in_progress m) @ write_u8 (m_match_type m)
     @ write_u32 (m_active_mods m) @ write_osu_string (m_name m)
     @ write_osu_string (match_password_text m send_password)
     @ write_osu_string (m_beatmap_name m) @ write_i32 (m_beatmap_id m)
     @ write_osu_string (m_beatmap_md5 m)
     @ concat (map (\<lambda>s. write_u8 (sl_status s)) (m_slots m))
     @ concat (map (\<lambda>s. write_u8 (sl_team s)) (m_slots m))
     @ concat (map (\<lambda>s. if slot_has_player s then write_i32 (sl_user_id s) else []) (m_slots m))
     @ write_i32 (m_host_id m) @ write_u8 (m_play_mode m) @ write_u8 (m_scoring_type m)
     @ write_u8 (m_team_type m) @ write_bool (m_freemod m)
     @ (if m_freemod m then concat (map (\<lambda>s. write_u32 (sl_mods s)) (m_slots m)) else [])
     @ write_u32 (m_seed m)"

definition build_match_packet :: "u16 \<Rightarrow> bmatch \<Rightarrow> bool \<Rightarrow> u8 list" where
  "build_match_packet packet_id m send_password =
     build_packet packet_id (match_payload m send_password)"

definition build_match_new :: "bmatch \<Rightarrow> u8 list" where
  "build_match_new m = build_match_packet CHO_MATCH_NEW m False"

definition build_match_update :: "bmatch \<Rightarrow> u8 list" where
  "build_match_update m = build_match_packet CHO_MATCH_UPDATE m False"

definition build_match_join_success :: "bmatch \<Rightarrow> u8 list" where
  "build_match_join_success m = build_match_packet CHO_MATCH_JOIN_SUCCESS m True"

definition build_match_join_fail :: "u8 list" where
  "build_match_join_fail = build_packet CHO_MATCH_JOIN_FAIL []"

definition build_match_disband :: "i32 \<Rightarrow> u8 list" where
  "build_match_disband match_id = build_packet CHO_MATCH_DISBAND (write_i32 match_id)"

definition build_match_start :: "bmatch \<Rightarrow> u8 list" where
  "build_match_start m = build_match_packet CHO_MATCH_START m False"

definition score_frame_payload :: "match_score_frame \<Rightarrow> u8 list" where
  "score_frame_payload f =
     write_i32 (fr_time f) @ write_u8 (fr_slot_id f) @ write_u16 (fr_total_300 f)
     @ write_u16 (fr_total_100 f) @ write_u16 (fr_total_50 f) @ write_u16 (fr_total_geki f)
     @ write_u16 (fr_total_katu f) @ write_u16 (fr_total_miss f) @ write_i32 (fr_total_score f)
     @ write_u16 (fr_max_combo f) @ write_u16 (fr_current_combo f) @ write_bool (fr_perfect f)
     @ write_u8 (fr_hp f) @ write_u8 (fr_tag f) @ write_bool (fr_score_v2 f)
     @ (if fr_score_v2 f then write_f64 (fr_combo_portion f) @ write_f64 (fr_bonus_portion f)
        else [])"

definition build_match_score_update :: "match_score_frame \<Rightarrow> u8 list" where
  "build_match_score_update f = build_packet CHO_MATCH_SCORE_UPDATE (score_frame_payload f)"

text \<open>The relay overwrites byte 4, the client's slot id, and nothing else.\<close>

definition build_relayed_match_score_update :: "u8 list \<Rightarrow> u8 \<Rightarrow> u8 list io_res" where
  "build_relayed_match_score_update payload slot_id =
     (if length payload \<le> 4 then RErr UnexpectedEof
      else ROk (build_packet CHO_MATCH_SCORE_UPDATE (payload[4 := slot_id])))"

definition build_match_transfer_host :: "u8 list" where
  "build_match_transfer_host = build_packet CHO_MATCH_TRANSFER_HOST []"

definition build_match_all_players_loaded :: "u8 list" where
  "build_match_all_players_loaded = build_packet CHO_MATCH_ALL_PLAYERS_LOADED []"

definition build_match_player_failed :: "u32 \<Rightarrow> u8 list" where
  "build_match_player_failed slot_id = build_packet CHO_MATCH_PLAYER_FAILED (write_u32 slot_id)"

definition build_match_complete :: "u8 list" where
  "build_match_complete = build_packet CHO_MATCH_COMPLETE []"

definition build_match_player_skipped :: "u32 \<Rightarrow> u8 list" where
  "build_match_player_skipped slot_id = build_packet CHO_MATCH_PLAYER_SKIPPED (write_u32 slot_id)"

subsection \<open>Parsers\<close>

text \<open>The \<^verbatim>\<open>for\<close> loops over the 16 slots read one field per slot, in order.\<close>

fun read_fields :: "(match_slot \<Rightarrow> match_slot rd) \<Rightarrow> match_slot list \<Rightarrow> match_slot list rd" where
  "read_fields rd_slot [] = rd_return []"
| "read_fields rd_slot (s # ss) =
     rd_bind (rd_slot s) (\<lambda>s'. rd_bind (read_fields rd_slot ss) (\<lambda>ss'. rd_return (s' # ss')))"

definition read_slot_status :: "match_slot \<Rightarrow> match_slot rd" where
  "read_slot_status s = rd_map (\<lambda>v. s\<lparr>sl_status := v\<rparr>) read_u8"

definition read_slot_team :: "match_slot \<Rightarrow> match_slot rd" where
  "read_slot_team s = rd_map (\<lambda>v. s\<lparr>sl_team := v\<rparr>) read_u8"

definition read_slot_user :: "match_slot \<Rightarrow> match_slot rd" where
  "read_slot_user s =
     (if slot_has_player s then rd_map (\<lambda>v. s\<lparr>sl_user_id := v\<rparr>) read_i32
      else rd_return (s\<lparr>sl_user_id := - 1\<rparr>))"

definition read_slot_mods :: "match_slot \<Rightarrow> match_slot rd" where
  "read_slot_mods s = rd_map (\<lambda>v. s\<lparr>sl_mods := v\<rparr>) read_u32"

definition read_seed :: "u32 rd" where
  "read_seed bs = (if remaining bs \<ge> 4 then read_u32 bs else (ROk 0, bs))"

definition parse_match :: "bmatch rd" where
  "parse_match =
     rd_bind read_u16 (\<lambda>mid. rd_bind read_bool (\<lambda>in_progress. rd_bind read_u8 (\<lambda>match_type.
     rd_bind read_u32 (\<lambda>active_mods. rd_bind read_osu_string (\<lambda>name.
     rd_bind read_osu_string (\<lambda>password_str. rd_bind read_osu_string (\<lambda>beatmap_name.
     rd_bind read_i32 (\<lambda>beatmap_id. rd_bind read_osu_string (\<lambda>beatmap_md5.
     rd_bind (read_fields read_slot_status default_slots) (\<lambda>slots1.
     rd_bind (read_fields read_slot_team slots1) (\<lambda>slots2.
     rd_bind (read_fields read_slot_user slots2) (\<lambda>slots3.
     rd_bind read_i32 (\<lambda>host_id. rd_bind read_u8 (\<lambda>play_mode. rd_bind read_u8 (\<lambda>scoring_type.
     rd_bind read_u8 (\<lambda>team_type. rd_bind read_bool (\<lambda>freemod.
     rd_bind (if freemod then read_fields read_slot_mods slots3 else rd_return slots3) (\<lambda>slots.
     rd_bind read_seed (\<lambda>seed.
     rd_return \<lparr>m_id = mid, m_in_progress = in_progress, m_match_type = match_type,
       m_active_mods = active_mods, m_name = name,
       m_password = (if password_str = [] then None else Some password_str),
       m_beatmap_name = beatmap_name, m_beatmap_id = beatmap_id, m_beatmap_md5 = beatmap_md5,
       m_slots = slots, m_host_id = host_id, m_play_mode = play_mode,
       m_scoring_type = scoring_type, m_team_type = team_type, m_freemod = freemod,
       m_seed = seed\<rparr>)))))))))))))))))))"

definition read_portions :: "bool \<Rightarrow> (u64 \<times> u64) rd" where
  "read_portions score_v2 bs =
     (if score_v2 \<and> remaining bs \<ge> 16 then
        rd_bind read_f64 (\<lambda>c. rd_bind read_f64 (\<lambda>b. rd_return (c, b))) bs
      else (ROk (0, 0), bs))"

definition parse_score_frame :: "match_score_frame rd" where
  "parse_score_frame =
     rd_bind read_i32 (\<lambda>time. rd_bind read_u8 (\<lambda>slot_id. rd_bind read_u16 (\<lambda>total_300.
     rd_bind read_u16 (\<lambda>total_100. rd_bind read_u16 (\<lambda>total_50. rd_bind read_u16 (\<lambda>total_geki.
     rd_bind read_u16 (\<lambda>total_katu. rd_bind read_u16 (\<lambda>total_miss. rd_bind read_i32 (\<lambda>total_score.
     rd_bind read_u16 (\<lambda>max_combo. rd_bind read_u16 (\<lambda>current_combo. rd_bind read_bool (\<lambda>perfect.
     rd_bind read_u8 (\<lambda>hp. rd_bind read_u8 (\<lambda>tag. rd_bind read_bool (\<lambda>score_v2.
     rd_bind (read_portions score_v2) (\<lambda>(combo_portion, bonus_portion).
     rd_return \<lparr>fr_time = time, fr_slot_id = slot_id, fr_total_300 = total_300,
       fr_total_100 = total_100, fr_total_50 = total_50, fr_total_geki = total_geki,
       fr_total_katu = total_katu, fr_total_miss = total_miss, fr_total_score = total_score,
       fr_max_combo = max_combo, fr_current_combo = current_combo, fr_perfect = perfect,
       fr_hp = hp, fr_tag = tag, fr_score_v2 = score_v2, fr_combo_portion = combo_portion,
       fr_bonus_portion = bonus_portion\<rparr>))))))))))))))))"

subsection \<open>Round trips\<close>

lemma read_fields_map:
  assumes "\<And>t rest. t \<in> set ts \<Longrightarrow> r (f t) (e t @ rest) = (ROk (g t), rest)"
  shows "rd_bind (read_fields r (map f ts)) k (concat (map e ts) @ rest) = k (map g ts) rest"
  using assms
proof (induction ts arbitrary: k)
  case Nil
  then show ?case by (simp add: rd_bind_def rd_return_def)
next
  case (Cons t ts)
  have "rd_bind (read_fields r (map f (t # ts))) k (e t @ concat (map e ts) @ rest)
      = rd_bind (read_fields r (map f ts)) (\<lambda>ss'. k (g t # ss')) (concat (map e ts) @ rest)"
    using Cons.prems[of t "concat (map e ts) @ rest"]
    by (simp add: rd_bind_def rd_return_def split: prod.splits io_res.splits)
  also have "\<dots> = k (g t # map g ts) rest"
    by (rule Cons.IH) (simp add: Cons.prems)
  finally show ?case by simp
qed

lemmas slot_readers = read_slot_status_def read_slot_team_def read_slot_user_def read_slot_mods_def

lemma default_slots_map: "length ts = 16 \<Longrightarrow> default_slots = map (\<lambda>_. default_slot) ts"
  by (simp add: default_slots_def map_replicate_const)

text \<open>What a match looks like to who reads it: a slot without a player has no user, the mods of the
  slots are sent with freemod only, and an empty password is none.\<close>

definition sent_slot :: "bool \<Rightarrow> match_slot \<Rightarrow> match_slot" where
  "sent_slot freemod s =
     s\<lparr>sl_user_id := if slot_has_player s then sl_user_id s else - 1,
       sl_mods := if freemod then sl_mods s else 0\<rparr>"

definition sendable_slot :: "bool \<Rightarrow> match_slot \<Rightarrow> bool" where
  "sendable_slot freemod s \<longleftrightarrow>
     (\<not> slot_has_player s \<longrightarrow> sl_user_id s = - 1) \<and> (\<not> freemod \<longrightarrow> sl_mods s = 0)"

definition sendable_match :: "bmatch \<Rightarrow> bool" where
  "sendable_match m \<longleftrightarrow>
     length (m_slots m) = 16 \<and> sendable (m_name m) \<and> sendable (m_beatmap_name m)
     \<and> sendable (m_beatmap_md5 m)
     \<and> (case m_password m of None \<Rightarrow> True | Some p \<Rightarrow> p \<noteq> [] \<and> sendable p)
     \<and> (\<forall>s \<in> set (m_slots m). sendable_slot (m_freemod m) s)"

lemma sent_sendable: "sendable_slot freemod s \<Longrightarrow> sent_slot freemod s = s"
  by (auto simp: sent_slot_def sendable_slot_def)

lemma slot_rebuild:
  "default_slot\<lparr>sl_status := sl_status s, sl_team := sl_team s,
     sl_user_id := if slot_has_player s then sl_user_id s else - 1\<rparr> = sent_slot False s"
  "(sent_slot False s)\<lparr>sl_mods := sl_mods s\<rparr> = sent_slot True s"
  by (simp_all add: default_slot_def sent_slot_def)

lemma read_statuses:
  assumes "length ts = 16"
  shows "rd_bind (read_fields read_slot_status default_slots) k
    (concat (map (\<lambda>s. write_u8 (sl_status s)) ts) @ rest)
    = k (map (\<lambda>s. default_slot\<lparr>sl_status := sl_status s\<rparr>) ts) rest"
  unfolding default_slots_map[OF assms]
  by (rule read_fields_map)
    (simp add: slot_readers rd_map_def codec_binds rd_return_def)

lemma read_teams:
  "rd_bind (read_fields read_slot_team (map f ts)) k
    (concat (map (\<lambda>s. write_u8 (sl_team s)) ts) @ rest)
    = k (map (\<lambda>s. (f s)\<lparr>sl_team := sl_team s\<rparr>) ts) rest"
  by (rule read_fields_map) (simp add: slot_readers rd_map_def codec_binds rd_return_def)

lemma read_users:
  assumes "\<And>s. s \<in> set ts \<Longrightarrow> sl_status (f s) = sl_status s"
  shows "rd_bind (read_fields read_slot_user (map f ts)) k
    (concat (map (\<lambda>s. if slot_has_player s then write_i32 (sl_user_id s) else []) ts) @ rest)
    = k (map (\<lambda>s. (f s)\<lparr>sl_user_id := if slot_has_player s then sl_user_id s else - 1\<rparr>) ts) rest"
proof (rule read_fields_map)
  fix t rest assume t: "t \<in> set ts"
  then have "slot_has_player (f t) = slot_has_player t"
    by (simp add: slot_has_player_def assms(1))
  then show "read_slot_user (f t)
      ((if slot_has_player t then write_i32 (sl_user_id t) else []) @ rest)
    = (ROk ((f t)\<lparr>sl_user_id := if slot_has_player t then sl_user_id t else - 1\<rparr>), rest)"
    by (simp add: slot_readers rd_map_def codec_binds rd_return_def)
qed

lemma read_mods:
  "rd_bind (read_fields read_slot_mods (map f ts)) k
    (concat (map (\<lambda>s. write_u32 (sl_mods s)) ts) @ rest)
    = k (map (\<lambda>s. (f s)\<lparr>sl_mods := sl_mods s\<rparr>) ts) rest"
  by (rule read_fields_map) (simp add: slot_readers rd_map_def codec_binds rd_return_def)

lemma read_seed_bind: "rd_bind read_seed k (write_u32 v @ rest) = k v rest"
  by (simp add: rd_bind_def read_seed_def remaining_def u32c.enc_width u32c.dec_enc)

lemma rd_bind_return [simp]: "rd_bind (rd_return a) k = k a"
  by (simp add: rd_bind_def rd_return_def fun_eq_iff)

lemma parse_match_sent:
  assumes len: "length (m_slots m) = 16"
    and str: "sendable (m_name m)" "sendable (m_beatmap_name m)" "sendable (m_beatmap_md5 m)"
    and pw: "sendable (match_password_text m send)"
  shows "parse_match (match_payload m send @ rest) =
    (ROk (m\<lparr>m_slots := map (sent_slot (m_freemod m)) (m_slots m),
            m_password := if match_password_text m send = [] then None
              else Some (match_password_text m send)\<rparr>), rest)"
proof -
  note binds = codec_binds str pw read_statuses[OF len] read_teams read_seed_bind read_mods read_users
    slot_rebuild
  show ?thesis
    by (cases "m_freemod m"; simp add: parse_match_def match_payload_def binds)
      (auto simp: rd_return_def intro!: bmatch.equality)
qed

lemma parse_match_payload:
  assumes "sendable_match m"
  shows "parse_match (match_payload m True @ rest) = (ROk m, rest)"
proof -
  have "map (sent_slot (m_freemod m)) (m_slots m) = m_slots m"
    using assms by (simp add: sendable_match_def sent_sendable map_idI)
  moreover have "sendable (match_password_text m True)"
    "(if match_password_text m True = [] then None else Some (match_password_text m True)) = m_password m"
    using assms by (auto simp: sendable_match_def match_password_text_def split: option.splits)
  ultimately show ?thesis
    using assms parse_match_sent[of m True rest] by (simp add: sendable_match_def)
qed

interpretation matchc: codec "\<lambda>m. match_payload m True" parse_match sendable_match
  by unfold_locales (rule parse_match_payload)

definition sendable_frame :: "match_score_frame \<Rightarrow> bool" where
  "sendable_frame f \<longleftrightarrow>
     (\<not> fr_score_v2 f \<longrightarrow> fr_combo_portion f = 0 \<and> fr_bonus_portion f = 0)"

lemma bind_read_portions:
  "rd_bind (read_portions True) k (write_f64 c @ write_f64 b @ rest) = k (c, b) rest"
  "rd_bind (read_portions False) k rest = k (0, 0) rest"
  by (simp_all add: rd_bind_def[of "read_portions _"] read_portions_def remaining_def
      codec_widths codec_binds) (simp add: rd_return_def)

lemma parse_score_frame_payload:
  assumes "sendable_frame f"
  shows "parse_score_frame (score_frame_payload f @ rest) = (ROk f, rest)"
proof (cases "fr_score_v2 f")
  case True
  then show ?thesis
    by (simp add: parse_score_frame_def score_frame_payload_def codec_binds
        bind_read_portions rd_return_def)
next
  case False
  with assms show ?thesis
    by (simp add: parse_score_frame_def score_frame_payload_def codec_binds sendable_frame_def
        bind_read_portions rd_return_def)
qed

interpretation framec: codec score_frame_payload parse_score_frame sendable_frame
  by unfold_locales (rule parse_score_frame_payload)

end
