(* ===== verification/Bancho_State.thy ===== *)
theory Bancho_State
  imports Packets
begin

text \<open>
  \<^verbatim>\<open>src/bancho/session.rs\<close>, \<^verbatim>\<open>src/bancho/channels.rs\<close> and
  \<^verbatim>\<open>src/bancho/state.rs\<close>: the in-memory state every request handler shares, and the
  operations on it.  A state operation takes the state last and returns it updated.  The
  record is extensible, so that the handlers can add the tasks they spawn.

  The locale \<open>delivery\<close> is the contract of all the ways a packet reaches players: they
  append to packet queues and change nothing else.
\<close>

subsection \<open>Sessions\<close>

text \<open>An \<^verbatim>\<open>Instant\<close> is a number of nanoseconds; a stats row is \<^verbatim>\<open>DbUserStats\<close>.\<close>

type_synonym instant = nat

record db_user_stats =
  du_user_id :: i32
  du_mode :: u8
  du_ranked_score :: i64
  du_accuracy :: fp
  du_play_count :: i32
  du_total_score :: i64
  du_pp :: i16

record session =
  ss_token :: rstr
  ss_user_id :: i32
  ss_username :: rstr
  ss_utc_offset :: u8
  ss_country_code :: u8
  ss_privileges :: u32
  ss_action :: u8
  ss_info_text :: rstr
  ss_map_md5 :: rstr
  ss_mods :: u32
  ss_mode :: u8
  ss_map_id :: i32
  ss_last_ping :: instant
  ss_packet_queue :: "u8 list"
  ss_channels :: "rstr list"
  ss_is_relax :: bool
  ss_client_version :: rstr

definition new_session ::
    "rstr \<Rightarrow> i32 \<Rightarrow> rstr \<Rightarrow> u8 \<Rightarrow> u8 \<Rightarrow> u32 \<Rightarrow> instant \<Rightarrow> session" where
  "new_session token uid username utc_offset country_code privileges now =
     \<lparr>ss_token = token, ss_user_id = uid, ss_username = username, ss_utc_offset = utc_offset,
      ss_country_code = country_code, ss_privileges = privileges, ss_action = 0,
      ss_info_text = [], ss_map_md5 = [], ss_mods = 0, ss_mode = 0, ss_map_id = 0,
      ss_last_ping = now, ss_packet_queue = [], ss_channels = [], ss_is_relax = False,
      ss_client_version = []\<rparr>"

definition enqueue_packet :: "u8 list \<Rightarrow> session \<Rightarrow> session" where
  "enqueue_packet packet s = s\<lparr>ss_packet_queue := ss_packet_queue s @ packet\<rparr>"

definition dequeue_all_packets :: "session \<Rightarrow> u8 list \<times> session" where
  "dequeue_all_packets s = (ss_packet_queue s, s\<lparr>ss_packet_queue := []\<rparr>)"

definition to_presence :: "i32 \<Rightarrow> session \<Rightarrow> user_presence" where
  "to_presence rank s =
     \<lparr>up_user_id = ss_user_id s, up_username = ss_username s, up_utc_offset = ss_utc_offset s,
      up_country_code = ss_country_code s, up_bancho_privileges = ucast (ss_privileges s),
      up_game_mode = ss_mode s, up_longitude = Zero False, up_latitude = Zero False,
      up_rank = rank\<rparr>"

definition to_stats :: "db_user_stats \<Rightarrow> i32 \<Rightarrow> session \<Rightarrow> user_stats" where
  "to_stats d rank s =
     \<lparr>us_user_id = ss_user_id s, us_action = ss_action s, us_info_text = ss_info_text s,
      us_map_md5 = ss_map_md5 s, us_mods = ss_mods s, us_mode = ss_mode s,
      us_map_id = ss_map_id s, us_ranked_score = du_ranked_score d,
      us_accuracy = du_accuracy d, us_play_count = du_play_count d,
      us_total_score = du_total_score d, us_rank = rank, us_pp = du_pp d\<rparr>"

subsection \<open>Channels\<close>

record channel =
  ch_name :: rstr
  ch_topic :: rstr
  ch_auto_join :: bool
  ch_read_only :: bool
  ch_members :: "i32 list"

definition new_channel :: "rstr \<Rightarrow> rstr \<Rightarrow> bool \<Rightarrow> bool \<Rightarrow> channel" where
  "new_channel name topic auto_join read_only =
     \<lparr>ch_name = name, ch_topic = topic, ch_auto_join = auto_join, ch_read_only = read_only,
      ch_members = []\<rparr>"

definition add_member :: "i32 \<Rightarrow> channel \<Rightarrow> channel" where
  "add_member uid ch = ch\<lparr>ch_members := hs_insert uid (ch_members ch)\<rparr>"

definition remove_member :: "i32 \<Rightarrow> channel \<Rightarrow> channel" where
  "remove_member uid ch = ch\<lparr>ch_members := hs_remove uid (ch_members ch)\<rparr>"

definition has_member :: "i32 \<Rightarrow> channel \<Rightarrow> bool" where
  "has_member uid ch \<longleftrightarrow> uid \<in> set (ch_members ch)"

text \<open>\<^verbatim>\<open>len() as i16\<close> wraps.\<close>

definition user_count :: "channel \<Rightarrow> i16" where
  "user_count ch = of_nat (length (ch_members ch))"

definition default_channels :: "channel list" where
  "default_channels =
     [new_channel (lit ''#osu'') (lit ''General discussion channel'') True False,
      new_channel (lit ''#announce'') (lit ''Server announcements'') True True,
      new_channel (lit ''#lobby'') (lit ''Multiplayer lobby chat'') False False,
      new_channel (lit ''#multiplayer'') (lit ''Multiplayer match channel'') False False,
      new_channel (lit ''#spectator'') (lit ''Spectator chat channel'') False False]"

subsection \<open>The shared state\<close>

record bancho_state =
  sessions :: "(rstr, session) hmap"
  user_id_to_token :: "(i32, rstr) hmap"
  channels :: "(rstr, channel) hmap"
  start_time :: instant
  matches :: "(u16, bmatch) hmap"
  next_match_id :: u16
  user_to_match :: "(i32, u16) hmap"
  lobby_subscribers :: "i32 list"
  match_start_times :: "(u16, instant) hmap"
  match_last_scores :: "(u16, (i32, match_score_frame) hmap) hmap"
  match_loaded_users :: "(u16, i32 list) hmap"
  pending_disbanded_matches :: "u16 list"
  spectators :: "(i32, i32 list) hmap"
  spectating_target :: "(i32, i32) hmap"
  chat_filter :: "(rstr \<times> rstr) list"
  pm_warned_pairs :: "(i32 \<times> i32) list"

definition new_bancho_state :: "instant \<Rightarrow> (rstr \<times> rstr) list \<Rightarrow> bancho_state" where
  "new_bancho_state now filter_rules =
     \<lparr>sessions = [], user_id_to_token = [],
      channels = fold (\<lambda>ch m. hput (ch_name ch) ch m) default_channels [],
      start_time = now, matches = [], next_match_id = 1, user_to_match = [],
      lobby_subscribers = [], match_start_times = [], match_last_scores = [],
      match_loaded_users = [], pending_disbanded_matches = [], spectators = [],
      spectating_target = [], chat_filter = filter_rules, pm_warned_pairs = []\<rparr>"

definition add_session :: "session \<Rightarrow> 'x bancho_state_scheme \<Rightarrow> 'x bancho_state_scheme" where
  "add_session s st = st\<lparr>user_id_to_token := hput (ss_user_id s) (ss_token s) (user_id_to_token st),
     sessions := hput (ss_token s) s (sessions st)\<rparr>"

definition get_session :: "rstr \<Rightarrow> 'x bancho_state_scheme \<Rightarrow> session option" where
  "get_session token st = hget (sessions st) token"

text \<open>A write through \<^verbatim>\<open>get_session_mut\<close>.\<close>

definition modify_session ::
    "rstr \<Rightarrow> (session \<Rightarrow> session) \<Rightarrow> 'x bancho_state_scheme \<Rightarrow> 'x bancho_state_scheme" where
  "modify_session token f st = st\<lparr>sessions := hmod token f (sessions st)\<rparr>"

definition get_session_by_user_id :: "i32 \<Rightarrow> 'x bancho_state_scheme \<Rightarrow> session option" where
  "get_session_by_user_id uid st =
     Option.bind (hget (user_id_to_token st) uid) (hget (sessions st))"

subsection \<open>Delivering packets\<close>

definition enqueue_to_user ::
    "u8 list \<Rightarrow> i32 \<Rightarrow> 'x bancho_state_scheme \<Rightarrow> 'x bancho_state_scheme" where
  "enqueue_to_user packet uid st =
     (case hget (user_id_to_token st) uid of
        None \<Rightarrow> st
      | Some token \<Rightarrow> modify_session token (enqueue_packet packet) st)"

text \<open>The Boolean result is not used by any caller; it says whether a session was found.\<close>

definition send_to_user_found :: "i32 \<Rightarrow> 'x bancho_state_scheme \<Rightarrow> bool" where
  "send_to_user_found uid st \<longleftrightarrow> get_session_by_user_id uid st \<noteq> None"

definition send_to_user ::
    "i32 \<Rightarrow> u8 list \<Rightarrow> 'x bancho_state_scheme \<Rightarrow> 'x bancho_state_scheme" where
  "send_to_user uid packet st = enqueue_to_user packet uid st"

definition broadcast_to_lobby ::
    "u8 list \<Rightarrow> 'x bancho_state_scheme \<Rightarrow> 'x bancho_state_scheme" where
  "broadcast_to_lobby packet st = fold (enqueue_to_user packet) (lobby_subscribers st) st"

definition match_recipients :: "bmatch \<Rightarrow> i32 option \<Rightarrow> i32 list" where
  "match_recipients m except =
     map sl_user_id (filter (\<lambda>s. slot_has_player s \<and> positive (sl_user_id s)
                               \<and> Some (sl_user_id s) \<noteq> except) (m_slots m))"

definition broadcast_to_match ::
    "u16 \<Rightarrow> u8 list \<Rightarrow> i32 option \<Rightarrow> 'x bancho_state_scheme \<Rightarrow> 'x bancho_state_scheme" where
  "broadcast_to_match match_id packet except st =
     (case hget (matches st) match_id of
        None \<Rightarrow> st
      | Some m \<Rightarrow> fold (enqueue_to_user packet) (match_recipients m except) st)"

definition broadcast_to_spectators ::
    "i32 \<Rightarrow> u8 list \<Rightarrow> 'x bancho_state_scheme \<Rightarrow> 'x bancho_state_scheme" where
  "broadcast_to_spectators host_id packet st =
     (case hget (spectators st) host_id of
        None \<Rightarrow> st
      | Some specs \<Rightarrow> fold (enqueue_to_user packet) specs st)"

definition broadcast :: "u8 list \<Rightarrow> 'x bancho_state_scheme \<Rightarrow> 'x bancho_state_scheme" where
  "broadcast packet st =
     st\<lparr>sessions := hmap_values (\<lambda>_. enqueue_packet packet) (sessions st)\<rparr>"

definition broadcast_except ::
    "u8 list \<Rightarrow> rstr \<Rightarrow> 'x bancho_state_scheme \<Rightarrow> 'x bancho_state_scheme" where
  "broadcast_except packet except_token st =
     st\<lparr>sessions := hmap_values (\<lambda>token s. if token \<noteq> except_token then enqueue_packet packet s
                                           else s) (sessions st)\<rparr>"

definition broadcast_to_channel ::
    "rstr \<Rightarrow> u8 list \<Rightarrow> 'x bancho_state_scheme \<Rightarrow> 'x bancho_state_scheme" where
  "broadcast_to_channel channel_name packet st =
     (case hget (channels st) channel_name of
        None \<Rightarrow> st
      | Some ch \<Rightarrow> fold (enqueue_to_user packet) (ch_members ch) st)"

definition broadcast_to_channel_except ::
    "rstr \<Rightarrow> u8 list \<Rightarrow> i32 \<Rightarrow> 'x bancho_state_scheme \<Rightarrow> 'x bancho_state_scheme" where
  "broadcast_to_channel_except channel_name packet except_user_id st =
     (case hget (channels st) channel_name of
        None \<Rightarrow> st
      | Some ch \<Rightarrow>
          fold (enqueue_to_user packet)
            (filter (\<lambda>uid. uid \<noteq> except_user_id) (ch_members ch)) st)"

definition online_count :: "'x bancho_state_scheme \<Rightarrow> nat" where
  "online_count st = length (sessions st)"

subsection \<open>Leaving a match, a host, the server\<close>

definition players :: "bmatch \<Rightarrow> i32 list" where
  "players m =
     map sl_user_id (filter (\<lambda>s. slot_has_player s \<and> positive (sl_user_id s)) (m_slots m))"

definition vacate_slot :: "i32 \<Rightarrow> bmatch \<Rightarrow> bmatch" where
  "vacate_slot uid m =
     m\<lparr>m_slots := update_first (\<lambda>s. sl_user_id s = uid) (\<lambda>_. default_slot) (m_slots m)\<rparr>"

text \<open>
  The result is the match left, the match as it is after leaving, and whether it was
  disbanded.  The early returns happen after the user's entry is gone already.
\<close>

definition remove_user_from_match ::
    "i32 \<Rightarrow> 'x bancho_state_scheme \<Rightarrow> (u16 \<times> bmatch \<times> bool) option \<times> 'x bancho_state_scheme" where
  "remove_user_from_match uid st =
     (case hget (user_to_match st) uid of
        None \<Rightarrow> (None, st)
      | Some match_id \<Rightarrow>
          let st1 = st\<lparr>user_to_match := hdel uid (user_to_match st)\<rparr>
          in case hget (matches st1) match_id of
               None \<Rightarrow> (None, st1)
             | Some m \<Rightarrow>
                 if position (\<lambda>s. sl_user_id s = uid) (m_slots m) = None then (None, st1)
                 else
                   let m1 = vacate_slot uid m;
                       remaining_players = players m1
                   in if remaining_players = [] then
                        (Some (match_id, m1, True),
                         st1\<lparr>matches := hdel match_id (matches st1),
                             match_start_times := hdel match_id (match_start_times st1),
                             match_last_scores := hdel match_id (match_last_scores st1),
                             match_loaded_users := hdel match_id (match_loaded_users st1),
                             pending_disbanded_matches :=
                               pending_disbanded_matches st1 @ [match_id]\<rparr>)
                      else
                        let m2 = (if m_host_id m1 = uid
                                  then m1\<lparr>m_host_id := hd remaining_players\<rparr> else m1)
                        in (Some (match_id, m2, False),
                            st1\<lparr>matches := hput match_id m2 (matches st1)\<rparr>))"

definition take_disbanded_matches ::
    "'x bancho_state_scheme \<Rightarrow> u16 list \<times> 'x bancho_state_scheme" where
  "take_disbanded_matches st =
     (pending_disbanded_matches st, st\<lparr>pending_disbanded_matches := []\<rparr>)"

definition stop_spectating ::
    "i32 \<Rightarrow> 'x bancho_state_scheme \<Rightarrow> i32 option \<times> 'x bancho_state_scheme" where
  "stop_spectating spectator_id st =
     (case hget (spectating_target st) spectator_id of
        None \<Rightarrow> (None, st)
      | Some host_id \<Rightarrow>
          let st1 = st\<lparr>spectating_target := hdel spectator_id (spectating_target st)\<rparr>
          in case hget (spectators st1) host_id of
               None \<Rightarrow> (Some host_id, st1)
             | Some specs \<Rightarrow>
                 let specs' = filter (\<lambda>x. x \<noteq> spectator_id) specs
                 in (Some host_id,
                     st1\<lparr>spectators := (if specs' = [] then hdel host_id (spectators st1)
                                        else hput host_id specs' (spectators st1))\<rparr>))"

text \<open>The announcements after a user has left a match, as the handlers make them too.\<close>

definition announce_left ::
    "(u16 \<times> bmatch \<times> bool) option \<Rightarrow> 'x bancho_state_scheme \<Rightarrow> 'x bancho_state_scheme" where
  "announce_left left st =
     (case left of
        None \<Rightarrow> st
      | Some (match_id, updated_match, is_disbanded) \<Rightarrow>
          if is_disbanded then broadcast_to_lobby (build_match_disband (ucast match_id)) st
          else
            let update_pkt = build_match_update updated_match
            in broadcast_to_lobby update_pkt (broadcast_to_match match_id update_pkt None st))"

definition announce_stopped ::
    "i32 \<Rightarrow> i32 option \<Rightarrow> 'x bancho_state_scheme \<Rightarrow> 'x bancho_state_scheme" where
  "announce_stopped uid host st =
     (case host of
        None \<Rightarrow> st
      | Some host_id \<Rightarrow>
          broadcast_to_spectators host_id (build_fellow_spectator_left uid)
            (send_to_user host_id (build_spectator_left uid) st))"

text \<open>A host who leaves: every spectator loses its target and is told.\<close>

definition release_spectators :: "i32 \<Rightarrow> 'x bancho_state_scheme \<Rightarrow> 'x bancho_state_scheme" where
  "release_spectators uid st =
     (case hget (spectators st) uid of
        None \<Rightarrow> st
      | Some specs \<Rightarrow>
          fold (\<lambda>spec_id s.
                  send_to_user spec_id (build_spectator_left uid)
                    (s\<lparr>spectating_target := hdel spec_id (spectating_target s)\<rparr>))
            specs (st\<lparr>spectators := hdel uid (spectators st)\<rparr>))"

definition leave_channels :: "i32 \<Rightarrow> 'x bancho_state_scheme \<Rightarrow> 'x bancho_state_scheme" where
  "leave_channels uid st = st\<lparr>channels := hmap_values (\<lambda>_. remove_member uid) (channels st)\<rparr>"

definition remove_session ::
    "rstr \<Rightarrow> 'x bancho_state_scheme \<Rightarrow> session option \<times> 'x bancho_state_scheme" where
  "remove_session token st =
     (case hget (sessions st) token of
        None \<Rightarrow> (None, st)
      | Some session \<Rightarrow>
          let uid = ss_user_id session;
              st1 = st\<lparr>sessions := hdel token (sessions st),
                       user_id_to_token := hdel uid (user_id_to_token st),
                       lobby_subscribers := hs_remove uid (lobby_subscribers st)\<rparr>;
              (left, st2) = remove_user_from_match uid st1;
              st3 = announce_left left st2;
              (host, st4) = stop_spectating uid st3;
              st5 = announce_stopped uid host st4
          in (Some session, leave_channels uid (release_spectators uid st5)))"

subsection \<open>Queues only\<close>

definition queued :: "session \<Rightarrow> session \<Rightarrow> bool" where
  "queued s s' \<longleftrightarrow> (\<exists>q. s' = enqueue_packet q s)"

definition queues_only :: "'x bancho_state_scheme \<Rightarrow> 'x bancho_state_scheme \<Rightarrow> bool" where
  "queues_only st st' \<longleftrightarrow>
     (\<exists>ss. st' = st\<lparr>sessions := ss\<rparr>
        \<and> list_all2 (\<lambda>x y. fst y = fst x \<and> queued (snd x) (snd y)) (sessions st) ss)"

lemma queued_refl [intro, simp]: "queued s s"
  by (auto simp: queued_def enqueue_packet_def intro: exI[of _ "[]"])

lemma queued_enqueue [intro, simp]: "queued s (enqueue_packet q s)"
  by (auto simp: queued_def)

lemma queued_trans: "queued a b \<Longrightarrow> queued b c \<Longrightarrow> queued a c"
  unfolding queued_def enqueue_packet_def
  by (elim exE) (rule exI[of _ "q @ qa" for q qa], simp)

lemma queues_only_refl [intro, simp]: "queues_only st st"
  unfolding queues_only_def by (intro exI[of _ "sessions st"]) (simp add: list_all2_refl)

lemma queues_only_trans:
  assumes "queues_only a b" and "queues_only b c"
  shows "queues_only a c"
proof -
  let ?R = "\<lambda>x y. fst y = fst x \<and> queued (snd x) (snd y)"
  obtain X where b: "b = a\<lparr>sessions := X\<rparr>" "list_all2 ?R (sessions a) X"
    using assms(1) by (auto simp: queues_only_def)
  obtain Y where c: "c = b\<lparr>sessions := Y\<rparr>" "list_all2 ?R (sessions b) Y"
    using assms(2) by (auto simp: queues_only_def)
  have "list_all2 ?R (sessions a) Y"
    by (rule list_all2_trans[OF _ b(2), of ?R ?R]) (use c b queued_trans in auto)
  then show ?thesis using b c by (auto simp: queues_only_def)
qed

lemma queues_only_fold:
  "(\<And>u s. queues_only s (f u s)) \<Longrightarrow> queues_only st (fold f us st)"
  by (induction us arbitrary: st) (auto intro: queues_only_trans)

lemma list_all2_hmod:
  assumes "\<And>v. R (k, v) (k, f v)" and "\<And>x. R x x"
  shows "list_all2 R m (hmod k f m)"
proof (induction m)
  case (Cons x m)
  obtain k' v where x: "x = (k', v)" by (cases x)
  have "list_all2 R m m" by (rule list_all2_refl) (rule assms(2))
  then show ?case unfolding x using Cons.IH assms by simp
qed simp

lemma queues_only_modify: "queues_only st (modify_session t (enqueue_packet p) st)"
  unfolding queues_only_def modify_session_def
  by (intro exI conjI, rule refl) (auto intro: list_all2_hmod)

lemma queues_only_enqueue: "queues_only st (enqueue_to_user p u st)"
  by (auto simp: enqueue_to_user_def queues_only_modify split: option.splits)

locale delivery =
  fixes run :: "'x bancho_state_scheme \<Rightarrow> 'x bancho_state_scheme"
  assumes run_queues_only: "queues_only st (run st)"
begin

lemma run_eq: "\<exists>ss. run st = st\<lparr>sessions := ss\<rparr>
    \<and> list_all2 (\<lambda>x y. fst y = fst x \<and> queued (snd x) (snd y)) (sessions st) ss"
  using run_queues_only[of st] by (simp add: queues_only_def)

lemma run_fields [simp]:
  "user_id_to_token (run st) = user_id_to_token st"
  "channels (run st) = channels st"
  "start_time (run st) = start_time st"
  "matches (run st) = matches st"
  "next_match_id (run st) = next_match_id st"
  "user_to_match (run st) = user_to_match st"
  "lobby_subscribers (run st) = lobby_subscribers st"
  "match_start_times (run st) = match_start_times st"
  "match_last_scores (run st) = match_last_scores st"
  "match_loaded_users (run st) = match_loaded_users st"
  "pending_disbanded_matches (run st) = pending_disbanded_matches st"
  "spectators (run st) = spectators st"
  "spectating_target (run st) = spectating_target st"
  "chat_filter (run st) = chat_filter st"
  "pm_warned_pairs (run st) = pm_warned_pairs st"
  "bancho_state.more (run st) = bancho_state.more st"
  using run_eq[of st] by auto

lemma run_keys [simp]: "hkeys (sessions (run st)) = hkeys (sessions st)"
proof -
  obtain ss where "run st = st\<lparr>sessions := ss\<rparr>"
    and "list_all2 (\<lambda>x y. fst y = fst x \<and> queued (snd x) (snd y)) (sessions st) ss"
    using run_eq by blast
  moreover from this(2) have "hkeys ss = hkeys (sessions st)"
    by (induction rule: list_all2_induct) auto
  ultimately show ?thesis by simp
qed

lemma run_lookup:
  "rel_option queued (hget (sessions st) t) (hget (sessions (run st)) t)"
proof -
  obtain ss where "run st = st\<lparr>sessions := ss\<rparr>"
    and "list_all2 (\<lambda>x y. fst y = fst x \<and> queued (snd x) (snd y)) (sessions st) ss"
    using run_eq by blast
  moreover from this(2) have "rel_option queued (hget (sessions st) t) (hget ss t)"
    by (induction rule: list_all2_induct) auto
  ultimately show ?thesis by simp
qed

lemma run_session:
  assumes "hget (sessions st) t = Some s"
  shows "\<exists>q. hget (sessions (run st)) t = Some (enqueue_packet q s)"
  using run_lookup[of st t] assms by (auto simp: queued_def elim: option.rel_cases)

lemma run_absent: "hget (sessions st) t = None \<Longrightarrow> hget (sessions (run st)) t = None"
  using run_lookup[of st t] by (auto elim: option.rel_cases)

end

lemma queues_only_broadcast_with:
  "queues_only st (st\<lparr>sessions := hmap_values (\<lambda>t s. if P t then enqueue_packet p s else s)
     (sessions st)\<rparr>)"
  unfolding queues_only_def hmap_values_def
  by (intro exI conjI, rule refl) (auto simp: list_all2_conv_all_nth split_def)

interpretation to_user: delivery "enqueue_to_user p u" for p u
  by unfold_locales (rule queues_only_enqueue)

interpretation each_user: delivery "fold (enqueue_to_user p) us" for p us
  by unfold_locales (rule queues_only_fold, rule queues_only_enqueue)

interpretation to_token: delivery "modify_session t (enqueue_packet p)" for t p
  by unfold_locales (rule queues_only_modify)

interpretation sending: delivery "send_to_user u p" for u p
  by unfold_locales (simp add: send_to_user_def queues_only_enqueue)

interpretation to_lobby: delivery "broadcast_to_lobby p" for p
  by unfold_locales (simp add: broadcast_to_lobby_def queues_only_fold queues_only_enqueue)

interpretation to_match: delivery "broadcast_to_match mid p ex" for mid p ex
  by unfold_locales
    (simp add: broadcast_to_match_def queues_only_fold queues_only_enqueue split: option.split)

interpretation to_spectators: delivery "broadcast_to_spectators u p" for u p
  by unfold_locales
    (simp add: broadcast_to_spectators_def queues_only_fold queues_only_enqueue
      split: option.split)

interpretation to_channel: delivery "broadcast_to_channel ch p" for ch p
  by unfold_locales
    (simp add: broadcast_to_channel_def queues_only_fold queues_only_enqueue split: option.split)

interpretation to_channel_except: delivery "broadcast_to_channel_except ch p u" for ch p u
  by unfold_locales
    (simp add: broadcast_to_channel_except_def queues_only_fold queues_only_enqueue
      split: option.split)

interpretation to_all: delivery "broadcast p" for p
  by unfold_locales
    (use queues_only_broadcast_with[where P = "\<lambda>_. True"] in \<open>simp add: broadcast_def\<close>)

interpretation to_others: delivery "broadcast_except p t" for p t
  by unfold_locales
    (use queues_only_broadcast_with[where P = "\<lambda>u. u \<noteq> t"] in \<open>simp add: broadcast_except_def\<close>)

interpretation left_news: delivery "announce_left l" for l
  by unfold_locales
    (auto simp: announce_left_def Let_def split: option.split
      intro: queues_only_trans[OF to_match.run_queues_only] to_lobby.run_queues_only)

interpretation stopped_news: delivery "announce_stopped u h" for u h
  by unfold_locales
    (auto simp: announce_stopped_def split: option.split
      intro: queues_only_trans[OF sending.run_queues_only] to_spectators.run_queues_only)

end
