(* ===== verification/Delivery.thy ===== *)
theory Delivery
  imports Bancho_State
begin

text \<open>
  What reaches whom: the consistency of the two session tables of
  \<^verbatim>\<open>src/bancho/state.rs\<close>, and the exact content every broadcast adds to the queue of
  every user.
\<close>

subsection \<open>Consistent session tables\<close>

text \<open>
  A user's token leads to a session of that user.  The converse is not kept by the code: a
  second login of the same user leaves its older session reachable by token only.
\<close>

definition session_inv :: "'x bancho_state_scheme \<Rightarrow> bool" where
  "session_inv st \<longleftrightarrow>
     (\<forall>t s. hget (sessions st) t = Some s \<longrightarrow> ss_token s = t)
     \<and> (\<forall>u t. hget (user_id_to_token st) u = Some t \<longrightarrow>
          (\<exists>s. hget (sessions st) t = Some s \<and> ss_user_id s = u))"

lemma session_invI:
  assumes "\<And>t s. hget (sessions st) t = Some s \<Longrightarrow> ss_token s = t"
    and "\<And>u t. hget (user_id_to_token st) u = Some t \<Longrightarrow>
      \<exists>s. hget (sessions st) t = Some s \<and> ss_user_id s = u"
  shows "session_inv st"
  using assms by (auto simp: session_inv_def)

lemma session_inv_token: "session_inv st \<Longrightarrow> hget (sessions st) t = Some s \<Longrightarrow> ss_token s = t"
  by (simp add: session_inv_def)

lemma session_inv_user:
  "session_inv st \<Longrightarrow> hget (user_id_to_token st) u = Some t \<Longrightarrow>
     \<exists>s. hget (sessions st) t = Some s \<and> ss_user_id s = u \<and> ss_token s = t"
  unfolding session_inv_def by blast

lemma session_inv_inj:
  "session_inv st \<Longrightarrow> hget (user_id_to_token st) u = Some t \<Longrightarrow>
     hget (user_id_to_token st) v = Some t \<Longrightarrow> u = v"
  by (frule (1) session_inv_user[of st u], frule (1) session_inv_user[of st v]) auto

lemma session_inv_cong:
  "sessions st' = sessions st \<Longrightarrow> user_id_to_token st' = user_id_to_token st \<Longrightarrow>
     session_inv st' = session_inv st"
  by (simp add: session_inv_def)

lemma enqueue_packet_fields [simp]:
  "ss_token (enqueue_packet p s) = ss_token s"
  "ss_user_id (enqueue_packet p s) = ss_user_id s"
  "ss_username (enqueue_packet p s) = ss_username s"
  "ss_channels (enqueue_packet p s) = ss_channels s"
  "ss_privileges (enqueue_packet p s) = ss_privileges s"
  "ss_packet_queue (enqueue_packet p s) = ss_packet_queue s @ p"
  by (simp_all add: enqueue_packet_def)

lemma modify_session_fields [simp]:
  "user_id_to_token (modify_session t f st) = user_id_to_token st"
  "channels (modify_session t f st) = channels st"
  "matches (modify_session t f st) = matches st"
  "next_match_id (modify_session t f st) = next_match_id st"
  "user_to_match (modify_session t f st) = user_to_match st"
  "lobby_subscribers (modify_session t f st) = lobby_subscribers st"
  "match_start_times (modify_session t f st) = match_start_times st"
  "match_last_scores (modify_session t f st) = match_last_scores st"
  "match_loaded_users (modify_session t f st) = match_loaded_users st"
  "pending_disbanded_matches (modify_session t f st) = pending_disbanded_matches st"
  "spectators (modify_session t f st) = spectators st"
  "spectating_target (modify_session t f st) = spectating_target st"
  "chat_filter (modify_session t f st) = chat_filter st"
  "pm_warned_pairs (modify_session t f st) = pm_warned_pairs st"
  "bancho_state.more (modify_session t f st) = bancho_state.more st"
  "sessions (modify_session t f st) = hmod t f (sessions st)"
  by (simp_all add: modify_session_def)

lemma session_inv_modify [keeps]:
  assumes "session_inv st"
    and "\<And>s. ss_token (f s) = ss_token s" and "\<And>s. ss_user_id (f s) = ss_user_id s"
  shows "session_inv (modify_session t f st)"
proof (rule session_invI)
  fix t' s'
  assume "hget (sessions (modify_session t f st)) t' = Some s'"
  then show "ss_token s' = t'"
    using assms by (auto simp: session_inv_def split: if_splits)
next
  fix u t'
  assume "hget (user_id_to_token (modify_session t f st)) u = Some t'"
  then show "\<exists>s. hget (sessions (modify_session t f st)) t' = Some s \<and> ss_user_id s = u"
    using session_inv_user[OF assms(1)] assms(3) by fastforce
qed

context delivery
begin

lemma session_inv_run [keeps]: "session_inv st \<Longrightarrow> session_inv (run st)"
proof (rule session_invI)
  fix t s
  assume inv: "session_inv st" and s: "hget (sessions (run st)) t = Some s"
  then obtain s0 q where "hget (sessions st) t = Some s0" and "s = enqueue_packet q s0"
    using run_session[of st t] run_absent[of st t] by (cases "hget (sessions st) t") auto
  with inv show "ss_token s = t" by (simp add: session_inv_token)
next
  fix u t
  assume inv: "session_inv st" and "hget (user_id_to_token (run st)) u = Some t"
  then show "\<exists>s. hget (sessions (run st)) t = Some s \<and> ss_user_id s = u"
    using session_inv_user[OF inv, of u t] run_session[of st t] by fastforce
qed

end

lemma session_inv_new [keeps]: "session_inv (new_bancho_state now rules)"
  by (simp add: session_inv_def new_bancho_state_def)

lemma session_inv_add [keeps]:
  assumes "session_inv st" and "hget (sessions st) (ss_token s) = None"
  shows "session_inv (add_session s st)"
  using assms by (force simp: add_session_def session_inv_def)

lemma session_inv_drop:
  assumes "session_inv st" and "hget (sessions st) t = Some s"
  shows "session_inv (st\<lparr>sessions := hdel t (sessions st),
      user_id_to_token := hdel (ss_user_id s) (user_id_to_token st)\<rparr>)"
proof (rule session_invI, goal_cases)
  case (2 u t')
  then have u: "hget (user_id_to_token st) u = Some t'" "u \<noteq> ss_user_id s"
    by (auto split: if_splits)
  with session_inv_user[OF assms(1) u(1)] assms(2) show ?case by fastforce
qed (use assms in \<open>auto simp: session_inv_def split: if_splits\<close>)

subsection \<open>The queue of a user\<close>

definition online :: "i32 \<Rightarrow> 'x bancho_state_scheme \<Rightarrow> bool" where
  "online u st \<longleftrightarrow> get_session_by_user_id u st \<noteq> None"

definition inbox :: "i32 \<Rightarrow> 'x bancho_state_scheme \<Rightarrow> u8 list" where
  "inbox u st = (case get_session_by_user_id u st of None \<Rightarrow> [] | Some s \<Rightarrow> ss_packet_queue s)"

lemma get_session_enqueue:
  assumes "session_inv st"
  shows "get_session_by_user_id u (enqueue_to_user p v st) =
    map_option (if u = v then enqueue_packet p else id) (get_session_by_user_id u st)"
  using session_inv_inj[OF assms]
  by (auto simp: get_session_by_user_id_def enqueue_to_user_def option.map_id
      split: option.splits bind_splits)

lemma inbox_enqueue:
  assumes "session_inv st"
  shows "inbox u (enqueue_to_user p v st) = inbox u st @ (if u = v \<and> online u st then p else [])"
  by (auto simp: inbox_def online_def get_session_enqueue[OF assms] split: option.splits)

lemma online_enqueue: "session_inv st \<Longrightarrow> online u (enqueue_to_user p v st) = online u st"
  by (simp add: online_def get_session_enqueue)

lemma inbox_fold:
  assumes "session_inv st"
  shows "inbox u (fold (enqueue_to_user p) us st) =
    inbox u st @ (if online u st then concat (replicate (count_list us u) p) else [])"
  using assms
proof (induction us arbitrary: st)
  case (Cons v us)
  have IH: "inbox u (fold (enqueue_to_user p) us (enqueue_to_user p v st)) =
      inbox u (enqueue_to_user p v st)
      @ (if online u (enqueue_to_user p v st) then concat (replicate (count_list us u) p) else [])"
    by (rule Cons.IH) (rule to_user.session_inv_run[OF Cons.prems])
  show ?case
    using IH by (simp add: inbox_enqueue[OF Cons.prems] online_enqueue[OF Cons.prems])
qed simp

lemma count_list_distinct: "distinct us \<Longrightarrow> count_list us u = (if u \<in> set us then 1 else 0)"
  by (induction us) auto

lemma inbox_fold_distinct:
  assumes "session_inv st" and "distinct us"
  shows "inbox u (fold (enqueue_to_user p) us st) =
    inbox u st @ (if online u st \<and> u \<in> set us then p else [])"
  using assms(2) by (simp add: inbox_fold[OF assms(1)] count_list_distinct)

lemma match_recipients_eq: "match_recipients m ex = filter (\<lambda>u. Some u \<noteq> ex) (players m)"
  unfolding match_recipients_def players_def by (induction "m_slots m") (auto simp: filter_map comp_def)

end
