(* ===== verification/Rooms.thy ===== *)
theory Rooms
  imports Delivery "HOL-Library.Multiset"
begin

unbundle bit_operations_syntax

text \<open>
  The invariant of the multiplayer rooms of \<^verbatim>\<open>src/bancho/state.rs\<close>: every open match is
  well formed, a user's entry in \<^verbatim>\<open>user_to_match\<close> and its slot agree, and the per-match
  tables hold no closed match; and what leaving a match does to it.
\<close>

subsection \<open>Well-formed matches\<close>

definition occupied :: "match_slot \<Rightarrow> bool" where
  "occupied s \<longleftrightarrow> slot_has_player s \<and> positive (sl_user_id s)"

definition slot_ok :: "match_slot \<Rightarrow> bool" where
  "slot_ok s \<longleftrightarrow>
     (if sl_status s \<in> {SLOT_NOT_READY, SLOT_READY, SLOT_NO_MAP, SLOT_PLAYING, SLOT_COMPLETE}
      then positive (sl_user_id s)
      else sl_status s \<in> {SLOT_OPEN, SLOT_LOCKED} \<and> sl_user_id s = - 1)"

definition seats :: "match_slot list \<Rightarrow> i32 list" where
  "seats slots = map sl_user_id (filter occupied slots)"

definition match_ok :: "bmatch \<Rightarrow> bool" where
  "match_ok m \<longleftrightarrow>
     length (m_slots m) = 16 \<and> list_all slot_ok (m_slots m) \<and> distinct (players m)
     \<and> m_host_id m \<in> set (players m)"

definition room_inv :: "'x bancho_state_scheme \<Rightarrow> bool" where
  "room_inv st \<longleftrightarrow>
     (\<forall>mid m. hget (matches st) mid = Some m \<longrightarrow>
        m_id m = mid \<and> match_ok m \<and> (m_in_progress m \<longleftrightarrow> hget (match_start_times st) mid \<noteq> None)
        \<and> (\<forall>u \<in> set (players m). hget (user_to_match st) u = Some mid))
     \<and> (\<forall>u mid. hget (user_to_match st) u = Some mid \<longrightarrow>
          (\<exists>m. hget (matches st) mid = Some m \<and> u \<in> set (players m)))
     \<and> (\<forall>mid. hget (matches st) mid = None \<longrightarrow> hget (match_start_times st) mid = None
          \<and> hget (match_last_scores st) mid = None \<and> hget (match_loaded_users st) mid = None)
     \<and> (\<forall>mid \<in> set (pending_disbanded_matches st). hget (matches st) mid = None)"

subsection \<open>Slots and seats\<close>

lemma slot_has_player_status [simp]:
  "sl_status s = SLOT_OPEN \<Longrightarrow> \<not> slot_has_player s"
  "sl_status s = SLOT_LOCKED \<Longrightarrow> \<not> slot_has_player s"
  "sl_status s = SLOT_NOT_READY \<Longrightarrow> slot_has_player s"
  "sl_status s = SLOT_READY \<Longrightarrow> slot_has_player s"
  "sl_status s = SLOT_NO_MAP \<Longrightarrow> slot_has_player s"
  "sl_status s = SLOT_PLAYING \<Longrightarrow> slot_has_player s"
  "sl_status s = SLOT_COMPLETE \<Longrightarrow> slot_has_player s"
  by (simp_all add: slot_has_player_def slot_has_player_eq)

lemma slot_ok_occupied:
  "slot_ok s \<Longrightarrow> occupied s \<longleftrightarrow>
     sl_status s \<in> {SLOT_NOT_READY, SLOT_READY, SLOT_NO_MAP, SLOT_PLAYING, SLOT_COMPLETE}"
  by (auto simp: slot_ok_def occupied_def split: if_splits)

lemma slot_ok_has_player: "slot_ok s \<Longrightarrow> slot_has_player s \<longleftrightarrow> occupied s"
  by (auto simp: slot_ok_def occupied_def split: if_splits)

lemma slot_ok_vacant: "slot_ok s \<Longrightarrow> \<not> occupied s \<longleftrightarrow> sl_status s \<in> {SLOT_OPEN, SLOT_LOCKED}"
  by (auto simp: slot_ok_def occupied_def split: if_splits)

lemma slot_ok_user: "slot_ok s \<Longrightarrow> occupied s \<longleftrightarrow> sl_user_id s \<noteq> - 1"
  by (auto simp: slot_ok_def occupied_def split: if_splits)

lemma occupied_positive: "occupied s \<Longrightarrow> positive (sl_user_id s)"
  by (simp add: occupied_def)

lemma default_slot_ok [simp]: "slot_ok default_slot" "\<not> occupied default_slot"
  "sl_user_id default_slot = - 1" "sl_status default_slot = SLOT_OPEN"
  by (simp_all add: slot_ok_def occupied_def default_slot_def slot_has_player_def
      slot_has_player_eq)

lemma players_seats: "players m = seats (m_slots m)"
  by (simp add: players_def seats_def occupied_def[abs_def])

lemma seats_simps [simp]:
  "seats [] = []"
  "seats (s # ss) = (if occupied s then sl_user_id s # seats ss else seats ss)"
  "seats (xs @ ys) = seats xs @ seats ys"
  by (simp_all add: seats_def)

lemma seats_positive: "u \<in> set (seats ss) \<Longrightarrow> positive u"
  by (auto simp: seats_def occupied_def)

lemma seat_of_user:
  "list_all slot_ok ss \<Longrightarrow> s \<in> set ss \<Longrightarrow> sl_user_id s = u \<Longrightarrow> positive u \<Longrightarrow> u \<in> set (seats ss)"
  by (auto simp: seats_def list_all_iff slot_ok_user)

lemma mem_seats:
  "list_all slot_ok ss \<Longrightarrow> u \<in> set (seats ss) \<longleftrightarrow> positive u \<and> (\<exists>s \<in> set ss. sl_user_id s = u)"
  by (auto simp: seats_positive seat_of_user) (auto simp: seats_def)

lemma position_seat:
  "list_all slot_ok ss \<Longrightarrow> positive u \<Longrightarrow>
     position (\<lambda>s. sl_user_id s = u) ss = None \<longleftrightarrow> u \<notin> set (seats ss)"
  by (auto simp: position_None mem_seats)

text \<open>A change of slots that keeps every player in its seat.\<close>

definition same_seat :: "match_slot \<Rightarrow> match_slot \<Rightarrow> bool" where
  "same_seat s s' \<longleftrightarrow> slot_ok s' \<and> sl_user_id s' = sl_user_id s"

lemma same_seat_refl: "slot_ok s \<Longrightarrow> same_seat s s"
  by (simp add: same_seat_def)

lemma same_seat_occupied: "slot_ok s \<Longrightarrow> same_seat s s' \<Longrightarrow> occupied s' = occupied s"
  by (auto simp: same_seat_def slot_ok_user)

lemma same_seats:
  assumes "list_all2 same_seat ss ss'" and "list_all slot_ok ss"
  shows "seats ss' = seats ss \<and> list_all slot_ok ss' \<and> length ss' = length ss"
  using assms
proof (induction rule: list_all2_induct)
  case (Cons s ss s' ss')
  then show ?case
    using same_seat_occupied[of s s'] by (simp add: same_seat_def)
qed simp

lemma match_ok_same_seats:
  assumes "match_ok m" and "list_all2 same_seat (m_slots m) (m_slots m')"
    and "m_host_id m' \<in> set (players m)"
  shows "match_ok m' \<and> players m' = players m"
  using same_seats[OF assms(2)] assms(1,3) by (auto simp: match_ok_def players_seats)

lemma same_seats_refl: "list_all slot_ok ss \<Longrightarrow> list_all2 same_seat ss ss"
  by (induction ss) (simp_all add: same_seat_refl)

lemma same_seats_update_first:
  "list_all slot_ok ss \<Longrightarrow> (\<And>s. slot_ok s \<Longrightarrow> p s \<Longrightarrow> same_seat s (f s)) \<Longrightarrow>
     list_all2 same_seat ss (update_first p f ss)"
  by (induction ss) (auto simp: same_seat_refl same_seats_refl)

lemma same_seats_map:
  "list_all slot_ok ss \<Longrightarrow> (\<And>s. slot_ok s \<Longrightarrow> same_seat s (f s)) \<Longrightarrow>
     list_all2 same_seat ss (map f ss)"
  by (induction ss) auto

lemma same_seats_list_update:
  "list_all slot_ok ss \<Longrightarrow> (slot_ok (ss ! i) \<Longrightarrow> same_seat (ss ! i) s') \<Longrightarrow> i < length ss \<Longrightarrow>
     list_all2 same_seat ss (ss[i := s'])"
  by (auto simp: list_all2_conv_all_nth nth_list_update same_seat_refl list_all_length)

subsection \<open>Leaving, entering and moving\<close>

lemma slots_ok_update_first:
  "list_all slot_ok ss \<Longrightarrow> (\<And>s. slot_ok s \<Longrightarrow> p s \<Longrightarrow> slot_ok (f s)) \<Longrightarrow>
     list_all slot_ok (update_first p f ss)"
  by (induction ss) auto

lemma seats_vacate:
  "list_all slot_ok ss \<Longrightarrow>
     seats (update_first (\<lambda>s. sl_user_id s = u) (\<lambda>_. default_slot) ss) = remove1 u (seats ss)"
proof (induction ss)
  case (Cons s ss)
  have "remove1 (- 1) (seats ss) = seats ss"
    by (rule remove1_idem) (auto dest: seats_positive)
  then show ?case
    using Cons slot_ok_user[of s] by (cases "occupied s"; cases "u = - 1") auto
qed simp

lemma players_vacate: "match_ok m \<Longrightarrow> players (vacate_slot u m) = remove1 u (players m)"
  by (simp add: players_seats vacate_slot_def seats_vacate match_ok_def)

lemma slots_ok_vacate:
  "list_all slot_ok (m_slots m) \<Longrightarrow> list_all slot_ok (m_slots (vacate_slot u m))"
  by (auto simp: vacate_slot_def intro!: slots_ok_update_first)

lemma seats_enter:
  assumes "list_all slot_ok ss" and "\<exists>s \<in> set ss. sl_status s = SLOT_OPEN"
    and "occupied s'" and "sl_user_id s' = u"
  shows "mset (seats (update_first (\<lambda>s. sl_status s = SLOT_OPEN) (\<lambda>_. s') ss))
    = add_mset u (mset (seats ss))"
  using assms(1,2)
proof (induction ss)
  case (Cons s ss)
  then show ?case
    using assms(3,4) by (auto simp: slot_ok_occupied)
qed simp

definition seat_mark :: "match_slot \<Rightarrow> i32 option" where
  "seat_mark s = (if occupied s then Some (sl_user_id s) else None)"

lemma seats_marks: "seats ss = map the (filter (\<lambda>x. x \<noteq> None) (map seat_mark ss))"
  by (induction ss) (auto simp: seat_mark_def)

lemma seats_move:
  assumes "i < length ss" and "j < length ss" and "\<not> occupied (ss ! i)"
  shows "mset (seats (ss[j := default_slot, i := ss ! j])) = mset (seats ss)"
proof -
  let ?marks = "map seat_mark ss"
  have i: "?marks ! i = None" and j: "?marks ! j = seat_mark (ss ! j)"
    using assms by (simp_all add: seat_mark_def)
  have "map seat_mark (ss[j := default_slot, i := ss ! j]) = ?marks[j := ?marks ! i, i := ?marks ! j]"
    unfolding i j map_update by (simp add: seat_mark_def)
  moreover have "mset (?marks[j := ?marks ! i, i := ?marks ! j]) = mset ?marks"
    by (rule mset_swap) (use assms in simp_all)
  ultimately have "mset (map seat_mark (ss[j := default_slot, i := ss ! j])) = mset ?marks"
    by simp
  then show ?thesis
    unfolding seats_marks mset_map[of the] mset_filter by (rule arg_cong)
qed

subsection \<open>The invariant of the rooms\<close>

lemma room_invI:
  assumes "\<And>mid m. hget (matches st) mid = Some m \<Longrightarrow>
      m_id m = mid \<and> match_ok m \<and> (m_in_progress m \<longleftrightarrow> hget (match_start_times st) mid \<noteq> None)"
    and "\<And>u mid. hget (user_to_match st) u = Some mid \<Longrightarrow>
      \<exists>m. hget (matches st) mid = Some m \<and> u \<in> set (players m)"
    and "\<And>u mid m. hget (matches st) mid = Some m \<Longrightarrow> u \<in> set (players m) \<Longrightarrow>
      hget (user_to_match st) u = Some mid"
    and "\<And>mid. hget (matches st) mid = None \<Longrightarrow> hget (match_start_times st) mid = None
      \<and> hget (match_last_scores st) mid = None \<and> hget (match_loaded_users st) mid = None"
    and "\<And>mid. mid \<in> set (pending_disbanded_matches st) \<Longrightarrow> hget (matches st) mid = None"
  shows "room_inv st"
  unfolding room_inv_def
  by (intro conjI allI impI ballI) (use assms in \<open>simp_all (no_asm_simp)\<close>)

lemma room_inv_match:
  assumes "room_inv st" and "hget (matches st) mid = Some m"
  shows "m_id m = mid" "match_ok m"
    "m_in_progress m \<longleftrightarrow> hget (match_start_times st) mid \<noteq> None"
  using assms unfolding room_inv_def by blast+

lemma room_inv_tables:
  assumes "room_inv st" and "hget (matches st) mid = None"
  shows "hget (match_start_times st) mid = None" "hget (match_last_scores st) mid = None"
    "hget (match_loaded_users st) mid = None"
  using assms unfolding room_inv_def by blast+

lemma room_inv_pending:
  "room_inv st \<Longrightarrow> mid \<in> set (pending_disbanded_matches st) \<Longrightarrow> hget (matches st) mid = None"
  unfolding room_inv_def by blast

lemma room_inv_user:
  "room_inv st \<Longrightarrow> hget (user_to_match st) u = Some mid \<longleftrightarrow>
     (\<exists>m. hget (matches st) mid = Some m \<and> u \<in> set (players m))"
  unfolding room_inv_def by blast

lemma room_inv_seat:
  assumes "room_inv st" and "hget (matches st) mid = Some m"
  shows "u \<in> set (players m) \<longleftrightarrow> hget (user_to_match st) u = Some mid"
  using assms by (auto simp: room_inv_user)

lemma room_inv_one_room:
  assumes "room_inv st" and "hget (matches st) mid = Some m" and "hget (matches st) mid' = Some m'"
    and "u \<in> set (players m)" and "u \<in> set (players m')"
  shows "mid = mid'"
  using room_inv_seat[OF assms(1,2), of u] room_inv_seat[OF assms(1,3), of u] assms(4,5) by simp

lemma room_inv_cong:
  "matches st' = matches st \<Longrightarrow> user_to_match st' = user_to_match st \<Longrightarrow>
     match_start_times st' = match_start_times st \<Longrightarrow>
     match_last_scores st' = match_last_scores st \<Longrightarrow>
     match_loaded_users st' = match_loaded_users st \<Longrightarrow>
     set (pending_disbanded_matches st') \<subseteq> set (pending_disbanded_matches st) \<Longrightarrow>
     room_inv st \<Longrightarrow> room_inv st'"
  unfolding room_inv_def by (simp (no_asm_simp)) blast

lemma match_ok_players_positive: "u \<in> set (players m) \<Longrightarrow> positive u"
  by (auto simp: players_seats dest: seats_positive)

lemma position_player:
  "match_ok m \<Longrightarrow> positive u \<Longrightarrow>
     position (\<lambda>s. sl_user_id s = u) (m_slots m) = None \<longleftrightarrow> u \<notin> set (players m)"
  by (simp add: players_seats match_ok_def position_seat)

text \<open>An open match replaced by one with the same players.\<close>

lemma room_inv_replace:
  assumes inv: "room_inv st" and m: "hget (matches st) mid = Some m"
    and m': "m_id m' = mid" "match_ok m'" "set (players m') = set (players m)"
      "m_in_progress m' = m_in_progress m"
  shows "room_inv (st\<lparr>matches := hput mid m' (matches st)\<rparr>)"
proof (rule room_invI, goal_cases)
  case (1 mid' x)
  then show ?case using m' room_inv_match[OF inv m] room_inv_match[OF inv, of mid' x]
    by (auto split: if_splits)
next
  case (2 u mid')
  then have "hget (user_to_match st) u = Some mid'" by simp
  then obtain x where "hget (matches st) mid' = Some x" "u \<in> set (players x)"
    using room_inv_user[OF inv] by blast
  then show ?case using m m'(3) by (cases "mid' = mid") simp_all
next
  case (3 u mid' x)
  then show ?case
    using m'(3) room_inv_seat[OF inv m, of u] room_inv_seat[OF inv, of mid' x u]
    by (auto split: if_splits)
next
  case (4 mid')
  then show ?case using room_inv_tables[OF inv, of mid'] by (auto split: if_splits)
next
  case (5 mid')
  then show ?case using room_inv_pending[OF inv, of mid'] m by auto
qed

text \<open>What leaving does, in the three ways it can end.\<close>

definition leave_match :: "i32 \<Rightarrow> bmatch \<Rightarrow> bmatch" where
  "leave_match u m =
     (let m1 = vacate_slot u m
      in if m_host_id m1 = u then m1\<lparr>m_host_id := hd (players m1)\<rparr> else m1)"

lemma leave_match_ok:
  assumes "match_ok m" and "players (vacate_slot u m) \<noteq> []"
  shows "match_ok (leave_match u m)" "players (leave_match u m) = remove1 u (players m)"
    "m_id (leave_match u m) = m_id m" "m_in_progress (leave_match u m) = m_in_progress m"
proof -
  have p: "players (m'\<lparr>m_host_id := h\<rparr>) = players m'" for m' h
    by (simp add: players_def)
  have v: "players (vacate_slot u m) = remove1 u (players m)"
    by (rule players_vacate[OF assms(1)])
  have f: "m_host_id (vacate_slot u m) = m_host_id m" "m_id (vacate_slot u m) = m_id m"
    "m_in_progress (vacate_slot u m) = m_in_progress m"
    "length (m_slots (vacate_slot u m)) = length (m_slots m)"
    by (simp_all add: vacate_slot_def)
  show pl: "players (leave_match u m) = remove1 u (players m)"
    by (simp add: leave_match_def Let_def p v)
  have sl: "m_slots (leave_match u m) = m_slots (vacate_slot u m)"
    by (simp add: leave_match_def Let_def)
  show "m_id (leave_match u m) = m_id m" "m_in_progress (leave_match u m) = m_in_progress m"
    by (simp_all add: leave_match_def Let_def f)
  have d: "distinct (players m)" and h: "m_host_id m \<in> set (players m)"
    using assms(1) by (simp_all add: match_ok_def)
  have "m_host_id (leave_match u m) \<in> set (remove1 u (players m))"
  proof (cases "m_host_id m = u")
    case True
    then show ?thesis using assms(2) by (simp add: leave_match_def Let_def f(1) v)
  next
    case False
    then show ?thesis using d h by (simp add: leave_match_def Let_def f(1))
  qed
  then show "match_ok (leave_match u m)"
    using assms(1) slots_ok_vacate[of m u] d by (simp add: match_ok_def sl pl f)
qed

lemma remove_user_absent:
  "hget (user_to_match st) u = None \<Longrightarrow> remove_user_from_match u st = (None, st)"
  by (simp add: remove_user_from_match_def)

lemma remove_user_present:
  assumes inv: "room_inv st" and u: "hget (user_to_match st) u = Some mid"
  obtains m where "hget (matches st) mid = Some m" and "u \<in> set (players m)"
    and "remove_user_from_match u st =
      (if players m = [u] then
         (Some (mid, vacate_slot u m, True),
          st\<lparr>user_to_match := hdel u (user_to_match st), matches := hdel mid (matches st),
             match_start_times := hdel mid (match_start_times st),
             match_last_scores := hdel mid (match_last_scores st),
             match_loaded_users := hdel mid (match_loaded_users st),
             pending_disbanded_matches := pending_disbanded_matches st @ [mid]\<rparr>)
       else
         (Some (mid, leave_match u m, False),
          st\<lparr>user_to_match := hdel u (user_to_match st),
             matches := hput mid (leave_match u m) (matches st)\<rparr>))"
proof -
  obtain m where m: "hget (matches st) mid = Some m" and p: "u \<in> set (players m)"
    using u inv by (auto simp: room_inv_user)
  have ok: "match_ok m" by (rule room_inv_match[OF inv m])
  have pos: "position (\<lambda>s. sl_user_id s = u) (m_slots m) \<noteq> None"
    using p position_player[OF ok match_ok_players_positive[OF p]] by simp
  have "remove1 u (players m) = [] \<longleftrightarrow> players m = [u]"
    using p by (cases "players m") auto
  then have "players (vacate_slot u m) = [] \<longleftrightarrow> players m = [u]"
    by (simp add: players_vacate[OF ok])
  then show ?thesis
    using that[OF m p] u m pos
    by (simp add: remove_user_from_match_def Let_def leave_match_def)
qed

lemma room_inv_disband:
  assumes inv: "room_inv st" and m: "hget (matches st) mid = Some m" and p: "players m = [u]"
  shows "room_inv (st\<lparr>user_to_match := hdel u (user_to_match st),
    matches := hdel mid (matches st),
    match_start_times := hdel mid (match_start_times st),
    match_last_scores := hdel mid (match_last_scores st),
    match_loaded_users := hdel mid (match_loaded_users st),
    pending_disbanded_matches := pending_disbanded_matches st @ [mid]\<rparr>)"
proof (rule room_invI, goal_cases)
  case (1 mid' x)
  then show ?case using room_inv_match[OF inv, of mid' x] by (auto split: if_splits)
next
  case (2 v mid')
  then show ?case using m p room_inv_seat[OF inv m, of v]
    by (auto simp: room_inv_user[OF inv] split: if_splits)
next
  case (3 v mid' x)
  then show ?case
    using m p room_inv_one_room[OF inv m, of mid' x u] room_inv_seat[OF inv, of mid' x v]
    by (auto split: if_splits)
next
  case (4 mid')
  then show ?case using room_inv_tables[OF inv, of mid'] by (auto split: if_splits)
next
  case (5 mid')
  then show ?case using room_inv_pending[OF inv, of mid'] by auto
qed

lemma room_inv_leave:
  assumes inv: "room_inv st" and m: "hget (matches st) mid = Some m"
    and u: "u \<in> set (players m)" and p: "players m \<noteq> [u]"
  shows "room_inv (st\<lparr>user_to_match := hdel u (user_to_match st),
    matches := hput mid (leave_match u m) (matches st)\<rparr>)"
proof -
  have ok: "match_ok m" by (rule room_inv_match[OF inv m])
  have "players (vacate_slot u m) \<noteq> []"
    using u p by (cases "players m") (auto simp: players_vacate[OF ok])
  note l = leave_match_ok[OF ok this]
  have s: "set (players (leave_match u m)) = set (players m) - {u}"
    using ok by (simp add: l(2) match_ok_def)
  show ?thesis
  proof (rule room_invI, goal_cases)
    case (1 mid' x)
    then show ?case using l room_inv_match[OF inv m] room_inv_match[OF inv, of mid' x]
      by (auto split: if_splits)
  next
    case (2 v mid')
    then have v: "v \<noteq> u" "hget (user_to_match st) v = Some mid'" by (simp_all split: if_splits)
    then obtain x where "hget (matches st) mid' = Some x" "v \<in> set (players x)"
      using room_inv_user[OF inv] by blast
    then show ?case using m s v by (cases "mid' = mid") simp_all
  next
    case (3 v mid' x)
    then show ?case
      using u s room_inv_seat[OF inv m, of v] room_inv_seat[OF inv, of mid' x v]
        room_inv_one_room[OF inv m, of mid' x u]
      by (auto split: if_splits)
  next
    case (4 mid')
    then show ?case using room_inv_tables[OF inv, of mid'] by (auto split: if_splits)
  next
    case (5 mid')
    then show ?case using room_inv_pending[OF inv, of mid'] m by auto
  qed
qed

lemma room_inv_remove_user [keeps]:
  assumes "room_inv st"
  shows "room_inv (snd (remove_user_from_match u st))"
proof (cases "hget (user_to_match st) u")
  case (Some mid)
  then show ?thesis
    by (rule remove_user_present[OF assms])
      (simp add: room_inv_disband[OF assms] room_inv_leave[OF assms])
qed (use assms in \<open>simp add: remove_user_absent\<close>)

subsection \<open>Seats and queues\<close>

lemma slots_distinct:
  "list_all slot_ok ss \<Longrightarrow> distinct (seats ss) \<Longrightarrow> positive u \<Longrightarrow> i < length ss \<Longrightarrow> j < length ss \<Longrightarrow>
     sl_user_id (ss ! i) = u \<Longrightarrow> sl_user_id (ss ! j) = u \<Longrightarrow> i = j"
proof (induction ss arbitrary: i j)
  case (Cons s ss)
  have "sl_user_id x \<noteq> u" if "sl_user_id s = u" "x \<in> set ss" for x
    using that Cons.prems(1-3) slot_ok_user[of s] seat_of_user[of ss x u]
    by (auto split: if_splits)
  then show ?case
    using Cons by (cases i; cases j) (auto split: if_splits)
qed simp

lemma position_seat_unique:
  assumes "match_ok m" and "positive u" and "i < 16" and "sl_user_id (m_slots m ! i) = u"
  shows "position (\<lambda>s. sl_user_id s = u) (m_slots m) = Some i"
proof (cases "position (\<lambda>s. sl_user_id s = u) (m_slots m)")
  case None
  then show ?thesis
    using assms nth_mem[of i "m_slots m"] by (auto simp: position_None match_ok_def)
next
  case (Some j)
  then show ?thesis
    using position_Some[OF Some] assms slots_distinct[of "m_slots m" u i j]
    by (auto simp: match_ok_def players_seats)
qed

lemma inbox_cong:
  "sessions st' = sessions st \<Longrightarrow> user_id_to_token st' = user_id_to_token st \<Longrightarrow>
     inbox u st' = inbox u st \<and> online u st' = online u st"
  by (simp add: inbox_def online_def get_session_by_user_id_def)

lemma inbox_to_match:
  assumes "session_inv st" and "match_ok m" and "hget (matches st) mid = Some m"
  shows "inbox u (broadcast_to_match mid packet except st) = inbox u st
    @ (if online u st \<and> u \<in> set (players m) \<and> Some u \<noteq> except then packet else [])"
proof -
  have "distinct (match_recipients m except)"
    using assms(2) by (simp add: match_ok_def match_recipients_eq)
  then show ?thesis
    by (auto simp: broadcast_to_match_def assms(3) inbox_fold_distinct[OF assms(1)]
        match_recipients_eq)
qed

lemma vacate_map:
  "list_all slot_ok ss \<Longrightarrow> distinct (seats ss) \<Longrightarrow> positive u \<Longrightarrow>
     update_first (\<lambda>s. sl_user_id s = u) (\<lambda>_. default_slot) ss =
       map (\<lambda>s. if sl_user_id s = u then default_slot else s) ss"
proof (induction ss)
  case (Cons s ss)
  show ?case
  proof (cases "sl_user_id s = u")
    case True
    then have "u \<notin> set (seats ss)"
      using Cons.prems slot_ok_user[of s] not_positive_minus_one by (auto simp: split: if_splits)
    then have "\<forall>x \<in> set ss. sl_user_id x \<noteq> u"
      using Cons.prems seat_of_user[of ss] by auto
    then have "map (\<lambda>s. if sl_user_id s = u then default_slot else s) ss = ss"
      by (simp add: map_idI)
    then show ?thesis using True by simp
  qed (use Cons in \<open>auto split: if_splits\<close>)
qed simp

lemma vacate_slots:
  assumes "match_ok m" and "positive u" and "i < 16"
  shows "m_slots (vacate_slot u m) ! i =
    (if sl_user_id (m_slots m ! i) = u then default_slot else m_slots m ! i)"
  using assms by (simp add: vacate_slot_def match_ok_def players_seats vacate_map)

end
