(* ===== verification/Tasks.thy ===== *)
theory Tasks
  imports Delivery
begin

unbundle bit_operations_syntax

text \<open>
  The work the handlers of \<^verbatim>\<open>src/bancho/handler.rs\<close> hand to the runtime with
  \<^verbatim>\<open>tokio::spawn\<close>, as values in the order it is spawned; the rows it carries
  (\<^verbatim>\<open>src/db/multi.rs\<close>, \<^verbatim>\<open>src/db/matches.rs\<close>); and the state of the handlers, the shared
  state together with the spawned tasks.  A room's slots stay a list of records here: the
  code stores their JSON text.
\<close>

subsection \<open>Rows\<close>

record live_slot =
  lv_slot_id :: nat
  lv_user_id :: i32
  lv_username :: rstr
  lv_status :: u8
  lv_status_text :: rstr
  lv_team :: u8
  lv_mods :: u32

record live_room =
  lr_match_id :: i64
  lr_name :: rstr
  lr_host_id :: i64
  lr_host_name :: rstr
  lr_beatmap_id :: i64
  lr_beatmap_name :: rstr
  lr_beatmap_md5 :: rstr
  lr_mode :: i64
  lr_scoring_type :: i64
  lr_team_type :: i64
  lr_mods :: i64
  lr_in_progress :: i64
  lr_player_count :: i64
  lr_slots :: "live_slot list"
  lr_created_at :: i64
  lr_updated_at :: i64

record new_match_score =
  ns_user_id :: i32
  ns_username :: rstr
  ns_slot_id :: u8
  ns_team :: u8
  ns_score :: i32
  ns_max_combo :: u16
  ns_accuracy :: fp
  ns_c300 :: u16
  ns_c100 :: u16
  ns_c50 :: u16
  ns_c_miss :: u16
  ns_c_geki :: u16
  ns_c_katu :: u16
  ns_passed :: bool
  ns_won :: bool

text \<open>The arguments \<^verbatim>\<open>save_match_result\<close> and \<^verbatim>\<open>record_multi_game\<close> have in common.\<close>

record match_result =
  mr_beatmap_id :: i32
  mr_beatmap_name :: rstr
  mr_beatmap_md5 :: rstr
  mr_mode :: u8
  mr_scoring_type :: u8
  mr_team_type :: u8
  mr_mods :: u32
  mr_duration :: i64
  mr_winner_id :: i32
  mr_winner_name :: rstr
  mr_scores :: "new_match_score list"

subsection \<open>Tasks and the handlers' state\<close>

datatype task =
    SaveChat i32 rstr rstr rstr bool
  | UpsertRoom live_room
  | DeleteRoom u16
  | SaveMatchResult rstr match_result
  | RecordGame u16 match_result
  | ReplayHistory rstr rstr

record sys = bancho_state +
  tasks :: "task list"

text \<open>What a handler reads from outside the state: the clocks and the configuration.\<close>

record env =
  e_now :: instant
  e_utc :: i64
  e_bot_name :: rstr
  e_bot_id :: i32
  e_history_limit :: i64

definition spawn :: "task \<Rightarrow> sys \<Rightarrow> sys" where
  "spawn t st = st\<lparr>tasks := tasks st @ [t]\<rparr>"

definition get_slot_status_text :: "u8 \<Rightarrow> rstr" where
  "get_slot_status_text status =
     (if status AND SLOT_PLAYING > 0 then lit ''Playing''
      else if status AND SLOT_READY > 0 then lit ''Ready''
      else if status AND SLOT_NOT_READY > 0 then lit ''Not Ready''
      else if status AND SLOT_NO_MAP > 0 then lit ''No Map''
      else if status AND SLOT_COMPLETE > 0 then lit ''Complete''
      else if status = SLOT_LOCKED then lit ''Locked''
      else lit ''Open'')"

definition user_name_or :: "'x bancho_state_scheme \<Rightarrow> string \<Rightarrow> i32 \<Rightarrow> rstr" where
  "user_name_or st prefix uid =
     (case get_session_by_user_id uid st of
        Some s \<Rightarrow> ss_username s
      | None \<Rightarrow> lit prefix @ show_int (sint uid))"

definition live_slot_of :: "'x bancho_state_scheme \<Rightarrow> nat \<Rightarrow> match_slot \<Rightarrow> live_slot" where
  "live_slot_of st i slot =
     \<lparr>lv_slot_id = i, lv_user_id = sl_user_id slot,
      lv_username = (if positive (sl_user_id slot) then user_name_or st ''Player '' (sl_user_id slot)
                     else []),
      lv_status = sl_status slot, lv_status_text = get_slot_status_text (sl_status slot),
      lv_team = sl_team slot, lv_mods = sl_mods slot\<rparr>"

definition live_room_of :: "env \<Rightarrow> 'x bancho_state_scheme \<Rightarrow> bmatch \<Rightarrow> live_room" where
  "live_room_of env st m =
     \<lparr>lr_match_id = ucast (m_id m), lr_name = m_name m, lr_host_id = scast (m_host_id m),
      lr_host_name = user_name_or st ''User '' (m_host_id m),
      lr_beatmap_id = scast (m_beatmap_id m), lr_beatmap_name = m_beatmap_name m,
      lr_beatmap_md5 = m_beatmap_md5 m, lr_mode = ucast (m_play_mode m),
      lr_scoring_type = ucast (m_scoring_type m), lr_team_type = ucast (m_team_type m),
      lr_mods = ucast (m_active_mods m), lr_in_progress = (if m_in_progress m then 1 else 0),
      lr_player_count =
        of_nat (length (filter (\<lambda>s. slot_has_player s \<and> positive (sl_user_id s)) (m_slots m))),
      lr_slots = map2 (live_slot_of st) [0..<length (m_slots m)] (m_slots m),
      lr_created_at = e_utc env, lr_updated_at = e_utc env\<rparr>"

definition sync_match_to_multi_db :: "env \<Rightarrow> u16 \<Rightarrow> sys \<Rightarrow> sys" where
  "sync_match_to_multi_db env match_id st =
     (case hget (matches st) match_id of
        None \<Rightarrow> st
      | Some m \<Rightarrow> spawn (UpsertRoom (live_room_of env st m)) st)"

definition cleanup_disbanded_matches :: "sys \<Rightarrow> sys" where
  "cleanup_disbanded_matches st =
     (let (disbanded, st1) = take_disbanded_matches st
      in fold (\<lambda>mid. spawn (DeleteRoom mid)) disbanded st1)"

subsection \<open>Spawning changes nothing but the tasks\<close>

lemma spawn_fields [simp]:
  "sessions (spawn t st) = sessions st"
  "user_id_to_token (spawn t st) = user_id_to_token st"
  "channels (spawn t st) = channels st"
  "matches (spawn t st) = matches st"
  "next_match_id (spawn t st) = next_match_id st"
  "user_to_match (spawn t st) = user_to_match st"
  "lobby_subscribers (spawn t st) = lobby_subscribers st"
  "match_start_times (spawn t st) = match_start_times st"
  "match_last_scores (spawn t st) = match_last_scores st"
  "match_loaded_users (spawn t st) = match_loaded_users st"
  "pending_disbanded_matches (spawn t st) = pending_disbanded_matches st"
  "spectators (spawn t st) = spectators st"
  "spectating_target (spawn t st) = spectating_target st"
  "chat_filter (spawn t st) = chat_filter st"
  "pm_warned_pairs (spawn t st) = pm_warned_pairs st"
  "tasks (spawn t st) = tasks st @ [t]"
  by (simp_all add: spawn_def)

lemma fold_spawn: "fold (\<lambda>x. spawn (f x)) xs st = st\<lparr>tasks := tasks st @ map f xs\<rparr>"
  by (induction xs arbitrary: st) (simp_all add: spawn_def)

lemma cleanup_eq:
  "cleanup_disbanded_matches st =
     st\<lparr>pending_disbanded_matches := [],
        tasks := tasks st @ map DeleteRoom (pending_disbanded_matches st)\<rparr>"
  by (simp add: cleanup_disbanded_matches_def take_disbanded_matches_def fold_spawn)

lemma sync_eq:
  "sync_match_to_multi_db env mid st =
     (case hget (matches st) mid of None \<Rightarrow> st
      | Some m \<Rightarrow> st\<lparr>tasks := tasks st @ [UpsertRoom (live_room_of env st m)]\<rparr>)"
  by (simp add: sync_match_to_multi_db_def spawn_def split: option.split)

lemma tasks_more:
  "bancho_state.more a = bancho_state.more b \<Longrightarrow> tasks a = tasks b" for a b :: "'z sys_scheme"
  by (cases a; cases b) simp

lemma tasks_delivery [simp]:
  "tasks (enqueue_to_user p u st) = tasks st"
  "tasks (modify_session t f st) = tasks st"
  "tasks (broadcast_to_match mid p ex st) = tasks st"
  "tasks (broadcast_to_lobby p st) = tasks st"
  "tasks (broadcast_to_channel ch p st) = tasks st"
  "tasks (broadcast_to_channel_except ch p u st) = tasks st"
  "tasks (broadcast_to_spectators u p st) = tasks st"
  "tasks (broadcast p st) = tasks st"
  "tasks (broadcast_except p t st) = tasks st"
  "tasks (send_to_user u p st) = tasks st"
  "tasks (announce_left l st) = tasks st"
  "tasks (announce_stopped u h st) = tasks st"
  by - (rule tasks_more, simp)+

end
