(* ===== verification/Match_Edits.thy ===== *)
theory Match_Edits
  imports Rooms Tasks
begin

unbundle bit_operations_syntax

text \<open>
  The changes a player makes to the match it is in
  (\<^verbatim>\<open>src/bancho/handler.rs\<close>, the \<^verbatim>\<open>OSU_MATCH_*\<close> arms that write through
  \<^verbatim>\<open>matches.get_mut\<close>), as functions on one match, and their contract: the players stay
  the same and the match stays well formed.
\<close>

subsection \<open>The player's own match\<close>

text \<open>
  The arms look up the player's match and either write it and keep its id and new content
  for the announcement, or do nothing.
\<close>

definition update_own_match ::
    "(i32 \<Rightarrow> bmatch \<Rightarrow> bmatch option) \<Rightarrow> i32 \<Rightarrow> 'x bancho_state_scheme \<Rightarrow>
     (u16 \<times> bmatch) option \<times> 'x bancho_state_scheme" where
  "update_own_match edit uid st =
     (case hget (user_to_match st) uid of
        None \<Rightarrow> (None, st)
      | Some match_id \<Rightarrow>
          (case hget (matches st) match_id of
             None \<Rightarrow> (None, st)
           | Some m \<Rightarrow>
               (case edit uid m of
                  None \<Rightarrow> (None, st)
                | Some m' \<Rightarrow>
                    (Some (match_id, m'), st\<lparr>matches := hput match_id m' (matches st)\<rparr>))))"

text \<open>\<^verbatim>\<open>slots.iter_mut().find(|s| s.user_id == user_id)\<close>.\<close>

definition edit_own_slot :: "(match_slot \<Rightarrow> match_slot) \<Rightarrow> i32 \<Rightarrow> bmatch \<Rightarrow> bmatch option" where
  "edit_own_slot f uid m =
     (if position (\<lambda>s. sl_user_id s = uid) (m_slots m) = None then None
      else Some (m\<lparr>m_slots := update_first (\<lambda>s. sl_user_id s = uid) f (m_slots m)\<rparr>))"

definition set_own_status :: "u8 \<Rightarrow> i32 \<Rightarrow> bmatch \<Rightarrow> bmatch option" where
  "set_own_status status = edit_own_slot (\<lambda>s. s\<lparr>sl_status := status\<rparr>)"

definition change_team :: "i32 \<Rightarrow> bmatch \<Rightarrow> bmatch option" where
  "change_team = edit_own_slot
     (\<lambda>s. s\<lparr>sl_team := (if sl_team s = TEAM_BLUE then TEAM_RED else TEAM_BLUE)\<rparr>)"

text \<open>\<^verbatim>\<open>slot_id_i32 as usize\<close> sign-extends, so a negative id is no slot.\<close>

definition usize_of_i32 :: "i32 \<Rightarrow> nat" where
  "usize_of_i32 i = unat (scast i :: u64)"

definition change_slot :: "i32 \<Rightarrow> i32 \<Rightarrow> bmatch \<Rightarrow> bmatch option" where
  "change_slot slot_id_i32 uid m =
     (let new_slot = usize_of_i32 slot_id_i32
      in if new_slot < 16 \<and> sl_status (m_slots m ! new_slot) = SLOT_OPEN then
           (case position (\<lambda>s. sl_user_id s = uid) (m_slots m) of
              None \<Rightarrow> None
            | Some j \<Rightarrow>
                let old = m_slots m ! j;
                    slots1 = (m_slots m)[j := default_slot]
                in Some (m\<lparr>m_slots := slots1[new_slot :=
                     (slots1 ! new_slot)\<lparr>sl_user_id := sl_user_id old, sl_status := sl_status old,
                        sl_team := sl_team old, sl_mods := sl_mods old\<rparr>]\<rparr>))
         else None)"

definition lock_slot :: "i32 \<Rightarrow> i32 \<Rightarrow> bmatch \<Rightarrow> bmatch option" where
  "lock_slot slot_id_i32 uid m =
     (let slot_id = usize_of_i32 slot_id_i32
      in if m_host_id m = uid \<and> slot_id < 16 then
           let cur = sl_status (m_slots m ! slot_id)
           in if cur = SLOT_OPEN then
                Some (m\<lparr>m_slots := (m_slots m)[slot_id := (m_slots m ! slot_id)\<lparr>sl_status := SLOT_LOCKED\<rparr>]\<rparr>)
              else if cur = SLOT_LOCKED then
                Some (m\<lparr>m_slots := (m_slots m)[slot_id := (m_slots m ! slot_id)\<lparr>sl_status := SLOT_OPEN\<rparr>]\<rparr>)
              else Some m
         else None)"

text \<open>The host's new settings: the other players who were ready no longer are.\<close>

definition unready_slot :: "i32 \<Rightarrow> match_slot \<Rightarrow> match_slot" where
  "unready_slot uid s =
     (if positive (sl_user_id s) \<and> sl_user_id s \<noteq> uid \<and> sl_status s = SLOT_READY
      then s\<lparr>sl_status := SLOT_NOT_READY\<rparr> else s)"

definition change_settings :: "bmatch \<Rightarrow> i32 \<Rightarrow> bmatch \<Rightarrow> bmatch option" where
  "change_settings updated uid m =
     (if m_host_id m = uid then
        Some (m\<lparr>m_name := m_name updated, m_beatmap_name := m_beatmap_name updated,
                m_beatmap_id := m_beatmap_id updated, m_beatmap_md5 := m_beatmap_md5 updated,
                m_active_mods := m_active_mods updated, m_play_mode := m_play_mode updated,
                m_scoring_type := m_scoring_type updated, m_team_type := m_team_type updated,
                m_freemod := m_freemod updated,
                m_slots := map (unready_slot uid) (m_slots m)\<rparr>)
      else None)"

definition change_mods :: "u32 \<Rightarrow> i32 \<Rightarrow> bmatch \<Rightarrow> bmatch option" where
  "change_mods mods uid m =
     (if m_freemod m then edit_own_slot (\<lambda>s. s\<lparr>sl_mods := mods\<rparr>) uid m
      else if m_host_id m = uid then Some (m\<lparr>m_active_mods := mods\<rparr>)
      else None)"

definition change_host :: "i32 \<Rightarrow> i32 \<Rightarrow> bmatch \<Rightarrow> bmatch option" where
  "change_host slot_id_i32 uid m =
     (let slot_id = usize_of_i32 slot_id_i32
      in if m_host_id m = uid \<and> slot_id < 16 \<and> slot_has_player (m_slots m ! slot_id)
         then Some (m\<lparr>m_host_id := sl_user_id (m_slots m ! slot_id)\<rparr>)
         else None)"

definition start_slot :: "match_slot \<Rightarrow> match_slot" where
  "start_slot s =
     (if sl_status s AND (SLOT_READY OR SLOT_NOT_READY) > 0 then s\<lparr>sl_status := SLOT_PLAYING\<rparr>
      else s)"

definition start_match :: "i32 \<Rightarrow> bmatch \<Rightarrow> bmatch option" where
  "start_match uid m =
     (if m_host_id m = uid
      then Some (m\<lparr>m_in_progress := True, m_slots := map start_slot (m_slots m)\<rparr>)
      else None)"

subsection \<open>The contract of an edit\<close>

locale room_edit =
  fixes edit :: "i32 \<Rightarrow> bmatch \<Rightarrow> bmatch option"
  assumes edit_ok: "match_ok m \<Longrightarrow> u \<in> set (players m) \<Longrightarrow> edit u m = Some m' \<Longrightarrow>
      match_ok m' \<and> set (players m') = set (players m)"
    and edit_id: "edit u m = Some m' \<Longrightarrow> m_id m' = m_id m"
begin

lemma edit_matches:
  assumes "room_inv st" and "update_own_match edit u st = (Some (mid, m'), st')"
  obtains m where "hget (user_to_match st) u = Some mid" and "hget (matches st) mid = Some m"
    and "edit u m = Some m'" and "m_id m' = mid" and "match_ok m'"
    and "set (players m') = set (players m)"
    and "st' = st\<lparr>matches := hput mid m' (matches st)\<rparr>"
proof -
  obtain m where m: "hget (user_to_match st) u = Some mid" "hget (matches st) mid = Some m"
    "edit u m = Some m'" "st' = st\<lparr>matches := hput mid m' (matches st)\<rparr>"
    using assms(2) by (auto simp: update_own_match_def split: option.splits)
  have "u \<in> set (players m)"
    using m(1,2) by (simp add: room_inv_seat[OF assms(1)])
  then show ?thesis
    using that[OF m(1-3)] m edit_ok[OF room_inv_match(2)[OF assms(1) m(2)] _ m(3)]
      edit_id[OF m(3)] room_inv_match(1)[OF assms(1) m(2)] by auto
qed

lemma no_edit: "update_own_match edit u st = (None, st') \<Longrightarrow> st' = st"
  by (auto simp: update_own_match_def split: option.splits)

end

locale calm_edit = room_edit +
  assumes edit_progress: "edit u m = Some m' \<Longrightarrow> m_in_progress m' = m_in_progress m"
begin

lemma edit_keeps:
  assumes "room_inv st" and "update_own_match edit u st = (r, st')"
  shows "room_inv st'"
proof (cases r)
  case None
  then show ?thesis using assms no_edit by auto
next
  case (Some a)
  then obtain mid m' where r: "r = Some (mid, m')" by (cases a) auto
  show ?thesis
    using assms(1) assms(2)[unfolded r]
    by (rule edit_matches) (auto intro!: room_inv_replace[OF assms(1)] edit_progress)
qed

end

subsection \<open>The edits meet it\<close>

lemma match_ok_fields:
  assumes "match_ok m" and "list_all2 same_seat (m_slots m) (m_slots m')"
    and "m_host_id m' = m_host_id m"
  shows "match_ok m' \<and> set (players m') = set (players m)"
  using match_ok_same_seats[OF assms(1,2)] assms(1,3) by (simp add: match_ok_def)

lemma edit_own_slot_ok:
  assumes "match_ok m" and "edit_own_slot f u m = Some m'" and "positive u"
    and "\<And>s. sl_user_id (f s) = sl_user_id s"
    and "\<And>s. slot_ok s \<Longrightarrow> positive (sl_user_id s) \<Longrightarrow> slot_ok (f s)"
  shows "match_ok m' \<and> set (players m') = set (players m)"
proof (rule match_ok_fields[OF assms(1)])
  show "list_all2 same_seat (m_slots m) (m_slots m')"
    using assms
    by (auto simp: edit_own_slot_def match_ok_def same_seat_def split: if_splits
        intro!: same_seats_update_first)
  show "m_host_id m' = m_host_id m"
    using assms(2) by (auto simp: edit_own_slot_def split: if_splits)
qed

lemma edit_own_slot_frame:
  "edit_own_slot f u m = Some m' \<Longrightarrow> m_id m' = m_id m \<and> m_in_progress m' = m_in_progress m"
  by (auto simp: edit_own_slot_def split: if_splits)

lemma calm_own_slot:
  assumes "\<And>s. sl_user_id (f s) = sl_user_id s"
    and "\<And>s. slot_ok s \<Longrightarrow> positive (sl_user_id s) \<Longrightarrow> slot_ok (f s)"
  shows "calm_edit (edit_own_slot f)"
  by unfold_locales
    (use assms edit_own_slot_ok[of _ f] edit_own_slot_frame[of f] match_ok_players_positive
      in blast)+

lemma slot_ok_set_status:
  "slot_ok s \<Longrightarrow> positive (sl_user_id s) \<Longrightarrow>
     status \<in> {SLOT_NOT_READY, SLOT_READY, SLOT_NO_MAP, SLOT_PLAYING, SLOT_COMPLETE} \<Longrightarrow>
     slot_ok (s\<lparr>sl_status := status\<rparr>)"
  by (simp add: slot_ok_def)

interpretation ready_edit: calm_edit "set_own_status SLOT_READY"
  unfolding set_own_status_def by (rule calm_own_slot) (simp_all add: slot_ok_set_status)

interpretation not_ready_edit: calm_edit "set_own_status SLOT_NOT_READY"
  unfolding set_own_status_def by (rule calm_own_slot) (simp_all add: slot_ok_set_status)

interpretation no_map_edit: calm_edit "set_own_status SLOT_NO_MAP"
  unfolding set_own_status_def by (rule calm_own_slot) (simp_all add: slot_ok_set_status)

interpretation complete_edit: calm_edit "set_own_status SLOT_COMPLETE"
  unfolding set_own_status_def by (rule calm_own_slot) (simp_all add: slot_ok_set_status)

interpretation team_edit: calm_edit change_team
  unfolding change_team_def by (rule calm_own_slot) (auto simp: slot_ok_def split: if_splits)

interpretation own_mods_edit: calm_edit "edit_own_slot (\<lambda>s. s\<lparr>sl_mods := mods\<rparr>)" for mods
  by (rule calm_own_slot) (auto simp: slot_ok_def split: if_splits)

interpretation mods_edit: calm_edit "change_mods mods" for mods
proof unfold_locales
  fix m m' and u :: i32
  assume "match_ok m" "u \<in> set (players m)" "change_mods mods u m = Some m'"
  then show "match_ok m' \<and> set (players m') = set (players m)"
    using own_mods_edit.edit_ok[of m u mods m']
    by (auto simp: change_mods_def match_ok_def players_def split: if_splits)
next
  fix m m' and u :: i32
  assume "change_mods mods u m = Some m'"
  then show "m_id m' = m_id m" "m_in_progress m' = m_in_progress m"
    using own_mods_edit.edit_id[of mods u m m'] own_mods_edit.edit_progress[of mods u m m']
    by (auto simp: change_mods_def split: if_splits)
qed

lemma slot_nth_ok: "match_ok m \<Longrightarrow> i < 16 \<Longrightarrow> slot_ok (m_slots m ! i)"
  by (simp add: match_ok_def list_all_length)

interpretation lock_edit: calm_edit "lock_slot i" for i
proof unfold_locales
  fix m m' and u :: i32
  assume a: "match_ok m" "u \<in> set (players m)" "lock_slot i u m = Some m'"
  show "match_ok m' \<and> set (players m') = set (players m)"
  proof (rule match_ok_fields[OF a(1)])
    show "list_all2 same_seat (m_slots m) (m_slots m')"
      using a slot_nth_ok[OF a(1), of "usize_of_i32 i"]
      by (auto simp: lock_slot_def Let_def match_ok_def same_seat_def slot_ok_def
          split: if_splits intro!: same_seats_list_update same_seats_refl)
    show "m_host_id m' = m_host_id m"
      using a(3) by (auto simp: lock_slot_def Let_def split: if_splits)
  qed
qed (auto simp: lock_slot_def Let_def split: if_splits)

interpretation settings_edit: calm_edit "change_settings new" for new
proof unfold_locales
  fix m m' and u :: i32
  assume a: "match_ok m" "u \<in> set (players m)" "change_settings new u m = Some m'"
  show "match_ok m' \<and> set (players m') = set (players m)"
    by (rule match_ok_fields[OF a(1)])
      (use a in \<open>auto simp: change_settings_def match_ok_def same_seat_def unready_slot_def
        slot_ok_def split: if_splits intro!: same_seats_map\<close>)
qed (auto simp: change_settings_def split: if_splits)

interpretation host_edit: calm_edit "change_host i" for i
proof unfold_locales
  fix m m' and u :: i32
  assume a: "match_ok m" "u \<in> set (players m)" "change_host i u m = Some m'"
  let ?s = "m_slots m ! usize_of_i32 i"
  from a(3) have i: "usize_of_i32 i < 16" "slot_has_player ?s"
    and m': "m' = m\<lparr>m_host_id := sl_user_id ?s\<rparr>"
    by (auto simp: change_host_def Let_def split: if_splits)
  have "occupied ?s" using slot_nth_ok[OF a(1) i(1)] i(2) by (simp add: slot_ok_has_player)
  moreover have "?s \<in> set (m_slots m)" using a(1) i(1) by (simp add: match_ok_def)
  ultimately have "sl_user_id ?s \<in> set (players m)" by (auto simp: players_seats seats_def)
  then show "match_ok m' \<and> set (players m') = set (players m)"
    using a(1) by (simp add: m' match_ok_def players_def)
qed (auto simp: change_host_def Let_def split: if_splits)

lemma change_slot_Some:
  assumes "change_slot i u m = Some m'"
  obtains j where "position (\<lambda>s. sl_user_id s = u) (m_slots m) = Some j"
    and "usize_of_i32 i < 16" and "sl_status (m_slots m ! usize_of_i32 i) = SLOT_OPEN"
    and "m' = m\<lparr>m_slots := (m_slots m)[j := default_slot, usize_of_i32 i := m_slots m ! j]\<rparr>"
proof -
  have r: "s\<lparr>sl_user_id := sl_user_id t, sl_status := sl_status t, sl_team := sl_team t,
      sl_mods := sl_mods t\<rparr> = t" for s t :: match_slot
    by (cases s; cases t) simp
  show ?thesis
    using assms that by (auto simp: change_slot_def Let_def r split: if_splits option.splits)
qed

interpretation slot_edit: calm_edit "change_slot i" for i
proof unfold_locales
  fix m m' and u :: i32
  assume a: "match_ok m" "u \<in> set (players m)" "change_slot i u m = Some m'"
  from a(3) show "match_ok m' \<and> set (players m') = set (players m)"
  proof (rule change_slot_Some)
    fix j
    let ?i = "usize_of_i32 i"
    assume j: "position (\<lambda>s. sl_user_id s = u) (m_slots m) = Some j"
      and i: "?i < 16" "sl_status (m_slots m ! ?i) = SLOT_OPEN"
      and m': "m' = m\<lparr>m_slots := (m_slots m)[j := default_slot, ?i := m_slots m ! j]\<rparr>"
    have len: "length (m_slots m) = 16" and ok: "list_all slot_ok (m_slots m)"
      using a(1) by (simp_all add: match_ok_def)
    have "\<not> occupied (m_slots m ! ?i)" using i(2) by (simp add: occupied_def)
    then have ms: "mset (players m') = mset (players m)"
      using seats_move[of ?i "m_slots m" j] position_Some[OF j] i(1) len
      by (simp add: players_seats m')
    have "list_all slot_ok (m_slots m')"
      using ok position_Some[OF j] len i(1)
      by (simp add: m' list_all_length nth_list_update)
    moreover have "distinct (players m')" "set (players m') = set (players m)"
      using ms a(1) mset_eq_imp_distinct_iff[OF ms] mset_eq_setD[OF ms]
      by (simp_all add: match_ok_def)
    ultimately show ?thesis using a(1) len by (simp add: match_ok_def m')
  qed
qed (auto elim!: change_slot_Some)

lemma start_slot_ok: "slot_ok s \<Longrightarrow> same_seat s (start_slot s)"
  by (auto simp: same_seat_def start_slot_def slot_ok_def split: if_splits)

interpretation start_edit: room_edit start_match
proof unfold_locales
  fix m m' and u :: i32
  assume a: "match_ok m" "u \<in> set (players m)" "start_match u m = Some m'"
  show "match_ok m' \<and> set (players m') = set (players m)"
    by (rule match_ok_fields[OF a(1)])
      (use a in \<open>auto simp: start_match_def match_ok_def split: if_splits
        intro!: same_seats_map start_slot_ok\<close>)
qed (auto simp: start_match_def split: if_splits)

end
