(* ===== verification/Match_Result.thy ===== *)
theory Match_Result
  imports Match_Edits
begin

unbundle bit_operations_syntax

text \<open>
  \<^verbatim>\<open>try_finish_match\<close> of \<^verbatim>\<open>src/bancho/handler.rs\<close>: when a running match is over, who
  won, what is announced and what is saved.  The accuracies are computed in \<^verbatim>\<open>f32\<close>, the
  16-bit hit counters are added at 16 bits.
\<close>

subsection \<open>Scores\<close>

definition match_over :: "bmatch \<Rightarrow> bool" where
  "match_over m \<longleftrightarrow>
     (let still_playing = list_ex (\<lambda>s. sl_status s = SLOT_PLAYING) (m_slots m);
          any_completed = list_ex (\<lambda>s. sl_status s = SLOT_COMPLETE) (m_slots m)
      in \<not> still_playing \<and> (any_completed \<or> list_all (\<lambda>s. \<not> slot_has_player s) (m_slots m)))"

definition session_names :: "'x bancho_state_scheme \<Rightarrow> (i32, rstr) hmap" where
  "session_names st = fold (\<lambda>(t, s). hput (ss_user_id s) (ss_username s)) (sessions st) []"

definition hit_accuracy :: "match_score_frame \<Rightarrow> fp" where
  "hit_accuracy frame =
     (let count = (\<lambda>n :: u16. fp_of_int f32 (uint n));
          total_hits = count (fr_total_300 frame + fr_total_100 frame + fr_total_50 frame
                              + fr_total_miss frame)
      in if fp_less (Zero False) total_hits then
           fp_mul f32
             (fp_div f32
               (fp_add f32
                 (fp_add f32 (fp_mul f32 (count (fr_total_300 frame)) (Fin 300))
                             (fp_mul f32 (count (fr_total_100 frame)) (Fin 100)))
                 (fp_mul f32 (count (fr_total_50 frame)) (Fin 50)))
               (fp_mul f32 total_hits (Fin 300)))
             (Fin 100)
         else Zero False)"

definition slot_score ::
    "(i32, rstr) hmap \<Rightarrow> (i32, match_score_frame) hmap \<Rightarrow> nat \<Rightarrow> match_slot \<Rightarrow> new_match_score" where
  "slot_score names last_scores i slot =
     (let u_name = (case hget names (sl_user_id slot) of Some n \<Rightarrow> n
                    | None \<Rightarrow> lit ''Player '' @ show_int (sint (sl_user_id slot)));
          blank = \<lparr>ns_user_id = sl_user_id slot, ns_username = u_name, ns_slot_id = of_nat i,
            ns_team = sl_team slot, ns_score = 0, ns_max_combo = 0, ns_accuracy = Zero False,
            ns_c300 = 0, ns_c100 = 0, ns_c50 = 0, ns_c_miss = 0, ns_c_geki = 0, ns_c_katu = 0,
            ns_passed = False, ns_won = False\<rparr>
      in case hget last_scores (sl_user_id slot) of
           None \<Rightarrow> blank
         | Some frame \<Rightarrow> blank\<lparr>ns_score := fr_total_score frame,
             ns_max_combo := fr_max_combo frame, ns_accuracy := hit_accuracy frame,
             ns_c300 := fr_total_300 frame, ns_c100 := fr_total_100 frame,
             ns_c50 := fr_total_50 frame, ns_c_miss := fr_total_miss frame,
             ns_c_geki := fr_total_geki frame, ns_c_katu := fr_total_katu frame,
             ns_passed := True\<rparr>)"

text \<open>The loop over the slots: the scores so far, and the best of them.\<close>

record tally =
  ta_scores :: "new_match_score list"
  ta_winner_id :: i32
  ta_winner_name :: rstr
  ta_highest :: i32

definition start_tally :: tally where
  "start_tally = \<lparr>ta_scores = [], ta_winner_id = - 1, ta_winner_name = [], ta_highest = - 1\<rparr>"

definition count_score :: "new_match_score \<Rightarrow> tally \<Rightarrow> tally" where
  "count_score sc ta =
     (let ta1 = (if sint (ta_highest ta) < sint (ns_score sc)
                 then ta\<lparr>ta_highest := ns_score sc, ta_winner_id := ns_user_id sc,
                         ta_winner_name := ns_username sc\<rparr>
                 else ta)
      in ta1\<lparr>ta_scores := ta_scores ta1 @ [sc]\<rparr>)"

fun score_slots ::
    "(i32, rstr) hmap \<Rightarrow> (i32, match_score_frame) hmap \<Rightarrow> nat \<Rightarrow> match_slot list \<Rightarrow> tally \<Rightarrow> tally" where
  "score_slots names last_scores i [] ta = ta"
| "score_slots names last_scores i (slot # slots) ta =
     score_slots names last_scores (Suc i) slots
       (if slot_has_player slot \<and> positive (sl_user_id slot)
        then count_score (slot_score names last_scores i slot) ta else ta)"

fun team_scores :: "new_match_score list \<Rightarrow> i64 \<Rightarrow> i64 \<Rightarrow> i64 \<times> i64" where
  "team_scores [] blue red = (blue, red)"
| "team_scores (sc # scs) blue red =
     (if ns_team sc = TEAM_BLUE then team_scores scs (blue + scast (ns_score sc)) red
      else if ns_team sc = TEAM_RED then team_scores scs blue (red + scast (ns_score sc))
      else team_scores scs blue red)"

definition winning_team :: "new_match_score list \<Rightarrow> u8" where
  "winning_team scs =
     (let (blue, red) = team_scores scs 0 0
      in if sint red < sint blue then TEAM_BLUE
         else if sint blue < sint red then TEAM_RED else TEAM_NEUTRAL)"

text \<open>The scores with their winners marked, and the winner's name.\<close>

definition decide_winner :: "u8 \<Rightarrow> tally \<Rightarrow> new_match_score list \<times> rstr" where
  "decide_winner team_type ta =
     (if team_type = TEAM_TYPE_TEAM_VS then
        let w = winning_team (ta_scores ta)
        in (map (\<lambda>sc. if ns_team sc = w \<and> w \<noteq> TEAM_NEUTRAL then sc\<lparr>ns_won := True\<rparr> else sc)
              (ta_scores ta),
            if w = TEAM_BLUE then lit ''Blue Team''
            else if w = TEAM_RED then lit ''Red Team'' else lit ''Draw'')
      else
        (map (\<lambda>sc. if ns_user_id sc = ta_winner_id ta then sc\<lparr>ns_won := True\<rparr> else sc)
           (ta_scores ta),
         ta_winner_name ta))"

subsection \<open>Finishing\<close>

definition finish_slot :: "match_slot \<Rightarrow> match_slot" where
  "finish_slot s = (if slot_has_player s then s\<lparr>sl_status := SLOT_NOT_READY\<rparr> else s)"

definition finished_match :: "bmatch \<Rightarrow> bmatch" where
  "finished_match m = m\<lparr>m_in_progress := False, m_slots := map finish_slot (m_slots m)\<rparr>"

definition announce_result :: "env \<Rightarrow> rstr \<Rightarrow> sys \<Rightarrow> sys" where
  "announce_result env announce_msg st =
     (let chat_pkt = build_send_message \<lparr>cm_sender = e_bot_name env, cm_content = announce_msg,
            cm_target = lit ''#multiplayer'', cm_sender_id = e_bot_id env\<rparr>
      in spawn (SaveChat (e_bot_id env) (e_bot_name env) (lit ''#multiplayer'') announce_msg False)
           (broadcast_to_channel (lit ''#multiplayer'') chat_pkt st))"

definition result_of :: "bmatch \<Rightarrow> i64 \<Rightarrow> i32 \<Rightarrow> rstr \<Rightarrow> new_match_score list \<Rightarrow> match_result" where
  "result_of m duration winner_id winner_name scores =
     \<lparr>mr_beatmap_id = m_beatmap_id m, mr_beatmap_name = m_beatmap_name m,
      mr_beatmap_md5 = m_beatmap_md5 m, mr_mode = m_play_mode m,
      mr_scoring_type = m_scoring_type m, mr_team_type = m_team_type m,
      mr_mods = m_active_mods m, mr_duration = duration, mr_winner_id = winner_id,
      mr_winner_name = winner_name, mr_scores = scores\<rparr>"

definition elapsed_secs :: "instant \<Rightarrow> instant \<Rightarrow> i64" where
  "elapsed_secs now t = of_nat ((now - t) div 1000000000)"

definition finish_match :: "env \<Rightarrow> u16 \<Rightarrow> bmatch \<Rightarrow> sys \<Rightarrow> sys" where
  "finish_match env match_id m st =
     (let duration = (case hget (match_start_times st) match_id of
                        Some t \<Rightarrow> elapsed_secs (e_now env) t | None \<Rightarrow> 0);
          last_scores = (case hget (match_last_scores st) match_id of Some l \<Rightarrow> l | None \<Rightarrow> []);
          st1 = st\<lparr>match_loaded_users := hdel match_id (match_loaded_users st),
                   match_start_times := hdel match_id (match_start_times st),
                   match_last_scores := hdel match_id (match_last_scores st)\<rparr>;
          st2 = broadcast_to_match match_id build_match_complete None st1;
          ta = score_slots (session_names st2) last_scores 0 (m_slots m) start_tally;
          (match_scores, winner_name) = decide_winner (m_team_type m) ta;
          m' = finished_match m;
          st3 = st2\<lparr>matches := hput match_id m' (matches st2)\<rparr>;
          update_pkt = build_match_update m';
          st4 = broadcast_to_lobby update_pkt (broadcast_to_match match_id update_pkt None st3);
          st5 = (if m_team_type m = TEAM_TYPE_TEAM_VS then
                   announce_result env
                     (lit ''Team Vs match concluded! Winner: '' @ winner_name) st4
                 else if winner_name \<noteq> [] then
                   announce_result env
                     (lit ''Match concluded! Winner: '' @ winner_name @ lit '' (''
                      @ show_int (sint (ta_highest ta)) @ lit '' points)'') st4
                 else st4);
          res = result_of m duration (ta_winner_id ta) winner_name match_scores
      in sync_match_to_multi_db env match_id
           (spawn (RecordGame match_id res) (spawn (SaveMatchResult (m_name m) res) st5)))"

definition try_finish_match :: "env \<Rightarrow> u16 \<Rightarrow> sys \<Rightarrow> sys" where
  "try_finish_match env match_id st =
     (case hget (matches st) match_id of
        None \<Rightarrow> st
      | Some m \<Rightarrow>
          if \<not> m_in_progress m then st
          else if match_over m then finish_match env match_id m st
          else st)"

subsection \<open>The winner\<close>

lemma ta_scores_count: "ta_scores (count_score sc ta) = ta_scores ta @ [sc]"
  by (simp add: count_score_def Let_def)

lemma ns_user_slot_score [simp]: "ns_user_id (slot_score names ls i slot) = sl_user_id slot"
  by (simp add: slot_score_def Let_def split: option.split)

lemma score_slots_users:
  "map ns_user_id (ta_scores (score_slots names ls i slots ta)) =
     map ns_user_id (ta_scores ta) @ seats slots"
  by (induction slots arbitrary: i ta) (simp_all add: ta_scores_count occupied_def)

text \<open>The best score wins, the first of equal ones.\<close>

definition best_so_far :: "tally \<Rightarrow> bool" where
  "best_so_far ta \<longleftrightarrow>
     (\<forall>sc \<in> set (ta_scores ta). sint (ns_score sc) \<le> sint (ta_highest ta))
     \<and> (if ta_winner_id ta = - 1
        then ta_highest ta = - 1 \<and> ta_winner_name ta = []
        else \<exists>as sc bs. ta_scores ta = as @ sc # bs \<and> ns_user_id sc = ta_winner_id ta
               \<and> ns_username sc = ta_winner_name ta \<and> ns_score sc = ta_highest ta
               \<and> (\<forall>a \<in> set as. sint (ns_score a) < sint (ns_score sc)))"

lemma best_so_far_start: "best_so_far start_tally"
  by (simp add: best_so_far_def start_tally_def)

lemma best_so_far_count:
  assumes "best_so_far ta" and "ns_user_id sc \<noteq> - 1"
  shows "best_so_far (count_score sc ta)"
proof (cases "sint (ta_highest ta) < sint (ns_score sc)")
  case True
  with assms show ?thesis
    by (fastforce simp: best_so_far_def count_score_def Let_def intro: exI[of _ "ta_scores ta"])
next
  case False
  then show ?thesis
    using assms(1) by (fastforce simp: best_so_far_def count_score_def Let_def)
qed

lemma best_so_far_slots: "best_so_far ta \<Longrightarrow> best_so_far (score_slots names ls i slots ta)"
proof (induction slots arbitrary: i ta)
  case (Cons slot slots)
  then show ?case
    using best_so_far_count[of ta "slot_score names ls i slot"] by auto
qed simp

subsection \<open>The state after a match\<close>

lemma announce_result_fields [simp]:
  "user_id_to_token (announce_result env msg st) = user_id_to_token st"
  "channels (announce_result env msg st) = channels st"
  "matches (announce_result env msg st) = matches st"
  "next_match_id (announce_result env msg st) = next_match_id st"
  "user_to_match (announce_result env msg st) = user_to_match st"
  "lobby_subscribers (announce_result env msg st) = lobby_subscribers st"
  "match_start_times (announce_result env msg st) = match_start_times st"
  "match_last_scores (announce_result env msg st) = match_last_scores st"
  "match_loaded_users (announce_result env msg st) = match_loaded_users st"
  "pending_disbanded_matches (announce_result env msg st) = pending_disbanded_matches st"
  "spectators (announce_result env msg st) = spectators st"
  "spectating_target (announce_result env msg st) = spectating_target st"
  "chat_filter (announce_result env msg st) = chat_filter st"
  "pm_warned_pairs (announce_result env msg st) = pm_warned_pairs st"
  "hkeys (sessions (announce_result env msg st)) = hkeys (sessions st)"
  by (simp_all add: announce_result_def Let_def)

lemma finish_slot_ok: "slot_ok s \<Longrightarrow> same_seat s (finish_slot s)"
  by (auto simp: same_seat_def finish_slot_def slot_ok_def split: if_splits)

lemma finished_match_ok:
  assumes "match_ok m"
  shows "match_ok (finished_match m)" "players (finished_match m) = players m"
    "m_id (finished_match m) = m_id m" "\<not> m_in_progress (finished_match m)"
proof -
  have "list_all2 same_seat (m_slots m) (m_slots (finished_match m))"
    using assms by (auto simp: finished_match_def match_ok_def intro!: same_seats_map finish_slot_ok)
  then have "match_ok (finished_match m) \<and> players (finished_match m) = players m"
    by (rule match_ok_same_seats[OF assms])
      (use assms in \<open>simp add: finished_match_def match_ok_def\<close>)
  then show "match_ok (finished_match m)" "players (finished_match m) = players m"
    by simp_all
qed (simp_all add: finished_match_def)

lemma sync_fields [simp]:
  "sessions (sync_match_to_multi_db env mid st) = sessions st"
  "user_id_to_token (sync_match_to_multi_db env mid st) = user_id_to_token st"
  "channels (sync_match_to_multi_db env mid st) = channels st"
  "matches (sync_match_to_multi_db env mid st) = matches st"
  "next_match_id (sync_match_to_multi_db env mid st) = next_match_id st"
  "user_to_match (sync_match_to_multi_db env mid st) = user_to_match st"
  "lobby_subscribers (sync_match_to_multi_db env mid st) = lobby_subscribers st"
  "match_start_times (sync_match_to_multi_db env mid st) = match_start_times st"
  "match_last_scores (sync_match_to_multi_db env mid st) = match_last_scores st"
  "match_loaded_users (sync_match_to_multi_db env mid st) = match_loaded_users st"
  "pending_disbanded_matches (sync_match_to_multi_db env mid st) = pending_disbanded_matches st"
  "spectators (sync_match_to_multi_db env mid st) = spectators st"
  "spectating_target (sync_match_to_multi_db env mid st) = spectating_target st"
  "chat_filter (sync_match_to_multi_db env mid st) = chat_filter st"
  "pm_warned_pairs (sync_match_to_multi_db env mid st) = pm_warned_pairs st"
  by (simp_all add: sync_eq split: option.split)

lemma finish_match_fields:
  "matches (finish_match env mid m st) = hput mid (finished_match m) (matches st)"
  "user_to_match (finish_match env mid m st) = user_to_match st"
  "next_match_id (finish_match env mid m st) = next_match_id st"
  "user_id_to_token (finish_match env mid m st) = user_id_to_token st"
  "channels (finish_match env mid m st) = channels st"
  "lobby_subscribers (finish_match env mid m st) = lobby_subscribers st"
  "match_start_times (finish_match env mid m st) = hdel mid (match_start_times st)"
  "match_last_scores (finish_match env mid m st) = hdel mid (match_last_scores st)"
  "match_loaded_users (finish_match env mid m st) = hdel mid (match_loaded_users st)"
  "pending_disbanded_matches (finish_match env mid m st) = pending_disbanded_matches st"
  "spectators (finish_match env mid m st) = spectators st"
  "spectating_target (finish_match env mid m st) = spectating_target st"
  by (simp_all add: finish_match_def Let_def split_def)

lemma session_inv_fields:
  "session_inv st \<Longrightarrow> session_inv (st\<lparr>matches := ms\<rparr>)"
  "session_inv st \<Longrightarrow> session_inv (st\<lparr>user_to_match := um\<rparr>)"
  "session_inv st \<Longrightarrow> session_inv (st\<lparr>next_match_id := n\<rparr>)"
  "session_inv st \<Longrightarrow> session_inv (st\<lparr>channels := cs\<rparr>)"
  "session_inv st \<Longrightarrow> session_inv (st\<lparr>lobby_subscribers := ls\<rparr>)"
  "session_inv st \<Longrightarrow> session_inv (st\<lparr>match_start_times := mt\<rparr>)"
  "session_inv st \<Longrightarrow> session_inv (st\<lparr>match_last_scores := sc\<rparr>)"
  "session_inv st \<Longrightarrow> session_inv (st\<lparr>match_loaded_users := lu\<rparr>)"
  "session_inv st \<Longrightarrow> session_inv (st\<lparr>pending_disbanded_matches := pd\<rparr>)"
  "session_inv st \<Longrightarrow> session_inv (st\<lparr>spectators := sp\<rparr>)"
  "session_inv st \<Longrightarrow> session_inv (st\<lparr>spectating_target := tg\<rparr>)"
  "session_inv st \<Longrightarrow> session_inv (st\<lparr>pm_warned_pairs := pw\<rparr>)"
  by (simp_all add: session_inv_def)

lemma session_inv_spawn: "session_inv st \<Longrightarrow> session_inv (spawn t st)"
  by (simp add: session_inv_def)

lemma session_inv_sync: "session_inv st \<Longrightarrow> session_inv (sync_match_to_multi_db env mid st)"
  by (simp add: session_inv_def)

lemma session_inv_cleanup: "session_inv st \<Longrightarrow> session_inv (cleanup_disbanded_matches st)"
  by (simp add: cleanup_eq session_inv_def)

lemma session_inv_announce_result:
  "session_inv st \<Longrightarrow> session_inv (announce_result env msg st)"
  by (simp add: announce_result_def Let_def session_inv_spawn to_channel.session_inv_run)

lemmas session_inv_steps = session_inv_fields session_inv_spawn session_inv_sync
  session_inv_cleanup session_inv_announce_result to_user.session_inv_run
  to_lobby.session_inv_run to_match.session_inv_run to_spectators.session_inv_run
  to_channel.session_inv_run to_channel_except.session_inv_run to_all.session_inv_run
  to_others.session_inv_run sending.session_inv_run left_news.session_inv_run
  stopped_news.session_inv_run to_token.session_inv_run

lemma session_inv_finish: "session_inv st \<Longrightarrow> session_inv (finish_match env mid m st)"
  unfolding finish_match_def Let_def
  by (simp add: split_def) (intro conjI impI session_inv_steps; assumption)

lemma room_inv_finish:
  assumes inv: "room_inv st" and m: "hget (matches st) mid = Some m"
  shows "room_inv (finish_match env mid m st)"
proof (rule room_invI, unfold finish_match_fields, goal_cases)
  note ok = finished_match_ok[OF room_inv_match(2)[OF inv m]]
  {
    case (1 mid' x)
    then show ?case
      using ok room_inv_match[OF inv m] room_inv_match[OF inv, of mid' x]
      by (auto split: if_splits)
  next
    case (2 u mid')
    then obtain x where "hget (matches st) mid' = Some x" "u \<in> set (players x)"
      using room_inv_user[OF inv] by blast
    then show ?case using m ok by (cases "mid' = mid") simp_all
  next
    case (3 u mid' x)
    then show ?case
      using m ok(2) room_inv_seat[OF inv m, of u] room_inv_seat[OF inv, of mid' x u]
      by (auto split: if_splits)
  next
    case (4 mid')
    then show ?case using room_inv_tables[OF inv, of mid'] by (auto split: if_splits)
  next
    case (5 mid')
    then show ?case using room_inv_pending[OF inv, of mid'] m by auto
  }
qed

lemma try_finish_cases:
  "try_finish_match env mid st = st \<or>
   (\<exists>m. hget (matches st) mid = Some m \<and> m_in_progress m \<and> match_over m
      \<and> try_finish_match env mid st = finish_match env mid m st)"
  by (auto simp: try_finish_match_def split: option.split)

lemma room_inv_try_finish [keeps]: "room_inv st \<Longrightarrow> room_inv (try_finish_match env mid st)"
  using try_finish_cases[of env mid st] room_inv_finish by fastforce

lemma session_inv_try_finish [keeps]:
  "session_inv st \<Longrightarrow> session_inv (try_finish_match env mid st)"
  using try_finish_cases[of env mid st] session_inv_finish by fastforce

lemma try_finish_frame:
  "user_to_match (try_finish_match env mid st) = user_to_match st"
  "next_match_id (try_finish_match env mid st) = next_match_id st"
  "user_id_to_token (try_finish_match env mid st) = user_id_to_token st"
  "spectators (try_finish_match env mid st) = spectators st"
  "spectating_target (try_finish_match env mid st) = spectating_target st"
  "pending_disbanded_matches (try_finish_match env mid st) = pending_disbanded_matches st"
  "dom (hget (matches (try_finish_match env mid st))) = dom (hget (matches st))"
  using try_finish_cases[of env mid st] by (auto simp: finish_match_fields split: if_splits)

end
