(* ===== verification/Multiplayer.thy ===== *)
theory Multiplayer
  imports Match_Result
begin

unbundle bit_operations_syntax

text \<open>
  The lobby and match arms of \<^verbatim>\<open>handle_client_packets\<close> (\<^verbatim>\<open>src/bancho/handler.rs\<close>), one
  definition per arm: what it does under the write lock once its payload is parsed.  The
  token is the one of the request and the user the one read for the packet before the lock
  was taken, so neither is assumed to be consistent with the state any more.
\<close>

subsection \<open>Lobby\<close>

definition lobby_join :: "rstr \<Rightarrow> i32 \<Rightarrow> 'x bancho_state_scheme \<Rightarrow> 'x bancho_state_scheme" where
  "lobby_join token uid st =
     (let st1 = st\<lparr>lobby_subscribers := hs_insert uid (lobby_subscribers st)\<rparr>;
          match_packets = map (build_match_new \<circ> snd) (matches st1)
      in modify_session token (fold enqueue_packet match_packets) st1)"

definition lobby_part :: "i32 \<Rightarrow> 'x bancho_state_scheme \<Rightarrow> 'x bancho_state_scheme" where
  "lobby_part uid st = st\<lparr>lobby_subscribers := hs_remove uid (lobby_subscribers st)\<rparr>"

subsection \<open>Entering and leaving\<close>

definition enter_channel :: "rstr \<Rightarrow> session \<Rightarrow> session" where
  "enter_channel name s =
     enqueue_packet (build_channel_join_success name)
       (s\<lparr>ss_channels := hs_insert name (ss_channels s)\<rparr>)"

definition add_to_channel ::
    "rstr \<Rightarrow> i32 \<Rightarrow> 'x bancho_state_scheme \<Rightarrow> 'x bancho_state_scheme" where
  "add_to_channel name uid st = st\<lparr>channels := hmod name (add_member uid) (channels st)\<rparr>"

definition leave_current :: "i32 \<Rightarrow> 'x bancho_state_scheme \<Rightarrow> 'x bancho_state_scheme" where
  "leave_current uid st = (let (left, st1) = remove_user_from_match uid st in announce_left left st1)"

definition created_match :: "u16 \<Rightarrow> i32 \<Rightarrow> bmatch \<Rightarrow> bmatch" where
  "created_match match_id uid new_match =
     new_match\<lparr>m_id := match_id, m_host_id := uid, m_in_progress := False,
       m_slots := default_slots[0 := default_slot\<lparr>sl_status := SLOT_NOT_READY, sl_user_id := uid\<rparr>]\<rparr>"

definition bump_match_id :: "u16 \<Rightarrow> u16" where
  "bump_match_id n = (if n + 1 = 0 then 1 else n + 1)"

definition match_create :: "env \<Rightarrow> rstr \<Rightarrow> i32 \<Rightarrow> bmatch \<Rightarrow> sys \<Rightarrow> sys" where
  "match_create env token uid new_match st =
     (let st1 = leave_current uid st;
          match_id = next_match_id st1;
          st2 = st1\<lparr>next_match_id := bump_match_id match_id\<rparr>;
          m = created_match match_id uid new_match;
          st3 = st2\<lparr>matches := hput match_id m (matches st2),
                    user_to_match := hput uid match_id (user_to_match st2)\<rparr>;
          st4 = modify_session token
                  (enter_channel (lit ''#multiplayer'') \<circ> enqueue_packet (build_match_join_success m)) st3;
          st5 = add_to_channel (lit ''#multiplayer'') uid st4;
          st6 = broadcast_to_lobby (build_match_new m) st5
      in cleanup_disbanded_matches (sync_match_to_multi_db env match_id st6))"

definition can_join :: "bmatch option \<Rightarrow> rstr \<Rightarrow> bool" where
  "can_join target password =
     (case target of
        None \<Rightarrow> False
      | Some m \<Rightarrow>
          (case m_password m of
             Some m_pass \<Rightarrow>
               (if m_pass \<noteq> [] \<and> m_pass \<noteq> password then False
                else list_ex (\<lambda>s. sl_status s = SLOT_OPEN) (m_slots m))
           | None \<Rightarrow> list_ex (\<lambda>s. sl_status s = SLOT_OPEN) (m_slots m)))"

definition seat_player :: "i32 \<Rightarrow> bmatch \<Rightarrow> bmatch" where
  "seat_player uid m =
     m\<lparr>m_slots := update_first (\<lambda>s. sl_status s = SLOT_OPEN)
        (\<lambda>s. s\<lparr>sl_status := SLOT_NOT_READY, sl_user_id := uid, sl_team := TEAM_NEUTRAL, sl_mods := 0\<rparr>)
        (m_slots m)\<rparr>"

definition match_join :: "env \<Rightarrow> rstr \<Rightarrow> i32 \<Rightarrow> i32 \<Rightarrow> rstr \<Rightarrow> sys \<Rightarrow> sys" where
  "match_join env token uid match_id_i32 password st =
     (let match_id = ucast match_id_i32 :: u16
      in if \<not> can_join (hget (matches st) match_id) password then
           modify_session token (enqueue_packet build_match_join_fail) st
         else
           let st1 = leave_current uid st
           in case hget (matches st1) match_id of
                None \<Rightarrow> st1
              | Some m \<Rightarrow>
                  let m' = seat_player uid m;
                      st2 = st1\<lparr>matches := hput match_id m' (matches st1),
                                user_to_match := hput uid match_id (user_to_match st1)\<rparr>;
                      st3 = modify_session token
                              (enter_channel (lit ''#multiplayer'')
                               \<circ> enqueue_packet (build_match_join_success m')) st2;
                      st4 = add_to_channel (lit ''#multiplayer'') uid st3;
                      st5 = broadcast_to_lobby (build_match_update m')
                              (broadcast_to_match match_id (build_match_update m') (Some uid) st4)
                  in cleanup_disbanded_matches (sync_match_to_multi_db env match_id st5))"

definition match_part :: "env \<Rightarrow> i32 \<Rightarrow> sys \<Rightarrow> sys" where
  "match_part env uid st =
     (case remove_user_from_match uid st of
        (None, st1) \<Rightarrow> st1
      | (Some (match_id, updated_match, is_disbanded), st1) \<Rightarrow>
          if is_disbanded then
            cleanup_disbanded_matches (broadcast_to_lobby (build_match_disband (ucast match_id)) st1)
          else
            let update_pkt = build_match_update updated_match
            in sync_match_to_multi_db env match_id
                 (try_finish_match env match_id
                   (broadcast_to_lobby update_pkt (broadcast_to_match match_id update_pkt None st1))))"

subsection \<open>Changing the match\<close>

text \<open>Most changes are announced to the match and to the lobby; some to the match only.\<close>

definition announce_edit :: "env \<Rightarrow> (u16 \<times> bmatch) option \<Rightarrow> sys \<Rightarrow> sys" where
  "announce_edit env edited st =
     (case edited of
        None \<Rightarrow> st
      | Some (match_id, m) \<Rightarrow>
          sync_match_to_multi_db env match_id
            (broadcast_to_lobby (build_match_update m)
              (broadcast_to_match match_id (build_match_update m) None st)))"

definition announce_edit_in_match :: "env \<Rightarrow> (u16 \<times> bmatch) option \<Rightarrow> sys \<Rightarrow> sys" where
  "announce_edit_in_match env edited st =
     (case edited of
        None \<Rightarrow> st
      | Some (match_id, m) \<Rightarrow>
          sync_match_to_multi_db env match_id
            (broadcast_to_match match_id (build_match_update m) None st))"

definition match_change_slot :: "env \<Rightarrow> i32 \<Rightarrow> i32 \<Rightarrow> sys \<Rightarrow> sys" where
  "match_change_slot env uid slot_id st =
     (let (r, st1) = update_own_match (change_slot slot_id) uid st in announce_edit env r st1)"

definition match_ready :: "env \<Rightarrow> i32 \<Rightarrow> sys \<Rightarrow> sys" where
  "match_ready env uid st =
     (let (r, st1) = update_own_match (set_own_status SLOT_READY) uid st in announce_edit env r st1)"

definition match_not_ready :: "env \<Rightarrow> i32 \<Rightarrow> sys \<Rightarrow> sys" where
  "match_not_ready env uid st =
     (let (r, st1) = update_own_match (set_own_status SLOT_NOT_READY) uid st
      in announce_edit env r st1)"

definition match_lock :: "env \<Rightarrow> i32 \<Rightarrow> i32 \<Rightarrow> sys \<Rightarrow> sys" where
  "match_lock env uid slot_id st =
     (let (r, st1) = update_own_match (lock_slot slot_id) uid st in announce_edit env r st1)"

definition match_change_settings :: "env \<Rightarrow> i32 \<Rightarrow> bmatch \<Rightarrow> sys \<Rightarrow> sys" where
  "match_change_settings env uid updated st =
     (let (r, st1) = update_own_match (change_settings updated) uid st in announce_edit env r st1)"

definition match_change_mods :: "env \<Rightarrow> i32 \<Rightarrow> u32 \<Rightarrow> sys \<Rightarrow> sys" where
  "match_change_mods env uid mods st =
     (let (r, st1) = update_own_match (change_mods mods) uid st
      in announce_edit_in_match env r st1)"

definition match_change_team :: "env \<Rightarrow> i32 \<Rightarrow> sys \<Rightarrow> sys" where
  "match_change_team env uid st =
     (case update_own_match change_team uid st of
        (None, st1) \<Rightarrow> st1
      | (Some (match_id, m), st1) \<Rightarrow>
          sync_match_to_multi_db env match_id
            (try_finish_match env match_id
              (broadcast_to_match match_id (build_match_update m) None st1)))"

definition match_change_host :: "env \<Rightarrow> i32 \<Rightarrow> i32 \<Rightarrow> sys \<Rightarrow> sys" where
  "match_change_host env uid slot_id st =
     (case update_own_match (change_host slot_id) uid st of
        (None, st1) \<Rightarrow> st1
      | (Some (match_id, m), st1) \<Rightarrow>
          announce_edit env (Some (match_id, m))
            (send_to_user (m_host_id m) build_match_transfer_host st1))"

definition match_no_beatmap :: "env \<Rightarrow> i32 \<Rightarrow> sys \<Rightarrow> sys" where
  "match_no_beatmap env uid st =
     (let (r, st1) = update_own_match (set_own_status SLOT_NO_MAP) uid st
      in announce_edit_in_match env r st1)"

definition match_has_beatmap :: "env \<Rightarrow> i32 \<Rightarrow> sys \<Rightarrow> sys" where
  "match_has_beatmap env uid st =
     (let (r, st1) = update_own_match (set_own_status SLOT_NOT_READY) uid st
      in announce_edit_in_match env r st1)"

subsection \<open>Playing\<close>

definition match_start :: "env \<Rightarrow> i32 \<Rightarrow> sys \<Rightarrow> sys" where
  "match_start env uid st =
     (case update_own_match start_match uid st of
        (None, st1) \<Rightarrow> st1
      | (Some (match_id, m), st1) \<Rightarrow>
          let st2 = st1\<lparr>match_start_times := hput match_id (e_now env) (match_start_times st1),
                        match_last_scores := hput match_id [] (match_last_scores st1),
                        match_loaded_users := hput match_id [] (match_loaded_users st1)\<rparr>
          in sync_match_to_multi_db env match_id
               (broadcast_to_lobby (build_match_update m)
                 (broadcast_to_match match_id (build_match_start m) None st2)))"

definition playing_users :: "bmatch \<Rightarrow> i32 list" where
  "playing_users m =
     map sl_user_id (filter (\<lambda>s. sl_status s = SLOT_PLAYING \<and> positive (sl_user_id s)) (m_slots m))"

definition match_load_complete :: "i32 \<Rightarrow> 'x bancho_state_scheme \<Rightarrow> 'x bancho_state_scheme" where
  "match_load_complete uid st =
     (case hget (user_to_match st) uid of
        None \<Rightarrow> st
      | Some match_id \<Rightarrow>
          let loaded0 = (case hget (match_loaded_users st) match_id of Some l \<Rightarrow> l | None \<Rightarrow> []);
              loaded = hs_insert uid loaded0;
              st1 = st\<lparr>match_loaded_users := hput match_id loaded (match_loaded_users st)\<rparr>;
              should_start = (case hget (matches st1) match_id of
                                None \<Rightarrow> False
                              | Some m \<Rightarrow> list_all (\<lambda>u. u \<in> set loaded) (playing_users m))
          in if should_start then broadcast_to_match match_id build_match_all_players_loaded None st1
             else st1)"

definition relay_match_score_frame ::
    "i32 \<Rightarrow> u8 list \<Rightarrow> match_score_frame \<Rightarrow> 'x bancho_state_scheme \<Rightarrow> bool \<times> 'x bancho_state_scheme" where
  "relay_match_score_frame uid payload frame st =
     (case hget (user_to_match st) uid of
        None \<Rightarrow> (False, st)
      | Some match_id \<Rightarrow>
          (case Option.bind (hget (matches st) match_id)
                  (\<lambda>m. position (\<lambda>s. sl_user_id s = uid) (m_slots m)) of
             None \<Rightarrow> (False, st)
           | Some slot_idx \<Rightarrow>
               let frame' = frame\<lparr>fr_slot_id := of_nat slot_idx\<rparr>
               in case build_relayed_match_score_update payload (fr_slot_id frame') of
                    ROk score_packet \<Rightarrow>
                      let scores0 = (case hget (match_last_scores st) match_id of
                                       Some l \<Rightarrow> l | None \<Rightarrow> []);
                          st1 = st\<lparr>match_last_scores :=
                                    hput match_id (hput uid frame' scores0) (match_last_scores st)\<rparr>
                      in (True, broadcast_to_match match_id score_packet None st1)
                  | RErr e \<Rightarrow> (False, st)
                  | RPanic \<Rightarrow> (False, st)))"

definition match_score_update ::
    "i32 \<Rightarrow> u8 list \<Rightarrow> match_score_frame \<Rightarrow> 'x bancho_state_scheme \<Rightarrow> 'x bancho_state_scheme" where
  "match_score_update uid payload frame st = snd (relay_match_score_frame uid payload frame st)"

text \<open>A player's slot number, announced with the packet \<open>build\<close>.\<close>

definition announce_slot ::
    "(u32 \<Rightarrow> u8 list) \<Rightarrow> i32 \<Rightarrow> 'x bancho_state_scheme \<Rightarrow> 'x bancho_state_scheme" where
  "announce_slot build uid st =
     (case hget (user_to_match st) uid of
        None \<Rightarrow> st
      | Some match_id \<Rightarrow>
          (case Option.bind (hget (matches st) match_id)
                  (\<lambda>m. position (\<lambda>s. sl_user_id s = uid) (m_slots m)) of
             None \<Rightarrow> st
           | Some idx \<Rightarrow> broadcast_to_match match_id (build (of_nat idx)) None st))"

definition match_failed :: "i32 \<Rightarrow> 'x bancho_state_scheme \<Rightarrow> 'x bancho_state_scheme" where
  "match_failed = announce_slot build_match_player_failed"

definition match_skip_request :: "i32 \<Rightarrow> 'x bancho_state_scheme \<Rightarrow> 'x bancho_state_scheme" where
  "match_skip_request = announce_slot build_match_player_skipped"

definition match_complete :: "env \<Rightarrow> i32 \<Rightarrow> sys \<Rightarrow> sys" where
  "match_complete env uid st =
     (case hget (user_to_match st) uid of
        None \<Rightarrow> st
      | Some match_id \<Rightarrow>
          try_finish_match env match_id
            (snd (update_own_match (set_own_status SLOT_COMPLETE) uid st)))"

subsection \<open>The rooms stay consistent\<close>

context delivery
begin

lemma room_inv_run [keeps]: "room_inv st \<Longrightarrow> room_inv (run st)"
  by (rule room_inv_cong) simp_all

end

lemma room_inv_same:
  "room_inv st \<Longrightarrow> room_inv (modify_session t f st)"
  "room_inv st \<Longrightarrow> room_inv (add_to_channel name u st)"
  "room_inv st \<Longrightarrow> room_inv (st\<lparr>channels := cs\<rparr>)"
  "room_inv st \<Longrightarrow> room_inv (st\<lparr>lobby_subscribers := ls\<rparr>)"
  "room_inv st \<Longrightarrow> room_inv (st\<lparr>spectators := sp\<rparr>)"
  "room_inv st \<Longrightarrow> room_inv (st\<lparr>spectating_target := tg\<rparr>)"
  "room_inv st \<Longrightarrow> room_inv (st\<lparr>pm_warned_pairs := pw\<rparr>)"
  "room_inv st \<Longrightarrow> room_inv (st\<lparr>next_match_id := n\<rparr>)"
  by (rule room_inv_cong, simp_all add: add_to_channel_def)+

lemma room_inv_tasks:
  "room_inv s \<Longrightarrow> room_inv (spawn x s)"
  "room_inv s \<Longrightarrow> room_inv (sync_match_to_multi_db env mid s)"
  "room_inv s \<Longrightarrow> room_inv (cleanup_disbanded_matches s)"
  "room_inv s \<Longrightarrow> room_inv (announce_result env msg s)"
  by (rule room_inv_cong, simp_all add: cleanup_eq)+

lemmas room_inv_steps = room_inv_same room_inv_tasks to_user.room_inv_run
  to_lobby.room_inv_run to_match.room_inv_run to_spectators.room_inv_run
  to_channel.room_inv_run to_channel_except.room_inv_run to_all.room_inv_run
  to_others.room_inv_run sending.room_inv_run left_news.room_inv_run
  stopped_news.room_inv_run to_token.room_inv_run room_inv_try_finish

lemma leave_current_eq:
  "leave_current u st =
     announce_left (fst (remove_user_from_match u st)) (snd (remove_user_from_match u st))"
  by (simp add: leave_current_def Let_def split_def)

lemma room_inv_leave_current [keeps]: "room_inv st \<Longrightarrow> room_inv (leave_current u st)"
  by (simp add: leave_current_eq room_inv_remove_user left_news.room_inv_run)

lemma remove_user_frame:
  "next_match_id (snd (remove_user_from_match u st)) = next_match_id st"
  "sessions (snd (remove_user_from_match u st)) = sessions st"
  "user_id_to_token (snd (remove_user_from_match u st)) = user_id_to_token st"
  "channels (snd (remove_user_from_match u st)) = channels st"
  "lobby_subscribers (snd (remove_user_from_match u st)) = lobby_subscribers st"
  "spectators (snd (remove_user_from_match u st)) = spectators st"
  "spectating_target (snd (remove_user_from_match u st)) = spectating_target st"
  "chat_filter (snd (remove_user_from_match u st)) = chat_filter st"
  "pm_warned_pairs (snd (remove_user_from_match u st)) = pm_warned_pairs st"
  "bancho_state.more (snd (remove_user_from_match u st)) = bancho_state.more st"
  "hget (user_to_match (snd (remove_user_from_match u st))) u = None"
  by (simp_all add: remove_user_from_match_def Let_def split: option.split)

lemma remove_user_pending:
  assumes "room_inv st" and "mid \<in> set (pending_disbanded_matches (snd (remove_user_from_match u st)))"
  shows "mid \<in> set (pending_disbanded_matches st) \<or> mid \<in> dom (hget (matches st))"
proof (cases "hget (user_to_match st) u")
  case (Some mid')
  then show ?thesis
    by (rule remove_user_present[OF assms(1)]) (use assms(2) in \<open>auto split: if_splits\<close>)
qed (use assms(2) in \<open>simp add: remove_user_absent\<close>)

lemma remove_user_matches:
  assumes "room_inv st"
  shows "dom (hget (matches (snd (remove_user_from_match u st)))) \<subseteq> dom (hget (matches st))"
proof (cases "hget (user_to_match st) u")
  case (Some mid')
  then show ?thesis
    by (rule remove_user_present[OF assms(1)]) (auto split: if_splits)
qed (simp add: remove_user_absent)

lemma leave_current_fields [simp]:
  "next_match_id (leave_current u st) = next_match_id st"
  "user_id_to_token (leave_current u st) = user_id_to_token st"
  "channels (leave_current u st) = channels st"
  "lobby_subscribers (leave_current u st) = lobby_subscribers st"
  "spectators (leave_current u st) = spectators st"
  "spectating_target (leave_current u st) = spectating_target st"
  "hget (user_to_match (leave_current u st)) u = None"
  "matches (leave_current u st) = matches (snd (remove_user_from_match u st))"
  "pending_disbanded_matches (leave_current u st) =
     pending_disbanded_matches (snd (remove_user_from_match u st))"
  by (simp_all add: leave_current_eq remove_user_frame)

lemma room_inv_open:
  assumes inv: "room_inv st" and u: "hget (user_to_match st) u = None"
    and fresh: "hget (matches st) mid = None" "mid \<notin> set (pending_disbanded_matches st)"
    and m: "m_id m = mid" "match_ok m" "players m = [u]" "\<not> m_in_progress m"
  shows "room_inv (st\<lparr>next_match_id := n, matches := hput mid m (matches st),
    user_to_match := hput u mid (user_to_match st)\<rparr>)"
proof (rule room_invI, goal_cases)
  case (1 mid' x)
  then show ?case
    using m room_inv_match[OF inv, of mid' x] room_inv_tables[OF inv fresh(1)]
    by (auto split: if_splits)
next
  case (2 v mid')
  then show ?case
    using m(3) fresh(1) room_inv_user[OF inv, of v mid']
    by (cases "mid' = mid") (auto split: if_splits)
next
  case (3 v mid' x)
  then show ?case
    using m(3) u room_inv_seat[OF inv, of mid' x v] by (auto split: if_splits)
next
  case (4 mid')
  then show ?case using room_inv_tables[OF inv, of mid'] by (auto split: if_splits)
next
  case (5 mid')
  then show ?case using room_inv_pending[OF inv, of mid'] fresh by auto
qed

lemma created_match_ok:
  assumes "positive uid"
  shows "match_ok (created_match mid uid m)" "players (created_match mid uid m) = [uid]"
    "m_id (created_match mid uid m) = mid" "\<not> m_in_progress (created_match mid uid m)"
proof -
  have s: "m_slots (created_match mid uid m) =
      default_slot\<lparr>sl_status := SLOT_NOT_READY, sl_user_id := uid\<rparr> # replicate 15 default_slot"
    by (simp add: created_match_def default_slots_def numeral_nat)
  have h: "m_host_id (created_match mid uid m) = uid" by (simp add: created_match_def)
  have "seats (replicate n default_slot) = []" for n by (induction n) simp_all
  then show p: "players (created_match mid uid m) = [uid]"
    using assms by (simp add: players_seats s occupied_def)
  show "match_ok (created_match mid uid m)"
    using assms p h default_slot_ok(1)
    by (simp add: match_ok_def s list_all_iff) (simp add: slot_ok_def)
qed (simp_all add: created_match_def)

lemma room_inv_match_create:
  assumes "room_inv st" and "positive uid" and "hget (matches st) (next_match_id st) = None"
    and "next_match_id st \<notin> set (pending_disbanded_matches st)"
  shows "room_inv (match_create env token uid m st)"
proof -
  let ?st1 = "leave_current uid st"
  have "room_inv (?st1\<lparr>next_match_id := bump_match_id (next_match_id st),
      matches := hput (next_match_id st) (created_match (next_match_id st) uid m) (matches ?st1),
      user_to_match := hput uid (next_match_id st) (user_to_match ?st1)\<rparr>)"
  proof (rule room_inv_open)
    show "room_inv ?st1" by (rule room_inv_leave_current[OF assms(1)])
    show "hget (matches ?st1) (next_match_id st) = None"
      using remove_user_matches[OF assms(1), of uid] assms(3) by (auto simp: domIff)
    show "next_match_id st \<notin> set (pending_disbanded_matches ?st1)"
      using remove_user_pending[OF assms(1), of "next_match_id st" uid] assms(3,4) by auto
  qed (simp_all add: created_match_ok[OF assms(2)])
  then show ?thesis
    unfolding match_create_def Let_def by (simp add: room_inv_steps)
qed

lemma seat_player_ok:
  assumes "match_ok m" and "positive u" and "u \<notin> set (players m)"
    and "list_ex (\<lambda>s. sl_status s = SLOT_OPEN) (m_slots m)"
  shows "match_ok (seat_player u m)" "set (players (seat_player u m)) = insert u (set (players m))"
    "m_id (seat_player u m) = m_id m" "m_in_progress (seat_player u m) = m_in_progress m"
proof -
  define s' where "s' = \<lparr>sl_status = SLOT_NOT_READY, sl_team = TEAM_NEUTRAL, sl_user_id = u,
    sl_mods = 0\<rparr>"
  have f: "s\<lparr>sl_status := SLOT_NOT_READY, sl_user_id := u, sl_team := TEAM_NEUTRAL, sl_mods := 0\<rparr> = s'"
    for s by (cases s) (simp add: s'_def)
  have sl: "m_slots (seat_player u m) = update_first (\<lambda>s. sl_status s = SLOT_OPEN) (\<lambda>_. s') (m_slots m)"
    by (simp add: seat_player_def f)
  have s': "occupied s'" "sl_user_id s' = u" "slot_ok s'"
    using assms(2) by (simp_all add: s'_def occupied_def slot_ok_def)
  have ms: "mset (players (seat_player u m)) = add_mset u (mset (players m))"
    unfolding players_seats sl
    by (rule seats_enter[OF _ _ s'(1,2)]) (use assms in \<open>auto simp: match_ok_def list_ex_iff\<close>)
  then have ms': "mset (players (seat_player u m)) = mset (u # players m)" by simp
  show set: "set (players (seat_player u m)) = insert u (set (players m))"
    using mset_eq_setD[OF ms'] by simp
  have "distinct (players (seat_player u m))"
    using mset_eq_imp_distinct_iff[OF ms'] assms(1,3) by (simp add: match_ok_def)
  moreover have "list_all slot_ok (m_slots (seat_player u m))"
    unfolding sl by (rule slots_ok_update_first) (use assms(1) s' in \<open>simp_all add: match_ok_def\<close>)
  ultimately show "match_ok (seat_player u m)"
    using assms(1) set by (simp add: match_ok_def seat_player_def)
qed (simp_all add: seat_player_def)

lemma room_inv_sit:
  assumes inv: "room_inv st" and u: "hget (user_to_match st) u = None" and pos: "positive u"
    and m: "hget (matches st) mid = Some m"
    and op: "list_ex (\<lambda>s. sl_status s = SLOT_OPEN) (m_slots m)"
  shows "room_inv (st\<lparr>matches := hput mid (seat_player u m) (matches st),
    user_to_match := hput u mid (user_to_match st)\<rparr>)"
proof -
  have np: "u \<notin> set (players m)" using room_inv_seat[OF inv m, of u] u by simp
  note sp = seat_player_ok[OF room_inv_match(2)[OF inv m] pos np op]
  show ?thesis
  proof (rule room_invI, goal_cases)
    case (1 mid' x)
    then show ?case
      using sp room_inv_match[OF inv m] room_inv_match[OF inv, of mid' x]
      by (auto split: if_splits)
  next
    case (2 v mid')
    show ?case
    proof (cases "v = u")
      case True
      then show ?thesis using 2 sp by simp
    next
      case False
      then obtain x where "hget (matches st) mid' = Some x" "v \<in> set (players x)"
        using 2 room_inv_user[OF inv, of v mid'] by auto
      then show ?thesis using m sp by (cases "mid' = mid") simp_all
    qed
  next
    case (3 v mid' x)
    then show ?case
      using sp u room_inv_seat[OF inv m, of v] room_inv_seat[OF inv, of mid' x v]
      by (auto split: if_splits)
  next
    case (4 mid')
    then show ?case using room_inv_tables[OF inv, of mid'] by (auto split: if_splits)
  next
    case (5 mid')
    then show ?case using room_inv_pending[OF inv, of mid'] m by auto
  qed
qed

text \<open>A seat that is open stays open when somebody leaves.\<close>

lemma open_after_vacate:
  "\<exists>s \<in> set ss. sl_status s = SLOT_OPEN \<Longrightarrow>
     \<exists>s \<in> set (update_first p (\<lambda>_. default_slot) ss). sl_status s = SLOT_OPEN"
  by (induction ss) auto

lemma open_after_leave:
  assumes inv: "room_inv st" and m: "hget (matches st) mid = Some m"
    and op: "list_ex (\<lambda>s. sl_status s = SLOT_OPEN) (m_slots m)"
    and m': "hget (matches (snd (remove_user_from_match u st))) mid = Some m'"
  shows "list_ex (\<lambda>s. sl_status s = SLOT_OPEN) (m_slots m')"
proof (cases "hget (user_to_match st) u")
  case None
  then show ?thesis using m m' op by (simp add: remove_user_absent)
next
  case (Some mid')
  have l: "list_ex (\<lambda>s. sl_status s = SLOT_OPEN) (m_slots (leave_match u m))"
    using op open_after_vacate[of "m_slots m" "\<lambda>s. sl_user_id s = u"]
    by (simp add: leave_match_def Let_def vacate_slot_def list_ex_iff)
  show ?thesis
    by (rule remove_user_present[OF inv Some]) (use m m' op l in \<open>auto split: if_splits\<close>)
qed

lemma room_inv_match_join:
  assumes inv: "room_inv st" and pos: "positive uid"
  shows "room_inv (match_join env token uid mid_i32 password st)"
proof (cases "can_join (hget (matches st) (ucast mid_i32)) password")
  case False
  then show ?thesis using inv by (simp add: match_join_def room_inv_steps)
next
  case True
  let ?mid = "ucast mid_i32 :: u16" and ?st1 = "leave_current uid st"
  have inv1: "room_inv ?st1" by (rule room_inv_leave_current[OF inv])
  obtain m0 where m0: "hget (matches st) ?mid = Some m0"
    "list_ex (\<lambda>s. sl_status s = SLOT_OPEN) (m_slots m0)"
    using True by (auto simp: can_join_def split: option.splits if_splits)
  show ?thesis
  proof (cases "hget (matches ?st1) ?mid")
    case None
    then show ?thesis using True inv1 by (simp add: match_join_def Let_def)
  next
    case (Some m)
    have "list_ex (\<lambda>s. sl_status s = SLOT_OPEN) (m_slots m)"
      by (rule open_after_leave[OF inv m0]) (use Some in simp)
    then have "room_inv (?st1\<lparr>matches := hput ?mid (seat_player uid m) (matches ?st1),
        user_to_match := hput uid ?mid (user_to_match ?st1)\<rparr>)"
      by (intro room_inv_sit[OF inv1 _ pos Some]) simp_all
    then show ?thesis
      using True Some unfolding match_join_def Let_def by (simp add: room_inv_steps)
  qed
qed

lemma room_inv_match_part:
  assumes "room_inv st"
  shows "room_inv (match_part env uid st)"
proof -
  obtain r st1 where r: "remove_user_from_match uid st = (r, st1)" by fastforce
  have "room_inv st1" using room_inv_remove_user[OF assms, of uid] r by simp
  then show ?thesis
    by (auto simp: match_part_def r Let_def split: option.split prod.split intro!: room_inv_steps)
qed

lemma room_inv_announce_edit:
  "room_inv s \<Longrightarrow> room_inv (announce_edit env r s)"
  "room_inv s \<Longrightarrow> room_inv (announce_edit_in_match env r s)"
  by (auto simp: announce_edit_def announce_edit_in_match_def split: option.split
      intro!: room_inv_steps)

context calm_edit
begin

lemma room_inv_edit [keeps]: "room_inv st \<Longrightarrow> room_inv (snd (update_own_match edit u st))"
  by (cases "update_own_match edit u st") (simp add: edit_keeps)

end

lemma room_inv_edits:
  assumes "room_inv s"
  shows "room_inv (match_change_slot env uid slot s)" "room_inv (match_ready env uid s)"
    "room_inv (match_not_ready env uid s)" "room_inv (match_lock env uid slot s)"
    "room_inv (match_change_settings env uid new s)" "room_inv (match_change_mods env uid mods s)"
    "room_inv (match_no_beatmap env uid s)" "room_inv (match_has_beatmap env uid s)"
  using slot_edit.room_inv_edit[OF assms] ready_edit.room_inv_edit[OF assms]
    not_ready_edit.room_inv_edit[OF assms] lock_edit.room_inv_edit[OF assms]
    settings_edit.room_inv_edit[OF assms] mods_edit.room_inv_edit[OF assms]
    no_map_edit.room_inv_edit[OF assms]
  by (simp_all add: match_change_slot_def match_ready_def match_not_ready_def match_lock_def
      match_change_settings_def match_change_mods_def match_no_beatmap_def match_has_beatmap_def
      split_def Let_def room_inv_announce_edit)

lemma room_inv_match_change_team:
  assumes "room_inv s"
  shows "room_inv (match_change_team env uid s)"
  using team_edit.room_inv_edit[OF assms, of uid]
  by (auto simp: match_change_team_def split: option.split prod.split intro!: room_inv_steps)

lemma room_inv_match_change_host:
  assumes "room_inv s"
  shows "room_inv (match_change_host env uid slot s)"
  using host_edit.room_inv_edit[OF assms, of slot uid]
  by (auto simp: match_change_host_def split: option.split prod.split
      intro!: room_inv_steps room_inv_announce_edit)

lemma room_inv_match_complete:
  assumes "room_inv s"
  shows "room_inv (match_complete env uid s)"
  using assms complete_edit.room_inv_edit[OF assms, of uid]
  by (auto simp: match_complete_def split: option.split intro!: room_inv_steps)

text \<open>Starting marks the match as running and its start time is recorded with it.\<close>

lemma room_inv_match_start:
  assumes inv: "room_inv s"
  shows "room_inv (match_start env uid s)"
proof (cases "update_own_match start_match uid s")
  case (Pair r st1)
  show ?thesis
  proof (cases r)
    case None
    then show ?thesis
      using Pair inv start_edit.no_edit[of uid s st1] by (simp add: match_start_def)
  next
    case (Some a)
    then obtain mid m' where r: "r = Some (mid, m')" by (cases a) auto
    from inv Pair[unfolded r] show ?thesis
    proof (rule start_edit.edit_matches)
      fix m
      assume m: "hget (matches s) mid = Some m" and e: "start_match uid m = Some m'"
        and m': "m_id m' = mid" "match_ok m'" "set (players m') = set (players m)"
        and st1: "st1 = s\<lparr>matches := hput mid m' (matches s)\<rparr>"
      have p: "m_in_progress m'" using e by (auto simp: start_match_def split: if_splits)
      let ?st2 = "st1\<lparr>match_start_times := hput mid (e_now env) (match_start_times st1),
                      match_last_scores := hput mid [] (match_last_scores st1),
                      match_loaded_users := hput mid [] (match_loaded_users st1)\<rparr>"
      have "room_inv ?st2"
      proof (rule room_invI, goal_cases)
        case (1 mid' x)
        then show ?case using m' p room_inv_match[OF inv, of mid' x] by (auto simp: st1 split: if_splits)
      next
        case (2 u mid')
        then obtain x where "hget (matches s) mid' = Some x" "u \<in> set (players x)"
          using room_inv_user[OF inv, of u mid'] by (auto simp: st1)
        then show ?case using m m' by (cases "mid' = mid") (simp_all add: st1)
      next
        case (3 u mid' x)
        then show ?case
          using m m' room_inv_seat[OF inv m, of u] room_inv_seat[OF inv, of mid' x u]
          by (auto simp: st1 split: if_splits)
      next
        case (4 mid')
        then show ?case using room_inv_tables[OF inv, of mid'] by (auto simp: st1 split: if_splits)
      next
        case (5 mid')
        then show ?case using room_inv_pending[OF inv, of mid'] m by (auto simp: st1)
      qed
      then show ?thesis
        by (simp add: match_start_def Pair r Let_def room_inv_steps)
    qed
  qed
qed

text \<open>The tables of loaded players and of last scores only grow for an open match.\<close>

lemma room_inv_loaded:
  assumes "room_inv st" and "hget (matches st) mid \<noteq> None"
  shows "room_inv (st\<lparr>match_loaded_users := hput mid l (match_loaded_users st)\<rparr>)"
    "room_inv (st\<lparr>match_last_scores := hput mid f (match_last_scores st)\<rparr>)"
  using assms unfolding room_inv_def by auto

lemma user_match_open:
  "room_inv st \<Longrightarrow> hget (user_to_match st) u = Some mid \<Longrightarrow> hget (matches st) mid \<noteq> None"
  by (auto simp: room_inv_user)

lemma room_inv_match_load_complete:
  assumes "room_inv st"
  shows "room_inv (match_load_complete uid st)"
  using assms room_inv_loaded(1)[OF assms user_match_open[OF assms]]
  by (auto simp: match_load_complete_def Let_def split: option.split intro!: to_match.room_inv_run)

lemma room_inv_match_score_update:
  assumes "room_inv st"
  shows "room_inv (match_score_update uid payload frame st)"
  using assms room_inv_loaded(2)[OF assms user_match_open[OF assms]]
  by (auto simp: match_score_update_def relay_match_score_frame_def Let_def
      split: option.split io_res.split intro!: to_match.room_inv_run)

lemma room_inv_announce_slot: "room_inv st \<Longrightarrow> room_inv (announce_slot build uid st)"
  by (auto simp: announce_slot_def split: option.split intro: to_match.room_inv_run)

subsection \<open>The sessions stay consistent\<close>

lemma enter_channel_fields [simp]:
  "ss_token (enter_channel name s) = ss_token s"
  "ss_user_id (enter_channel name s) = ss_user_id s"
  "ss_username (enter_channel name s) = ss_username s"
  by (simp_all add: enter_channel_def)

lemma fold_enqueue_fields [simp]:
  "ss_token (fold enqueue_packet ps s) = ss_token s"
  "ss_user_id (fold enqueue_packet ps s) = ss_user_id s"
  "ss_packet_queue (fold enqueue_packet ps s) = ss_packet_queue s @ concat ps"
  by (induction ps arbitrary: s) simp_all

lemma session_inv_remove_user:
  "session_inv st \<Longrightarrow> session_inv (snd (remove_user_from_match u st))"
  by (simp add: session_inv_def remove_user_frame)

lemma session_inv_update_own_match:
  "session_inv st \<Longrightarrow> session_inv (snd (update_own_match edit u st))"
  by (simp add: update_own_match_def session_inv_fields split: option.split)

lemma session_inv_leave_current: "session_inv st \<Longrightarrow> session_inv (leave_current u st)"
  by (simp add: leave_current_eq session_inv_steps session_inv_remove_user)

lemma session_inv_announce_edit:
  "session_inv s \<Longrightarrow> session_inv (announce_edit env r s)"
  "session_inv s \<Longrightarrow> session_inv (announce_edit_in_match env r s)"
  by (auto simp: announce_edit_def announce_edit_in_match_def split: option.split
      intro!: session_inv_steps)

lemma session_inv_add_to_channel: "session_inv st \<Longrightarrow> session_inv (add_to_channel name u st)"
  by (simp add: session_inv_def add_to_channel_def)

lemmas session_inv_more = session_inv_steps session_inv_remove_user session_inv_update_own_match
  session_inv_leave_current session_inv_announce_edit session_inv_add_to_channel
  session_inv_modify session_inv_try_finish

lemma session_inv_lobby:
  "session_inv st \<Longrightarrow> session_inv (lobby_join token uid st)"
  "session_inv st \<Longrightarrow> session_inv (lobby_part uid st)"
  by (simp_all add: lobby_join_def lobby_part_def Let_def session_inv_more)

lemma session_inv_multiplayer:
  assumes "session_inv s"
  shows "session_inv (match_create env token uid m s)"
    "session_inv (match_join env token uid mid password s)"
    "session_inv (match_part env uid s)" "session_inv (match_change_slot env uid slot s)"
    "session_inv (match_ready env uid s)" "session_inv (match_not_ready env uid s)"
    "session_inv (match_lock env uid slot s)" "session_inv (match_change_settings env uid m s)"
    "session_inv (match_change_mods env uid mods s)" "session_inv (match_change_team env uid s)"
    "session_inv (match_change_host env uid slot s)" "session_inv (match_no_beatmap env uid s)"
    "session_inv (match_has_beatmap env uid s)" "session_inv (match_start env uid s)"
    "session_inv (match_load_complete uid s)"
    "session_inv (match_score_update uid payload frame s)"
    "session_inv (match_failed uid s)" "session_inv (match_skip_request uid s)"
    "session_inv (match_complete env uid s)"
  subgoal using assms unfolding match_create_def Let_def by (intro session_inv_more) simp_all
  subgoal using assms unfolding match_join_def Let_def
    by (auto split: option.split intro!: session_inv_more)
  subgoal using session_inv_remove_user[OF assms, of uid] unfolding match_part_def Let_def
    by (auto split: option.split prod.split intro!: session_inv_more)
  subgoal using assms by (simp add: match_change_slot_def split_def Let_def session_inv_more)
  subgoal using assms by (simp add: match_ready_def split_def Let_def session_inv_more)
  subgoal using assms by (simp add: match_not_ready_def split_def Let_def session_inv_more)
  subgoal using assms by (simp add: match_lock_def split_def Let_def session_inv_more)
  subgoal using assms by (simp add: match_change_settings_def split_def Let_def session_inv_more)
  subgoal using assms by (simp add: match_change_mods_def split_def Let_def session_inv_more)
  subgoal using session_inv_update_own_match[OF assms, of change_team uid]
    unfolding match_change_team_def by (auto split: option.split prod.split intro!: session_inv_more)
  subgoal using session_inv_update_own_match[OF assms, of "change_host slot" uid]
    unfolding match_change_host_def by (auto split: option.split prod.split intro!: session_inv_more)
  subgoal using assms by (simp add: match_no_beatmap_def split_def Let_def session_inv_more)
  subgoal using assms by (simp add: match_has_beatmap_def split_def Let_def session_inv_more)
  subgoal using session_inv_update_own_match[OF assms, of start_match uid]
    unfolding match_start_def Let_def
    by (auto split: option.split prod.split intro!: session_inv_more)
  subgoal using assms unfolding match_load_complete_def Let_def
    by (auto split: option.split intro!: session_inv_more)
  subgoal using assms unfolding match_score_update_def relay_match_score_frame_def Let_def
    by (auto split: option.split io_res.split intro!: session_inv_more)
  subgoal using assms unfolding match_failed_def announce_slot_def
    by (auto split: option.split intro!: session_inv_more)
  subgoal using assms unfolding match_skip_request_def announce_slot_def
    by (auto split: option.split intro!: session_inv_more)
  subgoal using assms unfolding match_complete_def
    by (auto split: option.split intro!: session_inv_more)
  done

end
