(* ===== verification/Spectating.thy ===== *)
theory Spectating
  imports Multiplayer
begin

text \<open>
  The spectator arms of \<^verbatim>\<open>handle_client_packets\<close> (\<^verbatim>\<open>src/bancho/handler.rs\<close>), the
  invariant that ties \<^verbatim>\<open>spectators\<close> to \<^verbatim>\<open>spectating_target\<close>
  (\<^verbatim>\<open>src/bancho/state.rs\<close>), and removing a session, which touches every table.
\<close>

subsection \<open>Handlers\<close>

definition stop_spectating_packet :: "i32 \<Rightarrow> 'x bancho_state_scheme \<Rightarrow> 'x bancho_state_scheme" where
  "stop_spectating_packet uid st =
     (let (host, st1) = stop_spectating uid st in announce_stopped uid host st1)"

definition start_spectating ::
    "rstr \<Rightarrow> i32 \<Rightarrow> i32 \<Rightarrow> 'x bancho_state_scheme \<Rightarrow> 'x bancho_state_scheme" where
  "start_spectating token uid target_id st =
     (let st1 = stop_spectating_packet uid st
      in if hget (user_id_to_token st1) target_id \<noteq> None \<and> target_id \<noteq> uid then
           let st2 = broadcast_to_spectators target_id (build_fellow_spectator_joined uid) st1;
               existing_specs = (case hget (spectators st2) target_id of Some l \<Rightarrow> l | None \<Rightarrow> []);
               st3 = fold (\<lambda>spec_id. send_to_user uid (build_fellow_spectator_joined spec_id))
                       existing_specs st2;
               st4 = st3\<lparr>spectators := hput target_id (existing_specs @ [uid]) (spectators st3),
                         spectating_target := hput uid target_id (spectating_target st3)\<rparr>;
               st5 = send_to_user target_id (build_spectator_joined uid) st4;
               st6 = modify_session token (enter_channel (lit ''#spectator'')) st5
           in add_to_channel (lit ''#spectator'') uid st6
         else st1)"

definition spectate_frames :: "i32 \<Rightarrow> u8 list \<Rightarrow> 'x bancho_state_scheme \<Rightarrow> 'x bancho_state_scheme" where
  "spectate_frames uid payload st = broadcast_to_spectators uid (build_spectator_frames payload) st"

definition cant_spectate :: "i32 \<Rightarrow> 'x bancho_state_scheme \<Rightarrow> 'x bancho_state_scheme" where
  "cant_spectate uid st =
     (case hget (spectating_target st) uid of
        None \<Rightarrow> st
      | Some host_id \<Rightarrow>
          broadcast_to_spectators host_id (build_spectator_cant_spectate uid)
            (send_to_user host_id (build_spectator_cant_spectate uid) st))"

subsection \<open>The two tables mirror each other\<close>

definition watchers :: "('k \<Rightarrow> 'v list option) \<Rightarrow> 'k \<Rightarrow> 'v list" where
  "watchers sp h = (case sp h of None \<Rightarrow> [] | Some us \<Rightarrow> us)"

definition mirrored :: "(i32 \<Rightarrow> i32 list option) \<Rightarrow> (i32 \<Rightarrow> i32 option) \<Rightarrow> bool" where
  "mirrored sp tg \<longleftrightarrow>
     (\<forall>u h. tg u = Some h \<longleftrightarrow> u \<in> set (watchers sp h))
     \<and> (\<forall>h. distinct (watchers sp h) \<and> h \<notin> set (watchers sp h) \<and> sp h \<noteq> Some [])"

definition spec_inv :: "'x bancho_state_scheme \<Rightarrow> bool" where
  "spec_inv st \<longleftrightarrow> mirrored (hget (spectators st)) (hget (spectating_target st))"

lemma mirroredD:
  assumes "mirrored sp tg"
  shows "tg u = Some h \<longleftrightarrow> u \<in> set (watchers sp h)" "distinct (watchers sp h)"
    "h \<notin> set (watchers sp h)" "sp h \<noteq> Some []"
  using assms unfolding mirrored_def by blast+

lemma watchers_upd [simp]:
  "watchers (sp(h \<mapsto> us)) h' = (if h' = h then us else watchers sp h')"
  "watchers (sp(h := None)) h' = (if h' = h then [] else watchers sp h')"
  by (simp_all add: watchers_def)

lemma mirrored_stop:
  assumes m: "mirrored sp tg" and t: "tg u = Some h"
    and ws: "ws = filter (\<lambda>x. x \<noteq> u) (watchers sp h)"
  shows "mirrored (if ws = [] then sp(h := None) else sp(h \<mapsto> ws)) (tg(u := None))"
proof -
  have w: "watchers (if ws = [] then sp(h := None) else sp(h \<mapsto> ws)) h' =
      (if h' = h then ws else watchers sp h')" for h' by simp
  have one: "u \<in> set (watchers sp h') \<Longrightarrow> h' = h" for h'
    using mirroredD(1)[OF m, of u h'] t by simp
  show ?thesis
    unfolding mirrored_def w
  proof (intro conjI allI)
    fix v h'
    show "(tg(u := None)) v = Some h' \<longleftrightarrow> v \<in> set (if h' = h then ws else watchers sp h')"
      using mirroredD(1)[OF m, of v h'] one[of h'] by (auto simp: ws)
    show "distinct (if h' = h then ws else watchers sp h')"
      "h' \<notin> set (if h' = h then ws else watchers sp h')"
      using mirroredD(2,3)[OF m, of h'] by (auto simp: ws)
    show "(if ws = [] then sp(h := None) else sp(h \<mapsto> ws)) h' \<noteq> Some []"
      using mirroredD(4)[OF m, of h'] by simp
  qed
qed

lemma mirrored_start:
  assumes m: "mirrored sp tg" and "tg u = None" and "t \<noteq> u"
  shows "mirrored (sp(t \<mapsto> watchers sp t @ [u])) (tg(u \<mapsto> t))"
proof -
  have none: "u \<notin> set (watchers sp h)" for h
    using mirroredD(1)[OF m, of u h] assms(2) by simp
  show ?thesis
    unfolding mirrored_def watchers_upd
  proof (intro conjI allI)
    fix v h'
    show "(tg(u \<mapsto> t)) v = Some h' \<longleftrightarrow>
        v \<in> set (if h' = t then watchers sp t @ [u] else watchers sp h')"
      using mirroredD(1)[OF m, of v h'] none[of h'] by auto
    show "distinct (if h' = t then watchers sp t @ [u] else watchers sp h')"
      "h' \<notin> set (if h' = t then watchers sp t @ [u] else watchers sp h')"
      "(sp(t \<mapsto> watchers sp t @ [u])) h' \<noteq> Some []"
      using mirroredD(2-4)[OF m, of h'] none[of h'] assms(3) by auto
  qed
qed

text \<open>A host goes: its watchers lose their target.\<close>

lemma mirrored_release:
  assumes m: "mirrored sp tg"
  shows "mirrored (sp(h := None)) (\<lambda>u. if u \<in> set (watchers sp h) then None else tg u)"
proof -
  have one: "u \<in> set (watchers sp h) \<Longrightarrow> u \<in> set (watchers sp h') \<Longrightarrow> h' = h" for u h'
    using mirroredD(1)[OF m, of u h] mirroredD(1)[OF m, of u h'] by simp
  show ?thesis
    unfolding mirrored_def watchers_upd
  proof (intro conjI allI)
    fix v h'
    show "(if v \<in> set (watchers sp h) then None else tg v) = Some h' \<longleftrightarrow>
        v \<in> set (if h' = h then [] else watchers sp h')"
      using mirroredD(1)[OF m, of v h'] one[of v h'] by auto
    show "distinct (if h' = h then [] else watchers sp h')"
      "h' \<notin> set (if h' = h then [] else watchers sp h')" "(sp(h := None)) h' \<noteq> Some []"
      using mirroredD(2-4)[OF m, of h'] by auto
  qed
qed

lemma spec_inv_cong:
  "spectators st' = spectators st \<Longrightarrow> spectating_target st' = spectating_target st \<Longrightarrow>
     spec_inv st' = spec_inv st"
  by (simp add: spec_inv_def)

context delivery
begin

lemma spec_inv_run [keeps]: "spec_inv st \<Longrightarrow> spec_inv (run st)"
  by (simp add: spec_inv_def)

end

lemma spec_inv_others:
  "spec_inv st \<Longrightarrow> spec_inv (modify_session t f st)"
  "spec_inv st \<Longrightarrow> spec_inv (add_to_channel name u st)"
  "spec_inv st \<Longrightarrow> spec_inv (st\<lparr>channels := cs\<rparr>)"
  "spec_inv st \<Longrightarrow> spec_inv (st\<lparr>lobby_subscribers := ls\<rparr>)"
  "spec_inv st \<Longrightarrow> spec_inv (st\<lparr>sessions := ss\<rparr>)"
  "spec_inv st \<Longrightarrow> spec_inv (st\<lparr>user_id_to_token := ut\<rparr>)"
  "spec_inv st \<Longrightarrow> spec_inv (snd (remove_user_from_match u st))"
  "spec_inv st \<Longrightarrow> spec_inv (snd (update_own_match edit u st))"
  by (simp_all add: spec_inv_def add_to_channel_def remove_user_frame update_own_match_def
      split: option.split)

lemma stop_spectating_tables:
  assumes "spec_inv st" and "hget (spectating_target st) u = Some h"
  defines "ws \<equiv> filter (\<lambda>x. x \<noteq> u) (watchers (hget (spectators st)) h)"
  shows "hget (spectators (snd (stop_spectating u st))) =
      (if ws = [] then (hget (spectators st))(h := None) else (hget (spectators st))(h \<mapsto> ws))"
    "hget (spectating_target (snd (stop_spectating u st))) =
      (hget (spectating_target st))(u := None)"
proof -
  have "u \<in> set (watchers (hget (spectators st)) h)"
    using assms(1,2) by (simp add: spec_inv_def mirroredD(1))
  then obtain us where "hget (spectators st) h = Some us"
    by (cases "hget (spectators st) h") (auto simp: watchers_def)
  then show "hget (spectators (snd (stop_spectating u st))) =
      (if ws = [] then (hget (spectators st))(h := None) else (hget (spectators st))(h \<mapsto> ws))"
    "hget (spectating_target (snd (stop_spectating u st))) =
      (hget (spectating_target st))(u := None)"
    using assms(2) by (simp_all add: stop_spectating_def Let_def ws_def watchers_def)
qed

lemma stop_spectating_inv [keeps]:
  "spec_inv st \<Longrightarrow> spec_inv (snd (stop_spectating u st))"
  by (cases "hget (spectating_target st) u")
    (simp add: stop_spectating_def, simp add: spec_inv_def stop_spectating_tables[simplified spec_inv_def] mirrored_stop)

lemma stop_spectating_target:
  "hget (spectating_target (snd (stop_spectating u st))) u = None"
  by (simp add: stop_spectating_def Let_def split: option.split)

lemma stop_spectating_frame:
  "sessions (snd (stop_spectating u st)) = sessions st"
  "user_id_to_token (snd (stop_spectating u st)) = user_id_to_token st"
  "channels (snd (stop_spectating u st)) = channels st"
  "matches (snd (stop_spectating u st)) = matches st"
  "next_match_id (snd (stop_spectating u st)) = next_match_id st"
  "user_to_match (snd (stop_spectating u st)) = user_to_match st"
  "lobby_subscribers (snd (stop_spectating u st)) = lobby_subscribers st"
  "match_start_times (snd (stop_spectating u st)) = match_start_times st"
  "match_last_scores (snd (stop_spectating u st)) = match_last_scores st"
  "match_loaded_users (snd (stop_spectating u st)) = match_loaded_users st"
  "pending_disbanded_matches (snd (stop_spectating u st)) = pending_disbanded_matches st"
  "bancho_state.more (snd (stop_spectating u st)) = bancho_state.more st"
  by (simp_all add: stop_spectating_def Let_def split: option.split)

lemma stop_spectating_packet_eq:
  "stop_spectating_packet u st =
     announce_stopped u (fst (stop_spectating u st)) (snd (stop_spectating u st))"
  by (simp add: stop_spectating_packet_def Let_def split_def)

lemma spec_inv_stop_packet [keeps]:
  "spec_inv st \<Longrightarrow> spec_inv (stop_spectating_packet u st)"
  by (simp add: stop_spectating_packet_eq stop_spectating_inv stopped_news.spec_inv_run)

interpretation each_fellow: delivery "fold (\<lambda>x. send_to_user u (f x)) xs" for u f xs
  by unfold_locales (rule queues_only_fold, rule sending.run_queues_only)

lemma spec_inv_start_spectating [keeps]:
  assumes "spec_inv st"
  shows "spec_inv (start_spectating token u t st)"
proof -
  let ?st1 = "stop_spectating_packet u st"
  have inv1: "spec_inv ?st1" by (rule spec_inv_stop_packet[OF assms])
  have u1: "hget (spectating_target ?st1) u = None"
    by (simp add: stop_spectating_packet_eq stop_spectating_target)
  have w: "(case hget (spectators ?st1) t of None \<Rightarrow> [] | Some l \<Rightarrow> l) =
      watchers (hget (spectators ?st1)) t"
    by (simp add: watchers_def)
  show ?thesis
    unfolding start_spectating_def Let_def
    using inv1 u1
    by (auto simp: w spec_inv_def mirrored_start add_to_channel_def)
qed

subsection \<open>Removing a session\<close>

interpretation each_send: delivery "fold (\<lambda>v. send_to_user v p) us" for p us
  by unfold_locales (rule queues_only_fold, rule sending.run_queues_only)

lemma send_other_tables:
  "send_to_user v p (s\<lparr>spectating_target := tg\<rparr>) = (send_to_user v p s)\<lparr>spectating_target := tg\<rparr>"
  "send_to_user v p (s\<lparr>spectators := sp\<rparr>) = (send_to_user v p s)\<lparr>spectators := sp\<rparr>"
  by (simp_all add: send_to_user_def enqueue_to_user_def modify_session_def split: option.split)

lemma fold_send_other_tables:
  "fold (\<lambda>v. send_to_user v p) us (s\<lparr>spectating_target := tg\<rparr>) =
     (fold (\<lambda>v. send_to_user v p) us s)\<lparr>spectating_target := tg\<rparr>"
  "fold (\<lambda>v. send_to_user v p) us (s\<lparr>spectators := sp\<rparr>) =
     (fold (\<lambda>v. send_to_user v p) us s)\<lparr>spectators := sp\<rparr>"
  by (induction us arbitrary: s) (simp_all add: send_other_tables)

lemma release_fold:
  "fold (\<lambda>v s. send_to_user v p (s\<lparr>spectating_target := hdel v (spectating_target s)\<rparr>)) us st =
     (fold (\<lambda>v. send_to_user v p) us st)\<lparr>spectating_target := fold hdel us (spectating_target st)\<rparr>"
  by (induction us arbitrary: st) (simp_all add: send_other_tables fold_send_other_tables)

lemma hget_fold_hdel: "hget (fold hdel us m) k = (if k \<in> set us then None else hget m k)"
  by (induction us arbitrary: m) auto

lemma release_spectators_eq:
  "release_spectators u st =
     (case hget (spectators st) u of None \<Rightarrow> st
      | Some us \<Rightarrow> (fold (\<lambda>v. send_to_user v (build_spectator_left u)) us st)
          \<lparr>spectators := hdel u (spectators st),
           spectating_target := fold hdel us (spectating_target st)\<rparr>)"
  by (simp add: release_spectators_def release_fold fold_send_other_tables split: option.split)

lemma release_spectators_frame [simp]:
  "user_id_to_token (release_spectators u st) = user_id_to_token st"
  "channels (release_spectators u st) = channels st"
  "matches (release_spectators u st) = matches st"
  "next_match_id (release_spectators u st) = next_match_id st"
  "user_to_match (release_spectators u st) = user_to_match st"
  "lobby_subscribers (release_spectators u st) = lobby_subscribers st"
  "match_start_times (release_spectators u st) = match_start_times st"
  "match_last_scores (release_spectators u st) = match_last_scores st"
  "match_loaded_users (release_spectators u st) = match_loaded_users st"
  "pending_disbanded_matches (release_spectators u st) = pending_disbanded_matches st"
  "hkeys (sessions (release_spectators u st)) = hkeys (sessions st)"
  by (simp_all add: release_spectators_eq split: option.split)

lemma remove_session_eq:
  assumes "hget (sessions st) token = Some s"
  defines "u \<equiv> ss_user_id s"
  defines "st1 \<equiv> st\<lparr>sessions := hdel token (sessions st),
      user_id_to_token := hdel u (user_id_to_token st),
      lobby_subscribers := hs_remove u (lobby_subscribers st)\<rparr>"
  shows "remove_session token st =
    (Some s, leave_channels u (release_spectators u (stop_spectating_packet u (leave_current u st1))))"
  using assms(1)
  by (simp add: remove_session_def Let_def split_def stop_spectating_packet_eq leave_current_eq
      u_def st1_def)

lemma leave_channels_fields [simp]:
  "sessions (leave_channels u st) = sessions st"
  "user_id_to_token (leave_channels u st) = user_id_to_token st"
  "matches (leave_channels u st) = matches st"
  "next_match_id (leave_channels u st) = next_match_id st"
  "user_to_match (leave_channels u st) = user_to_match st"
  "lobby_subscribers (leave_channels u st) = lobby_subscribers st"
  "match_start_times (leave_channels u st) = match_start_times st"
  "match_last_scores (leave_channels u st) = match_last_scores st"
  "match_loaded_users (leave_channels u st) = match_loaded_users st"
  "pending_disbanded_matches (leave_channels u st) = pending_disbanded_matches st"
  "spectators (leave_channels u st) = spectators st"
  "spectating_target (leave_channels u st) = spectating_target st"
  "channels (leave_channels u st) = hmap_values (\<lambda>_. remove_member u) (channels st)"
  by (simp_all add: leave_channels_def)

lemma stop_packet_fields [simp]:
  "user_id_to_token (stop_spectating_packet u st) = user_id_to_token st"
  "channels (stop_spectating_packet u st) = channels st"
  "matches (stop_spectating_packet u st) = matches st"
  "next_match_id (stop_spectating_packet u st) = next_match_id st"
  "user_to_match (stop_spectating_packet u st) = user_to_match st"
  "lobby_subscribers (stop_spectating_packet u st) = lobby_subscribers st"
  "match_start_times (stop_spectating_packet u st) = match_start_times st"
  "match_last_scores (stop_spectating_packet u st) = match_last_scores st"
  "match_loaded_users (stop_spectating_packet u st) = match_loaded_users st"
  "pending_disbanded_matches (stop_spectating_packet u st) = pending_disbanded_matches st"
  "hkeys (sessions (stop_spectating_packet u st)) = hkeys (sessions st)"
  by (simp_all add: stop_spectating_packet_eq stop_spectating_frame)

lemma room_inv_stop_packet: "room_inv st \<Longrightarrow> room_inv (stop_spectating_packet u st)"
  by (rule room_inv_cong) simp_all

lemma room_inv_release: "room_inv st \<Longrightarrow> room_inv (release_spectators u st)"
  by (rule room_inv_cong) simp_all

lemma room_inv_leave_channels: "room_inv st \<Longrightarrow> room_inv (leave_channels u st)"
  by (rule room_inv_cong) simp_all

lemma session_inv_release: "session_inv st \<Longrightarrow> session_inv (release_spectators u st)"
  by (simp add: release_spectators_eq each_send.session_inv_run session_inv_fields
      split: option.split)

lemma session_inv_leave_channels: "session_inv st \<Longrightarrow> session_inv (leave_channels u st)"
  by (simp add: session_inv_def)

lemma session_inv_stop_packet: "session_inv st \<Longrightarrow> session_inv (stop_spectating_packet u st)"
  by (simp add: stop_spectating_packet_eq session_inv_def[of "snd (stop_spectating u st)"]
      stop_spectating_frame stopped_news.session_inv_run session_inv_def[symmetric])

lemma spec_inv_release:
  "spec_inv st \<Longrightarrow> spec_inv (release_spectators u st)"
  "spec_inv st \<Longrightarrow> hget (spectators (release_spectators u st)) u = None"
  "hget (spectating_target st) v = None \<Longrightarrow> hget (spectating_target (release_spectators u st)) v = None"
proof -
  assume inv: "spec_inv st"
  show "spec_inv (release_spectators u st)"
  proof (cases "hget (spectators st) u")
    case (Some us)
    have t: "hget (fold hdel us (spectating_target st)) =
        (\<lambda>v. if v \<in> set (watchers (hget (spectators st)) u) then None
             else hget (spectating_target st) v)"
      using Some by (simp add: fun_eq_iff hget_fold_hdel watchers_def)
    show ?thesis
      using inv mirrored_release[of "hget (spectators st)" "hget (spectating_target st)" u]
      by (simp add: release_spectators_eq Some spec_inv_def t)
  qed (use inv in \<open>simp add: release_spectators_eq\<close>)
next
  show "hget (spectators (release_spectators u st)) u = None"
    by (simp add: release_spectators_eq split: option.split)
next
  assume "hget (spectating_target st) v = None"
  then show "hget (spectating_target (release_spectators u st)) v = None"
    by (simp add: release_spectators_eq hget_fold_hdel split: option.split)
qed

lemma spec_inv_leave_channels: "spec_inv st \<Longrightarrow> spec_inv (leave_channels u st)"
  by (simp add: spec_inv_def)

lemma spec_inv_leave_current: "spec_inv st \<Longrightarrow> spec_inv (leave_current u st)"
  by (simp add: spec_inv_def)

lemma remove_session_absent: "hget (sessions st) token = None \<Longrightarrow> remove_session token st = (None, st)"
  by (simp add: remove_session_def)

lemma room_inv_remove_session [keeps]:
  "room_inv st \<Longrightarrow> room_inv (snd (remove_session token st))"
proof (cases "hget (sessions st) token")
  case (Some s)
  assume "room_inv st"
  then show ?thesis
    by (simp add: remove_session_eq[OF Some])
      (intro room_inv_leave_channels room_inv_release room_inv_stop_packet room_inv_leave_current,
       erule room_inv_cong[rotated -1], simp_all)
qed (simp add: remove_session_absent)

lemma session_inv_remove_session [keeps]:
  "session_inv st \<Longrightarrow> session_inv (snd (remove_session token st))"
proof (cases "hget (sessions st) token")
  case (Some s)
  assume inv: "session_inv st"
  show ?thesis
    by (simp add: remove_session_eq[OF Some])
      (intro session_inv_leave_channels session_inv_release session_inv_stop_packet
        session_inv_leave_current session_inv_fields session_inv_drop[OF inv Some])
qed (simp add: remove_session_absent)

lemma spec_inv_remove_session [keeps]:
  "spec_inv st \<Longrightarrow> spec_inv (snd (remove_session token st))"
proof (cases "hget (sessions st) token")
  case (Some s)
  assume inv: "spec_inv st"
  show ?thesis
    by (simp add: remove_session_eq[OF Some])
      (intro spec_inv_leave_channels spec_inv_release(1) spec_inv_stop_packet
        spec_inv_leave_current, use inv in \<open>simp add: spec_inv_def\<close>)
qed (simp add: remove_session_absent)

end
