(* ===== verification/Sql.thy ===== *)
theory Sql
  imports Prelude "HOL-Library.Multiset"
begin

text \<open>
  What the SQL of \<^verbatim>\<open>src/db\<close> does with the rows of a table: \<^verbatim>\<open>LIMIT\<close>, \<^verbatim>\<open>ORDER BY\<close>
  and grouping.  A table is the list of its rows, oldest first.  SQL leaves open in which
  order rows with equal keys come; here they keep the order of the table, and the theorems
  about queries do not depend on it unless they say so.
\<close>

definition sql_limit :: "int \<Rightarrow> 'a list \<Rightarrow> 'a list" where
  "sql_limit n xs = (if n < 0 then xs else take (nat n) xs)"

definition order_desc :: "('a \<Rightarrow> 'b::linorder) \<Rightarrow> 'a list \<Rightarrow> 'a list" where
  "order_desc f xs = rev (sort_key f (rev xs))"

lemma set_sql_limit: "set (sql_limit n xs) \<subseteq> set xs"
  by (simp add: sql_limit_def set_take_subset)

lemma length_sql_limit: "0 \<le> n \<Longrightarrow> length (sql_limit n xs) = min (length xs) (nat n)"
  by (simp add: sql_limit_def)

lemma set_order_desc [simp]: "set (order_desc f xs) = set xs"
  by (simp add: order_desc_def)

lemma length_order_desc [simp]: "length (order_desc f xs) = length xs"
  by (simp add: order_desc_def)

lemma order_desc_Nil [simp]: "order_desc f xs = [] \<longleftrightarrow> xs = []"
  by (metis length_0_conv length_order_desc)

lemma distinct_order_desc [simp]: "distinct (order_desc f xs) = distinct xs"
  by (simp add: order_desc_def)

lemma mset_order_desc [simp]: "mset (order_desc f xs) = mset xs"
  by (simp add: order_desc_def)

lemma sorted_order_desc: "sorted_wrt (\<lambda>a b. f b \<le> f a) (order_desc f xs)"
  using sorted_sort_key[of f "rev xs"] by (simp add: order_desc_def sorted_wrt_rev sorted_map)

lemma filter_order_desc: "filter P (order_desc f xs) = order_desc f (filter P xs)"
  by (simp add: order_desc_def rev_filter[symmetric] filter_sort)

text \<open>Rows with the same key keep the order of the table.\<close>

lemma order_desc_stable:
  "filter (\<lambda>x. f x = k) (order_desc f xs) = filter (\<lambda>x. f x = k) xs"
  using sort_key_stable[of f k "rev xs"] by (simp add: order_desc_def rev_filter[symmetric])

lemma order_desc_refines:
  "sorted_wrt (\<lambda>a b. g b \<le> g a) xs \<Longrightarrow>
     sorted_wrt (\<lambda>a b. f b < f a \<or> f b = f a \<and> g b \<le> g a) (order_desc f xs)"
proof -
  assume g: "sorted_wrt (\<lambda>a b. g b \<le> g a) xs"
  show ?thesis
  proof (rule iffD2[OF sorted_wrt_iff_nth_less], intro allI impI)
    let ?ys = "order_desc f xs"
    fix i j
    assume ij: "i < j" "j < length ?ys"
    have le: "f (?ys ! j) \<le> f (?ys ! i)"
      using sorted_order_desc[of f xs] ij by (simp add: sorted_wrt_iff_nth_less)
    have "g (?ys ! j) \<le> g (?ys ! i)" if eq: "f (?ys ! j) = f (?ys ! i)"
    proof -
      let ?P = "\<lambda>x. f x = f (?ys ! i)"
      have "sorted_wrt (\<lambda>a b. g b \<le> g a) (filter ?P ?ys)"
        using sorted_wrt_filter[OF g] by (simp add: order_desc_stable)
      moreover have "filter ?P ?ys = filter ?P (take j ?ys) @ ?ys ! j # filter ?P (drop (Suc j) ?ys)"
        using id_take_nth_drop[OF ij(2)] eq by (metis (mono_tags, lifting) filter.simps(2) filter_append)
      moreover have "?ys ! i \<in> set (filter ?P (take j ?ys))"
        using ij by (auto simp: in_set_conv_nth intro!: exI[of _ i])
      ultimately show ?thesis by (auto simp: sorted_wrt_append)
    qed
    with le show "f (?ys ! j) < f (?ys ! i) \<or> f (?ys ! j) = f (?ys ! i) \<and> g (?ys ! j) \<le> g (?ys ! i)"
      by auto
  qed
qed

lemma limit_best:
  assumes "sorted_wrt R xs" and "x \<in> set (sql_limit n xs)" and "y \<in> set xs - set (sql_limit n xs)"
  shows "R x y"
proof -
  have n: "\<not> n < 0" using assms(3) by (auto simp: sql_limit_def)
  have "sorted_wrt R (take (nat n) xs @ drop (nat n) xs)"
    unfolding append_take_drop_id by (rule assms(1))
  moreover have "y \<in> set (drop (nat n) xs)"
  proof -
    have "set xs = set (take (nat n) xs) \<union> set (drop (nat n) xs)"
      by (metis append_take_drop_id set_append)
    then show ?thesis using assms(3) n by (auto simp: sql_limit_def)
  qed
  ultimately show ?thesis using assms(2) n by (simp only: sorted_wrt_append sql_limit_def if_False)
qed

subsection \<open>Grouping in a hash map\<close>

text \<open>\<^verbatim>\<open>map.entry(key).or_default().push(x)\<close>\<close>

definition push_under :: "'k \<Rightarrow> 'a \<Rightarrow> ('k, 'a list) hmap \<Rightarrow> ('k, 'a list) hmap" where
  "push_under k x m = hput k ((case hget m k of Some xs \<Rightarrow> xs | None \<Rightarrow> []) @ [x]) m"

definition group_under :: "('a \<Rightarrow> 'k) \<Rightarrow> 'a list \<Rightarrow> ('k, 'a list) hmap" where
  "group_under key xs = fold (\<lambda>x. push_under (key x) x) xs []"

definition group_of :: "('k, 'a list) hmap \<Rightarrow> 'k \<Rightarrow> 'a list" where
  "group_of m k = (case hget m k of Some xs \<Rightarrow> xs | None \<Rightarrow> [])"

lemma group_of_push [simp]:
  "group_of (push_under k x m) k' = (if k' = k then group_of m k @ [x] else group_of m k')"
  by (simp add: group_of_def push_under_def)

lemma group_of_del [simp]: "group_of (hdel k m) k' = (if k' = k then [] else group_of m k')"
  by (simp add: group_of_def)

lemma group_of_Nil [simp]: "group_of [] k = []"
  by (simp add: group_of_def)

lemma group_of_fold:
  "group_of (fold (\<lambda>x. push_under (key x) x) xs m) k = group_of m k @ filter (\<lambda>x. key x = k) xs"
  by (induction xs arbitrary: m) auto

lemma group_of_group [simp]: "group_of (group_under key xs) k = filter (\<lambda>x. key x = k) xs"
  by (simp add: group_under_def group_of_fold)

end
