(* ===== verification/Chat_Db.thy ===== *)
theory Chat_Db
  imports Tasks Sql "HOL-Library.Multiset"
begin

text \<open>
  \<^verbatim>\<open>src/db/chat.rs\<close>: the table of chat messages and its queries.  The table is its rows
  with the next \<^verbatim>\<open>AUTOINCREMENT\<close> id; a query is what its SQL text selects.  SQLite's
  \<^verbatim>\<open>LOWER\<close> folds ASCII letters only.  Failing statements are not modelled: their callers
  drop the error.  Also \<^verbatim>\<open>clean_username\<close> and the display names of
  \<^verbatim>\<open>src/db/badges.rs\<close>, which the chat commands use.
\<close>

record chat_row =
  cr_id :: int
  cr_sender_id :: i64
  cr_sender_name :: rstr
  cr_target :: rstr
  cr_message :: rstr
  cr_is_private :: bool
  cr_sent_at :: rstr

record chat_table =
  ct_rows :: "chat_row list"
  ct_next_id :: int

definition purge_private :: "chat_table \<Rightarrow> chat_table" where
  "purge_private t = t\<lparr>ct_rows := filter (\<lambda>r. \<not> cr_is_private r) (ct_rows t)\<rparr>"

definition save_chat_message ::
    "rstr \<Rightarrow> i32 \<Rightarrow> rstr \<Rightarrow> rstr \<Rightarrow> rstr \<Rightarrow> bool \<Rightarrow> chat_table \<Rightarrow> int \<times> chat_table" where
  "save_chat_message now sender_id sender_name target message is_private t =
     (if is_private then (0, t)
      else (ct_next_id t,
            t\<lparr>ct_rows := ct_rows t @
                 [\<lparr>cr_id = ct_next_id t, cr_sender_id = scast sender_id,
                   cr_sender_name = sender_name, cr_target = target, cr_message = message,
                   cr_is_private = is_private, cr_sent_at = now\<rparr>],
              ct_next_id := ct_next_id t + 1\<rparr>))"

definition newest_first :: "chat_row list \<Rightarrow> chat_row list" where
  "newest_first rows = rev (sort_key cr_id rows)"

definition get_channel_history :: "chat_table \<Rightarrow> rstr \<Rightarrow> int \<Rightarrow> chat_row list" where
  "get_channel_history t target limit =
     sort_key cr_id (sql_limit limit (newest_first
       (filter (\<lambda>r. cr_target r = target \<and> \<not> cr_is_private r) (ct_rows t))))"

definition sql_lower :: "rstr \<Rightarrow> rstr" where
  "sql_lower = map ascii_lower"

definition get_direct_messages :: "chat_table \<Rightarrow> rstr \<Rightarrow> rstr \<Rightarrow> int \<Rightarrow> chat_row list" where
  "get_direct_messages t user1 user2 limit =
     sort_key cr_id (sql_limit limit (newest_first
       (filter (\<lambda>r. cr_is_private r
          \<and> (sql_lower (cr_sender_name r) = sql_lower user1 \<and> sql_lower (cr_target r) = sql_lower user2
             \<or> sql_lower (cr_sender_name r) = sql_lower user2 \<and> sql_lower (cr_target r) = sql_lower user1))
         (ct_rows t))))"

definition get_recent_chats :: "chat_table \<Rightarrow> int \<Rightarrow> chat_row list" where
  "get_recent_chats t limit =
     sql_limit limit (newest_first (filter (\<lambda>r. \<not> cr_is_private r) (ct_rows t)))"

text \<open>Running a spawned task on the chat table; the other tasks do not touch it.\<close>

fun run_chat_task :: "rstr \<Rightarrow> task \<Rightarrow> chat_table \<Rightarrow> chat_table" where
  "run_chat_task now (SaveChat sid sname target msg priv) t =
     snd (save_chat_message now sid sname target msg priv t)"
| "run_chat_task now _ t = t"

definition clean_username :: "rstr \<Rightarrow> rstr" where
  "clean_username name =
     (let trimmed = trim name
      in if starts_with trimmed [91] then
           (case split_once 93 trimmed of
              Some (tag, rest) \<Rightarrow> trim_start rest
            | None \<Rightarrow> trimmed)
         else trimmed)"

text \<open>\<open>tags\<close> are the tags of the user's badges, in the order of the query.\<close>

fun first_tag :: "rstr list \<Rightarrow> rstr option" where
  "first_tag [] = None"
| "first_tag (tag # tags) = (if trim tag \<noteq> [] then Some (trim tag) else first_tag tags)"

definition user_display_name :: "rstr list option \<Rightarrow> rstr \<Rightarrow> rstr" where
  "user_display_name tags base_username =
     (let clean = clean_username base_username
      in case Option.bind tags first_tag of
           Some tag \<Rightarrow> [91] @ tag @ [93, 32] @ clean
         | None \<Rightarrow> clean)"

subsection \<open>The table invariant\<close>

definition chat_ok :: "chat_table \<Rightarrow> bool" where
  "chat_ok t \<longleftrightarrow>
     sorted_wrt (\<lambda>a b. cr_id a < cr_id b) (ct_rows t)
     \<and> (\<forall>r \<in> set (ct_rows t). cr_id r < ct_next_id t \<and> \<not> cr_is_private r)"

lemma chat_ok_save [keeps]:
  "chat_ok t \<Longrightarrow> chat_ok (snd (save_chat_message now sid sname target msg priv t))"
  by (auto simp: chat_ok_def save_chat_message_def sorted_wrt_append)

lemma chat_ok_run [keeps]: "chat_ok t \<Longrightarrow> chat_ok (run_chat_task now x t)"
  by (cases x) (simp_all add: chat_ok_save)

lemma chat_ok_run_all: "chat_ok t \<Longrightarrow> chat_ok (fold (run_chat_task now) xs t)"
  by (induction xs arbitrary: t) (simp_all add: chat_ok_run)

lemma sorted_rows:
  assumes "chat_ok t"
  shows "sort_key cr_id (filter P (ct_rows t)) = filter P (ct_rows t)"
proof (rule sort_key_id_if_sorted)
  have "sorted_wrt (\<lambda>a b. cr_id a \<le> cr_id b) (filter P (ct_rows t))"
    by (rule sorted_wrt_filter, rule sorted_wrt_mono_rel[of _ "\<lambda>a b. cr_id a < cr_id b"])
      (use assms in \<open>auto simp: chat_ok_def\<close>)
  then show "sorted (map cr_id (filter P (ct_rows t)))"
    by (simp add: sorted_map)
qed

lemma limit_newest:
  fixes P :: "chat_row \<Rightarrow> bool"
  assumes ok: "chat_ok t"
  defines "rows \<equiv> filter P (ct_rows t)"
  shows "sort_key cr_id (sql_limit n (newest_first rows)) =
    (if n < 0 then rows else drop (length rows - nat n) rows)"
proof -
  have lt: "sorted_wrt (\<lambda>a b. cr_id a < cr_id b) rows"
    using ok unfolding rows_def chat_ok_def by (blast intro: sorted_wrt_filter)
  have nf: "newest_first rows = rev rows"
    by (simp add: newest_first_def rows_def sorted_rows[OF ok])
  have asc: "sort_key cr_id (rev (drop k rows)) = drop k rows" for k
  proof (rule sort_key_inj_key_eq)
    have d: "sorted_wrt (\<lambda>a b. cr_id a < cr_id b) (drop k rows)"
      using lt by (rule sorted_wrt_drop)
    show "sorted (map cr_id (drop k rows))"
      by (simp add: sorted_map sorted_wrt_mono_rel[OF _ d])
    have "distinct (map cr_id (drop k rows))"
      using d strict_sorted_iff[of "map cr_id (drop k rows)"] by (simp add: sorted_wrt_map)
    then show "inj_on cr_id (set (rev (drop k rows)))"
      by (simp add: distinct_map)
  qed simp
  show ?thesis
    using asc[of 0] asc[of "length rows - nat n"]
    by (simp add: sql_limit_def nf take_rev)
qed

lemma channel_history_eq:
  assumes "chat_ok t"
  shows "get_channel_history t target n =
    (let rows = filter (\<lambda>r. cr_target r = target) (ct_rows t)
     in if n < 0 then rows else drop (length rows - nat n) rows)"
proof -
  have "filter (\<lambda>r. cr_target r = target \<and> \<not> cr_is_private r) (ct_rows t) =
      filter (\<lambda>r. cr_target r = target) (ct_rows t)"
    using assms by (auto simp: chat_ok_def intro: filter_cong)
  then show ?thesis
    using limit_newest[OF assms, of n "\<lambda>r. cr_target r = target \<and> \<not> cr_is_private r"]
    by (simp add: get_channel_history_def Let_def)
qed

lemma no_direct_messages:
  assumes "chat_ok t"
  shows "get_direct_messages t user1 user2 n = []"
proof -
  have "filter (\<lambda>r. cr_is_private r \<and> P r) (ct_rows t) = []" for P
    using assms by (auto simp: chat_ok_def filter_empty_conv)
  then show ?thesis
    by (simp add: get_direct_messages_def newest_first_def sql_limit_def)
qed

end
