(* ===== verification/Bot.thy ===== *)
theory Bot
  imports Spectating Chat_Db
begin

unbundle bit_operations_syntax

text \<open>
  \<^verbatim>\<open>src/bancho/bot.rs\<close>: the chat commands.  A command reads and writes the shared state,
  the databases and a random number generator; the last two, and the Unicode lower-casing,
  are the fields of \<open>services\<close>.  A query that fails is \<open>None\<close>.
\<close>

subsection \<open>Formatting\<close>

text \<open>\<^verbatim>\<open>{:.d}\<close> of a float: its exact value rounded to \<open>d > 0\<close> decimals.\<close>

fun pad_left :: "nat \<Rightarrow> rstr \<Rightarrow> rstr" where
  "pad_left n s = replicate (n - length s) 48 @ s"

definition show_fixed :: "nat \<Rightarrow> fp \<Rightarrow> rstr" where
  "show_fixed d x =
     (let decimal = (\<lambda>neg q. let k = round_half_even (\<bar>q\<bar> * 10 ^ d)
                     in (if neg then [45] else []) @ show_int (k div 10 ^ d) @ [46]
                        @ pad_left d (show_int (k mod 10 ^ d)))
      in case x of NaN \<Rightarrow> lit ''NaN'' | Inf neg \<Rightarrow> (if neg then [45] else []) @ lit ''inf''
         | Zero neg \<Rightarrow> decimal neg 0 | Fin q \<Rightarrow> decimal (q < 0) q)"

definition format_mods :: "u32 \<Rightarrow> rstr" where
  "format_mods mods =
     (let names = [(1, ''NF''), (2, ''EZ''), (8, ''HD''), (16, ''HR''), (32, ''SD''), (64, ''DT''),
            (128, ''RX''), (256, ''HT''), (512, ''NC''), (1024, ''FL''), (2048, ''Auto''),
            (4096, ''SO''), (8192, ''AP''), (16384, ''PF'')];
          s = concat (map (\<lambda>(b, n). if mods AND b \<noteq> 0 then lit n else []) names)
      in if mods = 0 then lit ''None'' else if s = [] then lit ''None'' else lit ''+'' @ s)"

definition action_text :: "rstr \<Rightarrow> rstr \<Rightarrow> rstr \<Rightarrow> rstr" where
  "action_text plain prefix info_text = (if info_text = [] then plain else prefix @ info_text)"

definition format_action :: "u8 \<Rightarrow> rstr \<Rightarrow> rstr" where
  "format_action action info_text =
     (if action = 0 then lit ''Idle''
      else if action = 1 then lit ''AFK''
      else if action = 2 then action_text (lit ''Playing'') (lit ''Playing: '') info_text
      else if action = 3 then action_text (lit ''Editing a beatmap'') (lit ''Editing: '') info_text
      else if action = 4 then action_text (lit ''Modding a beatmap'') (lit ''Modding: '') info_text
      else if action = 5 then lit ''in Multiplayer match''
      else if action = 6 then action_text (lit ''Watching'') (lit ''Watching: '') info_text
      else if action = 8 then lit ''Testing a beatmap''
      else if action = 9 then lit ''Submitting score''
      else if action = 10 then lit ''Paused''
      else if action = 11 then lit ''in Multiplayer Lobby''
      else if action = 13 then lit ''in osu!Direct''
      else lit ''Online'')"

subsection \<open>What a command uses\<close>

record recent_score =
  rs_map_md5 :: rstr
  rs_score :: i64
  rs_max_combo :: i32
  rs_mods :: u32
  rs_accuracy :: fp
  rs_pp :: fp

record services =
  sv_user_by_username :: "rstr \<Rightarrow> (i32 \<times> rstr) option option"
  sv_stats :: "i32 \<Rightarrow> u8 \<Rightarrow> db_user_stats option"
  sv_rank :: "i32 \<Rightarrow> u8 \<Rightarrow> i32 option"
  sv_recent_scores :: "i32 \<Rightarrow> int \<Rightarrow> recent_score list option"
  sv_channel_history :: "rstr \<Rightarrow> int \<Rightarrow> chat_row list option"
  sv_direct_messages :: "rstr \<Rightarrow> rstr \<Rightarrow> int \<Rightarrow> chat_row list option"
  sv_str_lower :: "rstr \<Rightarrow> rstr"
  sv_char_lower :: "rchar \<Rightarrow> rstr"
  sv_roll :: "u32 \<Rightarrow> u32"

text \<open>\<^verbatim>\<open>unwrap_or_default\<close> and \<^verbatim>\<open>unwrap_or(1)\<close> of the two statistics queries.\<close>

definition default_user_stats :: db_user_stats where
  "default_user_stats = \<lparr>du_user_id = 0, du_mode = 0, du_ranked_score = 0, du_accuracy = Zero False,
     du_play_count = 0, du_total_score = 0, du_pp = 0\<rparr>"

definition stats_or_default :: "services \<Rightarrow> i32 \<Rightarrow> u8 \<Rightarrow> db_user_stats" where
  "stats_or_default sv uid mode =
     (case sv_stats sv uid mode of Some s \<Rightarrow> s | None \<Rightarrow> default_user_stats)"

definition rank_or_one :: "services \<Rightarrow> i32 \<Rightarrow> u8 \<Rightarrow> i32" where
  "rank_or_one sv uid mode = (case sv_rank sv uid mode of Some r \<Rightarrow> r | None \<Rightarrow> 1)"

text \<open>\<^verbatim>\<open>sessions.values().find\<close>: the first session in iteration order.\<close>

definition find_session :: "(session \<Rightarrow> bool) \<Rightarrow> 'x bancho_state_scheme \<Rightarrow> session option" where
  "find_session p st = List.find p (map snd (sessions st))"

definition relaxing :: "i32 \<Rightarrow> 'x bancho_state_scheme \<Rightarrow> bool" where
  "relaxing uid st =
     (case find_session (\<lambda>s. ss_user_id s = uid) st of Some s \<Rightarrow> ss_is_relax s | None \<Rightarrow> False)"

definition same_name :: "rstr \<Rightarrow> session \<Rightarrow> bool" where
  "same_name name s \<longleftrightarrow>
     eq_ignore_ascii_case (ss_username s) name
     \<or> eq_ignore_ascii_case (clean_username (ss_username s)) (clean_username name)"

definition history_packet :: "rstr \<Rightarrow> chat_row \<Rightarrow> u8 list" where
  "history_packet target r =
     build_send_message \<lparr>cm_sender = cr_sender_name r, cm_content = cr_message r,
       cm_target = target, cm_sender_id = ucast (cr_sender_id r)\<rparr>"

subsection \<open>The commands\<close>

text \<open>A command answers with a text, with ready packets, or not at all.\<close>

datatype reply = Reply rstr | Packets "u8 list" | NoReply

definition cmd_relax ::
    "services \<Rightarrow> rstr list \<Rightarrow> i32 \<Rightarrow> 'x bancho_state_scheme \<Rightarrow> reply \<times> 'x bancho_state_scheme" where
  "cmd_relax sv parts sender_id st =
     (case get_session_by_user_id sender_id st of
        None \<Rightarrow> (Reply (lit ''Kh'' @ [0xf4] @ lit ''ng t'' @ [0xec] @ lit ''m th'' @ [0x1ea5] @ lit ''y phi'' @ [0xea] @ lit ''n l'' @ [0xe0] @ lit ''m vi'' @ [0x1ec7] @ lit ''c c'' @ [0x1ee7] @ lit ''a b'' @ [0x1ea1] @ lit ''n.''), st)
      | Some session \<Rightarrow>
          let arg = (if 1 < length parts then Some (sv_str_lower sv (parts ! 1)) else None);
              desired = (if arg \<in> {Some (lit ''on''), Some (lit ''1''), Some (lit ''true'')} then True
                         else if arg \<in> {Some (lit ''off''), Some (lit ''0''), Some (lit ''false'')}
                         then False else \<not> ss_is_relax session);
              p_mode = ss_mode session;
              st1 = (case hget (user_id_to_token st) sender_id of
                       Some t \<Rightarrow> modify_session t (\<lambda>s. s\<lparr>ss_is_relax := desired\<rparr>) st
                     | None \<Rightarrow> st);
              stats_mode = (if desired \<and> p_mode \<le> 2 then p_mode + 4 else p_mode);
              db_stats = stats_or_default sv sender_id stats_mode;
              rank = rank_or_one sv sender_id stats_mode;
              pkt = (case get_session_by_user_id sender_id st1 of
                       Some s \<Rightarrow> build_user_stats (to_stats db_stats rank s) | None \<Rightarrow> []);
              st2 = (if pkt \<noteq> [] then broadcast pkt st1 else st1);
              mode_name = (if p_mode = 0 then lit ''osu! Standard'' else if p_mode = 1 then lit ''Taiko''
                           else if p_mode = 2 then lit ''Catch The Beat''
                           else if p_mode = 3 then lit ''osu!mania'' else lit ''osu!'');
              text = (if desired then lit ''Relax mode: B'' @ [0x1eac] @ lit ''T [ON] cho '' @ mode_name @ lit ''. B'' @ [0x1ea3] @ lit ''ng '' @ [0x111] @ lit ''i'' @ [0x1ec3] @ lit ''m v'' @ [0xe0] @ lit '' x'' @ [0x1ebf] @ lit ''p h'' @ [0x1ea1] @ lit ''ng b'' @ [0xe2] @ lit ''y gi'' @ [0x1edd] @ lit '' s'' @ [0x1ebd] @ lit '' t'' @ [0xed] @ lit ''nh ri'' @ [0xea] @ lit ''ng cho Relax (RX)! PP: ''
                      else lit ''Relax mode: T'' @ [0x1eae] @ lit ''T [OFF] cho '' @ mode_name @ lit ''. Tr'' @ [0x1edf] @ lit '' v'' @ [0x1ec1] @ lit '' ch'' @ [0x1ebf] @ lit '' '' @ [0x111, 0x1ed9] @ lit '' Standard/Vanilla b'' @ [0xec] @ lit ''nh th'' @ [0x1b0, 0x1edd] @ lit ''ng! PP: '')
          in (Reply (text @ show_int (sint (du_pp db_stats)) @ lit '' | Rank: #'' @ show_int (sint rank)),
              st2))"

definition cmd_roll :: "services \<Rightarrow> rstr list \<Rightarrow> rstr \<Rightarrow> reply" where
  "cmd_roll sv parts sender_username =
     (let max_val = (if length parts > 1
                     then max (case parse_int 0 (2 ^ 32 - 1) (parts ! 1) of Some k \<Rightarrow> word_of_int k | None \<Rightarrow> 100) 1
                     else (100 :: u32));
          rolled = sv_roll sv max_val
      in Reply (sender_username @ lit '' rolls '' @ show_int (uint rolled) @ lit '' point(s) (1-''
                @ show_int (uint max_val) @ lit '')!''))"

definition cmd_uptime :: "env \<Rightarrow> 'x bancho_state_scheme \<Rightarrow> reply" where
  "cmd_uptime env st =
     (let elapsed = int ((e_now env - start_time st) div 1000000000);
          hours = elapsed div 3600; minutes = elapsed mod 3600 div 60; seconds = elapsed mod 60
      in Reply (lit ''Server Uptime: '' @ show_int hours @ lit ''h '' @ show_int minutes @ lit ''m ''
                @ show_int seconds @ lit ''s''))"

definition user_not_found :: "rstr \<Rightarrow> reply" where
  "user_not_found raw_name = Reply (lit ''User '' @ [39] @ raw_name @ [39] @ lit '' not found.'')"

definition cmd_stats ::
    "services \<Rightarrow> rstr list \<Rightarrow> i32 \<Rightarrow> rstr \<Rightarrow> 'x bancho_state_scheme \<Rightarrow> reply" where
  "cmd_stats sv parts sender_id sender_username st =
     (let report = (\<lambda>(target_id, target_name, is_relax).
            let stats_mode = (if is_relax then 4 else 0 :: u8);
                rank = rank_or_one sv target_id stats_mode
            in case sv_stats sv target_id stats_mode of
                 Some stats \<Rightarrow>
                   Reply (lit ''Stats for '' @ target_name @ (if is_relax then lit '' (Relax)'' else [])
                     @ lit '' (#'' @ show_int (sint rank) @ lit ''): PP: '' @ show_int (sint (du_pp stats))
                     @ lit '' | Accuracy: '' @ show_fixed 2 (du_accuracy stats)
                     @ lit ''% | Ranked Score: '' @ show_int (sint (du_ranked_score stats))
                     @ lit '' | Plays: '' @ show_int (sint (du_play_count stats)))
               | None \<Rightarrow> Reply (lit ''Failed to retrieve user statistics.''))
      in if length parts > 1 then
           let raw_name = parts ! 1;
               rx_arg = (2 < length parts \<and> (eq_ignore_ascii_case (parts ! 2) (lit ''rx'')
                           \<or> eq_ignore_ascii_case (parts ! 2) (lit ''relax'')))
           in case sv_user_by_username sv (clean_username raw_name) of
                Some (Some (uid, uname)) \<Rightarrow> report (uid, uname, rx_arg \<or> relaxing uid st)
              | _ \<Rightarrow> user_not_found raw_name
         else report (sender_id, sender_username, relaxing sender_id st))"

definition cmd_recent :: "services \<Rightarrow> rstr list \<Rightarrow> i32 \<Rightarrow> rstr \<Rightarrow> reply" where
  "cmd_recent sv parts sender_id sender_username =
     (let report = (\<lambda>(target_id, target_name).
            case (case sv_recent_scores sv target_id 1 of Some l \<Rightarrow> l | None \<Rightarrow> []) of
              sc # _ \<Rightarrow>
                Reply (lit ''Recent play for '' @ target_name @ lit '': Map ['' @ rs_map_md5 sc
                  @ lit ''] | Score: '' @ show_int (sint (rs_score sc))
                  @ lit '' | Combo: '' @ show_int (sint (rs_max_combo sc))
                  @ lit ''x | Acc: '' @ show_fixed 2 (rs_accuracy sc) @ lit ''% | ''
                  @ show_fixed 1 (rs_pp sc) @ lit ''pp | Mods: '' @ format_mods (rs_mods sc))
            | [] \<Rightarrow> Reply (lit ''No recent plays found for '' @ target_name @ lit ''.''))
      in if length parts > 1 then
           (case sv_user_by_username sv (clean_username (parts ! 1)) of
              Some (Some u) \<Rightarrow> report u
            | _ \<Rightarrow> user_not_found (parts ! 1))
         else report (sender_id, sender_username))"

definition cmd_where :: "rstr list \<Rightarrow> rstr \<Rightarrow> 'x bancho_state_scheme \<Rightarrow> reply" where
  "cmd_where parts sender_username st =
     (let target_name = (if length parts > 1 then parts ! 1 else sender_username)
      in case find_session (same_name target_name) st of
           Some s \<Rightarrow> Reply (ss_username s @ lit '' is currently ''
                      @ format_action (ss_action s) (ss_info_text s) @ lit ''.'')
         | None \<Rightarrow> Reply (target_name @ lit '' is currently offline.''))"

definition cmd_history :: "services \<Rightarrow> env \<Rightarrow> rstr list \<Rightarrow> rstr \<Rightarrow> rstr \<Rightarrow> rstr \<Rightarrow> reply" where
  "cmd_history sv env parts sender_username target_channel reply_target =
     (let limit = (if length parts > 1
                   then max 1 (min 50 (case parse_int (- (2 ^ 63)) (2 ^ 63 - 1) (parts ! 1) of
                                         Some k \<Rightarrow> k | None \<Rightarrow> 15))
                   else 15);
          notice = (\<lambda>text target. build_send_message \<lparr>cm_sender = e_bot_name env, cm_content = text,
                      cm_target = target, cm_sender_id = e_bot_id env\<rparr>)
      in if starts_with target_channel [35] then
           (case sv_channel_history sv target_channel limit of
              Some history \<Rightarrow>
                if history = [] then Reply (lit ''Kh'' @ [0xf4] @ lit ''ng c'' @ [0xf3] @ lit '' tin nh'' @ [0x1eaf] @ lit ''n c'' @ [0x169] @ lit '' n'' @ [0xe0] @ lit ''o trong k'' @ [0xea] @ lit ''nh '' @ target_channel @ lit ''.'')
                else Packets (concat (map (history_packet target_channel) history)
                       @ notice ([0x110, 0xe3] @ lit '' t'' @ [0x1ea3] @ lit ''i l'' @ [0x1ea1] @ lit ''i '' @ show_int (int (length history)) @ lit '' tin nh'' @ [0x1eaf] @ lit ''n g'' @ [0x1ea7] @ lit ''n nh'' @ [0x1ea5] @ lit ''t c'' @ [0x1ee7] @ lit ''a k'' @ [0xea] @ lit ''nh ''
                                 @ target_channel @ lit ''.'') target_channel)
            | None \<Rightarrow> Reply (lit ''Kh'' @ [0xf4] @ lit ''ng th'' @ [0x1ec3] @ lit '' truy xu'' @ [0x1ea5] @ lit ''t l'' @ [0x1ecb] @ lit ''ch s'' @ [0x1eed] @ lit '' tr'' @ [0xf2] @ lit '' chuy'' @ [0x1ec7] @ lit ''n l'' @ [0xfa] @ lit ''c n'' @ [0xe0] @ lit ''y.''))
         else
           (case sv_direct_messages sv sender_username target_channel limit of
              Some history \<Rightarrow>
                if history = [] then Reply (lit ''Kh'' @ [0xf4] @ lit ''ng c'' @ [0xf3] @ lit '' tin nh'' @ [0x1eaf] @ lit ''n ri'' @ [0xea] @ lit ''ng n'' @ [0xe0] @ lit ''o gi'' @ [0x1eef] @ lit ''a b'' @ [0x1ea1] @ lit ''n v'' @ [0xe0] @ lit '' '' @ target_channel @ lit ''.'')
                else Packets (concat (map (history_packet reply_target) history)
                       @ notice ([0x110, 0xe3] @ lit '' t'' @ [0x1ea3] @ lit ''i l'' @ [0x1ea1] @ lit ''i '' @ show_int (int (length history)) @ lit '' tin nh'' @ [0x1eaf] @ lit ''n ri'' @ [0xea] @ lit ''ng g'' @ [0x1ea7] @ lit ''n nh'' @ [0x1ea5] @ lit ''t.'') reply_target)
            | None \<Rightarrow> Reply (lit ''Kh'' @ [0xf4] @ lit ''ng th'' @ [0x1ec3] @ lit '' truy xu'' @ [0x1ea5] @ lit ''t l'' @ [0x1ecb] @ lit ''ch s'' @ [0x1eed] @ lit '' tin nh'' @ [0x1eaf] @ lit ''n ri'' @ [0xea] @ lit ''ng.'')))"

definition bot_help :: rstr where
  "bot_help = lit ''Available commands: !help, !history [n], !relax [on/off] (!rx), !roll [n], !stats [user] [rx], !recent [user] (!r), !where [user], !uptime, !ping. Server: AyanomiBancho''"

definition run_command ::
    "services \<Rightarrow> env \<Rightarrow> rstr \<Rightarrow> rstr list \<Rightarrow> rstr \<Rightarrow> i32 \<Rightarrow> rstr \<Rightarrow> rstr \<Rightarrow>
     'x bancho_state_scheme \<Rightarrow> reply \<times> 'x bancho_state_scheme" where
  "run_command sv env cmd parts sender_username sender_id target_channel reply_target st =
     (if cmd = lit ''help'' then (Reply bot_help, st)
      else if cmd = lit ''relax'' \<or> cmd = lit ''rx'' then cmd_relax sv parts sender_id st
      else if cmd = lit ''roll'' then (cmd_roll sv parts sender_username, st)
      else if cmd = lit ''ping'' then (Reply (lit ''Pong! Latency: ~1ms (local Bancho)''), st)
      else if cmd = lit ''uptime'' then (cmd_uptime env st, st)
      else if cmd = lit ''stats'' then (cmd_stats sv parts sender_id sender_username st, st)
      else if cmd = lit ''recent'' \<or> cmd = lit ''r''
        then (cmd_recent sv parts sender_id sender_username, st)
      else if cmd = lit ''where'' then (cmd_where parts sender_username st, st)
      else if cmd = lit ''history''
        then (cmd_history sv env parts sender_username target_channel reply_target, st)
      else (NoReply, st))"

definition handle_bot_command ::
    "services \<Rightarrow> env \<Rightarrow> rstr \<Rightarrow> rstr \<Rightarrow> i32 \<Rightarrow> rstr \<Rightarrow> 'x bancho_state_scheme \<Rightarrow>
     u8 list option \<times> 'x bancho_state_scheme" where
  "handle_bot_command sv env command_text sender_username sender_id target_channel st =
     (let trimmed = trim command_text
      in if \<not> starts_with trimmed [33] then (None, st)
         else
           let parts = split_whitespace (tl trimmed)
           in if parts = [] then (None, st)
              else
                let cmd = sv_str_lower sv (hd parts);
                    reply_target = (if starts_with target_channel [35] then target_channel
                                    else sender_username);
                    (r, st1) = run_command sv env cmd parts sender_username sender_id
                                 target_channel reply_target st
                in case r of
                     NoReply \<Rightarrow> (None, st1)
                   | Packets ps \<Rightarrow> (Some ps, st1)
                   | Reply text \<Rightarrow>
                       (Some (build_send_message \<lparr>cm_sender = e_bot_name env, cm_content = text,
                                cm_target = reply_target, cm_sender_id = e_bot_id env\<rparr>), st1))"

subsection \<open>What a command changes\<close>

text \<open>Only \<^verbatim>\<open>!relax\<close> writes the state: the sender's session, and the queues.\<close>

lemma cmd_relax_cases:
  obtains "snd (cmd_relax sv parts uid st) = st"
  | t b where "snd (cmd_relax sv parts uid st) = modify_session t (\<lambda>s. s\<lparr>ss_is_relax := b\<rparr>) st"
  | t b p where "snd (cmd_relax sv parts uid st) =
      broadcast p (modify_session t (\<lambda>s. s\<lparr>ss_is_relax := b\<rparr>) st)"
proof (cases "get_session_by_user_id uid st")
  case None
  then show ?thesis using that(1) by (simp add: cmd_relax_def)
next
  case (Some s)
  then obtain t where t: "hget (user_id_to_token st) uid = Some t"
    by (auto simp: get_session_by_user_id_def bind_eq_Some_conv)
  have "\<exists>b p. snd (cmd_relax sv parts uid st) =
      (if p \<noteq> [] then broadcast p (modify_session t (\<lambda>s. s\<lparr>ss_is_relax := b\<rparr>) st)
       else modify_session t (\<lambda>s. s\<lparr>ss_is_relax := b\<rparr>) st)"
    unfolding cmd_relax_def Let_def using Some t by (simp only: option.case snd_conv) blast
  then show ?thesis using that(2,3) by (metis (full_types))
qed

lemma run_command_cases:
  "snd (run_command sv env cmd parts name uid channel target st) = st
   \<or> snd (run_command sv env cmd parts name uid channel target st) = snd (cmd_relax sv parts uid st)"
  by (simp add: run_command_def)

lemma bot_cases:
  "snd (handle_bot_command sv env text name uid channel st) = st
   \<or> (\<exists>parts. snd (handle_bot_command sv env text name uid channel st)
        = snd (cmd_relax sv parts uid st))"
  using run_command_cases
  by (fastforce simp: handle_bot_command_def Let_def split_def split: reply.split)

lemma bot_keeps [keeps]:
  "room_inv st \<Longrightarrow> room_inv (snd (handle_bot_command sv env text name uid channel st))"
  "spec_inv st \<Longrightarrow> spec_inv (snd (handle_bot_command sv env text name uid channel st))"
  "session_inv st \<Longrightarrow> session_inv (snd (handle_bot_command sv env text name uid channel st))"
proof -
  have "\<exists>parts. snd (handle_bot_command sv env text name uid channel st) = st
      \<or> snd (handle_bot_command sv env text name uid channel st) = snd (cmd_relax sv parts uid st)"
    using bot_cases by blast
  then obtain parts where c: "snd (handle_bot_command sv env text name uid channel st) = st
      \<or> snd (handle_bot_command sv env text name uid channel st) = snd (cmd_relax sv parts uid st)" ..
  {
    assume "room_inv st"
    then have "room_inv (snd (cmd_relax sv parts uid st))"
      by (rule_tac cmd_relax_cases[of sv parts uid st]) (simp_all add: room_inv_steps)
    then show "room_inv (snd (handle_bot_command sv env text name uid channel st))"
      using c \<open>room_inv st\<close> by auto
  next
    assume "spec_inv st"
    then have "spec_inv (snd (cmd_relax sv parts uid st))"
      by (rule_tac cmd_relax_cases[of sv parts uid st]) (simp_all add: spec_inv_others to_all.spec_inv_run)
    then show "spec_inv (snd (handle_bot_command sv env text name uid channel st))"
      using c \<open>spec_inv st\<close> by auto
  next
    assume "session_inv st"
    then have "session_inv (snd (cmd_relax sv parts uid st))"
      by (rule_tac cmd_relax_cases[of sv parts uid st]) (simp_all add: session_inv_more)
    then show "session_inv (snd (handle_bot_command sv env text name uid channel st))"
      using c \<open>session_inv st\<close> by auto
  }
qed

end
