(* ===== verification/Chat_Filter.thy ===== *)
theory Chat_Filter
  imports Rust_Strings
begin

text \<open>
  \<^verbatim>\<open>src/bancho/filter.rs\<close>: the word replacement applied to chat messages, and the
  parsing of its rule file.  \<open>lower\<close> is \<^verbatim>\<open>char::to_lowercase\<close> (which may give several
  characters) and \<open>str_lower\<close> is \<^verbatim>\<open>str::to_lowercase\<close>: Unicode tables of the standard
  library, parameters here.
\<close>

subsection \<open>The rule file\<close>

definition default_filter_content :: rstr where
  "default_filter_content =
     lit ''fuck=firetruck'' @ [10] @ lit ''shit=shish'' @ [10] @ lit ''bitch=fine lady'' @ [10]"

definition parse_filter_line :: "(rstr \<Rightarrow> rstr) \<Rightarrow> rstr \<Rightarrow> (rstr \<times> rstr) option" where
  "parse_filter_line str_lower line =
     (let trimmed = trim line
      in if trimmed = [] \<or> hd trimmed = 35 then None
         else case split_once 61 trimmed of
                Some (word, rep) \<Rightarrow>
                  let w = str_lower (trim word)
                  in if w \<noteq> [] then Some (w, trim rep) else None
              | None \<Rightarrow>
                  let w = str_lower trimmed
                  in Some (w, replicate (max (length w) 1) 42))"

definition parse_filter_rules :: "(rstr \<Rightarrow> rstr) \<Rightarrow> rstr \<Rightarrow> (rstr \<times> rstr) list" where
  "parse_filter_rules str_lower content =
     sort_key (\<lambda>r. - int (length (fst r)))
       (List.map_filter (parse_filter_line str_lower) (str_lines content))"

text \<open>A missing file is created with the default rules; an unreadable one gives no rules.\<close>

definition load_or_create :: "(rstr \<Rightarrow> rstr) \<Rightarrow> bool \<Rightarrow> rstr option \<Rightarrow> (rstr \<times> rstr) list" where
  "load_or_create str_lower file_exists content =
     (case (if file_exists then content else Some default_filter_content) of
        Some c \<Rightarrow> parse_filter_rules str_lower c
      | None \<Rightarrow> [])"

subsection \<open>Filtering\<close>

definition word_here :: "(rchar \<Rightarrow> rstr) \<Rightarrow> rstr \<Rightarrow> rstr \<Rightarrow> bool" where
  "word_here lower pattern text \<longleftrightarrow>
     length pattern \<le> length text
     \<and> list_all2 (\<lambda>c p. lower c = [p]) (take (length pattern) text) pattern"

function replace_word :: "(rchar \<Rightarrow> rstr) \<Rightarrow> rstr \<Rightarrow> rstr \<Rightarrow> rstr \<Rightarrow> rstr" where
  "replace_word lower pattern rep [] = []"
| "replace_word lower pattern rep (c # cs) =
     (if pattern \<noteq> [] \<and> word_here lower pattern (c # cs)
      then rep @ replace_word lower pattern rep (drop (length pattern) (c # cs))
      else c # replace_word lower pattern rep cs)"
  by pat_completeness auto
termination
proof (relation "measure (\<lambda>(_, _, _, text). length text)", goal_cases)
  case (2 lower pattern rep c cs)
  then show ?case by (cases pattern) simp_all
qed simp_all

definition filter_text :: "(rchar \<Rightarrow> rstr) \<Rightarrow> (rstr \<times> rstr) list \<Rightarrow> rstr \<Rightarrow> rstr" where
  "filter_text lower rules text =
     (if rules = [] \<or> text = [] then text
      else fold (\<lambda>(pattern, rep) current.
                   if pattern = [] then current else replace_word lower pattern rep current)
             rules text)"

subsection \<open>What a pass does\<close>

lemma word_here_length: "word_here lower p t \<Longrightarrow> length p \<le> length t"
  by (simp add: word_here_def)

definition has_word :: "(rchar \<Rightarrow> rstr) \<Rightarrow> rstr \<Rightarrow> rstr \<Rightarrow> bool" where
  "has_word lower p t \<longleftrightarrow> (\<exists>i \<le> length t. word_here lower p (drop i t))"

lemma has_word_Cons: "has_word lower p (c # cs) \<longleftrightarrow> word_here lower p (c # cs) \<or> has_word lower p cs"
proof
  assume "has_word lower p (c # cs)"
  then obtain i where i: "i \<le> length (c # cs)" "word_here lower p (drop i (c # cs))"
    by (auto simp: has_word_def)
  then show "word_here lower p (c # cs) \<or> has_word lower p cs"
    by (cases i) (auto simp: has_word_def)
next
  assume "word_here lower p (c # cs) \<or> has_word lower p cs"
  then show "has_word lower p (c # cs)"
    by (auto simp: has_word_def intro: exI[of _ 0] exI[of _ "Suc i" for i])
qed

lemma replace_word_absent: "\<not> has_word lower p t \<Longrightarrow> replace_word lower p rep t = t"
  by (induction lower p rep t rule: replace_word.induct) (auto simp: has_word_Cons)

lemma replace_word_unchanged_fold:
  "\<forall>(p, r) \<in> set rules. \<not> has_word lower p t \<Longrightarrow>
     fold (\<lambda>(pattern, rep) current.
        if pattern = [] then current else replace_word lower pattern rep current) rules t = t"
  by (induction rules) (auto simp: replace_word_absent)

text \<open>
  The text is cut into kept pieces and words, the words replaced, the pieces kept; no word
  starts inside a kept piece as it is scanned.
\<close>

fun interleave :: "'a list list \<Rightarrow> 'a list list \<Rightarrow> 'a list" where
  "interleave [] ws = concat ws"
| "interleave (k # ks) [] = k @ concat ks"
| "interleave (k # ks) (w # ws) = k @ w @ interleave ks ws"

lemma replace_word_pieces:
  assumes "p \<noteq> []"
  shows "\<exists>k ks ws. length ks = length ws \<and> t = interleave (k # ks) (ws @ [[]])
    \<and> replace_word lower p rep t = interleave (k # ks) (replicate (length ws) rep @ [[]])
    \<and> (\<forall>w \<in> set ws. length w = length p \<and> word_here lower p w)"
  using assms
proof (induction lower p rep t rule: replace_word.induct)
  case (1 lower pattern rep)
  show ?case by (intro exI[of _ "[]"]) simp
next
  case (2 lower p rep c cs)
  show ?case
  proof (cases "word_here lower p (c # cs)")
    case True
    define w where "w = take (length p) (c # cs)"
    have w: "length w = length p" "word_here lower p w" "c # cs = w @ drop (length p) (c # cs)"
      using True by (auto simp: word_here_def w_def)
    from 2(1)[OF conjI[OF 2(3) True] 2(3)] obtain k ks ws where IH: "length ks = length ws"
      "drop (length p) (c # cs) = interleave (k # ks) (ws @ [[]])"
      "replace_word lower p rep (drop (length p) (c # cs)) =
        interleave (k # ks) (replicate (length ws) rep @ [[]])"
      "\<forall>w \<in> set ws. length w = length p \<and> word_here lower p w" by blast
    have r: "replace_word lower p rep (c # cs) =
        rep @ replace_word lower p rep (drop (length p) (c # cs))"
      using True 2(3) by simp
    have t: "c # cs = w @ interleave (k # ks) (ws @ [[]])"
      using w(3) unfolding IH(2) .
    show ?thesis
      unfolding r IH(3)
      by (rule exI[of _ "[]"], rule exI[of _ "k # ks"], rule exI[of _ "w # ws"])
        (simp add: IH(1,4) t w(1,2))
  next
    case False
    from 2(2)[OF _ 2(3)] False obtain k ks ws where IH: "length ks = length ws"
      "cs = interleave (k # ks) (ws @ [[]])"
      "replace_word lower p rep cs = interleave (k # ks) (replicate (length ws) rep @ [[]])"
      "\<forall>w \<in> set ws. length w = length p \<and> word_here lower p w" by blast
    have cons: "c # interleave (k # ks) vs = interleave ((c # k) # ks) vs" for vs
      by (cases vs) simp_all
    have r: "replace_word lower p rep (c # cs) = c # replace_word lower p rep cs"
      using False by simp
    have t: "c # cs = interleave ((c # k) # ks) (ws @ [[]])"
      unfolding cons[symmetric] IH(2)[symmetric] ..
    show ?thesis
      unfolding r IH(3) cons
      by (rule exI[of _ "c # k"], rule exI[of _ ks], rule exI[of _ ws])
        (simp add: IH(1,4) t)
  qed
qed

lemma filter_rules_sorted:
  "sorted (map (\<lambda>r. - int (length (fst r))) (parse_filter_rules str_lower content))"
  by (simp add: parse_filter_rules_def)

lemma parse_filter_line_word: "str_lower = map ascii_lower \<Longrightarrow>
    parse_filter_line str_lower line = Some (w, r) \<Longrightarrow> w \<noteq> []"
  by (auto simp: parse_filter_line_def Let_def split: if_splits option.splits)

end
