(* ===== verification/Chat.thy ===== *)
theory Chat
  imports Bot Chat_Filter
begin

text \<open>
  The remaining arms of \<^verbatim>\<open>handle_client_packets\<close> (\<^verbatim>\<open>src/bancho/handler.rs\<close>): keep-alive,
  the client's status, public and private messages, channels, and the statistics a client
  asks for.  An arm that takes the lock several times is the composition of its sections.
\<close>

subsection \<open>Status\<close>

definition pong :: "env \<Rightarrow> rstr \<Rightarrow> 'x bancho_state_scheme \<Rightarrow> 'x bancho_state_scheme" where
  "pong env token st = modify_session token (\<lambda>s. s\<lparr>ss_last_ping := e_now env\<rparr>) st"

record action_change =
  ac_action :: u8
  ac_info_text :: rstr
  ac_map_md5 :: rstr
  ac_mods :: u32
  ac_mode :: u8
  ac_map_id :: i32

definition set_action :: "env \<Rightarrow> action_change \<Rightarrow> session \<Rightarrow> session" where
  "set_action env a s =
     s\<lparr>ss_action := ac_action a, ss_info_text := ac_info_text a, ss_map_md5 := ac_map_md5 a,
       ss_mods := ac_mods a, ss_mode := ac_mode a, ss_map_id := ac_map_id a,
       ss_last_ping := e_now env\<rparr>"

text \<open>The statistics of relax are kept under the modes 4 to 6.\<close>

definition effective_mode :: "bool \<Rightarrow> u8 \<Rightarrow> u8" where
  "effective_mode relax mode = (if relax \<and> mode \<le> 2 then mode + 4 else mode)"

definition session_stats_packet :: "services \<Rightarrow> bool \<Rightarrow> session \<Rightarrow> u8 list" where
  "session_stats_packet sv relax s =
     (let eff_mode = effective_mode relax (ss_mode s)
      in build_user_stats (to_stats (stats_or_default sv (ss_user_id s) eff_mode)
           (rank_or_one sv (ss_user_id s) eff_mode) s))"

definition change_action ::
    "services \<Rightarrow> env \<Rightarrow> rstr \<Rightarrow> action_change \<Rightarrow> 'x bancho_state_scheme \<Rightarrow> 'x bancho_state_scheme" where
  "change_action sv env token a st =
     (case get_session token st of
        None \<Rightarrow> st
      | Some s \<Rightarrow>
          let s' = set_action env a s;
              relax = (ss_is_relax s' \<or> and (ss_mods s') 128 \<noteq> 0)
          in broadcast (session_stats_packet sv relax s')
               (modify_session token (set_action env a) st))"

subsection \<open>Messages\<close>

definition send_public_message ::
    "services \<Rightarrow> env \<Rightarrow> rstr \<Rightarrow> rstr \<Rightarrow> rstr \<Rightarrow> sys \<Rightarrow> sys" where
  "send_public_message sv env token raw_content target st =
     (case get_session token st of
        None \<Rightarrow> st
      | Some s \<Rightarrow>
          let content = filter_text (sv_char_lower sv) (chat_filter st) raw_content;
              st1 = spawn (SaveChat (ss_user_id s) (ss_username s) target content False) st;
              (bot_reply, st2) =
                handle_bot_command sv env content (ss_username s) (ss_user_id s) target st1
          in case bot_reply of
               Some reply \<Rightarrow>
                 if starts_with target [35] then broadcast_to_channel target reply st2
                 else modify_session token (enqueue_packet reply) st2
             | None \<Rightarrow>
                 broadcast_to_channel_except target
                   (build_send_message \<lparr>cm_sender = ss_username s, cm_content = content,
                      cm_target = target, cm_sender_id = ss_user_id s\<rparr>)
                   (ss_user_id s) st2)"

definition pm_warning :: rstr where
  "pm_warning = lit ''L'' @ [0x1b0] @ lit ''u '' @ [0xfd] @ lit '' b'' @ [0x1ea3] @ lit ''o m'' @ [0x1ead] @ lit ''t: Kh'' @ [0xf4] @ lit ''ng '' @ [0x111, 0x1b0, 0x1ee3] @ lit ''c g'' @ [0x1eed] @ lit ''i m'' @ [0x1ead] @ lit ''t kh'' @ [0x1ea9] @ lit ''u cho b'' @ [0x1ea5] @ lit ''t k'' @ [0xec] @ lit '' ai! Admin/Staff/Bot s'' @ [0x1ebd] @ lit '' kh'' @ [0xf4] @ lit ''ng bao gi'' @ [0x1edd] @ lit '' h'' @ [0x1ecf] @ lit ''i b'' @ [0x1ea1] @ lit ''n v'' @ [0x1ec1] @ lit '' m'' @ [0x1ead] @ lit ''t kh'' @ [0x1ea9] @ lit ''u.''"

definition pm_pair :: "i32 \<Rightarrow> i32 \<Rightarrow> i32 \<times> i32" where
  "pm_pair a b = (if sint a < sint b then (a, b) else (b, a))"

text \<open>The first message between two users is preceded by a warning to both.\<close>

definition pm_warn :: "env \<Rightarrow> session \<Rightarrow> session \<Rightarrow> rstr \<Rightarrow> 'x bancho_state_scheme \<Rightarrow> 'x bancho_state_scheme" where
  "pm_warn env sender target token st =
     (let pair_key = pm_pair (ss_user_id sender) (ss_user_id target);
          should_warn = (pair_key \<notin> set (pm_warned_pairs st));
          st1 = st\<lparr>pm_warned_pairs := hs_insert pair_key (pm_warned_pairs st)\<rparr>;
          warning = (\<lambda>to. build_send_message \<lparr>cm_sender = e_bot_name env, cm_content = pm_warning,
                       cm_target = to, cm_sender_id = e_bot_id env\<rparr>)
      in if should_warn then
           modify_session (ss_token target) (enqueue_packet (warning (ss_username sender)))
             (modify_session token (enqueue_packet (warning (ss_username target))) st1)
         else st1)"

definition send_private_message ::
    "services \<Rightarrow> env \<Rightarrow> rstr \<Rightarrow> rstr \<Rightarrow> rstr \<Rightarrow> 'x bancho_state_scheme \<Rightarrow> 'x bancho_state_scheme" where
  "send_private_message sv env token raw_content target_user st =
     (case get_session token st of
        None \<Rightarrow> st
      | Some s \<Rightarrow>
          let content = filter_text (sv_char_lower sv) (chat_filter st) raw_content
          in if eq_ignore_ascii_case target_user (e_bot_name env) then
               (case handle_bot_command sv env content (ss_username s) (ss_user_id s)
                       (ss_username s) st of
                  (Some reply, st1) \<Rightarrow> modify_session token (enqueue_packet reply) st1
                | (None, st1) \<Rightarrow> st1)
             else
               (case find_session (same_name target_user) st of
                  None \<Rightarrow> st
                | Some target \<Rightarrow>
                    modify_session (ss_token target)
                      (enqueue_packet (build_send_message \<lparr>cm_sender = ss_username s,
                         cm_content = content, cm_target = target_user,
                         cm_sender_id = ss_user_id s\<rparr>))
                      (pm_warn env s target token st)))"

subsection \<open>Channels\<close>

definition channel_join :: "env \<Rightarrow> rstr \<Rightarrow> rstr \<Rightarrow> sys \<Rightarrow> sys" where
  "channel_join env token chan st =
     (case get_session token st of
        None \<Rightarrow> st
      | Some s \<Rightarrow>
          let st1 = modify_session token (enter_channel chan) st;
              st2 = add_to_channel chan (ss_user_id s) st1
          in if positive (e_history_limit env) then spawn (ReplayHistory token chan) st2 else st2)"

text \<open>What the replay does when it runs, if the query succeeds.\<close>

definition replay_history ::
    "chat_row list option \<Rightarrow> rstr \<Rightarrow> rstr \<Rightarrow> 'x bancho_state_scheme \<Rightarrow> 'x bancho_state_scheme" where
  "replay_history history token chan st =
     (case history of
        None \<Rightarrow> st
      | Some rows \<Rightarrow> modify_session token (fold (\<lambda>r. enqueue_packet (history_packet chan r)) rows) st)"

definition leave_channel :: "rstr \<Rightarrow> session \<Rightarrow> session" where
  "leave_channel chan s =
     enqueue_packet (build_channel_part chan)
       (s\<lparr>ss_channels := hs_remove chan (ss_channels s)\<rparr>)"

definition channel_part :: "rstr \<Rightarrow> rstr \<Rightarrow> 'x bancho_state_scheme \<Rightarrow> 'x bancho_state_scheme" where
  "channel_part token chan st =
     (case get_session token st of
        None \<Rightarrow> st
      | Some s \<Rightarrow>
          let st1 = modify_session token (leave_channel chan) st
          in st1\<lparr>channels := hmod chan (remove_member (ss_user_id s)) (channels st1)\<rparr>)"

subsection \<open>Statistics\<close>

definition request_status_update ::
    "services \<Rightarrow> rstr \<Rightarrow> 'x bancho_state_scheme \<Rightarrow> 'x bancho_state_scheme" where
  "request_status_update sv token st =
     (case get_session token st of
        None \<Rightarrow> st
      | Some s \<Rightarrow> modify_session token (enqueue_packet (session_stats_packet sv (ss_is_relax s) s)) st)"

definition bot_stats :: "env \<Rightarrow> user_stats" where
  "bot_stats env =
     \<lparr>us_user_id = e_bot_id env, us_action = 0, us_info_text = lit ''Serving AyanomiBancho!'',
      us_map_md5 = [], us_mods = 0, us_mode = 0, us_map_id = 0, us_ranked_score = 0,
      us_accuracy = Zero False, us_play_count = 0, us_total_score = 0, us_rank = 0, us_pp = 0\<rparr>"

definition offline_stats :: "services \<Rightarrow> i32 \<Rightarrow> user_stats" where
  "offline_stats sv uid =
     (let d = stats_or_default sv uid 0
      in \<lparr>us_user_id = uid, us_action = 0, us_info_text = [], us_map_md5 = [], us_mods = 0,
          us_mode = 0, us_map_id = 0, us_ranked_score = du_ranked_score d,
          us_accuracy = du_accuracy d, us_play_count = du_play_count d,
          us_total_score = du_total_score d, us_rank = rank_or_one sv uid 0, us_pp = du_pp d\<rparr>)"

definition stats_answer :: "services \<Rightarrow> env \<Rightarrow> i32 \<Rightarrow> 'x bancho_state_scheme \<Rightarrow> u8 list" where
  "stats_answer sv env uid st =
     (if uid = e_bot_id env then build_user_stats (bot_stats env)
      else case find_session (\<lambda>s. ss_user_id s = uid) st of
             Some target \<Rightarrow> session_stats_packet sv (ss_is_relax target) target
           | None \<Rightarrow> build_user_stats (offline_stats sv uid))"

definition user_stats_request ::
    "services \<Rightarrow> env \<Rightarrow> rstr \<Rightarrow> i32 list \<Rightarrow> 'x bancho_state_scheme \<Rightarrow> 'x bancho_state_scheme" where
  "user_stats_request sv env token requested_ids st =
     fold (\<lambda>uid s. modify_session token (enqueue_packet (stats_answer sv env uid s)) s)
       requested_ids st"

subsection \<open>Invariants\<close>

lemma set_action_fields [simp]:
  "ss_token (set_action env a s) = ss_token s" "ss_user_id (set_action env a s) = ss_user_id s"
  by (simp_all add: set_action_def)

lemma leave_channel_fields [simp]:
  "ss_token (leave_channel n s) = ss_token s" "ss_user_id (leave_channel n s) = ss_user_id s"
  by (simp_all add: leave_channel_def)

lemma fold_history_fields [simp]:
  "ss_token (fold (\<lambda>r. enqueue_packet (f r)) rows s) = ss_token s"
  "ss_user_id (fold (\<lambda>r. enqueue_packet (f r)) rows s) = ss_user_id s"
  by (induction rows arbitrary: s) simp_all

lemma modify_fold_keeps:
  "(\<And>u s. P s \<Longrightarrow> P (g u s)) \<Longrightarrow> P st \<Longrightarrow> P (fold g us st)"
  by (induction us arbitrary: st) auto

lemma spec_inv_tasks:
  "spec_inv s \<Longrightarrow> spec_inv (spawn x s)"
  "spec_inv s \<Longrightarrow> spec_inv (sync_match_to_multi_db env mid s)"
  "spec_inv s \<Longrightarrow> spec_inv (cleanup_disbanded_matches s)"
  "spec_inv s \<Longrightarrow> spec_inv (try_finish_match env mid s)"
  by (simp_all add: spec_inv_def cleanup_eq try_finish_frame)

lemmas spec_inv_steps = spec_inv_others spec_inv_tasks to_user.spec_inv_run
  to_lobby.spec_inv_run to_match.spec_inv_run to_spectators.spec_inv_run
  to_channel.spec_inv_run to_channel_except.spec_inv_run to_all.spec_inv_run
  to_others.spec_inv_run sending.spec_inv_run left_news.spec_inv_run
  stopped_news.spec_inv_run to_token.spec_inv_run spec_inv_leave_current bot_keeps(2)

lemma spec_inv_more_fields:
  "spec_inv st \<Longrightarrow> spec_inv (st\<lparr>matches := ms\<rparr>)"
  "spec_inv st \<Longrightarrow> spec_inv (st\<lparr>user_to_match := um\<rparr>)"
  "spec_inv st \<Longrightarrow> spec_inv (st\<lparr>next_match_id := n\<rparr>)"
  "spec_inv st \<Longrightarrow> spec_inv (st\<lparr>match_start_times := mt\<rparr>)"
  "spec_inv st \<Longrightarrow> spec_inv (st\<lparr>match_last_scores := sc\<rparr>)"
  "spec_inv st \<Longrightarrow> spec_inv (st\<lparr>match_loaded_users := lu\<rparr>)"
  "spec_inv st \<Longrightarrow> spec_inv (st\<lparr>pm_warned_pairs := pw\<rparr>)"
  by (simp_all add: spec_inv_def)

end
