(* ===== verification/Handler.thy ===== *)
theory Handler
  imports Chat
begin

text \<open>
  The packet loop of \<^verbatim>\<open>handle_client_packets\<close> (\<^verbatim>\<open>src/bancho/handler.rs\<close>): reading
  the packets of a request body one after the other, parsing each payload and running its
  arm; and the step relation whose steps are the arms of any clients in any order.
\<close>

subsection \<open>Client packets\<close>

abbreviation OSU_CHANGE_ACTION :: u16 where "OSU_CHANGE_ACTION \<equiv> 0"
abbreviation OSU_SEND_PUBLIC_MESSAGE :: u16 where "OSU_SEND_PUBLIC_MESSAGE \<equiv> 1"
abbreviation OSU_LOGOUT :: u16 where "OSU_LOGOUT \<equiv> 2"
abbreviation OSU_REQUEST_STATUS_UPDATE :: u16 where "OSU_REQUEST_STATUS_UPDATE \<equiv> 3"
abbreviation OSU_PONG :: u16 where "OSU_PONG \<equiv> 4"
abbreviation OSU_START_SPECTATING :: u16 where "OSU_START_SPECTATING \<equiv> 16"
abbreviation OSU_STOP_SPECTATING :: u16 where "OSU_STOP_SPECTATING \<equiv> 17"
abbreviation OSU_SPECTATE_FRAMES :: u16 where "OSU_SPECTATE_FRAMES \<equiv> 18"
abbreviation OSU_CANT_SPECTATE :: u16 where "OSU_CANT_SPECTATE \<equiv> 21"
abbreviation OSU_SEND_PRIVATE_MESSAGE :: u16 where "OSU_SEND_PRIVATE_MESSAGE \<equiv> 25"
abbreviation OSU_LOBBY_PART :: u16 where "OSU_LOBBY_PART \<equiv> 29"
abbreviation OSU_LOBBY_JOIN :: u16 where "OSU_LOBBY_JOIN \<equiv> 30"
abbreviation OSU_MATCH_CREATE :: u16 where "OSU_MATCH_CREATE \<equiv> 31"
abbreviation OSU_MATCH_JOIN :: u16 where "OSU_MATCH_JOIN \<equiv> 32"
abbreviation OSU_MATCH_PART :: u16 where "OSU_MATCH_PART \<equiv> 33"
abbreviation OSU_MATCH_CHANGE_SLOT :: u16 where "OSU_MATCH_CHANGE_SLOT \<equiv> 38"
abbreviation OSU_MATCH_READY :: u16 where "OSU_MATCH_READY \<equiv> 39"
abbreviation OSU_MATCH_LOCK :: u16 where "OSU_MATCH_LOCK \<equiv> 40"
abbreviation OSU_MATCH_CHANGE_SETTINGS :: u16 where "OSU_MATCH_CHANGE_SETTINGS \<equiv> 41"
abbreviation OSU_MATCH_START :: u16 where "OSU_MATCH_START \<equiv> 44"
abbreviation OSU_MATCH_SCORE_UPDATE :: u16 where "OSU_MATCH_SCORE_UPDATE \<equiv> 47"
abbreviation OSU_MATCH_COMPLETE :: u16 where "OSU_MATCH_COMPLETE \<equiv> 49"
abbreviation OSU_MATCH_CHANGE_MODS :: u16 where "OSU_MATCH_CHANGE_MODS \<equiv> 51"
abbreviation OSU_MATCH_LOAD_COMPLETE :: u16 where "OSU_MATCH_LOAD_COMPLETE \<equiv> 52"
abbreviation OSU_MATCH_NO_BEATMAP :: u16 where "OSU_MATCH_NO_BEATMAP \<equiv> 54"
abbreviation OSU_MATCH_NOT_READY :: u16 where "OSU_MATCH_NOT_READY \<equiv> 55"
abbreviation OSU_MATCH_FAILED :: u16 where "OSU_MATCH_FAILED \<equiv> 56"
abbreviation OSU_MATCH_HAS_BEATMAP :: u16 where "OSU_MATCH_HAS_BEATMAP \<equiv> 59"
abbreviation OSU_MATCH_SKIP_REQUEST :: u16 where "OSU_MATCH_SKIP_REQUEST \<equiv> 60"
abbreviation OSU_CHANNEL_JOIN :: u16 where "OSU_CHANNEL_JOIN \<equiv> 63"
abbreviation OSU_MATCH_CHANGE_HOST :: u16 where "OSU_MATCH_CHANGE_HOST \<equiv> 70"
abbreviation OSU_MATCH_CHANGE_TEAM :: u16 where "OSU_MATCH_CHANGE_TEAM \<equiv> 77"
abbreviation OSU_CHANNEL_PART :: u16 where "OSU_CHANNEL_PART \<equiv> 78"
abbreviation OSU_RECEIVE_UPDATES :: u16 where "OSU_RECEIVE_UPDATES \<equiv> 79"
abbreviation OSU_USER_STATS_REQUEST :: u16 where "OSU_USER_STATS_REQUEST \<equiv> 85"

subsection \<open>Payloads\<close>

text \<open>
  \<open>rd_or\<close> is \<^verbatim>\<open>unwrap_or\<close> on a read, \<open>rd_try\<close> keeps its failure as a value: the fields of
  a tuple pattern are all read before the pattern is tried.  Neither catches a panic.
\<close>

definition rd_or :: "'a \<Rightarrow> 'a rd \<Rightarrow> 'a rd" where
  "rd_or d r bs = (case r bs of (RErr k, rest) \<Rightarrow> (ROk d, rest) | x \<Rightarrow> x)"

definition rd_try :: "'a rd \<Rightarrow> 'a option rd" where
  "rd_try r bs =
     (case r bs of (ROk x, rest) \<Rightarrow> (ROk (Some x), rest) | (RErr k, rest) \<Rightarrow> (ROk None, rest)
      | (RPanic, rest) \<Rightarrow> (RPanic, rest))"

definition parse_action :: "action_change option rd" where
  "parse_action =
     rd_bind (rd_try read_u8) (\<lambda>action. rd_bind (rd_try read_osu_string) (\<lambda>info_text.
     rd_bind (rd_try read_osu_string) (\<lambda>map_md5. rd_bind (rd_try read_u32) (\<lambda>mods.
     rd_bind (rd_try read_u8) (\<lambda>mode. rd_bind (rd_try read_i32) (\<lambda>map_id.
     rd_return
       (case (action, info_text, map_md5, mods, mode, map_id) of
          (Some a, Some i, Some md5, Some ms, Some mo, Some mid) \<Rightarrow>
            Some \<lparr>ac_action = a, ac_info_text = i, ac_map_md5 = md5, ac_mods = ms, ac_mode = mo,
                  ac_map_id = mid\<rparr>
        | _ \<Rightarrow> None)))))))"

text \<open>A chat payload: sender (ignored), content, target, sender id (ignored).\<close>

definition parse_message :: "(rstr \<times> rstr) rd" where
  "parse_message =
     rd_bind (rd_or [] read_osu_string) (\<lambda>sender. rd_bind (rd_or [] read_osu_string) (\<lambda>content.
     rd_bind (rd_or [] read_osu_string) (\<lambda>target. rd_bind (rd_or 0 read_i32) (\<lambda>sender_id.
     rd_return (content, target)))))"

definition parse_join :: "(i32 \<times> rstr) option rd" where
  "parse_join =
     rd_bind (rd_try read_i32) (\<lambda>mid. rd_bind (rd_try read_osu_string) (\<lambda>password.
     rd_return (case (mid, password) of (Some m, Some p) \<Rightarrow> Some (m, p) | _ \<Rightarrow> None)))"

fun read_ids :: "nat \<Rightarrow> i32 list rd" where
  "read_ids 0 = rd_return []"
| "read_ids (Suc n) =
     rd_bind (rd_try read_i32) (\<lambda>uid. rd_bind (read_ids n) (\<lambda>uids.
     rd_return (case uid of Some u \<Rightarrow> u # uids | None \<Rightarrow> uids)))"

definition parse_stats_request :: "i32 list rd" where
  "parse_stats_request =
     rd_bind (rd_or 0 read_i16) (\<lambda>count.
       if 0 < sint count \<and> sint count \<le> 256 then read_ids (nat (sint count)) else rd_return [])"

subsection \<open>One packet\<close>

text \<open>How a packet ends: the loop goes on, it stops, or the task has panicked.\<close>

datatype flow = Go | Stop | Panicked

definition on_parsed :: "'a rd \<Rightarrow> u8 list \<Rightarrow> ('a \<Rightarrow> 's \<Rightarrow> 's) \<Rightarrow> 's \<Rightarrow> flow \<times> 's" where
  "on_parsed p payload f st =
     (case fst (p payload) of ROk x \<Rightarrow> (Go, f x st) | RErr k \<Rightarrow> (Go, st) | RPanic \<Rightarrow> (Panicked, st))"

definition logout :: "rstr \<Rightarrow> sys \<Rightarrow> sys" where
  "logout token st =
     (case remove_session token st of
        (None, st1) \<Rightarrow> st1
      | (Some session, st1) \<Rightarrow>
          cleanup_disbanded_matches (broadcast (build_user_quit (ss_user_id session) 0) st1))"

definition if_some :: "('a \<Rightarrow> 's \<Rightarrow> 's) \<Rightarrow> 'a option \<Rightarrow> 's \<Rightarrow> 's" where
  "if_some f x st = (case x of Some a \<Rightarrow> f a st | None \<Rightarrow> st)"

definition handle_packet ::
    "services \<Rightarrow> env \<Rightarrow> rstr \<Rightarrow> i32 \<Rightarrow> u16 \<Rightarrow> u8 list \<Rightarrow> sys \<Rightarrow> flow \<times> sys" where
  "handle_packet sv env token uid packet_id payload st =
     (if packet_id = OSU_PONG then (Go, pong env token st)
      else if packet_id = OSU_CHANGE_ACTION then
        on_parsed parse_action payload (if_some (change_action sv env token)) st
      else if packet_id = OSU_SEND_PUBLIC_MESSAGE then
        on_parsed parse_message payload
          (\<lambda>(content, target). send_public_message sv env token content target) st
      else if packet_id = OSU_SEND_PRIVATE_MESSAGE then
        on_parsed parse_message payload
          (\<lambda>(content, target). send_private_message sv env token content target) st
      else if packet_id = OSU_CHANNEL_JOIN then
        on_parsed read_osu_string payload (channel_join env token) st
      else if packet_id = OSU_CHANNEL_PART then
        on_parsed read_osu_string payload (channel_part token) st
      else if packet_id = OSU_REQUEST_STATUS_UPDATE then (Go, request_status_update sv token st)
      else if packet_id = OSU_USER_STATS_REQUEST then
        on_parsed parse_stats_request payload (user_stats_request sv env token) st
      else if packet_id = OSU_RECEIVE_UPDATES then (Go, st)
      else if packet_id = OSU_START_SPECTATING then
        on_parsed read_i32 payload (start_spectating token uid) st
      else if packet_id = OSU_STOP_SPECTATING then (Go, stop_spectating_packet uid st)
      else if packet_id = OSU_SPECTATE_FRAMES then (Go, spectate_frames uid payload st)
      else if packet_id = OSU_CANT_SPECTATE then (Go, cant_spectate uid st)
      else if packet_id = OSU_LOBBY_JOIN then (Go, lobby_join token uid st)
      else if packet_id = OSU_LOBBY_PART then (Go, lobby_part uid st)
      else if packet_id = OSU_MATCH_CREATE then
        on_parsed parse_match payload (match_create env token uid) st
      else if packet_id = OSU_MATCH_JOIN then
        on_parsed parse_join payload
          (if_some (\<lambda>(mid, password). match_join env token uid mid password)) st
      else if packet_id = OSU_MATCH_PART then (Go, match_part env uid st)
      else if packet_id = OSU_MATCH_CHANGE_SLOT then
        on_parsed read_i32 payload (match_change_slot env uid) st
      else if packet_id = OSU_MATCH_READY then (Go, match_ready env uid st)
      else if packet_id = OSU_MATCH_NOT_READY then (Go, match_not_ready env uid st)
      else if packet_id = OSU_MATCH_LOCK then on_parsed read_i32 payload (match_lock env uid) st
      else if packet_id = OSU_MATCH_CHANGE_SETTINGS then
        on_parsed parse_match payload (match_change_settings env uid) st
      else if packet_id = OSU_MATCH_CHANGE_MODS then
        on_parsed read_u32 payload (match_change_mods env uid) st
      else if packet_id = OSU_MATCH_CHANGE_TEAM then (Go, match_change_team env uid st)
      else if packet_id = OSU_MATCH_CHANGE_HOST then
        on_parsed read_i32 payload (match_change_host env uid) st
      else if packet_id = OSU_MATCH_NO_BEATMAP then (Go, match_no_beatmap env uid st)
      else if packet_id = OSU_MATCH_HAS_BEATMAP then (Go, match_has_beatmap env uid st)
      else if packet_id = OSU_MATCH_START then (Go, match_start env uid st)
      else if packet_id = OSU_MATCH_LOAD_COMPLETE then (Go, match_load_complete uid st)
      else if packet_id = OSU_MATCH_SCORE_UPDATE then
        on_parsed parse_score_frame payload (match_score_update uid payload) st
      else if packet_id = OSU_MATCH_FAILED then (Go, match_failed uid st)
      else if packet_id = OSU_MATCH_SKIP_REQUEST then (Go, match_skip_request uid st)
      else if packet_id = OSU_MATCH_COMPLETE then (Go, match_complete env uid st)
      else if packet_id = OSU_LOGOUT then (Stop, logout token st)
      else (Go, st))"

subsection \<open>The loop\<close>

text \<open>
  The next packet of a body: its id, its payload and the rest.  A body that ends inside a
  header or a payload has no next packet.
\<close>

definition next_packet :: "u8 list \<Rightarrow> (u16 \<times> u8 list \<times> u8 list) option" where
  "next_packet data =
     (case read_packet_header data of
        (ROk (Some (packet_id, len)), rest) \<Rightarrow>
          (case read_bytes len rest of
             (ROk payload, rest') \<Rightarrow> Some (packet_id, payload, rest')
           | _ \<Rightarrow> None)
      | _ \<Rightarrow> None)"

lemma rd_bind_ok:
  "rd_bind r f bs = (ROk y, rest) \<Longrightarrow> \<exists>x rest'. r bs = (ROk x, rest') \<and> f x rest' = (ROk y, rest)"
  by (auto simp: rd_bind_def split: prod.splits io_res.splits)

lemma read_exact_ok:
  "read_exact n bs = (ROk x, rest) \<Longrightarrow> bs = x @ rest \<and> length x = n"
  by (auto simp: read_exact_def split: if_splits)

lemma rd_map_ok: "rd_map f r bs = (ROk y, rest) \<Longrightarrow> \<exists>x. r bs = (ROk x, rest) \<and> y = f x"
  by (auto simp: rd_map_def rd_bind_def rd_return_def split: prod.splits io_res.splits)

lemma read_header_ok:
  assumes "read_packet_header data = (ROk (Some (packet_id, len)), rest)"
  shows "\<exists>header. length header = 7 \<and> data = header @ rest"
proof -
  from assms obtain r1 r2 a b c where "read_u16 data = (ROk a, r1)" "read_u8 r1 = (ROk b, r2)"
    "read_u32 r2 = (ROk c, rest)"
    by (auto simp: read_packet_header_def rd_return_def split: if_splits dest!: rd_bind_ok)
  then obtain x y z where "data = x @ y @ z @ rest" "length x = 2" "length y = 1" "length z = 4"
    unfolding read_u16_def read_u8_def read_u32_def
    by (auto dest!: rd_map_ok read_exact_ok)
  then show ?thesis by (intro exI[of _ "x @ y @ z"]) simp
qed

lemma next_packet_split:
  assumes "next_packet data = Some (packet_id, payload, rest)"
  shows "\<exists>header. length header = 7 \<and> data = header @ payload @ rest"
proof -
  from assms obtain len r where "read_packet_header data = (ROk (Some (packet_id, len)), r)"
    "read_bytes len r = (ROk payload, rest)"
    by (auto simp: next_packet_def split: prod.splits io_res.splits option.splits)
  then show ?thesis
    using read_header_ok[of data packet_id len r] read_exact_ok[of len r payload rest]
    by (auto simp: read_bytes_def)
qed

text \<open>
  \<open>envs i\<close> is what the arm of the \<open>i\<close>-th packet reads from the clocks and the
  configuration.  The result tells whether the task panicked.
\<close>

function handle_client_packets ::
    "services \<Rightarrow> (nat \<Rightarrow> env) \<Rightarrow> rstr \<Rightarrow> nat \<Rightarrow> u8 list \<Rightarrow> sys \<Rightarrow> flow \<times> sys" where
  "handle_client_packets sv envs token i data st =
     (case next_packet data of
        None \<Rightarrow> (Stop, st)
      | Some (packet_id, payload, rest) \<Rightarrow>
          (case get_session token st of
             None \<Rightarrow> (Stop, st)
           | Some s \<Rightarrow>
               (case handle_packet sv (envs i) token (ss_user_id s) packet_id payload st of
                  (Go, st1) \<Rightarrow> handle_client_packets sv envs token (Suc i) rest st1
                | (Stop, st1) \<Rightarrow> (Stop, st1)
                | (Panicked, st1) \<Rightarrow> (Panicked, st1))))"
  by pat_completeness auto
termination
  by (relation "measure (\<lambda>(sv, envs, token, i, data, st). length data)")
    (auto dest: next_packet_split)

declare handle_client_packets.simps [simp del]

subsection \<open>Every arm keeps the invariants\<close>

lemma spec_inv_same_tables:
  "spectators s' = spectators s \<Longrightarrow> spectating_target s' = spectating_target s \<Longrightarrow>
     spec_inv s \<Longrightarrow> spec_inv s'"
  by (simp add: spec_inv_def)

lemma update_own_match_frame [simp]:
  "spectators (snd (update_own_match edit u st)) = spectators st"
  "spectating_target (snd (update_own_match edit u st)) = spectating_target st"
  "next_match_id (snd (update_own_match edit u st)) = next_match_id st"
  "pending_disbanded_matches (snd (update_own_match edit u st)) = pending_disbanded_matches st"
  by (simp_all add: update_own_match_def split: option.split)

lemma cleanup_fields [simp]:
  "spectators (cleanup_disbanded_matches s) = spectators s"
  "spectating_target (cleanup_disbanded_matches s) = spectating_target s"
  "next_match_id (cleanup_disbanded_matches s) = next_match_id s"
  "matches (cleanup_disbanded_matches s) = matches s"
  "pending_disbanded_matches (cleanup_disbanded_matches s) = []"
  by (simp_all add: cleanup_eq)

lemma add_to_channel_fields [simp]:
  "spectators (add_to_channel n u st) = spectators st"
  "spectating_target (add_to_channel n u st) = spectating_target st"
  "next_match_id (add_to_channel n u st) = next_match_id st"
  "matches (add_to_channel n u st) = matches st"
  "pending_disbanded_matches (add_to_channel n u st) = pending_disbanded_matches st"
  by (simp_all add: add_to_channel_def)

lemma announce_edit_fields [simp]:
  "spectators (announce_edit env r s) = spectators s"
  "spectating_target (announce_edit env r s) = spectating_target s"
  "next_match_id (announce_edit env r s) = next_match_id s"
  "matches (announce_edit env r s) = matches s"
  "pending_disbanded_matches (announce_edit env r s) = pending_disbanded_matches s"
  "spectators (announce_edit_in_match env r s) = spectators s"
  "spectating_target (announce_edit_in_match env r s) = spectating_target s"
  "next_match_id (announce_edit_in_match env r s) = next_match_id s"
  "matches (announce_edit_in_match env r s) = matches s"
  "pending_disbanded_matches (announce_edit_in_match env r s) = pending_disbanded_matches s"
  by (simp_all add: announce_edit_def announce_edit_in_match_def split: option.split)

lemma update_own_match_result:
  "update_own_match edit u st = (r, st1) \<Longrightarrow> spectators st1 = spectators st
     \<and> spectating_target st1 = spectating_target st \<and> next_match_id st1 = next_match_id st
     \<and> pending_disbanded_matches st1 = pending_disbanded_matches st"
  using update_own_match_frame[of edit u st] by simp

lemma remove_user_result:
  "remove_user_from_match u st = (r, st1) \<Longrightarrow> spectators st1 = spectators st
     \<and> spectating_target st1 = spectating_target st \<and> next_match_id st1 = next_match_id st"
  using remove_user_frame[of u st] by simp

text \<open>The match arms leave the spectators alone, and all but one the next match id.\<close>

lemma match_create_frame:
  "spectators (match_create env token u m s) = spectators s"
  "spectating_target (match_create env token u m s) = spectating_target s"
  "next_match_id (match_create env token u m s) = bump_match_id (next_match_id s)"
  by (simp_all add: match_create_def Let_def)

lemma match_join_frame:
  "spectators (match_join env token u mid pw s) = spectators s"
  "spectating_target (match_join env token u mid pw s) = spectating_target s"
  "next_match_id (match_join env token u mid pw s) = next_match_id s"
  by (simp_all add: match_join_def Let_def split: option.split)

lemma match_part_frame:
  "spectators (match_part env u s) = spectators s"
  "spectating_target (match_part env u s) = spectating_target s"
  "next_match_id (match_part env u s) = next_match_id s"
  by (auto simp: match_part_def Let_def try_finish_frame split: prod.splits option.splits
      dest!: remove_user_result)

lemma match_edits_frame:
  "spectators (match_change_slot env u slot s) = spectators s"
  "spectating_target (match_change_slot env u slot s) = spectating_target s"
  "next_match_id (match_change_slot env u slot s) = next_match_id s"
  "spectators (match_ready env u s) = spectators s"
  "spectating_target (match_ready env u s) = spectating_target s"
  "next_match_id (match_ready env u s) = next_match_id s"
  "spectators (match_not_ready env u s) = spectators s"
  "spectating_target (match_not_ready env u s) = spectating_target s"
  "next_match_id (match_not_ready env u s) = next_match_id s"
  "spectators (match_lock env u slot s) = spectators s"
  "spectating_target (match_lock env u slot s) = spectating_target s"
  "next_match_id (match_lock env u slot s) = next_match_id s"
  "spectators (match_change_settings env u m s) = spectators s"
  "spectating_target (match_change_settings env u m s) = spectating_target s"
  "next_match_id (match_change_settings env u m s) = next_match_id s"
  "spectators (match_change_mods env u mods s) = spectators s"
  "spectating_target (match_change_mods env u mods s) = spectating_target s"
  "next_match_id (match_change_mods env u mods s) = next_match_id s"
  "spectators (match_no_beatmap env u s) = spectators s"
  "spectating_target (match_no_beatmap env u s) = spectating_target s"
  "next_match_id (match_no_beatmap env u s) = next_match_id s"
  "spectators (match_has_beatmap env u s) = spectators s"
  "spectating_target (match_has_beatmap env u s) = spectating_target s"
  "next_match_id (match_has_beatmap env u s) = next_match_id s"
  by (simp_all add: match_change_slot_def match_ready_def match_not_ready_def match_lock_def
      match_change_settings_def match_change_mods_def match_no_beatmap_def match_has_beatmap_def
      split_def Let_def)

lemma match_play_frame:
  "spectators (match_change_team env u s) = spectators s"
  "spectating_target (match_change_team env u s) = spectating_target s"
  "next_match_id (match_change_team env u s) = next_match_id s"
  "spectators (match_change_host env u slot s) = spectators s"
  "spectating_target (match_change_host env u slot s) = spectating_target s"
  "next_match_id (match_change_host env u slot s) = next_match_id s"
  "spectators (match_start env u s) = spectators s"
  "spectating_target (match_start env u s) = spectating_target s"
  "next_match_id (match_start env u s) = next_match_id s"
  "spectators (match_complete env u s) = spectators s"
  "spectating_target (match_complete env u s) = spectating_target s"
  "next_match_id (match_complete env u s) = next_match_id s"
  by (auto simp: match_change_team_def match_change_host_def match_start_def match_complete_def
      Let_def try_finish_frame split: prod.splits option.splits dest!: update_own_match_result)

lemma match_news_frame:
  "spectators (match_load_complete u st) = spectators st"
  "spectating_target (match_load_complete u st) = spectating_target st"
  "next_match_id (match_load_complete u st) = next_match_id st"
  "spectators (match_score_update u payload f st) = spectators st"
  "spectating_target (match_score_update u payload f st) = spectating_target st"
  "next_match_id (match_score_update u payload f st) = next_match_id st"
  "spectators (announce_slot build u st) = spectators st"
  "spectating_target (announce_slot build u st) = spectating_target st"
  "next_match_id (announce_slot build u st) = next_match_id st"
  by (simp_all add: match_load_complete_def match_score_update_def relay_match_score_frame_def
      announce_slot_def Let_def split: option.split io_res.split)

lemmas match_frames = match_create_frame match_join_frame match_part_frame match_edits_frame
  match_play_frame match_news_frame

subsection \<open>The contract of an invariant of the server\<close>

text \<open>The tasks that do not touch the rooms and games of the databases.\<close>

fun chat_task :: "task \<Rightarrow> bool" where
  "chat_task (SaveChat sid sname target msg is_private) = True"
| "chat_task (ReplayHistory token chan) = True"
| "chat_task _ = False"

text \<open>
  What a predicate must satisfy so that no packet of any client can break it.  Creating a
  match may need more: \<open>can_create\<close>.
\<close>

locale server_invariant =
  fixes P :: "sys \<Rightarrow> bool"
    and can_create :: "sys \<Rightarrow> bool"
  assumes quiet: "queues_only s s' \<Longrightarrow> P s \<Longrightarrow> P s'"
    and spawned: "P s \<Longrightarrow> chat_task x \<Longrightarrow> P (spawn x s)"
    and session_write: "P s \<Longrightarrow> (\<And>x. ss_token (f x) = ss_token x) \<Longrightarrow>
      (\<And>x. ss_user_id (f x) = ss_user_id x) \<Longrightarrow> P (modify_session t f s)"
    and channel_write: "P s \<Longrightarrow> P (s\<lparr>channels := cs\<rparr>)"
    and lobby_write: "P s \<Longrightarrow> P (s\<lparr>lobby_subscribers := ls\<rparr>)"
    and warned_write: "P s \<Longrightarrow> P (s\<lparr>pm_warned_pairs := ps\<rparr>)"
    and spectate: "P s \<Longrightarrow> P (start_spectating token u target s)"
    and unspectate: "P s \<Longrightarrow> P (stop_spectating_packet u s)"
    and gone: "P s \<Longrightarrow> P (snd (remove_session token s))"
    and cleaned: "P s \<Longrightarrow> P (cleanup_disbanded_matches s)"
    and created: "P s \<Longrightarrow> can_create s \<Longrightarrow> positive u \<Longrightarrow> P (match_create env token u m s)"
    and joined: "P s \<Longrightarrow> positive u \<Longrightarrow> P (match_join env token u mid pw s)"
    and parted: "P s \<Longrightarrow> P (match_part env u s)"
    and edited: "P s \<Longrightarrow> P (match_change_slot env u slot s)" "P s \<Longrightarrow> P (match_ready env u s)"
      "P s \<Longrightarrow> P (match_not_ready env u s)" "P s \<Longrightarrow> P (match_lock env u slot s)"
      "P s \<Longrightarrow> P (match_change_settings env u m s)" "P s \<Longrightarrow> P (match_change_mods env u mods s)"
      "P s \<Longrightarrow> P (match_no_beatmap env u s)" "P s \<Longrightarrow> P (match_has_beatmap env u s)"
    and played: "P s \<Longrightarrow> P (match_change_team env u s)" "P s \<Longrightarrow> P (match_change_host env u slot s)"
      "P s \<Longrightarrow> P (match_start env u s)" "P s \<Longrightarrow> P (match_complete env u s)"
      "P s \<Longrightarrow> P (match_load_complete u s)" "P s \<Longrightarrow> P (match_score_update u payload frame s)"
      "P s \<Longrightarrow> P (announce_slot build u s)"
begin

lemmas match_arms = created joined parted edited played

lemma delivered:
  "P s \<Longrightarrow> P (broadcast p s)" "P s \<Longrightarrow> P (broadcast_except p t s)"
  "P s \<Longrightarrow> P (broadcast_to_channel n p s)" "P s \<Longrightarrow> P (broadcast_to_channel_except n p u s)"
  "P s \<Longrightarrow> P (broadcast_to_spectators u p s)" "P s \<Longrightarrow> P (send_to_user u p s)"
  "P s \<Longrightarrow> P (modify_session t (enqueue_packet p) s)"
  subgoal by (rule quiet[OF to_all.run_queues_only])
  subgoal by (rule quiet[OF to_others.run_queues_only])
  subgoal by (rule quiet[OF to_channel.run_queues_only])
  subgoal by (rule quiet[OF to_channel_except.run_queues_only])
  subgoal by (rule quiet[OF to_spectators.run_queues_only])
  subgoal by (rule quiet[OF sending.run_queues_only])
  subgoal by (rule quiet[OF to_token.run_queues_only])
  done

lemma bot_keeps_P:
  assumes "P s"
  shows "P (snd (handle_bot_command sv env content name u channel s))"
proof -
  have relax: "P (snd (cmd_relax sv parts u s))" for parts
    by (rule cmd_relax_cases[of sv parts u s]) (use assms in \<open>auto intro!: delivered(1) session_write\<close>)
  from bot_cases[of sv env content name u channel s] show ?thesis
    using assms relax by auto
qed

lemma chat_arms:
  assumes "P s"
  shows "P (pong env token s)" "P (change_action sv env token a s)"
    "P (send_public_message sv env token content target s)"
    "P (send_private_message sv env token content target s)"
    "P (channel_join env token chan s)" "P (channel_part token chan s)"
    "P (request_status_update sv token s)" "P (user_stats_request sv env token ids s)"
    "P (lobby_join token u s)" "P (lobby_part u s)" "P (spectate_frames u payload s)"
    "P (cant_spectate u s)"
proof -
  show "P (pong env token s)"
    using assms by (simp add: pong_def session_write)
  show "P (change_action sv env token a s)"
    using assms by (auto simp: change_action_def Let_def split: option.split
        intro!: delivered session_write)
  show "P (send_public_message sv env token content target s)"
  proof (cases "get_session token s")
    case (Some x)
    let ?c = "filter_text (sv_char_lower sv) (chat_filter s) content"
    let ?s1 = "spawn (SaveChat (ss_user_id x) (ss_username x) target ?c False) s"
    obtain r s2 where b:
      "handle_bot_command sv env ?c (ss_username x) (ss_user_id x) target ?s1 = (r, s2)"
      by fastforce
    have "P s2"
      using bot_keeps_P[OF spawned[OF assms], of _ sv env ?c "ss_username x" "ss_user_id x" target] b
      by (metis chat_task.simps(1) snd_conv)
    then show ?thesis
      by (auto simp: send_public_message_def Some Let_def b split: option.split intro!: delivered)
  qed (use assms in \<open>simp add: send_public_message_def\<close>)
  have warn: "P (pm_warn env x y token s)" for x y
    using assms by (auto simp: pm_warn_def Let_def intro!: delivered warned_write)
  show "P (send_private_message sv env token content target s)"
  proof (cases "get_session token s")
    case (Some x)
    let ?c = "filter_text (sv_char_lower sv) (chat_filter s) content"
    obtain r s2 where b:
      "handle_bot_command sv env ?c (ss_username x) (ss_user_id x) (ss_username x) s = (r, s2)"
      by fastforce
    have "P s2"
      using bot_keeps_P[OF assms, of sv env ?c "ss_username x" "ss_user_id x" "ss_username x"] b
      by (metis snd_conv)
    then show ?thesis
      using assms warn
      by (auto simp: send_private_message_def Some Let_def b split: option.split
          intro!: delivered)
  qed (use assms in \<open>simp add: send_private_message_def\<close>)
  show "P (channel_join env token chan s)"
    using assms by (auto simp: channel_join_def add_to_channel_def Let_def split: option.split
        intro!: spawned channel_write session_write)
  show "P (channel_part token chan s)"
    using assms by (auto simp: channel_part_def Let_def simp del: modify_session_fields
        split: option.split intro!: channel_write session_write)
  show "P (request_status_update sv token s)"
    using assms by (auto simp: request_status_update_def split: option.split intro!: delivered)
  show "P (user_stats_request sv env token ids s)"
    using assms unfolding user_stats_request_def by (rule modify_fold_keeps[rotated]) (rule delivered)
  show "P (lobby_join token u s)"
    using assms by (auto simp: lobby_join_def Let_def intro!: session_write lobby_write)
  show "P (lobby_part u s)"
    using assms by (simp add: lobby_part_def lobby_write)
  show "P (spectate_frames u payload s)"
    using assms by (simp add: spectate_frames_def delivered)
  show "P (cant_spectate u s)"
    using assms by (auto simp: cant_spectate_def split: option.split intro!: delivered)
qed

lemma logout_keeps: "P s \<Longrightarrow> P (logout token s)"
  using gone[of s token]
  by (auto simp: logout_def split: prod.splits option.splits intro!: cleaned delivered)

lemma on_parsed_keeps:
  "P s \<Longrightarrow> (\<And>x. P s \<Longrightarrow> P (f x s)) \<Longrightarrow> P (snd (on_parsed p payload f s))"
  by (simp add: on_parsed_def split: io_res.split)

lemma if_snd: "P (snd a) \<Longrightarrow> P (snd b) \<Longrightarrow> P (snd (if c then a else b))"
  by simp

lemma handle_packet_keeps:
  assumes "P s" and "positive u" and "packet_id = OSU_MATCH_CREATE \<Longrightarrow> can_create s"
  shows "P (snd (handle_packet sv env token u packet_id payload s))"
proof (cases "packet_id = OSU_MATCH_CREATE")
  case True
  then show ?thesis
    using assms by (simp add: handle_packet_def on_parsed_keeps created)
next
  case False
  note keep = on_parsed_keeps[OF assms(1)] chat_arms[OF assms(1)] spectate[OF assms(1)]
    unspectate[OF assms(1)] joined[OF assms(1,2)] parted[OF assms(1)] edited[OF assms(1)]
    played[OF assms(1)] logout_keeps[OF assms(1)]
  show ?thesis
    unfolding handle_packet_def if_not_P[OF False]
    by (intro if_snd)
      (use assms(1) in \<open>auto simp: if_some_def match_failed_def match_skip_request_def
        intro!: keep split: option.split\<close>)
qed

end

end
