(* ===== verification/Invariants.thy ===== *)
theory Invariants
  imports Handler
begin

text \<open>
  The three invariants of the server meet the contract of \<open>server_invariant\<close>: the session
  tables agree, spectators mirror their targets, and the rooms are consistent with every
  match id handed out so far below the next one.
\<close>

subsection \<open>Deliveries as such\<close>

lemma delivery_of_queues_only:
  assumes "queues_only s s'"
  shows "delivery (\<lambda>st. if st = s then s' else st)"
  by unfold_locales (use assms in simp)

lemma session_inv_quiet: "queues_only s s' \<Longrightarrow> session_inv s \<Longrightarrow> session_inv s'"
  using delivery.session_inv_run[OF delivery_of_queues_only, of s s' s] by simp

lemma spec_inv_quiet: "queues_only s s' \<Longrightarrow> spec_inv s \<Longrightarrow> spec_inv s'"
  using delivery.spec_inv_run[OF delivery_of_queues_only, of s s' s] by simp

lemma room_inv_quiet: "queues_only s s' \<Longrightarrow> room_inv s \<Longrightarrow> room_inv s'"
  using delivery.room_inv_run[OF delivery_of_queues_only, of s s' s] by simp

subsection \<open>Match ids\<close>

definition known_ids :: "'x bancho_state_scheme \<Rightarrow> u16 set" where
  "known_ids st = dom (hget (matches st)) \<union> set (pending_disbanded_matches st)"

definition fresh_ids :: "'x bancho_state_scheme \<Rightarrow> bool" where
  "fresh_ids st \<longleftrightarrow> 0 < next_match_id st \<and> (\<forall>mid \<in> known_ids st. mid < next_match_id st)"

definition rooms_ok :: "'x bancho_state_scheme \<Rightarrow> bool" where
  "rooms_ok st \<longleftrightarrow> room_inv st \<and> fresh_ids st"

context delivery
begin

lemma known_ids_run [simp]: "known_ids (run st) = known_ids st"
  by (simp add: known_ids_def)

end

lemma known_ids_same [simp]:
  "known_ids (modify_session t f st) = known_ids st"
  "known_ids (st\<lparr>channels := cs\<rparr>) = known_ids st"
  "known_ids (st\<lparr>lobby_subscribers := ls\<rparr>) = known_ids st"
  "known_ids (st\<lparr>pm_warned_pairs := pw\<rparr>) = known_ids st"
  "known_ids (st\<lparr>sessions := ss\<rparr>) = known_ids st"
  "known_ids (st\<lparr>user_id_to_token := ut\<rparr>) = known_ids st"
  "known_ids (st\<lparr>user_to_match := um\<rparr>) = known_ids st"
  "known_ids (st\<lparr>next_match_id := nid\<rparr>) = known_ids st"
  "known_ids (st\<lparr>match_start_times := mt\<rparr>) = known_ids st"
  "known_ids (st\<lparr>match_last_scores := sc\<rparr>) = known_ids st"
  "known_ids (st\<lparr>match_loaded_users := lu\<rparr>) = known_ids st"
  "known_ids (add_to_channel n u st) = known_ids st"
  "known_ids (stop_spectating_packet u st) = known_ids st"
  "known_ids (release_spectators u st) = known_ids st"
  "known_ids (leave_channels u st) = known_ids st"
  by (simp_all add: known_ids_def)

lemma known_ids_tasks [simp]:
  "known_ids (spawn x s) = known_ids s"
  "known_ids (sync_match_to_multi_db env mid s) = known_ids s"
  "known_ids (try_finish_match env mid s) = known_ids s"
  "known_ids (announce_edit env r s) = known_ids s"
  "known_ids (announce_edit_in_match env r s) = known_ids s"
  by (simp_all add: known_ids_def try_finish_frame)

lemma known_ids_cleanup: "known_ids (cleanup_disbanded_matches s) \<subseteq> known_ids s"
  by (simp add: known_ids_def)

lemma known_ids_edit [simp]: "known_ids (snd (update_own_match edit u st)) = known_ids st"
  by (auto simp: known_ids_def update_own_match_def split: option.split)

lemma known_ids_put:
  "known_ids (st\<lparr>matches := hput mid m (matches s)\<rparr>) =
     insert mid (dom (hget (matches s)) \<union> set (pending_disbanded_matches st))"
  by (auto simp: known_ids_def)

lemma known_ids_remove_user: "known_ids (snd (remove_user_from_match u st)) \<subseteq> known_ids st"
  by (auto simp: known_ids_def remove_user_from_match_def Let_def split: option.split)

lemma known_ids_leave: "known_ids (leave_current u st) \<subseteq> known_ids st"
  by (simp add: leave_current_eq known_ids_remove_user)

lemma known_ids_match_arms:
  "known_ids (match_part env u s) \<subseteq> known_ids s"
  "known_ids (match_change_slot env u slot s) = known_ids s"
  "known_ids (match_ready env u s) = known_ids s"
  "known_ids (match_not_ready env u s) = known_ids s"
  "known_ids (match_lock env u slot s) = known_ids s"
  "known_ids (match_change_settings env u m s) = known_ids s"
  "known_ids (match_change_mods env u mods s) = known_ids s"
  "known_ids (match_no_beatmap env u s) = known_ids s"
  "known_ids (match_has_beatmap env u s) = known_ids s"
  subgoal
    using known_ids_remove_user[of u s]
    by (cases "remove_user_from_match u s")
      (auto simp: match_part_def Let_def split: option.split prod.split
        dest!: subsetD[OF known_ids_cleanup])
  by (simp_all add: match_change_slot_def match_ready_def match_not_ready_def match_lock_def
      match_change_settings_def match_change_mods_def match_no_beatmap_def match_has_beatmap_def
      split_def Let_def)

lemma known_ids_result:
  "update_own_match edit u st = (r, st1) \<Longrightarrow> known_ids st1 = known_ids st"
  using known_ids_edit[of edit u st] by simp

lemma known_ids_play:
  "known_ids (match_change_team env u s) = known_ids s"
  "known_ids (match_change_host env u slot s) = known_ids s"
  "known_ids (match_start env u s) = known_ids s"
  "known_ids (match_complete env u s) = known_ids s"
  "known_ids (match_load_complete u s) = known_ids s"
  "known_ids (match_score_update u payload frame s) = known_ids s"
  "known_ids (announce_slot build u s) = known_ids s"
  by (auto simp: match_change_team_def match_change_host_def match_start_def match_complete_def
      match_load_complete_def match_score_update_def relay_match_score_frame_def announce_slot_def
      Let_def split: option.splits prod.splits io_res.splits dest!: known_ids_result)

lemma known_ids_leave_parts:
  "dom (hget (matches (leave_current u s))) \<subseteq> known_ids s"
  "set (pending_disbanded_matches (leave_current u s)) \<subseteq> known_ids s"
  using known_ids_leave[of u s] unfolding known_ids_def by blast+

lemma known_ids_join: "known_ids (match_join env token u mid pw s) \<subseteq> known_ids s"
proof (cases "can_join (hget (matches s) (ucast mid)) pw")
  case True
  show ?thesis
  proof (cases "hget (matches (leave_current u s)) (ucast mid)")
    case None
    then show ?thesis using True known_ids_leave[of u s] by (simp add: match_join_def Let_def)
  next
    case (Some m)
    have "ucast mid \<in> known_ids s" using known_ids_leave_parts(1)[of u s] Some by blast
    moreover have "known_ids (match_join env token u mid pw s) \<subseteq>
        insert (ucast mid) (dom (hget (matches (leave_current u s)))
          \<union> set (pending_disbanded_matches (leave_current u s)))"
      unfolding match_join_def Let_def
      by (simp only: True not_True_eq_False if_False Some option.case)
        (rule order_trans[OF known_ids_cleanup], simp add: known_ids_put)
    ultimately show ?thesis using known_ids_leave_parts[of u s] by blast
  qed
qed (simp add: match_join_def)

lemma known_ids_create:
  "known_ids (match_create env token u m s) \<subseteq> insert (next_match_id s) (known_ids s)"
proof -
  have "known_ids (match_create env token u m s) \<subseteq>
      insert (next_match_id s) (dom (hget (matches (leave_current u s)))
        \<union> set (pending_disbanded_matches (leave_current u s)))"
    unfolding match_create_def Let_def
    by (rule order_trans[OF known_ids_cleanup]) (simp add: known_ids_put)
  then show ?thesis using known_ids_leave_parts[of u s] by blast
qed

lemma known_ids_remove_session: "known_ids (snd (remove_session token st)) \<subseteq> known_ids st"
proof (cases "hget (sessions st) token")
  case (Some s)
  let ?st1 = "st\<lparr>sessions := hdel token (sessions st),
      user_id_to_token := hdel (ss_user_id s) (user_id_to_token st),
      lobby_subscribers := hs_remove (ss_user_id s) (lobby_subscribers st)\<rparr>"
  show ?thesis
    using known_ids_leave[of "ss_user_id s" ?st1] by (simp add: remove_session_eq[OF Some])
qed (simp add: remove_session_absent)

lemma fresh_ids_step:
  "fresh_ids st \<Longrightarrow> next_match_id st' = next_match_id st \<Longrightarrow> known_ids st' \<subseteq> known_ids st \<Longrightarrow>
     fresh_ids st'"
  by (auto simp: fresh_ids_def)

lemma bump_match_id:
  assumes "n \<noteq> - 1"
  shows "n < bump_match_id n \<and> unat (bump_match_id n) = Suc (unat n)"
proof -
  have "1 + n \<noteq> 0" using assms by (simp add: add_eq_0_iff)
  then have "unat (n + 1) = Suc (unat n)" "n + 1 \<noteq> 0"
    using unatSuc[of n] by (simp_all add: add.commute)
  then show ?thesis by (simp add: bump_match_id_def word_less_nat_alt)
qed

lemma fresh_ids_create:
  assumes "fresh_ids s" and "next_match_id s \<noteq> - 1"
  shows "fresh_ids (match_create env token u m s)"
proof -
  note b = bump_match_id[OF assms(2)]
  have "mid < bump_match_id (next_match_id s)" if "mid \<in> known_ids (match_create env token u m s)" for mid
    using known_ids_create[of env token u m s] that assms(1) b
    by (auto simp: fresh_ids_def dest: less_trans)
  moreover have "0 < bump_match_id (next_match_id s)"
    using b assms(1) by (auto simp: fresh_ids_def dest: less_trans)
  ultimately show ?thesis by (simp add: fresh_ids_def match_frames)
qed

lemma fresh_ids_free:
  assumes "fresh_ids s"
  shows "hget (matches s) (next_match_id s) = None"
    "next_match_id s \<notin> set (pending_disbanded_matches s)"
  using assms by (auto simp: fresh_ids_def known_ids_def domIff)

lemma next_id_remove_session: "next_match_id (snd (remove_session token st)) = next_match_id st"
  by (cases "hget (sessions st) token") (simp_all add: remove_session_eq remove_session_absent)

lemma next_id_start_spectating:
  "next_match_id (start_spectating token u t st) = next_match_id st"
  "known_ids (start_spectating token u t st) = known_ids st"
  by (simp_all add: start_spectating_def Let_def known_ids_def)

subsection \<open>The invariants of the server\<close>

interpretation sessions_hold: server_invariant session_inv "\<lambda>_. True"
proof (unfold_locales, goal_cases)
  case 1 then show ?case by (rule session_inv_quiet)
next
  case 7 then show ?case
    unfolding start_spectating_def Let_def
    by (auto split: option.split intro!: session_inv_more session_inv_stop_packet
        each_fellow.session_inv_run)
next
  case 8 then show ?case by (rule session_inv_stop_packet)
next
  case 9 then show ?case by (rule session_inv_remove_session)
qed (auto simp: session_inv_multiplayer session_inv_more announce_slot_def split: option.split)

interpretation spectators_hold: server_invariant spec_inv "\<lambda>_. True"
proof (unfold_locales, goal_cases)
  case 1 then show ?case by (rule spec_inv_quiet)
next
  case 7 then show ?case by (rule spec_inv_start_spectating)
next
  case 8 then show ?case by (rule spec_inv_stop_packet)
next
  case 9 then show ?case by (rule spec_inv_remove_session)
qed (auto simp: spec_inv_def match_frames)

lemma room_inv_start_spectating: "room_inv st \<Longrightarrow> room_inv (start_spectating token u t st)"
  unfolding start_spectating_def Let_def
  by (auto simp: room_inv_stop_packet split: option.split
      intro!: room_inv_steps each_fellow.room_inv_run)

interpretation rooms_hold: server_invariant rooms_ok "\<lambda>s. next_match_id s \<noteq> - 1"
proof (unfold_locales, goal_cases)
  case (1 s s')
  then show ?case
    using room_inv_quiet[OF 1(1)] fresh_ids_step[of s s']
      delivery.run_fields(5)[OF delivery_of_queues_only[OF 1(1)], of s]
      delivery.known_ids_run[OF delivery_of_queues_only[OF 1(1)], of s]
    by (simp add: rooms_ok_def)
next
  case (9 s token)
  then show ?case
    using fresh_ids_step[OF _ next_id_remove_session known_ids_remove_session, of s token]
    by (simp add: rooms_ok_def room_inv_remove_session)
next
  case (11 s u env token m)
  then show ?case
    using fresh_ids_create[of s env token u m] fresh_ids_free[of s]
    by (simp add: rooms_ok_def room_inv_match_create)
next
  case (12 s u env token mid pw)
  then show ?case
    using fresh_ids_step[OF _ _ known_ids_join]
    by (simp add: rooms_ok_def room_inv_match_join match_frames)
next
  case (13 s env u)
  then show ?case
    using fresh_ids_step[OF _ _ known_ids_match_arms(1)]
    by (simp add: rooms_ok_def room_inv_match_part match_frames)
next
  case (10 s)
  then show ?case
    using fresh_ids_step[OF _ _ known_ids_cleanup] by (simp add: rooms_ok_def room_inv_steps)
qed (auto simp: rooms_ok_def room_inv_steps room_inv_edits room_inv_match_change_team
    room_inv_match_change_host room_inv_match_start room_inv_match_complete
    room_inv_match_load_complete room_inv_match_score_update room_inv_announce_slot
    room_inv_start_spectating room_inv_stop_packet match_frames known_ids_match_arms
    known_ids_play next_id_start_spectating elim!: fresh_ids_step)

end
