(* ===== verification/Security.thy ===== *)
theory Security
  imports Rust_Strings
begin

unbundle bit_operations_syntax

text \<open>
  \<^verbatim>\<open>src/utils/security.rs\<close>: the client hashes of a login, the private addresses, and
  the list of data-centre networks.  An address is its 32 or 128 bits; a network is an
  address with the number of leading bits that count.
\<close>

datatype ip_addr = IPv4 u32 | IPv6 "128 word"

definition ipv4 :: "nat \<Rightarrow> nat \<Rightarrow> nat \<Rightarrow> nat \<Rightarrow> u32" where
  "ipv4 a b c d = of_nat (((a * 256 + b) * 256 + c) * 256 + d)"

text \<open>\<^verbatim>\<open>IpNet::contains\<close>: the first \<open>n\<close> bits agree.\<close>

definition in_net :: "u32 \<Rightarrow> nat \<Rightarrow> u32 \<Rightarrow> bool" where
  "in_net net n a \<longleftrightarrow> drop_bit (32 - n) a = drop_bit (32 - n) net"

record client_hardware =
  hw_adapters_hash :: rstr
  hw_uninstall_id :: rstr
  hw_disk_signature :: rstr

definition nth_or_empty :: "rstr list \<Rightarrow> nat \<Rightarrow> rstr" where
  "nth_or_empty xs i = (if i < length xs then xs ! i else [])"

definition parse_client_hashes :: "rstr \<Rightarrow> client_hardware" where
  "parse_client_hashes raw_hashes =
     (let parts = split_on 58 raw_hashes
      in if length parts \<ge> 5 then
           \<lparr>hw_adapters_hash = parts ! 2, hw_uninstall_id = parts ! 3, hw_disk_signature = parts ! 4\<rparr>
         else
           \<lparr>hw_adapters_hash = nth_or_empty parts 0, hw_uninstall_id = nth_or_empty parts 1,
            hw_disk_signature = nth_or_empty parts 2\<rparr>)"

text \<open>The tests of \<^verbatim>\<open>Ipv4Addr\<close> and \<^verbatim>\<open>Ipv6Addr\<close>.\<close>

definition ipv4_loopback :: "u32 \<Rightarrow> bool" where
  "ipv4_loopback a \<longleftrightarrow> in_net (ipv4 127 0 0 0) 8 a"

definition ipv4_private :: "u32 \<Rightarrow> bool" where
  "ipv4_private a \<longleftrightarrow> in_net (ipv4 10 0 0 0) 8 a \<or> in_net (ipv4 172 16 0 0) 12 a
     \<or> in_net (ipv4 192 168 0 0) 16 a"

definition ipv4_link_local :: "u32 \<Rightarrow> bool" where
  "ipv4_link_local a \<longleftrightarrow> in_net (ipv4 169 254 0 0) 16 a"

definition ipv4_broadcast :: "u32 \<Rightarrow> bool" where
  "ipv4_broadcast a \<longleftrightarrow> a = - 1"

definition ipv4_documentation :: "u32 \<Rightarrow> bool" where
  "ipv4_documentation a \<longleftrightarrow> in_net (ipv4 192 0 2 0) 24 a \<or> in_net (ipv4 198 51 100 0) 24 a
     \<or> in_net (ipv4 203 0 113 0) 24 a"

definition is_private_or_loopback_ip :: "ip_addr \<Rightarrow> bool" where
  "is_private_or_loopback_ip ip =
     (case ip of
        IPv4 a \<Rightarrow>
          ipv4_loopback a \<or> ipv4_private a \<or> ipv4_link_local a \<or> ipv4_broadcast a
          \<or> ipv4_documentation a \<or> drop_bit 24 a = 0
      | IPv6 a \<Rightarrow> a = 1 \<or> drop_bit 112 a AND 0xfe00 = 0xfc00)"

definition known_datacenter_cidrs :: "(u32 \<times> nat) list" where
  "known_datacenter_cidrs =
     [(ipv4 104 28 0 0, 16),
      (ipv4 162 158 0 0, 15),
      (ipv4 172 64 0 0, 13),
      (ipv4 3 0 0 0, 9),
      (ipv4 13 32 0 0, 15),
      (ipv4 18 184 0 0, 15),
      (ipv4 52 0 0 0, 11),
      (ipv4 54 0 0 0, 12),
      (ipv4 104 131 0 0, 16),
      (ipv4 138 68 0 0, 16),
      (ipv4 159 203 0 0, 16),
      (ipv4 167 99 0 0, 16),
      (ipv4 188 166 0 0, 16),
      (ipv4 88 198 0 0, 16),
      (ipv4 95 216 0 0, 16),
      (ipv4 135 181 0 0, 16),
      (ipv4 168 119 0 0, 16),
      (ipv4 45 33 0 0, 16),
      (ipv4 45 56 0 0, 16),
      (ipv4 172 104 0 0, 15),
      (ipv4 51 254 0 0, 15),
      (ipv4 149 202 0 0, 16),
      (ipv4 178 32 0 0, 15),
      (ipv4 45 32 0 0, 16),
      (ipv4 45 76 0 0, 16),
      (ipv4 149 28 0 0, 16)]"

definition is_known_vpn_or_datacenter :: "ip_addr \<Rightarrow> bool" where
  "is_known_vpn_or_datacenter ip =
     (if is_private_or_loopback_ip ip then False
      else case ip of
             IPv4 a \<Rightarrow> list_ex (\<lambda>(net, n). in_net net n a) known_datacenter_cidrs
           | IPv6 a \<Rightarrow> False)"

subsection \<open>Networks as intervals\<close>

lemma in_net_interval:
  "in_net net n a \<longleftrightarrow> unat a div 2 ^ (32 - n) = unat net div 2 ^ (32 - n)"
  proof -
  have "unat (drop_bit k w) = unat w div 2 ^ k" for k and w :: u32
    unfolding unat_drop_bit_eq by (simp only: drop_bit_eq_div)
  then show ?thesis unfolding in_net_def by (metis word_unat_eq_iff)
qed

end
