(* ===== verification/Login.thy ===== *)
theory Login
  imports Invariants Security
begin

unbundle bit_operations_syntax

text \<open>
  \<^verbatim>\<open>src/server/bancho.rs\<close>: the login and the polling of a client, and the pruning of
  silent sessions of \<^verbatim>\<open>src/main.rs\<close>.  Password hashing, the keyed fingerprints, the
  random token and the users' tables are the fields of \<open>accounts\<close>; a failing one is
  \<open>None\<close>.
\<close>

subsection \<open>What a login uses\<close>

record login_user =
  lu_id :: i32
  lu_username :: rstr
  lu_password_hash :: rstr
  lu_privileges :: i32
  lu_country :: u8

record login_config =
  lc_block_vpn :: bool
  lc_anti_multiaccount :: bool
  lc_max_accounts_per_hwid :: u32
  lc_auto_register :: bool
  lc_default_country :: u8
  lc_welcome_message :: rstr

record accounts =
  ac_find_user :: "rstr \<Rightarrow> login_user option option"
  ac_create_user :: "rstr \<Rightarrow> rstr \<Rightarrow> rstr \<Rightarrow> u8 \<Rightarrow> login_user option"
  ac_check_multiaccount :: "i32 option \<Rightarrow> client_hardware \<Rightarrow> u32 \<Rightarrow> bool option"
  ac_verify_password :: "rstr \<Rightarrow> rstr \<Rightarrow> bool"
  ac_md5_hex :: "rstr \<Rightarrow> rstr"
  ac_hash_password :: "rstr \<Rightarrow> rstr option"
  ac_fingerprint :: "rstr \<Rightarrow> rstr \<Rightarrow> rstr"
  ac_badge_tags :: "i32 \<Rightarrow> rstr list option"

abbreviation PRIV_PLAYER :: u32 where "PRIV_PLAYER \<equiv> 1"
abbreviation PRIV_MODERATOR :: u32 where "PRIV_MODERATOR \<equiv> 2"
abbreviation PRIV_SUPPORTER :: u32 where "PRIV_SUPPORTER \<equiv> 4"

subsection \<open>The request\<close>

record login_request =
  lq_username :: rstr
  lq_password_md5 :: rstr
  lq_osu_version :: rstr
  lq_utc_offset :: u8
  lq_hardware :: client_hardware

text \<open>Three lines: name, password hash, client information separated by bars.\<close>

datatype login_parse = BadUtf8 | TooShort | Parsed login_request

definition login_utc_offset :: "rstr list \<Rightarrow> u8" where
  "login_utc_offset client_parts =
     (if length client_parts > 1 then
        word_of_int (case parse_int (- 128) 127 (client_parts ! 1) of Some k \<Rightarrow> k | None \<Rightarrow> 0) + 24
      else 24)"

definition protect_hardware :: "accounts \<Rightarrow> client_hardware \<Rightarrow> client_hardware" where
  "protect_hardware ac hw =
     \<lparr>hw_adapters_hash = ac_fingerprint ac (lit ''hardware-adapter'') (hw_adapters_hash hw),
      hw_uninstall_id = ac_fingerprint ac (lit ''hardware-uninstall'') (hw_uninstall_id hw),
      hw_disk_signature = ac_fingerprint ac (lit ''hardware-disk'') (hw_disk_signature hw)\<rparr>"

definition parse_login :: "accounts \<Rightarrow> rstr option \<Rightarrow> u8 list \<Rightarrow> login_parse" where
  "parse_login ac version_header body =
     (case utf8_decode body of
        None \<Rightarrow> BadUtf8
      | Some body_str \<Rightarrow>
          let lines = str_lines body_str
          in if length lines < 3 then TooShort
             else
               let client_parts = split_on 124 (trim (lines ! 2));
                   version0 = trim (nth_or_empty client_parts 0);
                   osu_version = (if version0 = [] then
                                    (case version_header of Some h \<Rightarrow> trim h | None \<Rightarrow> version0)
                                  else version0)
               in Parsed \<lparr>lq_username = trim (lines ! 0), lq_password_md5 = trim (lines ! 1),
                    lq_osu_version = osu_version, lq_utc_offset = login_utc_offset client_parts,
                    lq_hardware = protect_hardware ac
                      (parse_client_hashes (nth_or_empty client_parts 3))\<rparr>)"

subsection \<open>Who may enter\<close>

datatype 'a decision = Deny "u8 list" | Allow 'a

definition too_many_accounts ::
    "login_config \<Rightarrow> accounts \<Rightarrow> ip_addr \<Rightarrow> i32 option \<Rightarrow> client_hardware \<Rightarrow> bool" where
  "too_many_accounts cfg ac ip uid hw \<longleftrightarrow>
     lc_anti_multiaccount cfg \<and> \<not> is_private_or_loopback_ip ip
     \<and> ac_check_multiaccount ac uid hw (lc_max_accounts_per_hwid cfg) = Some True"

definition register_user :: "login_config \<Rightarrow> accounts \<Rightarrow> login_request \<Rightarrow> login_user decision" where
  "register_user cfg ac rq =
     (case ac_hash_password ac (lq_password_md5 rq) of
        None \<Rightarrow> Deny (build_user_id (- 5))
      | Some hashed \<Rightarrow>
          (case ac_create_user ac (lq_username rq) hashed (lq_username rq @ [64] @ lit ''ayanomi.local'')
                  (lc_default_country cfg) of
             None \<Rightarrow> Deny (build_user_id (- 5))
           | Some u \<Rightarrow> Allow u))"

definition authenticate ::
    "login_config \<Rightarrow> accounts \<Rightarrow> ip_addr \<Rightarrow> login_request \<Rightarrow> login_user decision" where
  "authenticate cfg ac ip rq =
     (case ac_find_user ac (clean_username (lq_username rq)) of
        None \<Rightarrow> Deny (build_user_id (- 5))
      | Some (Some u) \<Rightarrow>
          if \<not> (ac_verify_password ac (lq_password_md5 rq) (lu_password_hash u)
                \<or> ac_verify_password ac (ac_md5_hex ac (lq_password_md5 rq)) (lu_password_hash u))
          then Deny (build_user_id (- 1))
          else if too_many_accounts cfg ac ip (Some (lu_id u)) (lq_hardware rq)
          then Deny (build_user_id (- 4))
          else Allow u
      | Some None \<Rightarrow>
          if \<not> lc_auto_register cfg then Deny (build_user_id (- 1))
          else if too_many_accounts cfg ac ip None (lq_hardware rq) then Deny (build_user_id (- 4))
          else register_user cfg ac rq)"

subsection \<open>Entering\<close>

definition login_evict :: "i32 \<Rightarrow> 'x bancho_state_scheme \<Rightarrow> 'x bancho_state_scheme" where
  "login_evict uid st =
     (case hget (user_id_to_token st) uid of
        Some old_token \<Rightarrow> snd (remove_session old_token st)
      | None \<Rightarrow> st)"

definition effective_privileges :: "login_user \<Rightarrow> u32" where
  "effective_privileges user = lu_privileges user OR PRIV_SUPPORTER"

definition login_session ::
    "accounts \<Rightarrow> env \<Rightarrow> login_request \<Rightarrow> login_user \<Rightarrow> rstr \<Rightarrow> session" where
  "login_session ac env rq user token =
     (new_session token (lu_id user)
        (user_display_name (ac_badge_tags ac (lu_id user)) (lu_username user))
        (lq_utc_offset rq) (lu_country user) (effective_privileges user) (e_now env))
     \<lparr>ss_client_version := lq_osu_version rq, ss_channels := [lit ''#osu'', lit ''#announce'']\<rparr>"

definition login_history :: "services \<Rightarrow> env \<Rightarrow> rstr \<Rightarrow> u8 list" where
  "login_history sv env chan =
     (case sv_channel_history sv chan (sint (e_history_limit env)) of
        Some rows \<Rightarrow> concat (map (history_packet chan) rows)
      | None \<Rightarrow> [])"

definition bot_presence :: "login_config \<Rightarrow> env \<Rightarrow> user_presence" where
  "bot_presence cfg env =
     \<lparr>up_user_id = e_bot_id env, up_username = e_bot_name env, up_utc_offset = 24,
      up_country_code = lc_default_country cfg,
      up_bancho_privileges = ucast (PRIV_PLAYER OR PRIV_MODERATOR), up_game_mode = 0,
      up_longitude = Zero False, up_latitude = Zero False, up_rank = 0\<rparr>"

definition welcome_pm :: "env \<Rightarrow> rstr \<Rightarrow> chat_message" where
  "welcome_pm env display_name =
     \<lparr>cm_sender = e_bot_name env, cm_content = lit ''Ch'' @ [0xe0] @ lit ''o m'' @ [0x1eeb] @ lit ''ng '' @ display_name @ lit '' '' @ [0x111, 0x1ebf] @ lit ''n v'' @ [0x1edb] @ lit ''i AyanomiBancho! G'' @ [0xf5] @ lit '' !help '' @ [0x111, 0x1ec3] @ lit '' xem c'' @ [0xe1] @ lit ''c l'' @ [0x1ec7] @ lit ''nh bot.'',
      cm_target = display_name, cm_sender_id = e_bot_id env\<rparr>"

definition login_self ::
    "services \<Rightarrow> session \<Rightarrow> u8 list \<times> u8 list" where
  "login_self sv s =
     (let rank = rank_or_one sv (ss_user_id s) 0
      in (build_user_presence (to_presence rank s),
          build_user_stats (to_stats (stats_or_default sv (ss_user_id s) 0) rank s)))"

text \<open>The packets of the reply that do not depend on who else is online.\<close>

definition login_greeting ::
    "services \<Rightarrow> login_config \<Rightarrow> env \<Rightarrow> session \<Rightarrow> 'x bancho_state_scheme \<Rightarrow> u8 list" where
  "login_greeting sv cfg env s st =
     (let (presence, stats) = login_self sv s
      in build_protocol_version 19 @ build_user_id (ss_user_id s)
         @ build_bancho_privileges (ss_privileges s) @ build_notification (lc_welcome_message cfg)
         @ concat (map (\<lambda>ch. build_channel_info (ch_name ch) (ch_topic ch) (user_count ch))
             (map snd (channels st)))
         @ build_channel_info_end
         @ build_channel_join_success (lit ''#osu'') @ build_channel_join_success (lit ''#announce'')
         @ (if positive (e_history_limit env)
            then login_history sv env (lit ''#osu'') @ login_history sv env (lit ''#announce'') else [])
         @ build_user_presence (bot_presence cfg env) @ build_user_stats (bot_stats env)
         @ build_send_message (welcome_pm env (ss_username s)) @ presence @ stats)"

definition other_stats :: "session \<Rightarrow> user_stats" where
  "other_stats s =
     \<lparr>us_user_id = ss_user_id s, us_action = ss_action s, us_info_text = ss_info_text s,
      us_map_md5 = ss_map_md5 s, us_mods = ss_mods s, us_mode = ss_mode s, us_map_id = ss_map_id s,
      us_ranked_score = 0, us_accuracy = Zero False, us_play_count = 0, us_total_score = 0,
      us_rank = 1, us_pp = 0\<rparr>"

definition others_online :: "'x bancho_state_scheme \<Rightarrow> u8 list" where
  "others_online st =
     concat (map (\<lambda>s. build_user_presence (to_presence 1 s) @ build_user_stats (other_stats s))
       (map snd (sessions st)))"

definition login_enter ::
    "services \<Rightarrow> session \<Rightarrow> 'x bancho_state_scheme \<Rightarrow> u8 list \<times> 'x bancho_state_scheme" where
  "login_enter sv s st =
     (let (presence, stats) = login_self sv s;
          st1 = add_to_channel (lit ''#announce'') (ss_user_id s)
                  (add_to_channel (lit ''#osu'') (ss_user_id s) st)
      in (others_online st1, add_session s (broadcast stats (broadcast presence st1))))"

text \<open>The reply: its status, the token header and the body.\<close>

datatype login_reply = BadRequest | LoginReply rstr "u8 list"

definition no_token :: rstr where
  "no_token = lit ''None''"

definition handle_login ::
    "services \<Rightarrow> login_config \<Rightarrow> accounts \<Rightarrow> env \<Rightarrow> rstr \<Rightarrow> rstr option \<Rightarrow> ip_addr \<Rightarrow> u8 list \<Rightarrow>
     'x bancho_state_scheme \<Rightarrow> login_reply \<times> 'x bancho_state_scheme" where
  "handle_login sv cfg ac env token version_header ip body st =
     (case parse_login ac version_header body of
        BadUtf8 \<Rightarrow> (BadRequest, st)
      | TooShort \<Rightarrow> (LoginReply no_token (build_user_id (- 1)), st)
      | Parsed rq \<Rightarrow>
          if lc_block_vpn cfg \<and> is_known_vpn_or_datacenter ip then
            (LoginReply no_token (build_user_id (- 3)
               @ build_notification (lit ''VPN or Datacenter Proxy is not allowed on this server.'')), st)
          else
            (case authenticate cfg ac ip rq of
               Deny fail_pkt \<Rightarrow> (LoginReply no_token fail_pkt, st)
             | Allow user \<Rightarrow>
                 let st1 = login_evict (lu_id user) st;
                     s = login_session ac env rq user token;
                     greeting = login_greeting sv cfg env s st1;
                     (others, st2) = login_enter sv s st1
                 in (LoginReply token (greeting @ others), st2)))"

subsection \<open>Polling\<close>

definition poll_begin ::
    "env \<Rightarrow> rstr option \<Rightarrow> rstr \<Rightarrow> 'x bancho_state_scheme \<Rightarrow> 'x bancho_state_scheme" where
  "poll_begin env version_header token st =
     modify_session token
       (\<lambda>s. let s1 = s\<lparr>ss_last_ping := e_now env\<rparr>
            in if ss_client_version s1 = [] then
                 (case version_header of Some h \<Rightarrow> s1\<lparr>ss_client_version := trim h\<rparr> | None \<Rightarrow> s1)
               else s1) st"

definition poll_end :: "rstr \<Rightarrow> 'x bancho_state_scheme \<Rightarrow> u8 list \<times> 'x bancho_state_scheme" where
  "poll_end token st =
     (case get_session token st of
        None \<Rightarrow> ([], st)
      | Some s \<Rightarrow>
          (fst (dequeue_all_packets s), modify_session token (snd \<circ> dequeue_all_packets) st))"

text \<open>No reply when the task panics: the connection is dropped, the queue stays.\<close>

definition handle_packet_poll ::
    "services \<Rightarrow> (nat \<Rightarrow> env) \<Rightarrow> rstr option \<Rightarrow> rstr \<Rightarrow> u8 list \<Rightarrow> sys \<Rightarrow> u8 list option \<times> sys" where
  "handle_packet_poll sv envs version_header token body st =
     (case get_session token st of
        None \<Rightarrow> (Some (build_restart 0), st)
      | Some s \<Rightarrow>
          let st1 = poll_begin (envs 0) version_header token st;
              (fl, st2) = (if body \<noteq> [] then handle_client_packets sv envs token 1 body st1
                           else (Stop, st1))
          in if fl = Panicked then (None, st2)
             else (let (packets, st3) = poll_end token st2 in (Some packets, st3)))"

definition internal_stats_update ::
    "services \<Rightarrow> bool \<Rightarrow> i32 \<Rightarrow> u8 \<Rightarrow> bool option \<Rightarrow> 'x bancho_state_scheme \<Rightarrow> bool \<times> 'x bancho_state_scheme" where
  "internal_stats_update sv authorized uid mode is_relax st =
     (if \<not> authorized then (False, st)
      else case get_session_by_user_id uid st of
             None \<Rightarrow> (True, st)
           | Some s \<Rightarrow>
               let is_rx = (case is_relax of Some b \<Rightarrow> b | None \<Rightarrow> ss_is_relax s);
                   eff_mode = effective_mode is_rx mode
               in (True, broadcast (build_user_stats
                     (to_stats (stats_or_default sv uid eff_mode) (rank_or_one sv uid eff_mode) s)) st))"

subsection \<open>Pruning\<close>

definition timed_out :: "instant \<Rightarrow> 'x bancho_state_scheme \<Rightarrow> (rstr \<times> i32) list" where
  "timed_out now st =
     map (\<lambda>(token, s). (token, ss_user_id s))
       (filter (\<lambda>(token, s). now - ss_last_ping s > 120 * 1000000000) (sessions st))"

definition prune_one :: "rstr \<times> i32 \<Rightarrow> sys \<Rightarrow> sys" where
  "prune_one = (\<lambda>(token, uid) st. broadcast (build_user_quit uid 2) (snd (remove_session token st)))"

definition prune_sessions :: "instant \<Rightarrow> sys \<Rightarrow> sys" where
  "prune_sessions now st = cleanup_disbanded_matches (fold prune_one (timed_out now st) st)"

end
