(* ===== verification/Server.thy ===== *)
theory Server
  imports Login
begin

text \<open>
  The server as a whole: its states are those reached from the start by the sections of any
  requests in any order, and by the pruning task.  A section that runs under the write lock
  is a step; a client's packet is a step with whatever user it read before, so the relation
  covers every interleaving of requests.
\<close>

subsection \<open>More invariants\<close>

definition ids_positive :: "'x bancho_state_scheme \<Rightarrow> bool" where
  "ids_positive st \<longleftrightarrow> (\<forall>t s. hget (sessions st) t = Some s \<longrightarrow> positive (ss_user_id s))"

context delivery
begin

lemma ids_positive_run: "ids_positive st \<Longrightarrow> ids_positive (run st)"
  unfolding ids_positive_def
proof (intro allI impI)
  fix t s
  assume pos: "\<forall>t s. hget (sessions st) t = Some s \<longrightarrow> positive (ss_user_id s)"
    and s: "hget (sessions (run st)) t = Some s"
  then obtain s0 q where "hget (sessions st) t = Some s0" "s = enqueue_packet q s0"
    using run_session[of st t] run_absent[of st t] by (cases "hget (sessions st) t") auto
  then show "positive (ss_user_id s)" using pos by simp
qed

end

lemma ids_positive_quiet: "queues_only s s' \<Longrightarrow> ids_positive s \<Longrightarrow> ids_positive s'"
  using delivery.ids_positive_run[OF delivery_of_queues_only, of s s' s] by simp

lemma ids_positive_cong: "sessions st' = sessions st \<Longrightarrow> ids_positive st' = ids_positive st"
  by (simp add: ids_positive_def)

lemma ids_positive_modify:
  "ids_positive st \<Longrightarrow> (\<And>s. ss_user_id (f s) = ss_user_id s) \<Longrightarrow>
     ids_positive (modify_session t f st)"
  by (auto simp: ids_positive_def split: if_splits)

lemma ids_positive_fields:
  "ids_positive st \<Longrightarrow> ids_positive (st\<lparr>channels := cs\<rparr>)"
  "ids_positive st \<Longrightarrow> ids_positive (st\<lparr>lobby_subscribers := ls\<rparr>)"
  "ids_positive st \<Longrightarrow> ids_positive (st\<lparr>pm_warned_pairs := pw\<rparr>)"
  "ids_positive st \<Longrightarrow> ids_positive (st\<lparr>matches := ms\<rparr>)"
  "ids_positive st \<Longrightarrow> ids_positive (st\<lparr>user_to_match := um\<rparr>)"
  "ids_positive st \<Longrightarrow> ids_positive (st\<lparr>next_match_id := nid\<rparr>)"
  "ids_positive st \<Longrightarrow> ids_positive (st\<lparr>match_start_times := mt\<rparr>)"
  "ids_positive st \<Longrightarrow> ids_positive (st\<lparr>match_last_scores := sc\<rparr>)"
  "ids_positive st \<Longrightarrow> ids_positive (st\<lparr>match_loaded_users := lu\<rparr>)"
  "ids_positive st \<Longrightarrow> ids_positive (st\<lparr>spectators := sp\<rparr>)"
  "ids_positive st \<Longrightarrow> ids_positive (st\<lparr>spectating_target := tg\<rparr>)"
  "ids_positive st \<Longrightarrow> ids_positive (add_to_channel n u st)"
  "ids_positive st \<Longrightarrow> ids_positive (leave_channels u st)"
  "ids_positive st \<Longrightarrow> ids_positive (snd (remove_user_from_match u st))"
  "ids_positive st \<Longrightarrow> ids_positive (snd (stop_spectating u st))"
  "ids_positive st \<Longrightarrow> ids_positive (snd (update_own_match edit u st))"
  by (simp_all add: ids_positive_def add_to_channel_def remove_user_frame stop_spectating_frame
      update_own_match_def split: option.split)

lemma ids_positive_tasks:
  "ids_positive s \<Longrightarrow> ids_positive (spawn x s)"
  "ids_positive s \<Longrightarrow> ids_positive (sync_match_to_multi_db env mid s)"
  "ids_positive s \<Longrightarrow> ids_positive (cleanup_disbanded_matches s)"
  by (simp_all add: ids_positive_def cleanup_eq)

lemmas ids_positive_steps = ids_positive_fields ids_positive_tasks ids_positive_modify
  to_user.ids_positive_run to_lobby.ids_positive_run to_match.ids_positive_run
  to_spectators.ids_positive_run to_channel.ids_positive_run to_channel_except.ids_positive_run
  to_all.ids_positive_run to_others.ids_positive_run sending.ids_positive_run
  left_news.ids_positive_run stopped_news.ids_positive_run to_token.ids_positive_run
  each_fellow.ids_positive_run each_send.ids_positive_run

lemma ids_positive_announce_result:
  "ids_positive s \<Longrightarrow> ids_positive (announce_result env msg s)"
  by (simp add: announce_result_def Let_def ids_positive_steps)

lemma ids_positive_finish: "ids_positive s \<Longrightarrow> ids_positive (finish_match env mid m s)"
  unfolding finish_match_def Let_def
  by (simp add: split_def) (intro conjI impI ids_positive_steps ids_positive_announce_result; assumption)

lemma ids_positive_try_finish: "ids_positive s \<Longrightarrow> ids_positive (try_finish_match env mid s)"
  using try_finish_cases[of env mid s] ids_positive_finish by fastforce

lemma ids_positive_leave: "ids_positive st \<Longrightarrow> ids_positive (leave_current u st)"
  by (simp add: leave_current_eq ids_positive_steps)

lemma ids_positive_stop: "ids_positive st \<Longrightarrow> ids_positive (stop_spectating_packet u st)"
  by (simp add: stop_spectating_packet_eq ids_positive_steps)

lemma ids_positive_release: "ids_positive st \<Longrightarrow> ids_positive (release_spectators u st)"
  by (simp add: release_spectators_eq ids_positive_steps split: option.split)

lemma ids_positive_announce_edit:
  "ids_positive s \<Longrightarrow> ids_positive (announce_edit env r s)"
  "ids_positive s \<Longrightarrow> ids_positive (announce_edit_in_match env r s)"
  by (auto simp: announce_edit_def announce_edit_in_match_def split: option.split
      intro!: ids_positive_steps)

lemma ids_positive_remove_session:
  assumes "ids_positive st"
  shows "ids_positive (snd (remove_session token st))"
proof (cases "hget (sessions st) token")
  case (Some s)
  have "ids_positive (st\<lparr>sessions := hdel token (sessions st), user_id_to_token := ut,
      lobby_subscribers := ls\<rparr>)" for ut ls
    using assms by (simp add: ids_positive_def)
  then show ?thesis
    by (simp add: remove_session_eq[OF Some] ids_positive_steps ids_positive_release
        ids_positive_stop ids_positive_leave)
qed (use assms in \<open>simp add: remove_session_absent\<close>)

lemmas ids_positive_more = ids_positive_steps ids_positive_try_finish ids_positive_leave
  ids_positive_stop ids_positive_release ids_positive_announce_edit ids_positive_remove_session

lemma ids_positive_own_match:
  "ids_positive s \<Longrightarrow> update_own_match edit u s = (r, s1) \<Longrightarrow> ids_positive s1"
  using ids_positive_fields(16)[of s edit u] by simp

lemma ids_positive_removed:
  "ids_positive s \<Longrightarrow> remove_user_from_match u s = (r, s1) \<Longrightarrow> ids_positive s1"
  using ids_positive_fields(14)[of s u] by simp

lemma ids_positive_edits:
  assumes "ids_positive s"
  shows "ids_positive (match_change_slot env u slot s)" "ids_positive (match_ready env u s)"
    "ids_positive (match_not_ready env u s)" "ids_positive (match_lock env u slot s)"
    "ids_positive (match_change_settings env u new s)" "ids_positive (match_change_mods env u mods s)"
    "ids_positive (match_no_beatmap env u s)" "ids_positive (match_has_beatmap env u s)"
  using assms ids_positive_fields(16)[OF assms]
  by (simp_all add: match_change_slot_def match_ready_def match_not_ready_def match_lock_def
      match_change_settings_def match_change_mods_def match_no_beatmap_def match_has_beatmap_def
      split_def Let_def ids_positive_announce_edit)

lemma ids_positive_play:
  assumes "ids_positive s"
  shows "ids_positive (match_change_team env u s)" "ids_positive (match_change_host env u slot s)"
    "ids_positive (match_start env u s)" "ids_positive (match_complete env u s)"
    "ids_positive (match_load_complete u s)" "ids_positive (match_score_update u payload frame s)"
    "ids_positive (announce_slot build u s)"
  subgoal using ids_positive_fields(16)[OF assms, of change_team u]
    unfolding match_change_team_def by (auto split: option.split prod.split intro!: ids_positive_more)
  subgoal using ids_positive_fields(16)[OF assms, of "change_host slot" u]
    unfolding match_change_host_def by (auto split: option.split prod.split intro!: ids_positive_more)
  subgoal using ids_positive_fields(16)[OF assms, of start_match u]
    unfolding match_start_def Let_def
    by (auto split: option.split prod.split intro!: ids_positive_more)
  subgoal using assms ids_positive_fields(16)[OF assms, of "set_own_status SLOT_COMPLETE" u]
    unfolding match_complete_def by (auto split: option.split intro!: ids_positive_more)
  subgoal using assms unfolding match_load_complete_def Let_def
    by (auto split: option.split intro!: ids_positive_more)
  subgoal using assms unfolding match_score_update_def relay_match_score_frame_def Let_def
    by (auto split: option.split io_res.split intro!: ids_positive_more)
  subgoal using assms unfolding announce_slot_def
    by (auto split: option.split intro!: ids_positive_more)
  done

lemma ids_positive_rooms:
  assumes "ids_positive s"
  shows "ids_positive (match_create env token u m s)"
    "ids_positive (match_join env token u mid pw s)" "ids_positive (match_part env u s)"
    "ids_positive (start_spectating token u target s)"
  subgoal using assms unfolding match_create_def Let_def by (intro ids_positive_more) simp_all
  subgoal using assms unfolding match_join_def Let_def
    by (auto split: option.split intro!: ids_positive_more)
  subgoal using ids_positive_fields(14)[OF assms, of u] unfolding match_part_def Let_def
    by (auto split: option.split prod.split intro!: ids_positive_more)
  subgoal using assms unfolding start_spectating_def Let_def
    by (auto split: option.split intro!: ids_positive_more)
  done

interpretation ids_hold: server_invariant ids_positive "\<lambda>_. True"
proof (unfold_locales, goal_cases)
  case 1 then show ?case by (rule ids_positive_quiet)
qed (simp_all add: ids_positive_edits ids_positive_play ids_positive_rooms ids_positive_more)

text \<open>Only creating a match hands out an id.\<close>

interpretation next_holds: server_invariant "\<lambda>s. next_match_id s = k" "\<lambda>_. False" for k
proof (unfold_locales, goal_cases)
  case (1 s s')
  then show ?case using delivery.run_fields(5)[OF delivery_of_queues_only[OF 1(1)], of s] by simp
qed (simp_all add: match_frames next_id_start_spectating next_id_remove_session)

subsection \<open>The other steps\<close>

locale whole_server = server_invariant +
  assumes added: "P s \<Longrightarrow> positive (ss_user_id x) \<Longrightarrow> get_session (ss_token x) s = None \<Longrightarrow>
    P (add_session x s)"
begin

lemma login_keeps:
  "P s \<Longrightarrow> P (login_evict uid s)"
  "P s \<Longrightarrow> positive (ss_user_id x) \<Longrightarrow> get_session (ss_token x) s = None \<Longrightarrow>
     P (snd (login_enter sv x s))"
proof -
  show "P s \<Longrightarrow> P (login_evict uid s)"
    by (auto simp: login_evict_def split: option.split intro: gone)
  assume p: "P s" and x: "positive (ss_user_id x)" "get_session (ss_token x) s = None"
  let ?s1 = "add_to_channel (lit ''#announce'') (ss_user_id x)
      (add_to_channel (lit ''#osu'') (ss_user_id x) s)"
  have s1: "P ?s1" using p by (simp add: add_to_channel_def channel_write)
  have gs: "get_session (ss_token x) (broadcast b (broadcast a ?s1)) = None" for a b
    using x(2) by (simp add: get_session_def broadcast_def add_to_channel_def)
  show "P (snd (login_enter sv x s))"
    unfolding login_enter_def Let_def split_def snd_conv
    by (rule added[OF _ x(1) gs]) (intro delivered s1)
qed

lemma poll_keeps:
  "P s \<Longrightarrow> P (poll_begin env header token s)" "P s \<Longrightarrow> P (snd (poll_end token s))"
  by (auto simp: poll_begin_def poll_end_def dequeue_all_packets_def Let_def
      split: option.split intro!: session_write)

lemma stats_update_keeps: "P s \<Longrightarrow> P (snd (internal_stats_update sv auth uid mode rx s))"
  by (auto simp: internal_stats_update_def Let_def split: option.split intro!: delivered)

lemma prune_keeps: "P s \<Longrightarrow> P (prune_sessions now s)"
proof -
  have "P (fold prune_one xs s)" if "P s" for xs s
    using that
  proof (induction xs arbitrary: s)
    case (Cons x xs)
    have "P (prune_one x s)"
      unfolding prune_one_def split_def by (rule delivered(1)) (rule gone[OF Cons.prems])
    then show ?case by (simp add: Cons.IH)
  qed simp
  then show "P s \<Longrightarrow> P (prune_sessions now s)"
    by (simp add: prune_sessions_def cleaned)
qed

lemma replay_keeps: "P s \<Longrightarrow> P (replay_history history token chan s)"
  by (auto simp: replay_history_def split: option.split intro!: session_write)

end

lemma add_session_fields [simp]:
  "spectators (add_session x st) = spectators st"
  "spectating_target (add_session x st) = spectating_target st"
  "matches (add_session x st) = matches st"
  "next_match_id (add_session x st) = next_match_id st"
  "user_to_match (add_session x st) = user_to_match st"
  "match_start_times (add_session x st) = match_start_times st"
  "match_last_scores (add_session x st) = match_last_scores st"
  "match_loaded_users (add_session x st) = match_loaded_users st"
  "pending_disbanded_matches (add_session x st) = pending_disbanded_matches st"
  by (simp_all add: add_session_def)

interpretation sessions_server: whole_server session_inv "\<lambda>_. True"
  by unfold_locales (simp add: session_inv_add get_session_def)

interpretation spectators_server: whole_server spec_inv "\<lambda>_. True"
  by unfold_locales (simp add: spec_inv_def)

interpretation ids_server: whole_server ids_positive "\<lambda>_. True"
  by unfold_locales (auto simp: ids_positive_def add_session_def)

interpretation rooms_server: whole_server rooms_ok "\<lambda>s. next_match_id s \<noteq> - 1"
proof unfold_locales
  fix s and x :: session
  assume "rooms_ok s"
  then show "rooms_ok (add_session x s)"
    unfolding rooms_ok_def fresh_ids_def known_ids_def
    by (auto elim: room_inv_cong[rotated -1])
qed

interpretation next_server: whole_server "\<lambda>s. next_match_id s = k" "\<lambda>_. False" for k
  by unfold_locales simp

subsection \<open>Reachable states\<close>

definition initial_sys :: "instant \<Rightarrow> (rstr \<times> rstr) list \<Rightarrow> sys" where
  "initial_sys now filter_rules =
     bancho_state.extend (new_bancho_state now filter_rules) (sys.fields [])"

text \<open>\<open>reachable n st\<close>: with at most \<open>n\<close> matches created so far.\<close>

inductive reachable :: "nat \<Rightarrow> sys \<Rightarrow> bool" where
  start: "reachable 0 (initial_sys now rules)"
| packet: "reachable n st \<Longrightarrow> positive uid \<Longrightarrow>
    reachable (if packet_id = OSU_MATCH_CREATE then Suc n else n)
      (snd (handle_packet sv env token uid packet_id payload st))"
| evict: "reachable n st \<Longrightarrow> reachable n (login_evict uid st)"
| enter: "reachable n st \<Longrightarrow> positive (ss_user_id s) \<Longrightarrow> get_session (ss_token s) st = None \<Longrightarrow>
    reachable n (snd (login_enter sv s st))"
| ping: "reachable n st \<Longrightarrow> reachable n (poll_begin env header token st)"
| drain: "reachable n st \<Longrightarrow> reachable n (snd (poll_end token st))"
| stats: "reachable n st \<Longrightarrow> reachable n (snd (internal_stats_update sv auth uid mode rx st))"
| prune: "reachable n st \<Longrightarrow> reachable n (prune_sessions now st)"
| replay: "reachable n st \<Longrightarrow> reachable n (replay_history history token chan st)"

lemma initial_fields [simp]:
  "sessions (initial_sys now rules) = []" "user_id_to_token (initial_sys now rules) = []"
  "matches (initial_sys now rules) = []" "next_match_id (initial_sys now rules) = 1"
  "user_to_match (initial_sys now rules) = []"
  "match_start_times (initial_sys now rules) = []"
  "match_last_scores (initial_sys now rules) = []"
  "match_loaded_users (initial_sys now rules) = []"
  "pending_disbanded_matches (initial_sys now rules) = []"
  "spectators (initial_sys now rules) = []" "spectating_target (initial_sys now rules) = []"
  "tasks (initial_sys now rules) = []" "lobby_subscribers (initial_sys now rules) = []"
  by (simp_all add: initial_sys_def new_bancho_state_def bancho_state.defs sys.defs)

context whole_server
begin

lemma reachable_keeps:
  assumes "reachable n st" and "\<And>now rules. P (initial_sys now rules)" and "\<And>s. can_create s"
  shows "P st"
  using assms(1)
  by induction (simp_all add: assms(2,3) handle_packet_keeps login_keeps poll_keeps
      stats_update_keeps prune_keeps replay_keeps)

end

lemma reachable_session_inv: "reachable n st \<Longrightarrow> session_inv st"
  by (rule sessions_server.reachable_keeps) (simp_all add: session_inv_def)

lemma reachable_spec_inv: "reachable n st \<Longrightarrow> spec_inv st"
  by (rule spectators_server.reachable_keeps) (simp_all add: spec_inv_def mirrored_def watchers_def)

lemma reachable_ids_positive: "reachable n st \<Longrightarrow> ids_positive st"
  by (rule ids_server.reachable_keeps) (simp_all add: ids_positive_def)

lemma packet_next_id:
  assumes "positive uid"
  shows "next_match_id (snd (handle_packet sv env token uid packet_id payload st)) =
      next_match_id st
    \<or> packet_id = OSU_MATCH_CREATE
      \<and> next_match_id (snd (handle_packet sv env token uid packet_id payload st)) =
          bump_match_id (next_match_id st)"
proof (cases "packet_id = OSU_MATCH_CREATE")
  case True
  then show ?thesis
    by (simp add: handle_packet_def on_parsed_def match_frames split: io_res.split)
next
  case False
  then show ?thesis using next_holds.handle_packet_keeps[of st "next_match_id st" uid] assms by simp
qed

lemma initial_rooms_ok: "rooms_ok (initial_sys now rules)"
  by (simp add: rooms_ok_def room_inv_def fresh_ids_def known_ids_def)

lemma reachable_rooms_ok:
  assumes "reachable n st" and "n < 65535"
  shows "rooms_ok st \<and> unat (next_match_id st) \<le> Suc n"
  using assms
proof induction
  case (packet n st uid packet_id sv env token payload)
  let ?st' = "snd (handle_packet sv env token uid packet_id payload st)"
  have IH: "rooms_ok st" "unat (next_match_id st) \<le> Suc n"
    using packet.IH packet.prems by (auto split: if_splits)
  have "unat (- 1 :: u16) = 65535" by (simp add: unsigned_minus_1_eq_mask mask_eq_exp_minus_1)
  then have ready: "packet_id = OSU_MATCH_CREATE \<Longrightarrow> next_match_id st \<noteq> - 1"
    using IH(2) packet.prems by auto
  have "rooms_ok ?st'" by (rule rooms_hold.handle_packet_keeps[OF IH(1) packet.hyps(2) ready])
  moreover have "unat (next_match_id ?st') \<le> Suc (if packet_id = OSU_MATCH_CREATE then Suc n else n)"
    using packet_next_id[OF packet.hyps(2), of sv env token packet_id payload st] IH(2) ready
      bump_match_id[of "next_match_id st"] by auto
  ultimately show ?case by blast
next
  case (evict n st uid)
  then show ?case
    using rooms_server.login_keeps(1) next_server.login_keeps(1)[of st "next_match_id st" uid] by auto
next
  case (enter n st s sv)
  then show ?case
    using rooms_server.login_keeps(2) next_server.login_keeps(2)[of st "next_match_id st" s sv] by auto
next
  case (ping n st env header token)
  then show ?case
    using rooms_server.poll_keeps(1) next_server.poll_keeps(1)[of st "next_match_id st" env header token]
    by auto
next
  case (drain n st token)
  then show ?case
    using rooms_server.poll_keeps(2) next_server.poll_keeps(2)[of st "next_match_id st" token] by auto
next
  case (stats n st sv auth uid mode rx)
  then show ?case
    using rooms_server.stats_update_keeps
      next_server.stats_update_keeps[of st "next_match_id st" sv auth uid mode rx] by auto
next
  case (prune n st now)
  then show ?case
    using rooms_server.prune_keeps next_server.prune_keeps[of st "next_match_id st" now] by auto
next
  case (replay n st history token chan)
  then show ?case
    using rooms_server.replay_keeps
      next_server.replay_keeps[of st "next_match_id st" history token chan] by auto
qed (simp add: initial_rooms_ok)

subsection \<open>A request is a sequence of steps\<close>

lemma reachable_client_packets:
  "reachable n st \<Longrightarrow> \<exists>m \<le> n + length data div 7.
     reachable m (snd (handle_client_packets sv envs token i data st))"
proof (induction sv envs token i data st arbitrary: n rule: handle_client_packets.induct)
  case (1 sv envs token i data st)
  note loop = handle_client_packets.simps[of sv envs token i data]
  show ?case
  proof (cases "next_packet data")
    case None
    then show ?thesis using 1(2) by (auto simp: loop intro!: exI[of _ n])
  next
    case (Some a)
    note np = \<open>next_packet data = Some a\<close>
    obtain packet_id payload rest where a: "a = (packet_id, payload, rest)" by (cases a)
    have len: "7 + length rest \<le> length data" using next_packet_split np a by fastforce
    show ?thesis
    proof (cases "get_session token st")
      case None
      then show ?thesis using 1(2) np a by (auto simp: loop intro!: exI[of _ n])
    next
      case (Some s)
      have pos: "positive (ss_user_id s)"
        using reachable_ids_positive[OF 1(2)] Some by (auto simp: ids_positive_def get_session_def)
      obtain fl st1 where h: "handle_packet sv (envs i) token (ss_user_id s) packet_id payload st = (fl, st1)"
        by fastforce
      then obtain m where m: "reachable m st1" "m \<le> Suc n"
        using reachable.packet[OF 1(2) pos, of packet_id sv "envs i" token payload]
        by (auto split: if_splits)
      show ?thesis
      proof (cases fl)
        case Go
        obtain k where "k \<le> m + length rest div 7"
          "reachable k (snd (handle_client_packets sv envs token (Suc i) rest st1))"
          using 1(1)[OF np a[symmetric] refl Some h[symmetric] Go m(1)] by blast
        then show ?thesis
          using m(2) len h Go Some a np by (intro exI[of _ k]) (auto simp: loop)
      qed (use m len h Some a np in \<open>auto simp: loop intro!: exI[of _ m]\<close>)
    qed
  qed
qed

end
