(* ===== verification/Samples.thy ===== *)
theory Samples
  imports Server
begin

text \<open>
  Concrete data for the examples: two players, \<open>ann\<close> (5) and \<open>bob\<close> (6), in room 1 that
  \<open>ann\<close> hosts, and a third user, \<open>cat\<close> (7), who watches \<open>ann\<close>.
\<close>

definition sample_env :: env where
  "sample_env = \<lparr>e_now = 0, e_utc = 0, e_bot_name = lit ''Bot'', e_bot_id = 1, e_history_limit = 25\<rparr>"

definition sample_services :: services where
  "sample_services = \<lparr>sv_user_by_username = (\<lambda>_. None), sv_stats = (\<lambda>_ _. None), sv_rank = (\<lambda>_ _. None),
     sv_recent_scores = (\<lambda>_ _. None), sv_channel_history = (\<lambda>_ _. None),
     sv_direct_messages = (\<lambda>_ _ _. None), sv_str_lower = map ascii_lower,
     sv_char_lower = (\<lambda>c. [ascii_lower c]), sv_roll = (\<lambda>n. n)\<rparr>"

definition seated :: "i32 \<Rightarrow> u8 \<Rightarrow> match_slot" where
  "seated u status = \<lparr>sl_status = status, sl_team = TEAM_NEUTRAL, sl_user_id = u, sl_mods = 0\<rparr>"

definition sample_room :: "u8 \<Rightarrow> bool \<Rightarrow> bmatch" where
  "sample_room status running = \<lparr>m_id = 1, m_in_progress = running, m_match_type = 0, m_active_mods = 0,
     m_name = lit ''room'', m_password = Some (lit ''pw''), m_beatmap_name = lit ''map'',
     m_beatmap_id = 9, m_beatmap_md5 = lit ''abc'',
     m_slots = [seated 5 status, seated 6 status] @ replicate 14 default_slot, m_host_id = 5,
     m_play_mode = 0, m_scoring_type = 0, m_team_type = 0, m_freemod = False, m_seed = 0\<rparr>"

definition sample_session :: "string \<Rightarrow> i32 \<Rightarrow> session" where
  "sample_session name u = new_session (lit name) u (lit name) 24 0 1 0"

text \<open>The room waits or plays, depending on \<open>running\<close>.\<close>

definition sample_state :: "u8 \<Rightarrow> bool \<Rightarrow> sys" where
  "sample_state status running = (initial_sys 0 [])
     \<lparr>sessions := [(lit ''ann'', sample_session ''ann'' 5), (lit ''bob'', sample_session ''bob'' 6),
                   (lit ''cat'', sample_session ''cat'' 7)],
      user_id_to_token := [(5, lit ''ann''), (6, lit ''bob''), (7, lit ''cat'')],
      matches := [(1, sample_room status running)], next_match_id := 2,
      user_to_match := [(5, 1), (6, 1)],
      match_start_times := (if running then [(1, 0)] else []),
      match_last_scores := (if running then [(1, [])] else []),
      spectators := [(5, [7])], spectating_target := [(7, 5)]\<rparr>"

lemma lit_inject [simp]: "lit s = lit t \<longleftrightarrow> s = t"
proof -
  have "inj (of_char :: char \<Rightarrow> int)" by (simp add: inj_def)
  then show ?thesis by (simp add: lit_def inj_map_eq_map)
qed

lemma seats_empty [simp]: "seats (replicate n default_slot) = []"
  by (induction n) simp_all

lemma positive_5_6 [simp]: "positive (5 :: i32)" "positive (6 :: i32)" "positive (7 :: i32)"
  by (simp_all add: Prelude.positive_def)

lemma sample_slots:
  "status \<in> {SLOT_NOT_READY, SLOT_READY, SLOT_NO_MAP, SLOT_PLAYING, SLOT_COMPLETE} \<Longrightarrow>
     occupied (seated 5 status) \<and> occupied (seated 6 status) \<and> slot_ok (seated 5 status)
     \<and> slot_ok (seated 6 status)"
  by (auto simp: occupied_def seated_def slot_ok_def)

lemma sample_players:
  "status \<in> {SLOT_NOT_READY, SLOT_READY, SLOT_NO_MAP, SLOT_PLAYING, SLOT_COMPLETE} \<Longrightarrow>
     players (sample_room status running) = [5, 6]"
  using sample_slots[of status] by (simp add: players_seats sample_room_def) (simp add: seated_def)

lemma sample_match_ok:
  assumes "status \<in> {SLOT_NOT_READY, SLOT_READY, SLOT_NO_MAP, SLOT_PLAYING, SLOT_COMPLETE}"
  shows "match_ok (sample_room status running)"
  using sample_slots[OF assms] sample_players[OF assms, of running]
  by (simp add: match_ok_def list_all_iff) (simp add: sample_room_def)

lemma sample_fields [simp]:
  "hget (matches (sample_state status running)) mid =
     (if mid = 1 then Some (sample_room status running) else None)"
  "hget (user_to_match (sample_state status running)) u = (if u = 5 \<or> u = 6 then Some 1 else None)"
  "m_id (sample_room status running) = 1" "m_in_progress (sample_room status running) = running"
  "m_host_id (sample_room status running) = 5"
  "hget (match_start_times (sample_state status running)) mid =
     (if running \<and> mid = 1 then Some 0 else None)"
  "hget (match_last_scores (sample_state status running)) mid =
     (if running \<and> mid = 1 then Some [] else None)"
  "hget (match_loaded_users (sample_state status running)) mid = None"
  "pending_disbanded_matches (sample_state status running) = []"
  "hget (spectators (sample_state status running)) v = (if v = 5 then Some [7] else None)"
  "hget (spectating_target (sample_state status running)) v = (if v = 7 then Some 5 else None)"
  "hget (user_id_to_token (sample_state status running)) v =
     (if v = 5 then Some (lit ''ann'') else if v = 6 then Some (lit ''bob'')
      else if v = 7 then Some (lit ''cat'') else None)"
  "hget (sessions (sample_state status running)) token =
     (if token = lit ''ann'' then Some (sample_session ''ann'' 5)
      else if token = lit ''bob'' then Some (sample_session ''bob'' 6)
      else if token = lit ''cat'' then Some (sample_session ''cat'' 7) else None)"
  "next_match_id (sample_state status running) = 2"
  "lobby_subscribers (sample_state status running) = []"
  by (auto simp: sample_state_def sample_room_def)

lemma sample_inboxes [simp]:
  "inbox u (sample_state status running) = []"
  "online u (sample_state status running) \<longleftrightarrow> u \<in> {5, 6, 7}"
  by (simp_all add: inbox_def online_def get_session_by_user_id_def sample_session_def
      new_session_def)

lemma sample_room_inv:
  assumes "status \<in> {SLOT_NOT_READY, SLOT_READY, SLOT_NO_MAP, SLOT_PLAYING, SLOT_COMPLETE}"
  shows "room_inv (sample_state status running)"
  by (rule room_invI)
    (use sample_match_ok[OF assms] sample_players[OF assms] in \<open>auto split: if_splits\<close>)

lemma sample_session_inv: "session_inv (sample_state status running)"
  by (rule session_invI) (auto simp: sample_session_def new_session_def split: if_splits)

lemma sample_spec_inv: "spec_inv (sample_state status running)"
  by (auto simp: spec_inv_def mirrored_def watchers_def)

lemma lit_Nil [simp]: "lit s = [] \<longleftrightarrow> s = []"
  by (simp add: lit_def)

lemma utf8_encode_length: "length (utf8_encode s) \<le> 4 * length s"
proof (induction s)
  case (Cons c s)
  have "length (utf8_char c) \<le> 4" by (simp add: utf8_char_def)
  then show ?case using Cons.IH by (simp add: utf8_encode_def)
qed (simp add: utf8_encode_def)

lemma sendable_lit:
  assumes "list_all (\<lambda>c. of_char c < (128 :: int)) s" and "length s < 1000"
  shows "sendable (lit s)"
proof -
  have nonneg: "0 \<le> (of_char c :: int)" for c
    by (metis of_nat_of_char of_nat_0_le_iff)
  then have "valid_str (lit s)"
    using assms(1) by (auto simp: valid_str_def lit_def is_scalar_def is_surrogate_def list_all_iff)
  moreover have "length (utf8_encode (lit s)) \<le> isize_max"
    using utf8_encode_length[of "lit s"] assms(2) by (simp add: lit_def isize_max_def)
  ultimately show ?thesis by (simp add: sendable_def)
qed

text \<open>What \<open>ann\<close> sent to create the room, and the state after that.\<close>

definition requested_room :: bmatch where
  "requested_room = sample_room SLOT_NOT_READY False"

lemma requested_sendable: "sendable_match requested_room"
  unfolding requested_room_def sample_room_def sendable_match_def
  by (simp add: sendable_lit sendable_slot_def seated_def) (simp add: default_slot_def seated_def)

definition lonely_state :: sys where
  "lonely_state = match_create sample_env (lit ''ann'') 5 requested_room (initial_sys 0 [])"

lemma lonely_reachable: "reachable 1 lonely_state"
proof -
  have "snd (handle_packet sample_services sample_env (lit ''ann'') 5 OSU_MATCH_CREATE
      (match_payload requested_room True) (initial_sys 0 [])) = lonely_state"
    using parse_match_payload[OF requested_sendable, of "[]"]
    by (simp add: handle_packet_def on_parsed_def lonely_state_def)
  then show ?thesis
    using reachable.packet[OF reachable.start, of 5 OSU_MATCH_CREATE sample_services sample_env
      "lit ''ann''" "match_payload requested_room True" 0 "[]"] by simp
qed

lemma lonely_fields [simp]:
  "matches lonely_state = [(1, created_match 1 5 requested_room)]"
  "hget (user_to_match lonely_state) 5 = Some 1"
  by (simp_all add: lonely_state_def match_create_def Let_def leave_current_def
      remove_user_absent announce_left_def hput_def add_to_channel_def cleanup_eq)

definition sample_frame :: match_score_frame where
  "sample_frame = \<lparr>fr_time = 0, fr_slot_id = 0, fr_total_300 = 1, fr_total_100 = 0, fr_total_50 = 0,
     fr_total_geki = 0, fr_total_katu = 0, fr_total_miss = 0, fr_total_score = 300,
     fr_max_combo = 1, fr_current_combo = 1, fr_perfect = True, fr_hp = 200,
     fr_tag = 0, fr_score_v2 = False, fr_combo_portion = 0, fr_bonus_portion = 0\<rparr>"

lemma lonely_sessions [simp]: "sessions lonely_state = []"
proof -
  have "hkeys (sessions lonely_state) = []"
    by (simp add: lonely_state_def match_create_def Let_def leave_current_def
        remove_user_absent announce_left_def add_to_channel_def cleanup_eq)
  then show ?thesis by simp
qed

text \<open>The room's creator, now with a session.\<close>

definition ann_online :: sys where
  "ann_online = snd (login_enter sample_services (sample_session ''ann'' 5) lonely_state)"

lemma ann_online:
  "reachable 1 ann_online" "hget (user_id_to_token ann_online) 5 = Some (lit ''ann'')"
proof -
  have "get_session (lit ''ann'') lonely_state = None"
    by (simp add: get_session_def)
  then show "reachable 1 ann_online"
    unfolding ann_online_def
    by (intro reachable.enter[OF lonely_reachable]) (simp_all add: sample_session_def new_session_def)
  show "hget (user_id_to_token ann_online) 5 = Some (lit ''ann'')"
    by (simp add: ann_online_def login_enter_def Let_def split_def add_session_def sample_session_def
        new_session_def)
qed

end
