(* ===== verification/Room_Properties.thy ===== *)
theory Room_Properties
  imports Samples
begin

text \<open>
  What the multiplayer rooms guarantee: consistent tables in every reachable state, who may
  join and change a room, what leaving does to it, and who receives its packets.
\<close>

subsection \<open>Consistent rooms\<close>

text \<open>C1: In every state the server reaches with fewer than 65535 matches created, an open
  match is stored under its own id, has 16 slots and distinct players, one of whom is its
  host; the users whose entry in \<^verbatim>\<open>user_to_match\<close> names it are exactly its players; it has
  a start time exactly while it is in progress; and it does not wait to be deleted from the
  live-room database.\<close>

theorem reachable_rooms_consistent:
  assumes "reachable n st" and "n < 65535" and "hget (matches st) mid = Some m"
  shows "m_id m = mid \<and> length (m_slots m) = 16 \<and> distinct (players m)
    \<and> m_host_id m \<in> set (players m)
    \<and> set (players m) = {u. hget (user_to_match st) u = Some mid}
    \<and> (m_in_progress m \<longleftrightarrow> hget (match_start_times st) mid \<noteq> None)
    \<and> mid \<notin> set (pending_disbanded_matches st)"
proof -
  have inv: "room_inv st" using reachable_rooms_ok[OF assms(1,2)] by (simp add: rooms_ok_def)
  show ?thesis
    using room_inv_match[OF inv assms(3)] room_inv_seat[OF inv assms(3)] room_inv_pending[OF inv, of mid]
      assms(3)
    by (auto simp: match_ok_def)
qed

theorem reachable_rooms_consistent_witness:
  "distinct (players (created_match 1 5 requested_room))
   \<and> set (players (created_match 1 5 requested_room)) = {u. hget (user_to_match lonely_state) u = Some 1}"
  using reachable_rooms_consistent[OF lonely_reachable, of 1 "created_match 1 5 requested_room"]
  by simp

subsection \<open>Joining\<close>

text \<open>C6: A join with a wrong password, or of a room that does not exist or has no open slot,
  changes nothing but the requester's queue, which gets the failure packet.\<close>

theorem match_join_refused:
  assumes "case hget (matches st) (ucast mid) of
      None \<Rightarrow> True
    | Some m \<Rightarrow> (\<exists>p. m_password m = Some p \<and> p \<noteq> [] \<and> p \<noteq> password)
        \<or> (\<forall>s \<in> set (m_slots m). sl_status s \<noteq> SLOT_OPEN)"
  shows "match_join env token uid mid password st =
    modify_session token (enqueue_packet build_match_join_fail) st"
proof -
  have "\<not> can_join (hget (matches st) (ucast mid)) password"
    using assms by (auto simp: can_join_def list_ex_iff split: option.splits)
  then show ?thesis by (simp add: match_join_def)
qed

theorem match_join_refused_witness:
  "match_join sample_env (lit ''cat'') 7 1 (lit ''wrong'') (sample_state SLOT_READY False) =
     modify_session (lit ''cat'') (enqueue_packet build_match_join_fail) (sample_state SLOT_READY False)"
  by (rule match_join_refused) (simp add: sample_room_def)

text \<open>A user in no match who may join gets the first open slot, not ready, without team
  or mods; every other slot, the host and the settings stay, and the room stays consistent.\<close>

theorem match_join_seats_player:
  assumes "room_inv st" and "positive uid" and "hget (user_to_match st) uid = None"
    and "hget (matches st) (ucast mid) = Some m"
    and "m_password m = None \<or> m_password m = Some [] \<or> m_password m = Some password"
    and "i < 16" and "sl_status (m_slots m ! i) = SLOT_OPEN"
    and "\<forall>j < i. sl_status (m_slots m ! j) \<noteq> SLOT_OPEN"
  shows "hget (matches (match_join env token uid mid password st)) (ucast mid) =
      Some (m\<lparr>m_slots := (m_slots m)[i := \<lparr>sl_status = SLOT_NOT_READY, sl_team = TEAM_NEUTRAL,
        sl_user_id = uid, sl_mods = 0\<rparr>]\<rparr>)
    \<and> hget (user_to_match (match_join env token uid mid password st)) uid = Some (ucast mid)
    \<and> room_inv (match_join env token uid mid password st)"
proof -
  have first: "update_first p f ss = ss[i := f (ss ! i)]"
    if "i < length ss" "p (ss ! i)" "\<forall>j < i. \<not> p (ss ! j)" for p f i and ss :: "match_slot list"
    using that
  proof (induction ss arbitrary: i)
    case (Cons s ss)
    show ?case
    proof (cases i)
      case (Suc k)
      then have "\<not> p s" "\<forall>j < k. \<not> p (ss ! j)" using Cons.prems(3) by force+
      then show ?thesis using Cons Suc by simp
    qed (use Cons.prems in simp)
  qed simp
  have len: "length (m_slots m) = 16"
    using room_inv_match(2)[OF assms(1,4)] by (simp add: match_ok_def)
  have op: "list_ex (\<lambda>s. sl_status s = SLOT_OPEN) (m_slots m)"
    using assms(6,7) len nth_mem[of i "m_slots m"] by (auto simp: list_ex_iff)
  have can: "can_join (Some m) password"
    using assms(5) op by (auto simp: can_join_def split: option.splits)
  have leave: "leave_current uid st = st"
    by (simp add: leave_current_def remove_user_absent[OF assms(3)] announce_left_def)
  let ?s = "m_slots m ! i"
  have seat: "seat_player uid m = m\<lparr>m_slots := (m_slots m)[i := \<lparr>sl_status = SLOT_NOT_READY,
      sl_team = TEAM_NEUTRAL, sl_user_id = uid, sl_mods = 0\<rparr>]\<rparr>"
    using first[of i "m_slots m" "\<lambda>s. sl_status s = SLOT_OPEN"] assms(6-8) len
    by (cases "?s") (simp add: seat_player_def)
  show ?thesis
    using room_inv_match_join[OF assms(1,2), of env token mid password] can
    by (simp add: match_join_def Let_def assms(4) leave seat add_to_channel_def cleanup_eq)
qed

theorem match_join_seats_player_witness:
  "hget (user_to_match (match_join sample_env (lit ''cat'') 7 1 (lit ''pw'')
      (sample_state SLOT_READY False))) 7 = Some 1"
  using match_join_seats_player[OF sample_room_inv, of SLOT_READY 7 False 1
      "sample_room SLOT_READY False" "lit ''pw''" 2 sample_env "lit ''cat''"]
  by (simp add: sample_room_def seated_def less_2_cases_iff)

subsection \<open>Leaving\<close>

text \<open>C7: Leaving a match frees exactly the user's slot.  The last player's leaving closes the
  match, with all its tables, and queues it for deletion; otherwise the match stays, and a
  host who leaves hands over to the first remaining player.  No other match or user is
  affected.\<close>

theorem leaving_hands_over_or_closes:
  assumes "room_inv st" and "hget (user_to_match st) u = Some mid"
    and "hget (matches st) mid = Some m"
  shows "let st' = snd (remove_user_from_match u st) in hget (user_to_match st') u = None
    \<and> (players m = [u] \<longrightarrow> hget (matches st') mid = None
        \<and> hget (match_start_times st') mid = None \<and> hget (match_last_scores st') mid = None
        \<and> hget (match_loaded_users st') mid = None \<and> mid \<in> set (pending_disbanded_matches st'))
    \<and> (players m \<noteq> [u] \<longrightarrow> (\<exists>m'. hget (matches st') mid = Some m'
        \<and> players m' = remove1 u (players m)
        \<and> m_host_id m' = (if m_host_id m = u then hd (remove1 u (players m)) else m_host_id m)
        \<and> (\<forall>i < 16. m_slots m' ! i =
             (if sl_user_id (m_slots m ! i) = u then default_slot else m_slots m ! i))))
    \<and> (\<forall>v. v \<noteq> u \<longrightarrow> hget (user_to_match st') v = hget (user_to_match st) v)
    \<and> (\<forall>k. k \<noteq> mid \<longrightarrow> hget (matches st') k = hget (matches st) k)"
proof -
  define st' where "st' = snd (remove_user_from_match u st)"
  have ok: "match_ok m" by (rule room_inv_match[OF assms(1,3)])
  have pl: "u \<in> set (players m)" using room_inv_seat[OF assms(1,3), of u] assms(2) by simp
  have slots: "m_slots (leave_match u m) ! i =
      (if sl_user_id (m_slots m ! i) = u then default_slot else m_slots m ! i)" if "i < 16" for i
    using that match_ok_players_positive[OF pl]
    by (simp add: leave_match_def Let_def vacate_slots[OF ok])
  have "players (vacate_slot u m) \<noteq> []" if "players m \<noteq> [u]"
    using that pl by (cases "players m") (auto simp: players_vacate[OF ok])
  note stays = leave_match_ok[OF ok this]
  have host: "m_host_id (leave_match u m) =
      (if m_host_id m = u then hd (remove1 u (players m)) else m_host_id m)"
    using players_vacate[OF ok, of u] by (simp add: leave_match_def Let_def vacate_slot_def)
  obtain m0 where "hget (matches st) mid = Some m0" and
    r: "snd (remove_user_from_match u st) = (if players m0 = [u] then
          st\<lparr>user_to_match := hdel u (user_to_match st), matches := hdel mid (matches st),
             match_start_times := hdel mid (match_start_times st),
             match_last_scores := hdel mid (match_last_scores st),
             match_loaded_users := hdel mid (match_loaded_users st),
             pending_disbanded_matches := pending_disbanded_matches st @ [mid]\<rparr>
       else st\<lparr>user_to_match := hdel u (user_to_match st),
             matches := hput mid (leave_match u m0) (matches st)\<rparr>)"
    by (rule remove_user_present[OF assms(1,2)]) simp
  then have "st' = (if players m = [u] then
          st\<lparr>user_to_match := hdel u (user_to_match st), matches := hdel mid (matches st),
             match_start_times := hdel mid (match_start_times st),
             match_last_scores := hdel mid (match_last_scores st),
             match_loaded_users := hdel mid (match_loaded_users st),
             pending_disbanded_matches := pending_disbanded_matches st @ [mid]\<rparr>
       else st\<lparr>user_to_match := hdel u (user_to_match st),
             matches := hput mid (leave_match u m) (matches st)\<rparr>)"
    using assms(3) by (simp add: st'_def)
  then show ?thesis using slots stays host by (simp add: st'_def[symmetric])
qed

theorem leaving_hands_over_or_closes_witness:
  "\<exists>m'. hget (matches (snd (remove_user_from_match 5 (sample_state SLOT_READY False)))) 1 = Some m'
     \<and> m_host_id m' = 6"
  using leaving_hands_over_or_closes[OF sample_room_inv[of SLOT_READY False], of 5 1
      "sample_room SLOT_READY False"] by (auto simp: sample_players Let_def)

subsection \<open>Changing a room\<close>

text \<open>C8: A player who is not the host cannot lock slots, change the settings, name a new
  host or start the match, and without free mods cannot change the mods: the whole server
  state stays as it was.\<close>

theorem only_the_host_configures:
  assumes "hget (user_to_match st) u = Some mid" and "hget (matches st) mid = Some m"
    and "m_host_id m \<noteq> u"
  shows "match_lock env u slot st = st \<and> match_change_settings env u new st = st
    \<and> match_change_host env u slot st = st \<and> match_start env u st = st
    \<and> (\<not> m_freemod m \<longrightarrow> match_change_mods env u mods st = st)"
  using assms
  by (simp add: match_lock_def match_change_settings_def match_change_host_def match_start_def
      match_change_mods_def update_own_match_def lock_slot_def change_settings_def
      change_host_def start_match_def change_mods_def announce_edit_def
      announce_edit_in_match_def)

theorem only_the_host_configures_witness:
  "match_start sample_env 6 (sample_state SLOT_READY False) = sample_state SLOT_READY False"
  using only_the_host_configures[of "sample_state SLOT_READY False" 6 1
      "sample_room SLOT_READY False" sample_env] by simp

text \<open>The host's start sets every waiting player to playing and leaves the players
  without the map and the seats alone; it starts the clock and clears the scores and the
  list of loaded players.\<close>

theorem match_start_starts:
  assumes "room_inv st" and "hget (user_to_match st) u = Some mid"
    and "hget (matches st) mid = Some m" and "m_host_id m = u"
  shows "let st' = match_start env u st in (\<exists>m'. hget (matches st') mid = Some m' \<and> m_in_progress m' \<and> players m' = players m
      \<and> (\<forall>i < 16. sl_status (m_slots m' ! i) =
           (if sl_status (m_slots m ! i) \<in> {SLOT_READY, SLOT_NOT_READY} then SLOT_PLAYING
            else sl_status (m_slots m ! i))))
    \<and> hget (match_start_times st') mid = Some (e_now env)
    \<and> hget (match_last_scores st') mid = Some [] \<and> hget (match_loaded_users st') mid = Some []
    \<and> room_inv st'"
proof -
  have ok: "match_ok m" by (rule room_inv_match[OF assms(1,3)])
  let ?m = "m\<lparr>m_in_progress := True, m_slots := map start_slot (m_slots m)\<rparr>"
  have ed: "start_match u m = Some ?m" using assms(4) by (simp add: start_match_def)
  have st: "sl_status (start_slot s) =
      (if sl_status s \<in> {SLOT_READY, SLOT_NOT_READY} then SLOT_PLAYING else sl_status s)"
    if "slot_ok s" for s
    using that by (auto simp: start_slot_def slot_ok_def split: if_splits)
  have pl: "players ?m = players m"
    using match_ok_same_seats[OF ok, of ?m] ok start_slot_ok
    by (auto simp: match_ok_def intro!: same_seats_map)
  show ?thesis
    using ok pl assms(2,3) ed room_inv_match_start[OF assms(1), of env u]
    by (auto simp: match_start_def update_own_match_def Let_def match_ok_def
        list_all_length st)
qed

theorem match_start_starts_witness:
  "hget (match_start_times (match_start sample_env 5 (sample_state SLOT_READY False))) 1 = Some 0"
  using match_start_starts[OF sample_room_inv[of SLOT_READY False], of 5 1
      "sample_room SLOT_READY False" sample_env] by (simp add: sample_env_def Let_def)

subsection \<open>Who receives what\<close>

text \<open>C5: A packet for a match is appended exactly once to the queue of every player of the
  match who is online, except the excluded one, and to no other queue.\<close>

theorem broadcast_to_match_exactly_once:
  assumes "session_inv st" and "room_inv st"
  shows "inbox u (broadcast_to_match mid packet except st) = inbox u st
    @ (if online u st \<and> hget (user_to_match st) u = Some mid \<and> Some u \<noteq> except
       then packet else [])"
proof (cases "hget (matches st) mid")
  case None
  then show ?thesis
    using room_inv_user[OF assms(2), of u mid] by (simp add: broadcast_to_match_def)
next
  case (Some m)
  then show ?thesis
    using room_inv_seat[OF assms(2) Some, of u]
    by (simp add: inbox_to_match[OF assms(1) room_inv_match(2)[OF assms(2) Some] Some])
qed

theorem broadcast_to_match_exactly_once_witness:
  "inbox 6 (broadcast_to_match 1 [1, 2] (Some 5) (sample_state SLOT_READY False)) = [1, 2]
   \<and> inbox 5 (broadcast_to_match 1 [1, 2] (Some 5) (sample_state SLOT_READY False)) = []
   \<and> inbox 7 (broadcast_to_match 1 [1, 2] (Some 5) (sample_state SLOT_READY False)) = []"
  using broadcast_to_match_exactly_once[OF sample_session_inv[of SLOT_READY False]
      sample_room_inv[of SLOT_READY False], where mid = 1 and packet = "[1, 2]" and except = "Some 5"]
  by simp

text \<open>C11: A match's password is sent to the players it admits only: the packets that announce a
  match, its changes and its start, and what a user who enters the lobby receives, do not
  depend on the text of any password, only on whether there is one.\<close>

theorem passwords_stay_secret:
  assumes "list_all2 (\<lambda>(k, m) (k', m'). k' = k
      \<and> (\<exists>p. m' = m\<lparr>m_password := p\<rparr> \<and> (p = None \<longleftrightarrow> m_password m = None))) (matches st) ms'"
  shows "sessions (lobby_join token uid (st\<lparr>matches := ms'\<rparr>)) = sessions (lobby_join token uid st)
    \<and> list_all2 (\<lambda>(k, m) (k', m'). build_match_new m' = build_match_new m
        \<and> build_match_update m' = build_match_update m
        \<and> build_match_start m' = build_match_start m) (matches st) ms'"
proof -
  have hide: "build_match_packet i (m\<lparr>m_password := p\<rparr>) False = build_match_packet i m False"
    if "p = None \<longleftrightarrow> m_password m = None" for i m p
    using that by (simp add: build_match_packet_def match_payload_def match_password_text_def)
  have "list_all2 (\<lambda>(k, m) (k', m'). build_match_new m' = build_match_new m
        \<and> build_match_update m' = build_match_update m
        \<and> build_match_start m' = build_match_start m) (matches st) ms'"
    using assms
    by (rule list_all2_mono)
      (auto simp: build_match_new_def build_match_update_def build_match_start_def hide)
  moreover from this have "map (build_match_new \<circ> snd) ms' = map (build_match_new \<circ> snd) (matches st)"
    by (induction rule: list_all2_induct) auto
  ultimately show ?thesis by (simp add: lobby_join_def Let_def modify_session_def)
qed

theorem passwords_stay_secret_witness:
  "sessions (lobby_join (lit ''cat'') 7 ((sample_state SLOT_READY False)\<lparr>matches :=
       [(1, (sample_room SLOT_READY False)\<lparr>m_password := Some (lit ''other'')\<rparr>)]\<rparr>)) =
     sessions (lobby_join (lit ''cat'') 7 (sample_state SLOT_READY False))"
proof (rule conjunct1[OF passwords_stay_secret])
  have "m_password (sample_room SLOT_READY False) \<noteq> None" by (simp add: sample_room_def)
  then show "list_all2 (\<lambda>(k, m) (k', m'). k' = k
      \<and> (\<exists>p. m' = m\<lparr>m_password := p\<rparr> \<and> (p = None \<longleftrightarrow> m_password m = None)))
      (matches (sample_state SLOT_READY False))
      [(1, (sample_room SLOT_READY False)\<lparr>m_password := Some (lit ''other'')\<rparr>)]"
    by (auto simp: sample_state_def)
qed

end
