(* ===== verification/Result_Properties.thy ===== *)
theory Result_Properties
  imports Samples
begin

text \<open>
  What a played match guarantees: relayed scores carry the seat the server knows, the best
  score wins, team totals cannot overflow, a finished match is ready for the next one.
\<close>

subsection \<open>While a match is played\<close>

text \<open>C3: A score frame is relayed with the sender's real slot number in place of the one in
  the frame and is otherwise unchanged; every player of the match who is online gets it
  exactly once, and it is remembered as the sender's last score.\<close>

theorem score_relay_is_authoritative:
  assumes "session_inv st" and "room_inv st" and "positive u"
    and "hget (user_to_match st) u = Some mid" and "hget (matches st) mid = Some m"
    and "i < 16" and "sl_user_id (m_slots m ! i) = u" and "4 < length payload"
  shows "let st' = match_score_update u payload frame st in
    (\<forall>v. inbox v st' = inbox v st
       @ (if online v st \<and> hget (user_to_match st) v = Some mid
          then build_packet CHO_MATCH_SCORE_UPDATE (payload[4 := of_nat i]) else []))
    \<and> (\<exists>scores. hget (match_last_scores st') mid = Some scores
         \<and> hget scores u = Some (frame\<lparr>fr_slot_id := of_nat i\<rparr>))"
proof -
  have ok: "match_ok m" by (rule room_inv_match[OF assms(2,5)])
  have pos: "position (\<lambda>s. sl_user_id s = u) (m_slots m) = Some i"
    by (rule position_seat_unique[OF ok assms(3,6,7)])
  define st1 where "st1 = st\<lparr>match_last_scores := hput mid (hput u (frame\<lparr>fr_slot_id := of_nat i\<rparr>)
      (case hget (match_last_scores st) mid of Some l \<Rightarrow> l | None \<Rightarrow> [])) (match_last_scores st)\<rparr>"
  let ?pkt = "build_packet CHO_MATCH_SCORE_UPDATE (payload[4 := of_nat i])"
  have st': "match_score_update u payload frame st = broadcast_to_match mid ?pkt None st1"
    using assms(4,5,8) pos
    by (simp add: match_score_update_def relay_match_score_frame_def Let_def st1_def
        build_relayed_match_score_update_def)
  have si: "session_inv st1" by (simp add: st1_def session_inv_fields assms(1))
  have m1: "hget (matches st1) mid = Some m" by (simp add: st1_def assms(5))
  have same: "inbox v st1 = inbox v st" "online v st1 = online v st" for v
    using inbox_cong[of st1 st] by (simp_all add: st1_def)
  have "inbox v (broadcast_to_match mid ?pkt None st1) = inbox v st
       @ (if online v st \<and> hget (user_to_match st) v = Some mid then ?pkt else [])" for v
    using room_inv_seat[OF assms(2,5), of v] by (simp add: inbox_to_match[OF si ok m1] same)
  moreover have "hget (match_last_scores (broadcast_to_match mid ?pkt None st1)) mid =
      Some (hput u (frame\<lparr>fr_slot_id := of_nat i\<rparr>)
        (case hget (match_last_scores st) mid of Some l \<Rightarrow> l | None \<Rightarrow> []))"
    by (simp add: st1_def)
  ultimately show ?thesis unfolding Let_def st' by simp
qed

theorem score_relay_is_authoritative_witness:
  "inbox 5 (match_score_update 6 [0, 0, 0, 0, 9, 7] sample_frame (sample_state SLOT_PLAYING True)) =
     build_packet CHO_MATCH_SCORE_UPDATE [0, 0, 0, 0, 1, 7]"
  using score_relay_is_authoritative[OF sample_session_inv[of SLOT_PLAYING True]
      sample_room_inv[of SLOT_PLAYING True], of 6 1 "sample_room SLOT_PLAYING True" 1
      "[0, 0, 0, 0, 9, 7]" sample_frame]
  by (simp add: sample_room_def seated_def Let_def)

text \<open>The packet that all players have loaded goes out exactly when every playing user of
  the match has reported so, this report included; without it no queue changes.\<close>

theorem all_loaded_when_everyone_has:
  assumes "session_inv st" and "room_inv st"
    and "hget (user_to_match st) u = Some mid" and "hget (matches st) mid = Some m"
  shows "let loaded = insert u (case hget (match_loaded_users st) mid of Some l \<Rightarrow> set l | None \<Rightarrow> {});
      everyone = (\<forall>s \<in> set (m_slots m). sl_status s = SLOT_PLAYING \<longrightarrow> sl_user_id s \<in> loaded)
    in \<forall>v. inbox v (match_load_complete u st) = inbox v st
       @ (if everyone \<and> online v st \<and> hget (user_to_match st) v = Some mid
          then build_match_all_players_loaded else [])"
proof -
  have ok: "match_ok m" by (rule room_inv_match[OF assms(2,4)])
  define l where "l = hs_insert u (case hget (match_loaded_users st) mid of Some l \<Rightarrow> l | None \<Rightarrow> [])"
  define st1 where "st1 = st\<lparr>match_loaded_users := hput mid l (match_loaded_users st)\<rparr>"
  have l: "set l = insert u (case hget (match_loaded_users st) mid of Some l \<Rightarrow> set l | None \<Rightarrow> {})"
    by (simp add: l_def split: option.split)
  have si: "session_inv st1" by (simp add: st1_def session_inv_fields assms(1))
  have m1: "hget (matches st1) mid = Some m" by (simp add: st1_def assms(4))
  have same: "inbox v st1 = inbox v st" "online v st1 = online v st" for v
    using inbox_cong[of st1 st] by (simp_all add: st1_def)
  have playing: "list_all (\<lambda>v. v \<in> set l) (playing_users m) \<longleftrightarrow>
      (\<forall>s \<in> set (m_slots m). sl_status s = SLOT_PLAYING \<longrightarrow> sl_user_id s \<in> set l)"
    using ok by (auto simp: playing_users_def list_all_iff match_ok_def slot_ok_def)
  have "match_load_complete u st = (if list_all (\<lambda>v. v \<in> set l) (playing_users m)
      then broadcast_to_match mid build_match_all_players_loaded None st1 else st1)"
    using assms(3,4) by (simp add: match_load_complete_def Let_def l_def st1_def)
  then have "inbox v (match_load_complete u st) = inbox v st
       @ (if list_all (\<lambda>v. v \<in> set l) (playing_users m) \<and> online v st
            \<and> hget (user_to_match st) v = Some mid
          then build_match_all_players_loaded else [])" for v
    using room_inv_seat[OF assms(2,4), of v] by (simp add: inbox_to_match[OF si ok m1] same)
  then show ?thesis unfolding Let_def l[symmetric] playing by simp
qed

theorem all_loaded_when_everyone_has_witness:
  "inbox 5 (match_load_complete 6 (sample_state SLOT_PLAYING True)) = []"
  using all_loaded_when_everyone_has[OF sample_session_inv[of SLOT_PLAYING True]
      sample_room_inv[of SLOT_PLAYING True], of 6 1 "sample_room SLOT_PLAYING True"]
  by (simp add: sample_room_def seated_def Let_def)

subsection \<open>The winner\<close>

lemma score_slots_not_won:
  "\<forall>sc \<in> set (ta_scores ta). \<not> ns_won sc \<Longrightarrow>
     \<forall>sc \<in> set (ta_scores (score_slots names ls i slots ta)). \<not> ns_won sc"
proof (induction slots arbitrary: i ta)
  case (Cons slot slots)
  have "\<not> ns_won (slot_score names ls i slot)"
    by (simp add: slot_score_def Let_def split: option.split)
  then have "\<forall>sc \<in> set (ta_scores (if slot_has_player slot \<and> positive (sl_user_id slot)
      then count_score (slot_score names ls i slot) ta else ta)). \<not> ns_won sc"
    using Cons.prems by (simp add: ta_scores_count)
  from Cons.IH[OF this] show ?case by simp
qed simp

text \<open>C30: Without teams exactly one player of a finished match wins, if anybody has a score
  that is not negative: the first in slot order among those with the highest score; the
  announced name is the winner's.\<close>

theorem best_score_wins:
  assumes "team_type \<noteq> TEAM_TYPE_TEAM_VS" and "distinct (seats slots)"
    and "sc0 \<in> set (ta_scores (score_slots names last_scores 0 slots start_tally))"
    and "0 \<le> sint (ns_score sc0)"
  shows "\<exists>as sc bs name.
      decide_winner team_type (score_slots names last_scores 0 slots start_tally) = (as @ sc # bs, name)
    \<and> ns_won sc \<and> name = ns_username sc
    \<and> (\<forall>a \<in> set as. \<not> ns_won a \<and> sint (ns_score a) < sint (ns_score sc))
    \<and> (\<forall>b \<in> set bs. \<not> ns_won b \<and> sint (ns_score b) \<le> sint (ns_score sc))"
proof -
  define ta where "ta = score_slots names last_scores 0 slots start_tally"
  have best: "best_so_far ta"
    unfolding ta_def by (rule best_so_far_slots[OF best_so_far_start])
  have users: "map ns_user_id (ta_scores ta) = seats slots"
    by (simp add: ta_def score_slots_users start_tally_def)
  have "0 \<le> sint (ta_highest ta)"
    using best assms(3,4) by (fastforce simp: best_so_far_def ta_def[symmetric])
  then have "ta_winner_id ta \<noteq> - 1" using best by (auto simp: best_so_far_def)
  then obtain as sc bs where ta: "ta_scores ta = as @ sc # bs" "ns_user_id sc = ta_winner_id ta"
    "ns_username sc = ta_winner_name ta" "ns_score sc = ta_highest ta"
    "\<forall>a \<in> set as. sint (ns_score a) < sint (ns_score sc)"
    using best by (auto simp: best_so_far_def)
  have high: "\<forall>x \<in> set (ta_scores ta). sint (ns_score x) \<le> sint (ta_highest ta)"
    using best by (simp add: best_so_far_def)
  have "distinct (map ns_user_id (as @ sc # bs))" using users assms(2) ta(1) by simp
  then have others: "x \<in> set as \<union> set bs \<Longrightarrow> ns_user_id x \<noteq> ta_winner_id ta" for x
    using ta(2) by (auto simp: image_iff)
  have not_won: "\<forall>x \<in> set (ta_scores ta). \<not> ns_won x"
    unfolding ta_def by (rule score_slots_not_won) (simp add: start_tally_def)
  let ?mark = "\<lambda>x. if ns_user_id x = ta_winner_id ta then x\<lparr>ns_won := True\<rparr> else x"
  have id: "map ?mark as = as" "map ?mark bs = bs"
    using others by (auto intro!: map_idI)
  have "decide_winner team_type ta = (as @ sc\<lparr>ns_won := True\<rparr> # bs, ta_winner_name ta)"
    using assms(1) ta(1,2) id by (simp add: decide_winner_def)
  moreover have "\<forall>a \<in> set as. \<not> ns_won a" "\<forall>b \<in> set bs. \<not> ns_won b"
    "\<forall>b \<in> set bs. sint (ns_score b) \<le> sint (ns_score sc)"
    using not_won ta(1,4) high by simp_all
  ultimately show ?thesis
    unfolding ta_def[symmetric] using ta(3,5)
    by (intro exI[of _ as] exI[of _ "sc\<lparr>ns_won := True\<rparr>"] exI[of _ bs] exI[of _ "ta_winner_name ta"])
      simp
qed

theorem best_score_wins_witness:
  "\<exists>as sc bs name.
     decide_winner 0 (score_slots [] [(6, sample_frame)] 0 [seated 5 SLOT_COMPLETE, seated 6 SLOT_COMPLETE]
       start_tally) = (as @ sc # bs, name) \<and> ns_won sc"
proof -
  have "slot_score [] [(6, sample_frame)] 0 (seated 5 SLOT_COMPLETE) \<in> set (ta_scores
      (score_slots [] [(6, sample_frame)] 0 [seated 5 SLOT_COMPLETE, seated 6 SLOT_COMPLETE] start_tally))"
    by (simp add: seated_def slot_has_player_def slot_has_player_eq ta_scores_count)
  moreover have "0 \<le> sint (ns_score (slot_score [] [(6, sample_frame)] 0 (seated 5 SLOT_COMPLETE)))"
    by (simp add: slot_score_def seated_def)
  moreover have "distinct (seats [seated 5 SLOT_COMPLETE, seated 6 SLOT_COMPLETE])"
    by (simp add: seated_def)
  ultimately show ?thesis
    using best_score_wins[of 0 "[seated 5 SLOT_COMPLETE, seated 6 SLOT_COMPLETE]"] by fastforce
qed

definition team_total :: "u8 \<Rightarrow> new_match_score list \<Rightarrow> int" where
  "team_total team scs = sum_list (map (\<lambda>sc. sint (ns_score sc)) (filter (\<lambda>sc. ns_team sc = team) scs))"

lemma sint_add_small:
  fixes a :: i64 and x :: i32
  assumes "\<bar>sint a\<bar> \<le> int k * 2 ^ 31" and "k < 2 ^ 31"
  shows "sint (a + scast x) = sint a + sint x \<and> \<bar>sint a + sint x\<bar> \<le> int (Suc k) * 2 ^ 31"
proof -
  have x: "- (2 ^ 31) \<le> sint x" "sint x < 2 ^ 31" using sint_ge[of x] sint_lt[of x] by simp_all
  have k: "int k * 2 ^ 31 \<le> (2 ^ 31 - 1) * 2 ^ 31" using assms(2) by simp
  have "sint (scast x :: i64) = sint x" by (rule sint_up_scast) (simp add: is_up)
  then have "sint (a + scast x) = signed_take_bit 63 (sint a + sint x)"
    by (simp add: sint_word_ariths)
  also have "\<dots> = sint a + sint x"
    by (rule signed_take_bit_int_eq_self) (use assms(1) x k in simp_all)
  finally show ?thesis using assms(1) x by simp
qed

lemma team_scores_exact:
  assumes "\<bar>sint blue\<bar> \<le> int k * 2 ^ 31" and "\<bar>sint red\<bar> \<le> int k * 2 ^ 31"
    and "k + length scs < 2 ^ 31"
  shows "sint (fst (team_scores scs blue red)) = sint blue + team_total TEAM_BLUE scs
    \<and> sint (snd (team_scores scs blue red)) = sint red + team_total TEAM_RED scs"
  using assms
proof (induction scs arbitrary: blue red k)
  case (Cons sc scs)
  have k: "k < 2 ^ 31" using Cons.prems(3) by simp
  note b = sint_add_small[OF Cons.prems(1) k, of "ns_score sc"]
  note r = sint_add_small[OF Cons.prems(2) k, of "ns_score sc"]
  have up: "\<bar>x\<bar> \<le> int (Suc k) * 2 ^ 31" if "\<bar>x\<bar> \<le> int k * 2 ^ 31" for x :: int
    using that by simp
  have l: "Suc k + length scs < 2 ^ 31" using Cons.prems(3) by simp
  consider "ns_team sc = TEAM_BLUE" | "ns_team sc = TEAM_RED"
    | "ns_team sc \<noteq> TEAM_BLUE" "ns_team sc \<noteq> TEAM_RED" by blast
  then show ?case
  proof cases
    case 1
    have "\<bar>sint (blue + scast (ns_score sc))\<bar> \<le> int (Suc k) * 2 ^ 31" using b by simp
    from Cons.IH[OF this up[OF Cons.prems(2)] l] show ?thesis
      using 1 b by (simp add: team_total_def)
  next
    case 2
    have "\<bar>sint (red + scast (ns_score sc))\<bar> \<le> int (Suc k) * 2 ^ 31" using r by simp
    from Cons.IH[OF up[OF Cons.prems(1)] this l] show ?thesis
      using 2 r by (simp add: team_total_def)
  next
    case 3
    from Cons.IH[OF up[OF Cons.prems(1)] up[OF Cons.prems(2)] l] show ?thesis
      using 3 by (simp add: team_total_def)
  qed
qed (simp add: team_total_def)

lemma winning_team_exact:
  assumes "length scs \<le> 16"
  shows "winning_team scs =
    (if team_total TEAM_RED scs < team_total TEAM_BLUE scs then TEAM_BLUE
     else if team_total TEAM_BLUE scs < team_total TEAM_RED scs then TEAM_RED else TEAM_NEUTRAL)"
  using team_scores_exact[of 0 0 0 scs] assms by (simp add: winning_team_def split_def)

text \<open>Team totals are exact: sixteen 32-bit scores cannot overflow the 64-bit sums.  In a
  team match exactly the players of the team with the larger total win; on a draw nobody does.
  The announced name is that team's.\<close>

theorem team_totals_decide:
  assumes "length (ta_scores ta) \<le> 16" and "\<forall>sc \<in> set (ta_scores ta). \<not> ns_won sc"
  shows "let (scs, name) = decide_winner TEAM_TYPE_TEAM_VS ta;
      blue = team_total TEAM_BLUE (ta_scores ta); red = team_total TEAM_RED (ta_scores ta)
    in map ns_won scs = map (\<lambda>sc. ns_team sc = TEAM_BLUE \<and> red < blue
            \<or> ns_team sc = TEAM_RED \<and> blue < red) (ta_scores ta)
      \<and> map ns_user_id scs = map ns_user_id (ta_scores ta)
      \<and> name = (if red < blue then lit ''Blue Team'' else if blue < red then lit ''Red Team''
                else lit ''Draw'')"
  using assms(2)
  by (auto simp: decide_winner_def Let_def winning_team_exact[OF assms(1)])

theorem team_totals_decide_witness:
  "snd (decide_winner TEAM_TYPE_TEAM_VS (score_slots [] [(6, sample_frame)] 0
      [(seated 5 SLOT_COMPLETE)\<lparr>sl_team := TEAM_BLUE\<rparr>, (seated 6 SLOT_COMPLETE)\<lparr>sl_team := TEAM_RED\<rparr>]
      start_tally)) = lit ''Red Team''"
proof -
  define ta where "ta = score_slots [] [(6, sample_frame)] 0
      [(seated 5 SLOT_COMPLETE)\<lparr>sl_team := TEAM_BLUE\<rparr>, (seated 6 SLOT_COMPLETE)\<lparr>sl_team := TEAM_RED\<rparr>]
      start_tally"
  have ta: "map (\<lambda>sc. (ns_team sc, ns_score sc, ns_won sc)) (ta_scores ta) =
      [(TEAM_BLUE, 0, False), (TEAM_RED, 300, False)]"
    by (simp add: ta_def seated_def slot_has_player_def slot_has_player_eq ta_scores_count
        slot_score_def sample_frame_def start_tally_def)
  then obtain a b where ab: "ta_scores ta = [a, b]" "ns_team a = TEAM_BLUE" "ns_team b = TEAM_RED"
    "ns_score a = 0" "ns_score b = 300" "\<not> ns_won a" "\<not> ns_won b"
    by (auto simp: map_eq_Cons_conv)
  then show ?thesis
    using team_totals_decide[of ta] unfolding ta_def[symmetric]
    by (simp add: Let_def split_def team_total_def)
qed

subsection \<open>The end of a match\<close>

lemma finish_match_tasks:
  assumes "hget (matches st) mid = Some m0"
  shows "\<exists>chat res room. tasks (finish_match env mid m st) =
      tasks st @ chat @ [SaveMatchResult (m_name m) res, RecordGame mid res, UpsertRoom room]
    \<and> (\<forall>t \<in> set chat. \<exists>msg. t = SaveChat (e_bot_id env) (e_bot_name env) (lit ''#multiplayer'') msg False)
    \<and> map ns_user_id (mr_scores res) = players m"
proof -
  have ann: "tasks (announce_result env msg s) = tasks s
      @ [SaveChat (e_bot_id env) (e_bot_name env) (lit ''#multiplayer'') msg False]" for msg s
    by (simp add: announce_result_def Let_def)
  have ids: "map ns_user_id (fst (decide_winner tt ta)) = map ns_user_id (ta_scores ta)" for tt ta
    by (auto simp: decide_winner_def Let_def)
  show ?thesis
    unfolding finish_match_def Let_def split_def
    by (auto simp: sync_eq ann result_of_def ids score_slots_users start_tally_def players_seats)
qed

lemma own_status_slots:
  assumes "match_ok m" and "u \<in> set (players m)"
  obtains j m' where "set_own_status status u m = Some m'" and "j < 16"
    and "sl_user_id (m_slots m ! j) = u"
    and "m' = m\<lparr>m_slots := (m_slots m)[j := (m_slots m ! j)\<lparr>sl_status := status\<rparr>]\<rparr>"
proof -
  have pos: "position (\<lambda>s. sl_user_id s = u) (m_slots m) \<noteq> None"
    using assms position_player[OF assms(1) match_ok_players_positive[OF assms(2)]] by simp
  then obtain j where j: "position (\<lambda>s. sl_user_id s = u) (m_slots m) = Some j" by blast
  then show ?thesis
    using that position_Some[OF j] assms(1)
    by (simp add: set_own_status_def edit_own_slot_def update_first_position match_ok_def)
qed

lemma over_after_completing:
  assumes "match_ok m" and "positive u" and "j < 16" and "sl_user_id (m_slots m ! j) = u"
    and "\<forall>s \<in> set (m_slots m). sl_status s = SLOT_PLAYING \<longrightarrow> sl_user_id s = u"
  shows "match_over (m\<lparr>m_slots := (m_slots m)[j := (m_slots m ! j)\<lparr>sl_status := SLOT_COMPLETE\<rparr>]\<rparr>)"
proof -
  let ?ss = "(m_slots m)[j := (m_slots m ! j)\<lparr>sl_status := SLOT_COMPLETE\<rparr>]"
  have len: "length (m_slots m) = 16" using assms(1) by (simp add: match_ok_def)
  have "sl_status (?ss ! i) \<noteq> SLOT_PLAYING" if "i < 16" for i
  proof (cases "i = j")
    case False
    have "sl_user_id (m_slots m ! i) \<noteq> u"
      using slots_distinct[of "m_slots m" u i j] assms(1-4) that False len
      by (auto simp: match_ok_def players_seats)
    then show ?thesis using assms(5) that False len by auto
  qed (use assms(3) len in simp)
  then have "\<not> list_ex (\<lambda>s. sl_status s = SLOT_PLAYING) ?ss"
    using len by (auto simp: list_ex_length)
  moreover have "list_ex (\<lambda>s. sl_status s = SLOT_COMPLETE) ?ss"
    using len assms(3) by (auto simp: list_ex_length intro!: exI[of _ j])
  ultimately show ?thesis by (simp add: match_over_def)
qed

text \<open>C4: When the last playing user reports completion, the match is over: all players keep
  their seats and are not ready, the clock, the scores and the loaded list are dropped, and
  one result with a score per player goes to the history and to the live room.\<close>

theorem completing_finishes_match:
  assumes "room_inv st" and "hget (user_to_match st) u = Some mid"
    and "hget (matches st) mid = Some m" and "m_in_progress m"
    and "\<forall>s \<in> set (m_slots m). sl_status s = SLOT_PLAYING \<longrightarrow> sl_user_id s = u"
  shows "let st' = match_complete env u st in
    (\<exists>m'. hget (matches st') mid = Some m' \<and> \<not> m_in_progress m' \<and> players m' = players m
       \<and> (\<forall>s \<in> set (m_slots m'). occupied s \<longrightarrow> sl_status s = SLOT_NOT_READY))
    \<and> hget (match_start_times st') mid = None \<and> hget (match_last_scores st') mid = None
    \<and> hget (match_loaded_users st') mid = None
    \<and> (\<exists>chat res room. tasks st' = tasks st @ chat
         @ [SaveMatchResult (m_name m) res, RecordGame mid res, UpsertRoom room]
         \<and> (\<forall>t \<in> set chat. \<exists>msg. t =
              SaveChat (e_bot_id env) (e_bot_name env) (lit ''#multiplayer'') msg False)
         \<and> map ns_user_id (mr_scores res) = players m)"
proof -
  have ok: "match_ok m" by (rule room_inv_match[OF assms(1,3)])
  have u: "u \<in> set (players m)" using room_inv_seat[OF assms(1,3), of u] assms(2) by simp
  note pos = match_ok_players_positive[OF u]
  obtain j m' where j: "set_own_status SLOT_COMPLETE u m = Some m'" "j < 16"
    "sl_user_id (m_slots m ! j) = u"
    "m' = m\<lparr>m_slots := (m_slots m)[j := (m_slots m ! j)\<lparr>sl_status := SLOT_COMPLETE\<rparr>]\<rparr>"
    by (rule own_status_slots[OF ok u])
  let ?st1 = "st\<lparr>matches := hput mid m' (matches st)\<rparr>"
  have over: "match_over m'" unfolding j(4) by (rule over_after_completing[OF ok pos j(2,3) assms(5)])
  have st': "match_complete env u st = finish_match env mid m' ?st1"
    using assms(2-4) j(1) over
    by (simp add: match_complete_def update_own_match_def try_finish_match_def) (simp add: j(4))
  have ok': "match_ok m' \<and> players m' = players m"
    by (rule match_ok_same_seats[OF ok])
      (use ok j in \<open>auto simp: match_ok_def same_seat_def slot_ok_def list_all2_conv_all_nth
         nth_list_update list_all_length pos split: if_splits\<close>)
  note fin = finished_match_ok[OF conjunct1[OF ok']]
  have ready: "\<forall>s \<in> set (m_slots (finished_match m')). occupied s \<longrightarrow> sl_status s = SLOT_NOT_READY"
    by (auto simp: finished_match_def finish_slot_def occupied_def)
  have name: "m_name m' = m_name m" by (simp add: j(4))
  obtain chat res room where t: "tasks (finish_match env mid m' ?st1) = tasks ?st1 @ chat
      @ [SaveMatchResult (m_name m') res, RecordGame mid res, UpsertRoom room]"
    "\<forall>t \<in> set chat. \<exists>msg. t =
       SaveChat (e_bot_id env) (e_bot_name env) (lit ''#multiplayer'') msg False"
    "map ns_user_id (mr_scores res) = players m'"
    using finish_match_tasks[of ?st1 mid m' env m'] by auto
  show ?thesis
    unfolding Let_def st' finish_match_fields
    using fin ready ok' t name by auto
qed

lemma half_done:
  "snd (update_own_match (set_own_status SLOT_COMPLETE) 6 (sample_state SLOT_PLAYING True)) =
     (sample_state SLOT_PLAYING True)\<lparr>matches := [(1, (sample_room SLOT_PLAYING True)
       \<lparr>m_slots := [seated 5 SLOT_PLAYING, seated 6 SLOT_COMPLETE] @ replicate 14 default_slot\<rparr>)]\<rparr>"
  by (simp add: update_own_match_def set_own_status_def edit_own_slot_def sample_state_def
      sample_room_def seated_def hput_def)

theorem completing_finishes_match_witness:
  "hget (match_start_times (match_complete sample_env 5
     (snd (update_own_match (set_own_status SLOT_COMPLETE) 6 (sample_state SLOT_PLAYING True))))) 1 = None"
proof -
  have "room_inv (snd (update_own_match (set_own_status SLOT_COMPLETE) 6 (sample_state SLOT_PLAYING True)))"
    by (rule complete_edit.room_inv_edit[OF sample_room_inv]) simp
  then show ?thesis
    using completing_finishes_match[of "snd (update_own_match (set_own_status SLOT_COMPLETE) 6
        (sample_state SLOT_PLAYING True))" 5 1 "(sample_room SLOT_PLAYING True)
       \<lparr>m_slots := [seated 5 SLOT_PLAYING, seated 6 SLOT_COMPLETE] @ replicate 14 default_slot\<rparr>" sample_env]
    by (simp add: Let_def half_done) (simp add: sample_room_def seated_def)
qed

text \<open>Leaving through the menu finishes a match the others have completed, but a disconnect
  does not: after the last playing user's session is removed the match is over and still in
  progress, and stays so until another of its players acts.\<close>

theorem disconnect_leaves_match_running:
  assumes "room_inv st" and "hget (sessions st) token = Some s" and "ss_user_id s = u"
    and "hget (user_to_match st) u = Some mid" and "hget (matches st) mid = Some m"
    and "m_in_progress m" and "players m \<noteq> [u]"
    and "\<forall>s \<in> set (m_slots m). occupied s \<longrightarrow> sl_user_id s = u \<or> sl_status s = SLOT_COMPLETE"
  shows "(\<exists>m'. hget (matches (logout token st)) mid = Some m' \<and> m_in_progress m' \<and> match_over m')
    \<and> (\<exists>m'. hget (matches (match_part env u st)) mid = Some m' \<and> \<not> m_in_progress m')"
proof -
  have ok: "match_ok m" by (rule room_inv_match[OF assms(1,5)])
  have u: "u \<in> set (players m)" using room_inv_seat[OF assms(1,5), of u] assms(4) by simp
  note pos = match_ok_players_positive[OF u]
  have left: "players (vacate_slot u m) \<noteq> []"
    using u assms(7) by (cases "players m") (auto simp: players_vacate[OF ok])
  note l = leave_match_ok[OF ok left]
  let ?m' = "leave_match u m"
  have slots: "m_slots ?m' = map (\<lambda>s. if sl_user_id s = u then default_slot else s) (m_slots m)"
    using ok pos by (simp add: leave_match_def Let_def vacate_slot_def match_ok_def players_seats vacate_map)
  have all: "\<forall>s \<in> set (m_slots ?m'). occupied s \<longrightarrow> sl_status s = SLOT_COMPLETE"
    using assms(8) by (auto simp: slots)
  have "players ?m' \<noteq> []" using l(1) by (auto simp: match_ok_def)
  then obtain s' where s': "s' \<in> set (m_slots ?m')" "occupied s'"
    by (auto simp: players_seats seats_def filter_empty_conv)
  have "\<forall>s \<in> set (m_slots ?m'). sl_status s \<noteq> SLOT_PLAYING"
    using all l(1) slot_ok_occupied by (fastforce simp: match_ok_def list_all_iff)
  then have over: "match_over ?m'"
    using all s' by (auto simp: match_over_def list_ex_iff)
  have run: "m_in_progress ?m'" using l(4) assms(6) by simp
  obtain m0 where "hget (matches st) mid = Some m0" and
    r: "remove_user_from_match u st = (Some (mid, ?m', False),
          st\<lparr>user_to_match := hdel u (user_to_match st), matches := hput mid ?m' (matches st)\<rparr>)"
    by (rule remove_user_present[OF assms(1,4)]) (use assms(5,7) in simp)
  have "hget (matches (match_part env u st)) mid = Some (finished_match ?m')"
    using r run over
    by (simp add: match_part_def Let_def try_finish_match_def finish_match_fields)
  moreover have "hget (matches (logout token st)) mid = Some ?m'"
  proof -
    let ?st1 = "st\<lparr>sessions := hdel token (sessions st),
      user_id_to_token := hdel u (user_id_to_token st),
      lobby_subscribers := hs_remove u (lobby_subscribers st)\<rparr>"
    have "room_inv ?st1" by (rule room_inv_cong[OF _ _ _ _ _ _ assms(1)]) simp_all
    moreover have "hget (user_to_match ?st1) u = Some mid" using assms(4) by simp
    ultimately have "hget (matches (snd (remove_user_from_match u ?st1))) mid = Some ?m'"
      by (rule remove_user_present) (use assms(5,7) in simp)
    then show ?thesis
      using assms(2,3)
      by (simp add: logout_def remove_session_eq stop_spectating_packet_eq stop_spectating_frame)
  qed
  ultimately show ?thesis using over run by (auto simp: finished_match_def)
qed

theorem disconnect_leaves_match_running_witness:
  "\<exists>m'. hget (matches (logout (lit ''ann'') (snd (update_own_match (set_own_status SLOT_COMPLETE) 6
     (sample_state SLOT_PLAYING True))))) 1 = Some m' \<and> m_in_progress m' \<and> match_over m'"
proof -
  let ?m = "(sample_room SLOT_PLAYING True)
      \<lparr>m_slots := [seated 5 SLOT_PLAYING, seated 6 SLOT_COMPLETE] @ replicate 14 default_slot\<rparr>"
  have inv: "room_inv (snd (update_own_match (set_own_status SLOT_COMPLETE) 6 (sample_state SLOT_PLAYING True)))"
    by (rule complete_edit.room_inv_edit[OF sample_room_inv]) simp
  have "players ?m = [5, 6]"
    using sample_slots[of SLOT_PLAYING] sample_slots[of SLOT_COMPLETE] by (simp add: players_seats) (simp add: seated_def)
  then have p: "players ?m \<noteq> [5]" by simp
  have c: "\<forall>s \<in> set (m_slots ?m). occupied s \<longrightarrow> sl_user_id s = 5 \<or> sl_status s = SLOT_COMPLETE"
    by (auto simp: seated_def)
  show ?thesis
    using disconnect_leaves_match_running[OF inv, of "lit ''ann''" "sample_session ''ann'' 5" 5 1 ?m,
        OF _ _ _ _ _ p c]
    by (simp add: half_done) (simp add: sample_session_def new_session_def)
qed

text \<open>Match ids wrap around: creating a match never looks whether the next id is free, so
  an open match that still has it is replaced, and its players' entries lead to a room they
  do not sit in.\<close>

theorem create_overwrites_open_match:
  assumes "room_inv st" and "positive uid" and "hget (matches st) (next_match_id st) = Some old"
    and "v \<in> set (players old)" and "v \<noteq> uid"
  shows "let st' = match_create env token uid new st in
    hget (user_to_match st') v = Some (next_match_id st)
    \<and> (\<exists>m. hget (matches st') (next_match_id st) = Some m \<and> players m = [uid])
    \<and> \<not> room_inv st'"
proof -
  let ?mid = "next_match_id st"
  define st' where "st' = match_create env token uid new st"
  have "hget (user_to_match st) v = Some ?mid"
    using room_inv_seat[OF assms(1,3)] assms(4) by simp
  moreover have "hget (user_to_match (snd (remove_user_from_match uid st))) v = hget (user_to_match st) v"
    using assms(5) by (simp add: remove_user_from_match_def Let_def split: option.split)
  ultimately have v: "hget (user_to_match st') v = Some ?mid"
    using assms(5) by (simp add: st'_def match_create_def Let_def add_to_channel_def cleanup_eq
        leave_current_eq)
  have m: "hget (matches st') ?mid = Some (created_match ?mid uid new)"
    by (simp add: st'_def match_create_def Let_def add_to_channel_def cleanup_eq)
  have p: "players (created_match ?mid uid new) = [uid]"
    by (rule created_match_ok[OF assms(2)])
  have "\<not> room_inv st'"
    using room_inv_seat[of st' ?mid "created_match ?mid uid new" v] v m p assms(5) by auto
  then show ?thesis using v m p by (auto simp: st'_def Let_def)
qed

theorem create_overwrites_open_match_witness:
  "\<not> room_inv (match_create sample_env (lit ''cat'') 7 requested_room
      ((sample_state SLOT_READY False)\<lparr>next_match_id := 1\<rparr>))"
proof -
  have "room_inv ((sample_state SLOT_READY False)\<lparr>next_match_id := 1\<rparr>)"
    by (rule room_inv_cong[OF _ _ _ _ _ _ sample_room_inv[of SLOT_READY False]]) simp_all
  then show ?thesis
    using create_overwrites_open_match[of "(sample_state SLOT_READY False)\<lparr>next_match_id := 1\<rparr>" 7
        "sample_room SLOT_READY False" 5]
    by (simp add: sample_players Let_def)
qed

end
