(* ===== verification/Protocol_Properties.thy ===== *)
theory Protocol_Properties
  imports Samples
begin

unbundle bit_operations_syntax

text \<open>
  What the wire format guarantees: every message is read back as it was written, a request
  body is the sequence of its packets, and a body cut short loses its last packet only.
\<close>

subsection \<open>The packets of a body\<close>

text \<open>The reference semantics of a body: its packets run one after the other.\<close>

fun run_packets ::
    "services \<Rightarrow> (nat \<Rightarrow> env) \<Rightarrow> rstr \<Rightarrow> nat \<Rightarrow> (u16 \<times> u8 list) list \<Rightarrow> sys \<Rightarrow> flow \<times> sys" where
  "run_packets sv envs token i [] st = (Stop, st)"
| "run_packets sv envs token i ((packet_id, payload) # ps) st =
     (case get_session token st of
        None \<Rightarrow> (Stop, st)
      | Some s \<Rightarrow>
          (case handle_packet sv (envs i) token (ss_user_id s) packet_id payload st of
             (Go, st1) \<Rightarrow> run_packets sv envs token (Suc i) ps st1
           | (fl, st1) \<Rightarrow> (fl, st1)))"

lemma next_packet_built:
  "length payload < 2 ^ 32 \<Longrightarrow>
     next_packet (build_packet packet_id payload @ rest) = Some (packet_id, payload, rest)"
  by (simp add: next_packet_def read_built_header read_bytes_def)

text \<open>C28: A body made of packets runs exactly these packets, in order, stopping where the
  session ends; whatever incomplete rest follows them is ignored.\<close>

theorem body_is_its_packets:
  assumes "\<forall>(packet_id, payload) \<in> set packets. length payload < 2 ^ 32"
    and "next_packet tail = None"
  shows "handle_client_packets sv envs token i
      (concat (map (\<lambda>(packet_id, payload). build_packet packet_id payload) packets) @ tail) st =
    run_packets sv envs token i packets st"
  using assms(1)
proof (induction packets arbitrary: i st)
  case Nil
  then show ?case by (simp add: handle_client_packets.simps[of _ _ _ _ tail] assms(2))
next
  case (Cons p ps)
  obtain packet_id payload where p: "p = (packet_id, payload)" by (cases p)
  have l: "length payload < 2 ^ 32" and ps: "\<forall>(packet_id, payload) \<in> set ps. length payload < 2 ^ 32"
    using Cons.prems by (auto simp: p)
  show ?case
    by (simp add: p handle_client_packets.simps[of _ _ _ _ "build_packet _ _ @ _"]
        next_packet_built[OF l] Cons.IH[OF ps] split: option.split prod.split flow.split)
qed

theorem body_is_its_packets_witness:
  "handle_client_packets sample_services (\<lambda>_. sample_env) (lit ''cat'') 1
     (build_packet OSU_PONG [] @ build_packet OSU_STOP_SPECTATING [] @ [1, 2, 3])
     (sample_state SLOT_READY False) =
   run_packets sample_services (\<lambda>_. sample_env) (lit ''cat'') 1
     [(OSU_PONG, []), (OSU_STOP_SPECTATING, [])] (sample_state SLOT_READY False)"
  using body_is_its_packets[of "[(OSU_PONG, []), (OSU_STOP_SPECTATING, [])]" "[1, 2, 3]"
      sample_services "\<lambda>_. sample_env" "lit ''cat''" 1 "sample_state SLOT_READY False"]
  by (simp add: next_packet_def read_packet_header_def remaining_def rd_return_def)

text \<open>A packet that arrives cut short, anywhere, has no effect at all.\<close>

theorem truncated_packet_is_ignored:
  assumes "length payload < 2 ^ 32" and "k < length (build_packet packet_id payload)"
  shows "handle_client_packets sv envs token i (take k (build_packet packet_id payload)) st = (Stop, st)"
proof -
  have "next_packet (take k (build_packet packet_id payload)) = None"
  proof (cases "k < 7")
    case True
    then show ?thesis
      by (simp add: next_packet_def read_packet_header_def remaining_def rd_return_def
          length_build_packet)
  next
    case False
    have len: "unat (of_nat (length payload) :: u32) = length payload"
      using assms(1) by (simp add: unat_of_nat_small)
    define h where "h = write_u16 packet_id @ [0] @ write_u32 (of_nat (length payload))"
    have "length h = 7" by (simp add: h_def codec_widths)
    moreover have "build_packet packet_id payload = h @ payload"
      by (simp add: build_packet_def h_def)
    ultimately have t: "take k (build_packet packet_id payload) = h @ take (k - 7) payload"
      using False by simp
    have short: "length (take (k - 7) payload) < length payload"
      using assms(2) False by (simp add: length_build_packet)
    have "read_packet_header (take k (build_packet packet_id payload)) =
        (ROk (Some (packet_id, length payload)), take (k - 7) payload)"
      unfolding t h_def by (simp add: read_packet_header_def remaining_def codec_widths codec_binds
          bind_read_u8_Cons rd_return_def len)
    then show ?thesis
      using short by (simp add: next_packet_def read_bytes_def read_exact_def)
  qed
  then show ?thesis by (simp add: handle_client_packets.simps[of _ _ _ _ "take k _"])
qed

theorem truncated_packet_is_ignored_witness:
  "handle_client_packets sample_services (\<lambda>_. sample_env) (lit ''cat'') 1
     (take 9 (build_packet OSU_MATCH_JOIN [1, 0, 0, 0, 0])) (sample_state SLOT_READY False) =
   (Stop, sample_state SLOT_READY False)"
  by (rule truncated_packet_is_ignored) (simp_all add: length_build_packet)

text \<open>The packets of any body at all.\<close>

fun packets_in :: "nat \<Rightarrow> u8 list \<Rightarrow> (u16 \<times> u8 list) list" where
  "packets_in 0 data = []"
| "packets_in (Suc fuel) data =
     (case next_packet data of
        None \<Rightarrow> []
      | Some (packet_id, payload, rest) \<Rightarrow> (packet_id, payload) # packets_in fuel rest)"

lemma packets_in_run:
  "length data \<le> fuel \<Longrightarrow> handle_client_packets sv envs token i data st =
     run_packets sv envs token i (packets_in fuel data) st
   \<and> 7 * length (packets_in fuel data) \<le> length data"
proof (induction fuel arbitrary: data i st)
  case 0
  then show ?case
    by (simp add: handle_client_packets.simps[of _ _ _ _ "[]"] next_packet_def
        read_packet_header_def remaining_def rd_return_def)
next
  case (Suc fuel)
  show ?case
  proof (cases "next_packet data")
    case None
    then show ?thesis by (simp add: handle_client_packets.simps[of _ _ _ _ data])
  next
    case (Some a)
    obtain packet_id payload rest where a: "a = (packet_id, payload, rest)" by (cases a)
    obtain header where h: "length header = 7" "data = header @ payload @ rest"
      using next_packet_split Some a by blast
    then have "length rest \<le> fuel" using Suc.prems by simp
    note IH = conjunct1[OF Suc.IH[OF this]] conjunct2[OF Suc.IH[OF this]]
    have "handle_client_packets sv envs token i data st =
        run_packets sv envs token i (packets_in (Suc fuel) data) st"
      by (subst handle_client_packets.simps)
        (simp add: Some a IH(1) split: option.split prod.split flow.split)
    moreover have "7 + length rest \<le> length data" using h by simp
    ultimately show ?thesis using IH(2) by (simp add: Some a)
  qed
qed

text \<open>C27: Whatever bytes a request carries, handling it is running a list of at most one packet
  per seven bytes: the loop always ends, and no body makes it longer than its length.\<close>

theorem every_body_is_few_packets:
  "handle_client_packets sv envs token i data st =
     run_packets sv envs token i (packets_in (length data) data) st
   \<and> 7 * length (packets_in (length data) data) \<le> length data"
  by (rule packets_in_run) simp

subsection \<open>Messages\<close>

text \<open>C29: A match of 16 slots whose strings fit is read back from its packet, with the rest of the
  input left, up to what the packet leaves out: a slot without a player loses its user, the mods of
  the slots go with freemod only (a match that turned freemod off may still have them), and who may
  not see the password reads a blank instead, an empty one being none.\<close>

theorem match_roundtrip:
  assumes "length (m_slots m) = 16"
    and "sendable (m_name m)" and "sendable (m_beatmap_name m)" and "sendable (m_beatmap_md5 m)"
    and "\<forall>p. m_password m = Some p \<longrightarrow> sendable p"
  shows "parse_match (match_payload m send_password @ rest) =
    (ROk (m\<lparr>m_slots := map (\<lambda>s. s\<lparr>sl_user_id := if slot_has_player s then sl_user_id s else - 1,
              sl_mods := if m_freemod m then sl_mods s else 0\<rparr>) (m_slots m),
            m_password := (case m_password m of
                None \<Rightarrow> None
              | Some p \<Rightarrow> if \<not> send_password then Some [32] else if p = [] then None else Some p)\<rparr>), rest)"
proof -
  have "sendable (match_password_text m send_password)"
    using assms(5) by (auto simp: match_password_text_def sendable_blank split: option.split)
  from parse_match_sent[OF assms(1-4) this] show ?thesis
    by (auto simp: sent_slot_def match_password_text_def split: option.split)
qed

theorem match_roundtrip_witness:
  "parse_match (match_payload requested_room True @ [1, 2]) = (ROk requested_room, [1, 2])"
proof -
  have ok: "sendable_match requested_room" by (rule requested_sendable)
  then have "map (\<lambda>s. s\<lparr>sl_user_id := if slot_has_player s then sl_user_id s else - 1,
      sl_mods := if m_freemod requested_room then sl_mods s else 0\<rparr>) (m_slots requested_room) =
    m_slots requested_room"
    by (auto simp: sendable_match_def sendable_slot_def intro!: map_idI)
  then show ?thesis
    using match_roundtrip[of requested_room True "[1, 2]"] ok
    by (auto simp: sendable_match_def split: option.splits)
qed

text \<open>A score frame is read back as it was sent, ScoreV2 portions included, and two
  different frames are never sent as the same bytes.\<close>

theorem score_frame_roundtrip:
  assumes "sendable_frame f"
  shows "parse_score_frame (score_frame_payload f @ rest) = (ROk f, rest)
    \<and> (\<forall>g. sendable_frame g \<longrightarrow> score_frame_payload g = score_frame_payload f \<longrightarrow> g = f)"
  using framec.dec_enc[OF assms] framec.enc_inj[OF _ assms] by auto

theorem score_frame_roundtrip_witness:
  "parse_score_frame (score_frame_payload sample_frame @ [9]) = (ROk sample_frame, [9])"
  using score_frame_roundtrip[of sample_frame "[9]"]
  by (simp add: sendable_frame_def sample_frame_def)

text \<open>Every string of Unicode scalar values that fits an allocation is read back as it was
  written, and no encoded string is a prefix of another: fields can follow each other.\<close>

theorem osu_string_roundtrip:
  assumes "sendable s"
  shows "read_osu_string (write_osu_string s @ rest) = (ROk s, rest)
    \<and> (\<forall>t r. sendable t \<longrightarrow> write_osu_string s @ rest = write_osu_string t @ r \<longrightarrow> s = t \<and> rest = r)"
  using strc.dec_enc[OF assms] strc.prefix_free[OF assms] by auto

theorem osu_string_roundtrip_witness:
  "read_osu_string (write_osu_string [0x41, 0x1F600] @ [7]) = (ROk [0x41, 0x1F600], [7])"
proof -
  have "sendable [0x41, 0x1F600]"
    using utf8_encode_length[of "[0x41, 0x1F600]"]
    by (simp add: sendable_def valid_str_def is_scalar_def is_surrogate_def isize_max_def)
  from osu_string_roundtrip[OF this] show ?thesis by blast
qed

text \<open>A 64-bit number takes between one and ten bytes and is read back exactly; whatever
  the input, reading consumes at most ten bytes and never panics.\<close>

theorem uleb128_roundtrip:
  "read_uleb128 (write_uleb128 v @ rest) = ROk (v, rest)
   \<and> 1 \<le> length (write_uleb128 v) \<and> length (write_uleb128 v) \<le> 10
   \<and> read_uleb128 bs \<noteq> RPanic
   \<and> (\<forall>w cursor. read_uleb128 bs = ROk (w, cursor) \<longrightarrow>
        (\<exists>pre. bs = pre @ cursor \<and> length pre \<le> 10))"
  using read_write_uleb128 write_uleb128_length read_uleb128_consumes[of bs] by auto

theorem uleb128_roundtrip_witness:
  "read_uleb128 (write_uleb128 300 @ [7]) = ROk (300, [7])
   \<and> (\<exists>pre. write_uleb128 300 @ [7] = pre @ [7 :: u8] \<and> length pre \<le> 10)"
  using uleb128_roundtrip[of 300 "[7]" "write_uleb128 300 @ [7]"] by blast

text \<open>The reader loses bits: ten bytes whose last one is even and below 128 read as the
  number of the first nine, though the last byte stands for a multiple of 2 to the 64.\<close>

theorem uleb128_drops_high_bits:
  assumes "b AND 0x80 = 0" and "\<not> bit b 0"
  shows "read_uleb128 (replicate 9 0x80 @ [b]) = ROk (0, [])"
proof -
  have "push_bit 63 (ucast (b AND 0x7F) :: u64) = 0"
  proof (rule bit_word_eqI)
    fix n
    show "bit (push_bit 63 (ucast (b AND 0x7F) :: u64)) n = bit (0 :: u64) n"
      using assms(2) by (cases "n = 63") (auto simp: bit_simps)
  qed
  moreover have "replicate 9 (0x80 :: u8) = [0x80, 0x80, 0x80, 0x80, 0x80, 0x80, 0x80, 0x80, 0x80]"
    by (simp add: numeral_eq_Suc)
  ultimately show ?thesis using assms(1) by (simp add: read_uleb128_def)
qed

theorem uleb128_drops_high_bits_witness:
  "read_uleb128 (replicate 9 0x80 @ [2]) = ROk (0, [])"
  by (rule uleb128_drops_high_bits) (simp_all add: bit_numeral_word_iff)

text \<open>A string whose announced length exceeds what can be allocated ends the request: the
  reader panics instead of reporting an error, so the packets after it are lost and the
  client gets no reply.\<close>

theorem huge_string_panics:
  assumes "isize_max < unat n" and "get_session token st = Some s"
    and "length rest < 2 ^ 31"
  shows "fst (handle_client_packets sv envs token i
      (build_packet OSU_CHANNEL_JOIN (0x0B # write_uleb128 n @ rest) @ later) st) = Panicked"
proof -
  let ?payload = "0x0B # write_uleb128 n @ rest"
  have "length ?payload < 2 ^ 32" using write_uleb128_length[of n] assms(3) by simp
  from next_packet_built[OF this] have p: "next_packet (build_packet OSU_CHANNEL_JOIN ?payload @ later) =
      Some (OSU_CHANNEL_JOIN, ?payload, later)" .
  have "fst (read_osu_string ?payload) = RPanic"
    using assms(1) by (simp add: read_osu_string_def read_write_uleb128)
  then have "handle_packet sv (envs i) token (ss_user_id s) OSU_CHANNEL_JOIN ?payload st = (Panicked, st)"
    by (simp add: handle_packet_def on_parsed_def)
  then show ?thesis
    using p assms(2) by (simp add: handle_client_packets.simps[of _ _ _ _ "build_packet _ _ @ _"])
qed

theorem huge_string_panics_witness:
  "fst (handle_client_packets sample_services (\<lambda>_. sample_env) (lit ''cat'') 1
     (build_packet OSU_CHANNEL_JOIN (0x0B # write_uleb128 (- 1) @ []) @ build_packet OSU_PONG [])
     (sample_state SLOT_READY False)) = Panicked"
  by (rule huge_string_panics)
    (simp_all add: get_session_def isize_max_def unsigned_minus_1_eq_mask mask_eq_exp_minus_1)

end
