(* ===== verification/Multi_Db.thy ===== *)
theory Multi_Db
  imports Tasks Sql
begin

text \<open>
  \<^verbatim>\<open>src/db/multi.rs\<close>: the database of the live rooms, with the games played in each and
  their scores.  \<^verbatim>\<open>multi_rooms\<close> is keyed by the match id; the other two tables number
  their rows, and numbers are not used again.  A room's slots are kept as the list whose JSON
  text the column holds.  A statement that fails leaves the tables as they were and is
  dropped by its callers, so only success is modelled.
\<close>

subsection \<open>The tables\<close>

record multi_game =
  mg_id :: int
  mg_match_id :: i64
  mg_beatmap_id :: i64
  mg_beatmap_name :: rstr
  mg_beatmap_md5 :: rstr
  mg_mode :: i64
  mg_scoring_type :: i64
  mg_team_type :: i64
  mg_mods :: i64
  mg_played_at :: i64
  mg_duration :: i64
  mg_winner_id :: i64
  mg_winner_name :: rstr

record multi_score =
  ms_id :: int
  ms_game_id :: int
  ms_match_id :: i64
  ms_user_id :: i64
  ms_username :: rstr
  ms_slot_id :: i64
  ms_team :: i64
  ms_score :: i64
  ms_max_combo :: i64
  ms_accuracy :: fp
  ms_c300 :: i64
  ms_c100 :: i64
  ms_c50 :: i64
  ms_c_miss :: i64
  ms_c_geki :: i64
  ms_c_katu :: i64
  ms_passed :: i64
  ms_won :: i64

record multi_db =
  md_rooms :: "live_room list"
  md_games :: "multi_game list"
  md_scores :: "multi_score list"
  md_next_game :: int
  md_next_score :: int

text \<open>The start-up empties all three tables.\<close>

definition init_multi_db :: "multi_db \<Rightarrow> multi_db" where
  "init_multi_db db = db\<lparr>md_rooms := [], md_games := [], md_scores := []\<rparr>"

definition empty_multi_db :: multi_db where
  "empty_multi_db = \<lparr>md_rooms = [], md_games = [], md_scores = [], md_next_game = 1, md_next_score = 1\<rparr>"

subsection \<open>Writing\<close>

text \<open>A conflict updates every column but the time of creation.\<close>

definition upsert_room :: "live_room \<Rightarrow> multi_db \<Rightarrow> multi_db" where
  "upsert_room room db =
     (if list_ex (\<lambda>r. lr_match_id r = lr_match_id room) (md_rooms db) then
        db\<lparr>md_rooms := map (\<lambda>r. if lr_match_id r = lr_match_id room
                                 then room\<lparr>lr_created_at := lr_created_at r\<rparr> else r) (md_rooms db)\<rparr>
      else db\<lparr>md_rooms := md_rooms db @ [room]\<rparr>)"

definition bool_i64 :: "bool \<Rightarrow> i64" where
  "bool_i64 b = (if b then 1 else 0)"

definition multi_score_row :: "int \<Rightarrow> int \<Rightarrow> u16 \<Rightarrow> new_match_score \<Rightarrow> multi_score" where
  "multi_score_row score_id game_id match_id sc =
     \<lparr>ms_id = score_id, ms_game_id = game_id, ms_match_id = ucast match_id,
      ms_user_id = scast (ns_user_id sc), ms_username = ns_username sc,
      ms_slot_id = ucast (ns_slot_id sc), ms_team = ucast (ns_team sc),
      ms_score = scast (ns_score sc), ms_max_combo = ucast (ns_max_combo sc),
      ms_accuracy = fp_cast f64 (ns_accuracy sc), ms_c300 = ucast (ns_c300 sc),
      ms_c100 = ucast (ns_c100 sc), ms_c50 = ucast (ns_c50 sc),
      ms_c_miss = ucast (ns_c_miss sc), ms_c_geki = ucast (ns_c_geki sc),
      ms_c_katu = ucast (ns_c_katu sc), ms_passed = bool_i64 (ns_passed sc),
      ms_won = bool_i64 (ns_won sc)\<rparr>"

definition insert_multi_score :: "int \<Rightarrow> u16 \<Rightarrow> new_match_score \<Rightarrow> multi_db \<Rightarrow> multi_db" where
  "insert_multi_score game_id match_id sc db =
     db\<lparr>md_scores := md_scores db @ [multi_score_row (md_next_score db) game_id match_id sc],
        md_next_score := md_next_score db + 1\<rparr>"

definition multi_game_row :: "int \<Rightarrow> i64 \<Rightarrow> u16 \<Rightarrow> match_result \<Rightarrow> multi_game" where
  "multi_game_row game_id now match_id res =
     \<lparr>mg_id = game_id, mg_match_id = ucast match_id,
      mg_beatmap_id = scast (mr_beatmap_id res), mg_beatmap_name = mr_beatmap_name res,
      mg_beatmap_md5 = mr_beatmap_md5 res, mg_mode = ucast (mr_mode res),
      mg_scoring_type = ucast (mr_scoring_type res), mg_team_type = ucast (mr_team_type res),
      mg_mods = ucast (mr_mods res), mg_played_at = now, mg_duration = mr_duration res,
      mg_winner_id = scast (mr_winner_id res), mg_winner_name = mr_winner_name res\<rparr>"

definition record_multi_game :: "i64 \<Rightarrow> u16 \<Rightarrow> match_result \<Rightarrow> multi_db \<Rightarrow> int \<times> multi_db" where
  "record_multi_game now match_id res db =
     (let game_id = md_next_game db;
          db1 = db\<lparr>md_games := md_games db @ [multi_game_row game_id now match_id res],
                   md_next_game := game_id + 1\<rparr>
      in (game_id, fold (insert_multi_score game_id match_id) (mr_scores res) db1))"

definition delete_room_data :: "u16 \<Rightarrow> multi_db \<Rightarrow> multi_db" where
  "delete_room_data match_id db =
     (let mid = ucast match_id
      in db\<lparr>md_scores := filter (\<lambda>s. ms_match_id s \<noteq> mid) (md_scores db),
            md_games := filter (\<lambda>g. mg_match_id g \<noteq> mid) (md_games db),
            md_rooms := filter (\<lambda>r. lr_match_id r \<noteq> mid) (md_rooms db)\<rparr>)"

text \<open>Running a spawned task on these tables; the other tasks do not touch them.\<close>

fun run_multi_task :: "i64 \<Rightarrow> task \<Rightarrow> multi_db \<Rightarrow> multi_db" where
  "run_multi_task now (UpsertRoom room) db = upsert_room room db"
| "run_multi_task now (DeleteRoom mid) db = delete_room_data mid db"
| "run_multi_task now (RecordGame mid res) db = snd (record_multi_game now mid res db)"
| "run_multi_task now _ db = db"

subsection \<open>Reading\<close>

record game_with_scores =
  gs_game :: multi_game
  gs_scores :: "multi_score list"

record live_room_details =
  rd_room :: live_room
  rd_slots :: "live_slot list"
  rd_games :: "game_with_scores list"

text \<open>Each game takes its scores out of the one map and goes into the other.\<close>

fun games_by_match ::
    "multi_game list \<Rightarrow> (int, multi_score list) hmap \<Rightarrow> (i64, game_with_scores list) hmap \<Rightarrow>
     (i64, game_with_scores list) hmap" where
  "games_by_match [] scores_by_game acc = acc"
| "games_by_match (g # gs) scores_by_game acc =
     games_by_match gs (hdel (mg_id g) scores_by_game)
       (push_under (mg_match_id g)
         \<lparr>gs_game = g, gs_scores = group_of scores_by_game (mg_id g)\<rparr> acc)"

fun attach_games ::
    "live_room list \<Rightarrow> (i64, game_with_scores list) hmap \<Rightarrow> live_room_details list" where
  "attach_games [] by_match = []"
| "attach_games (r # rs) by_match =
     \<lparr>rd_room = r, rd_slots = lr_slots r, rd_games = group_of by_match (lr_match_id r)\<rparr>
     # attach_games rs (hdel (lr_match_id r) by_match)"

definition get_all_live_rooms :: "multi_db \<Rightarrow> live_room_details list" where
  "get_all_live_rooms db =
     (let rooms = order_desc (sint \<circ> lr_updated_at) (md_rooms db)
      in if rooms = [] then []
         else
           let games = sort_key (sint \<circ> mg_match_id) (order_desc mg_id (md_games db));
               scores = sort_key ms_game_id (order_desc (sint \<circ> ms_score) (md_scores db));
               scores_by_game = group_under ms_game_id scores
           in attach_games rooms (games_by_match games scores_by_game []))"

subsection \<open>The table invariant\<close>

definition room_ids :: "multi_db \<Rightarrow> i64 set" where
  "room_ids db = lr_match_id ` set (md_rooms db)"

text \<open>
  A room is stored once, a game belongs to a stored room, a score to a stored game of the
  same room, and the numbers given out lie below the next one.
\<close>

definition multi_ok :: "multi_db \<Rightarrow> bool" where
  "multi_ok db \<longleftrightarrow>
     distinct (map lr_match_id (md_rooms db))
     \<and> distinct (map mg_id (md_games db))
     \<and> (\<forall>g \<in> set (md_games db). mg_id g < md_next_game db \<and> mg_match_id g \<in> room_ids db)
     \<and> (\<forall>s \<in> set (md_scores db).
          \<exists>g \<in> set (md_games db). mg_id g = ms_game_id s \<and> mg_match_id g = ms_match_id s)"

lemma multi_ok_empty: "multi_ok empty_multi_db" "room_ids empty_multi_db = {}"
  by (simp_all add: multi_ok_def empty_multi_db_def room_ids_def)

lemma upsert_id_list:
  "map lr_match_id (md_rooms (upsert_room room db)) =
     (if lr_match_id room \<in> room_ids db then map lr_match_id (md_rooms db)
      else map lr_match_id (md_rooms db) @ [lr_match_id room])"
proof -
  have "list_ex (\<lambda>r. lr_match_id r = lr_match_id room) (md_rooms db) \<longleftrightarrow> lr_match_id room \<in> room_ids db"
    by (auto simp: list_ex_iff room_ids_def intro: rev_image_eqI)
  then show ?thesis by (simp add: upsert_room_def)
qed

lemma room_ids_list: "room_ids db = set (map lr_match_id (md_rooms db))"
  by (simp add: room_ids_def)

lemma upsert_room_ids: "room_ids (upsert_room room db) = insert (lr_match_id room) (room_ids db)"
  unfolding room_ids_list[of "upsert_room room db"] upsert_id_list
  by (auto simp: room_ids_def)

lemma upsert_room_other [simp]:
  "md_games (upsert_room room db) = md_games db" "md_scores (upsert_room room db) = md_scores db"
  "md_next_game (upsert_room room db) = md_next_game db"
  by (simp_all add: upsert_room_def)

lemma upsert_distinct:
  "distinct (map lr_match_id (md_rooms db)) \<Longrightarrow>
     distinct (map lr_match_id (md_rooms (upsert_room room db)))"
  unfolding upsert_id_list by (auto simp: room_ids_def)

lemma multi_ok_upsert [keeps]: "multi_ok db \<Longrightarrow> multi_ok (upsert_room room db)"
  by (auto simp: multi_ok_def upsert_distinct upsert_room_ids)

lemma row_fields [simp]:
  "ms_game_id (multi_score_row sid gid mid sc) = gid" "ms_match_id (multi_score_row sid gid mid sc) = ucast mid"
  "mg_id (multi_game_row gid now mid res) = gid" "mg_match_id (multi_game_row gid now mid res) = ucast mid"
  by (simp_all add: multi_score_row_def multi_game_row_def)

lemma insert_score_frame [simp]:
  "md_rooms (insert_multi_score gid mid sc db) = md_rooms db"
  "md_games (insert_multi_score gid mid sc db) = md_games db"
  "md_next_game (insert_multi_score gid mid sc db) = md_next_game db"
  "md_scores (insert_multi_score gid mid sc db) = md_scores db @ [multi_score_row (md_next_score db) gid mid sc]"
  by (simp_all add: insert_multi_score_def)

lemma insert_scores_frame [simp]:
  "md_rooms (fold (insert_multi_score gid mid) scs db) = md_rooms db"
  "md_games (fold (insert_multi_score gid mid) scs db) = md_games db"
  "md_next_game (fold (insert_multi_score gid mid) scs db) = md_next_game db"
  by (induction scs arbitrary: db) simp_all

lemma insert_scores_set:
  "s \<in> set (md_scores (fold (insert_multi_score gid mid) scs db)) \<Longrightarrow>
     s \<in> set (md_scores db) \<or> ms_game_id s = gid \<and> ms_match_id s = ucast mid"
  by (induction scs arbitrary: db) fastforce+

lemma record_game_frame [simp]:
  "md_rooms (snd (record_multi_game now mid res db)) = md_rooms db"
  "md_games (snd (record_multi_game now mid res db)) =
     md_games db @ [multi_game_row (md_next_game db) now mid res]"
  "md_next_game (snd (record_multi_game now mid res db)) = md_next_game db + 1"
  "room_ids (snd (record_multi_game now mid res db)) = room_ids db"
  by (simp_all add: record_multi_game_def room_ids_def Let_def)

lemma record_game_scores:
  "s \<in> set (md_scores (snd (record_multi_game now mid res db))) \<Longrightarrow>
     s \<in> set (md_scores db) \<or> ms_game_id s = md_next_game db \<and> ms_match_id s = ucast mid"
  by (auto simp: record_multi_game_def Let_def dest!: insert_scores_set)

lemma multi_ok_record [keeps]:
  "multi_ok db \<Longrightarrow> ucast mid \<in> room_ids db \<Longrightarrow> multi_ok (snd (record_multi_game now mid res db))"
  unfolding multi_ok_def record_game_frame
  by (fastforce dest!: record_game_scores)

lemma delete_room_ids: "room_ids (delete_room_data mid db) = room_ids db - {ucast mid}"
  by (auto simp: delete_room_data_def room_ids_def Let_def)

lemma multi_ok_delete [keeps]: "multi_ok db \<Longrightarrow> multi_ok (delete_room_data mid db)"
  unfolding multi_ok_def delete_room_ids
  by (fastforce simp: delete_room_data_def Let_def distinct_map inj_on_def)

subsection \<open>The list of the live rooms\<close>

text \<open>What \<^verbatim>\<open>get_all_live_rooms\<close> is meant to return, table by table.\<close>

definition game_details :: "multi_db \<Rightarrow> multi_game \<Rightarrow> game_with_scores" where
  "game_details db g =
     \<lparr>gs_game = g,
      gs_scores = order_desc (sint \<circ> ms_score) (filter (\<lambda>s. ms_game_id s = mg_id g) (md_scores db))\<rparr>"

definition room_details :: "multi_db \<Rightarrow> live_room \<Rightarrow> live_room_details" where
  "room_details db r =
     \<lparr>rd_room = r, rd_slots = lr_slots r,
      rd_games = map (game_details db)
        (order_desc mg_id (filter (\<lambda>g. mg_match_id g = lr_match_id r) (md_games db)))\<rparr>"

lemma filter_sort_key_eq:
  "filter (\<lambda>x. f x = k) (sort_key f xs) = filter (\<lambda>x. f x = k) xs"
  by (rule sort_key_stable)

lemma games_by_match_group:
  assumes "distinct (map mg_id gs)"
  shows "group_of (games_by_match gs sc acc) k = group_of acc k
    @ map (\<lambda>g. \<lparr>gs_game = g, gs_scores = group_of sc (mg_id g)\<rparr>) (filter (\<lambda>g. mg_match_id g = k) gs)"
  using assms
proof (induction gs arbitrary: sc acc)
  case (Cons g gs)
  have "map (\<lambda>x. \<lparr>gs_game = x, gs_scores = group_of (hdel (mg_id g) sc) (mg_id x)\<rparr>)
      (filter (\<lambda>g. mg_match_id g = k) gs) =
    map (\<lambda>x. \<lparr>gs_game = x, gs_scores = group_of sc (mg_id x)\<rparr>) (filter (\<lambda>g. mg_match_id g = k) gs)"
    using Cons.prems by (force simp: image_iff)
  then show ?case using Cons by simp
qed simp

lemma attach_games_eq:
  assumes "distinct (map lr_match_id rs)"
  shows "attach_games rs m =
    map (\<lambda>r. \<lparr>rd_room = r, rd_slots = lr_slots r, rd_games = group_of m (lr_match_id r)\<rparr>) rs"
  using assms by (induction rs arbitrary: m) (force simp: image_iff)+

lemma distinct_map_mset: "distinct (map f xs) \<Longrightarrow> mset ys = mset xs \<Longrightarrow> distinct (map f ys)"
  by (metis mset_map mset_eq_imp_distinct_iff)

lemma get_all_live_rooms_eq:
  assumes "multi_ok db"
  shows "get_all_live_rooms db =
    map (room_details db) (order_desc (sint \<circ> lr_updated_at) (md_rooms db))"
proof -
  let ?rooms = "order_desc (sint \<circ> lr_updated_at) (md_rooms db)"
  let ?games = "sort_key (sint \<circ> mg_match_id) (order_desc mg_id (md_games db))"
  let ?scores = "sort_key ms_game_id (order_desc (sint \<circ> ms_score) (md_scores db))"
  have "distinct (map lr_match_id ?rooms)" "distinct (map mg_id ?games)"
    using assms by (auto simp: multi_ok_def intro: distinct_map_mset)
  note distinct = this
  have scores: "filter (\<lambda>s. ms_game_id s = k) ?scores =
      order_desc (sint \<circ> ms_score) (filter (\<lambda>s. ms_game_id s = k) (md_scores db))" for k
    by (simp add: filter_sort_key_eq filter_order_desc)
  have sint_key: "(\<lambda>g. mg_match_id g = k) = (\<lambda>g. (sint \<circ> mg_match_id) g = sint k)" for k
    by (auto simp: fun_eq_iff intro: signed_word_eqI)
  have games: "filter (\<lambda>g. mg_match_id g = k) ?games =
      order_desc mg_id (filter (\<lambda>g. mg_match_id g = k) (md_games db))" for k
    unfolding sint_key filter_sort_key_eq filter_order_desc ..
  show ?thesis
    using distinct
    by (simp only: get_all_live_rooms_def Let_def attach_games_eq games_by_match_group games scores
        group_of_group group_of_Nil append_Nil room_details_def[abs_def] game_details_def[abs_def]) auto
qed

end
