(* ===== verification/Live_Rooms.thy ===== *)
theory Live_Rooms
  imports Server Multi_Db
begin

text \<open>
  The database of the live rooms follows the shared state: the tasks a server has spawned so
  far, run in the order of spawning, leave one row for every open match, and none for a match
  that is neither open nor waiting to be deleted.
\<close>

subsection \<open>Running all tasks\<close>

text \<open>\<open>nows i\<close> is the time when the \<open>i\<close>-th task runs.\<close>

definition run_multi_tasks :: "(nat \<Rightarrow> i64) \<Rightarrow> task list \<Rightarrow> multi_db \<Rightarrow> multi_db" where
  "run_multi_tasks nows ts db = fold (\<lambda>(i, t). run_multi_task (nows i) t) (enumerate 0 ts) db"

lemma run_multi_Nil [simp]: "run_multi_tasks nows [] db = db"
  by (simp add: run_multi_tasks_def)

lemma run_multi_snoc [simp]:
  "run_multi_tasks nows (ts @ [t]) db =
     run_multi_task (nows (length ts)) t (run_multi_tasks nows ts db)"
  by (simp add: run_multi_tasks_def enumerate_append_eq)

text \<open>
  After the tasks \<open>ts\<close> the matches in \<open>D\<close> have a row, and only matches in \<open>K\<close> have one.
\<close>

definition live :: "(nat \<Rightarrow> i64) \<Rightarrow> task list \<Rightarrow> u16 set \<Rightarrow> u16 set \<Rightarrow> bool" where
  "live nows ts D K \<longleftrightarrow>
     multi_ok (run_multi_tasks nows ts empty_multi_db)
     \<and> ucast ` D \<subseteq> room_ids (run_multi_tasks nows ts empty_multi_db)
     \<and> room_ids (run_multi_tasks nows ts empty_multi_db) \<subseteq> ucast ` K"

definition live_ok :: "(nat \<Rightarrow> i64) \<Rightarrow> sys \<Rightarrow> bool" where
  "live_ok nows st \<longleftrightarrow> live nows (tasks st) (dom (hget (matches st))) (known_ids st)"

lemma inj_ucast: "inj (ucast :: u16 \<Rightarrow> i64)"
proof (rule inj_on_inverseI)
  show "ucast (ucast a :: i64) = a" for a :: u16
    by (rule bit_word_eqI) (simp add: bit_simps)
qed

lemma ucast_eq [simp]: "(ucast a :: i64) = ucast b \<longleftrightarrow> a = b" for a b :: u16
  by (simp add: inj_eq[OF inj_ucast])

lemma live_start: "live nows [] {} {}"
  by (simp add: live_def multi_ok_empty)

lemma live_mono: "live nows ts D K \<Longrightarrow> D' \<subseteq> D \<Longrightarrow> K \<subseteq> K' \<Longrightarrow> live nows ts D' K'"
  unfolding live_def by blast

lemma live_quiet_task:
  "chat_task t \<or> (\<exists>name res. t = SaveMatchResult name res) \<Longrightarrow>
     live nows (ts @ [t]) D K \<longleftrightarrow> live nows ts D K"
  by (cases t) (simp_all add: live_def)

lemma live_upsert:
  assumes "live nows ts (D - {mid}) K" and "lr_match_id room = ucast mid" and "mid \<in> K"
  shows "live nows (ts @ [UpsertRoom room]) D K"
  using assms by (auto simp: live_def upsert_room_ids multi_ok_upsert)

lemma live_record:
  assumes "live nows ts D K" and "mid \<in> D"
  shows "live nows (ts @ [RecordGame mid res]) D K"
  using assms by (auto simp: live_def multi_ok_record)

lemma live_delete:
  "live nows ts D K \<Longrightarrow> live nows (ts @ [DeleteRoom mid]) (D - {mid}) (K - {mid})"
  unfolding live_def run_multi_snoc run_multi_task.simps delete_room_ids image_set_diff[OF inj_ucast]
  by (blast intro: multi_ok_delete)

lemma live_deletes:
  "live nows ts D K \<Longrightarrow> live nows (ts @ map DeleteRoom mids) (D - set mids) (K - set mids)"
proof (induction mids arbitrary: ts D K)
  case (Cons mid mids)
  show ?case
    using Cons.IH[OF live_delete[OF Cons.prems, of mid]]
    by (simp only: list.map list.set append_assoc append_Cons append_Nil Diff_insert2[of _ mid "set mids"])
qed simp

subsection \<open>The steps of the handlers\<close>

lemma live_ok_same:
  "live_ok nows st \<Longrightarrow> tasks st' = tasks st \<Longrightarrow>
     dom (hget (matches st')) \<subseteq> dom (hget (matches st)) \<Longrightarrow> known_ids st \<subseteq> known_ids st' \<Longrightarrow>
     live_ok nows st'"
  unfolding live_ok_def using live_mono[of nows "tasks st"] by simp

lemma live_ok_quiet:
  assumes "queues_only s s'" and "live_ok nows s"
  shows "live_ok nows s'"
proof -
  have "tasks s' = tasks s" "matches s' = matches s" "known_ids s' = known_ids s"
    using delivery.run_fields[OF delivery_of_queues_only[OF assms(1)], of s]
      delivery.known_ids_run[OF delivery_of_queues_only[OF assms(1)], of s]
    by (auto intro: tasks_more)
  then show ?thesis using live_ok_same[OF assms(2), of s'] by simp
qed

lemma live_ok_spawn: "live_ok nows s \<Longrightarrow> chat_task x \<Longrightarrow> live_ok nows (spawn x s)"
  by (simp add: live_ok_def live_quiet_task)

definition ids_agree :: "sys \<Rightarrow> bool" where
  "ids_agree s \<longleftrightarrow> (\<forall>mid m. hget (matches s) mid = Some m \<longrightarrow> m_id m = mid)"

lemma room_inv_ids: "room_inv s \<Longrightarrow> ids_agree s"
  using room_inv_match(1) by (auto simp: ids_agree_def)

lemma ids_agree_same [simp]:
  "ids_agree (sync_match_to_multi_db env mid s) = ids_agree s"
  "ids_agree (cleanup_disbanded_matches s) = ids_agree s"
  "ids_agree (announce_edit env r s) = ids_agree s"
  "ids_agree (announce_edit_in_match env r s) = ids_agree s"
  "ids_agree (broadcast_to_lobby p s) = ids_agree s"
  "ids_agree (broadcast_to_match mid p ex s) = ids_agree s"
  "ids_agree (send_to_user u p s) = ids_agree s"
  "ids_agree (s\<lparr>match_start_times := a\<rparr>) = ids_agree s"
  "ids_agree (s\<lparr>match_last_scores := b\<rparr>) = ids_agree s"
  "ids_agree (s\<lparr>match_loaded_users := c\<rparr>) = ids_agree s"
  by (simp_all add: ids_agree_def)

lemma live_ok_sync:
  assumes "live nows (tasks s) (dom (hget (matches s)) - {mid}) (known_ids s)"
    and "mid \<in> dom (hget (matches s))" and "ids_agree s"
  shows "live_ok nows (sync_match_to_multi_db env mid s)"
proof -
  obtain m where m: "hget (matches s) mid = Some m" "m_id m = mid"
    using assms(2,3) by (auto simp: ids_agree_def)
  then have "lr_match_id (live_room_of env s m) = ucast mid" by (simp add: live_room_of_def)
  moreover have "mid \<in> known_ids s" using assms(2) by (simp add: known_ids_def)
  ultimately show ?thesis
    using live_upsert[OF assms(1)] m by (simp add: live_ok_def sync_match_to_multi_db_def)
qed

lemma live_ok_sync_keeps:
  assumes "live_ok nows s" and "ids_agree s"
  shows "live_ok nows (sync_match_to_multi_db env mid s)"
proof (cases "mid \<in> dom (hget (matches s))")
  case True
  have "live nows (tasks s) (dom (hget (matches s)) - {mid}) (known_ids s)"
    using assms(1) unfolding live_ok_def by (rule live_mono) auto
  then show ?thesis using live_ok_sync[OF _ True assms(2)] by blast
qed (use assms(1) in \<open>simp add: sync_match_to_multi_db_def domIff\<close>)

lemma live_ok_cleanup:
  assumes "live_ok nows s" and "\<And>mid. mid \<in> set (pending_disbanded_matches s) \<Longrightarrow> hget (matches s) mid = None"
  shows "live_ok nows (cleanup_disbanded_matches s)"
proof -
  let ?p = "set (pending_disbanded_matches s)" and ?d = "dom (hget (matches s))"
  have "?d - ?p = ?d" "known_ids s - ?p \<subseteq> ?d"
    using assms(2) by (auto simp: known_ids_def)
  then show ?thesis
    using live_deletes[OF assms(1)[unfolded live_ok_def], of "pending_disbanded_matches s"]
    by (auto simp: live_ok_def cleanup_eq known_ids_def elim: live_mono)
qed

lemma tasks_frames [simp]:
  "tasks (snd (remove_user_from_match u s)) = tasks s"
  "tasks (leave_current u s) = tasks s"
  "tasks (snd (update_own_match edit u s)) = tasks s"
  "tasks (add_to_channel n u s) = tasks s"
  by (auto simp: remove_user_from_match_def leave_current_eq update_own_match_def add_to_channel_def
      Let_def split: option.split)

lemma known_ids_leave_eq:
  "known_ids (snd (remove_user_from_match u st)) = known_ids st"
  "known_ids (leave_current u st) = known_ids st"
proof -
  show "known_ids (snd (remove_user_from_match u st)) = known_ids st"
    by (auto simp: known_ids_def remove_user_from_match_def Let_def split: option.splits)
  then show "known_ids (leave_current u st) = known_ids st"
    by (simp add: leave_current_eq)
qed

lemma live_ok_remove_user:
  assumes "room_inv s" and "live_ok nows s"
  shows "live_ok nows (snd (remove_user_from_match u s))" "live_ok nows (leave_current u s)"
  by (rule live_ok_same[OF assms(2)];
      simp add: known_ids_leave_eq remove_user_matches[OF assms(1)] leave_current_eq)+

lemma live_ok_edit: "live_ok nows s \<Longrightarrow> live_ok nows (snd (update_own_match edit u s))"
proof (rule live_ok_same)
  show "dom (hget (matches (snd (update_own_match edit u s)))) \<subseteq> dom (hget (matches s))"
    by (auto simp: update_own_match_def split: option.splits if_splits)
qed simp_all

lemma live_ok_deliver:
  "live_ok nows s \<Longrightarrow> live_ok nows (broadcast_to_lobby p s)"
  "live_ok nows s \<Longrightarrow> live_ok nows (broadcast_to_match mid p ex s)"
  "live_ok nows s \<Longrightarrow> live_ok nows (broadcast_to_channel n p s)"
  "live_ok nows s \<Longrightarrow> live_ok nows (send_to_user u p s)"
  by - (rule live_ok_same, assumption, simp, simp, simp)+

lemma live_ok_announce:
  "live_ok nows s \<Longrightarrow> ids_agree s \<Longrightarrow> live_ok nows (announce_edit env r s)"
  "live_ok nows s \<Longrightarrow> ids_agree s \<Longrightarrow> live_ok nows (announce_edit_in_match env r s)"
  by (auto simp: announce_edit_def announce_edit_in_match_def ids_agree_def
      intro!: live_ok_sync_keeps live_ok_deliver split: option.split)

lemma live_ok_announce_result: "live_ok nows s \<Longrightarrow> live_ok nows (announce_result env msg s)"
  by (simp add: announce_result_def Let_def live_ok_spawn live_ok_deliver)

lemma announce_result_matches [simp]: "matches (announce_result env msg s) = matches s"
  by (simp add: announce_result_def Let_def)

lemma live_ok_finish:
  assumes "live_ok nows s" and "hget (matches s) mid = Some m" and "ids_agree (finish_match env mid m s)"
  shows "live_ok nows (finish_match env mid m s)"
proof -
  have put: "live_ok nows (s'\<lparr>matches := hput mid (finished_match m) (matches s')\<rparr>)"
    if "live_ok nows s'" "matches s' = matches s" for s'
    by (rule live_ok_same[OF that(1)]) (use that assms(2) in \<open>auto simp: known_ids_def\<close>)
  have drop: "live_ok nows (s\<lparr>match_loaded_users := a, match_start_times := b, match_last_scores := c\<rparr>)" for a b c
    by (rule live_ok_same[OF assms(1)]) (simp_all add: known_ids_def)
  have save: "live_ok nows (spawn (RecordGame mid res) (spawn (SaveMatchResult (m_name m) res) s'))"
    if "live_ok nows s'" "mid \<in> dom (hget (matches s'))" for s' res
    using that live_record[of nows "tasks s' @ [SaveMatchResult (m_name m) res]"]
    by (simp add: live_ok_def live_quiet_task)
  have ids: "ids_agree s'" if "matches s' = hput mid (finished_match m) (matches s)" for s'
    using assms(3) that by (simp add: ids_agree_def finish_match_fields)
  have either: "live_ok nows (if c then a else b)" if "live_ok nows a" "live_ok nows b" for a b c
    using that by simp
  show ?thesis
    unfolding finish_match_def Let_def split_def
    by (rule live_ok_sync_keeps, rule save,
        (intro either live_ok_announce_result live_ok_deliver put drop; simp),
        simp, rule ids, simp)
qed

lemma live_ok_try_finish:
  "live_ok nows s \<Longrightarrow> ids_agree (try_finish_match env mid s) \<Longrightarrow> live_ok nows (try_finish_match env mid s)"
  by (auto simp: try_finish_match_def split: option.splits if_splits intro: live_ok_finish)

subsection \<open>The match arms\<close>

lemma live_ok_edits:
  assumes "live_ok nows s"
  shows "ids_agree (match_change_slot env u slot s) \<Longrightarrow> live_ok nows (match_change_slot env u slot s)"
    "ids_agree (match_ready env u s) \<Longrightarrow> live_ok nows (match_ready env u s)"
    "ids_agree (match_not_ready env u s) \<Longrightarrow> live_ok nows (match_not_ready env u s)"
    "ids_agree (match_lock env u slot s) \<Longrightarrow> live_ok nows (match_lock env u slot s)"
    "ids_agree (match_change_settings env u m s) \<Longrightarrow> live_ok nows (match_change_settings env u m s)"
    "ids_agree (match_change_mods env u mods s) \<Longrightarrow> live_ok nows (match_change_mods env u mods s)"
    "ids_agree (match_no_beatmap env u s) \<Longrightarrow> live_ok nows (match_no_beatmap env u s)"
    "ids_agree (match_has_beatmap env u s) \<Longrightarrow> live_ok nows (match_has_beatmap env u s)"
  by (simp_all add: match_change_slot_def match_ready_def match_not_ready_def match_lock_def
      match_change_settings_def match_change_mods_def match_no_beatmap_def match_has_beatmap_def
      split_def Let_def live_ok_announce live_ok_edit[OF assms])

lemma live_ok_result:
  "live_ok nows s \<Longrightarrow> update_own_match edit u s = (r, s1) \<Longrightarrow> live_ok nows s1"
  using live_ok_edit[of nows s edit u] by simp

lemma live_ok_fields:
  "live_ok nows s \<Longrightarrow> live_ok nows (s\<lparr>match_start_times := a\<rparr>)"
  "live_ok nows s \<Longrightarrow> live_ok nows (s\<lparr>match_last_scores := b\<rparr>)"
  "live_ok nows s \<Longrightarrow> live_ok nows (s\<lparr>match_loaded_users := c\<rparr>)"
  "live_ok nows s \<Longrightarrow> live_ok nows (s\<lparr>channels := cs\<rparr>)"
  "live_ok nows s \<Longrightarrow> live_ok nows (s\<lparr>lobby_subscribers := ls\<rparr>)"
  "live_ok nows s \<Longrightarrow> live_ok nows (s\<lparr>pm_warned_pairs := ps\<rparr>)"
  "live_ok nows s \<Longrightarrow> live_ok nows (s\<lparr>sessions := ss\<rparr>)"
  "live_ok nows s \<Longrightarrow> live_ok nows (s\<lparr>user_id_to_token := ut\<rparr>)"
  "live_ok nows s \<Longrightarrow> live_ok nows (modify_session t f s)"
  by - (rule live_ok_same, assumption, simp, simp, simp add: known_ids_def)+

lemma live_ok_play:
  assumes "live_ok nows s"
  shows "ids_agree (match_change_team env u s) \<Longrightarrow> live_ok nows (match_change_team env u s)"
    "ids_agree (match_change_host env u slot s) \<Longrightarrow> live_ok nows (match_change_host env u slot s)"
    "ids_agree (match_start env u s) \<Longrightarrow> live_ok nows (match_start env u s)"
    "ids_agree (match_complete env u s) \<Longrightarrow> live_ok nows (match_complete env u s)"
    "live_ok nows (match_load_complete u s)" "live_ok nows (match_score_update u payload frame s)"
    "live_ok nows (announce_slot build u s)"
  subgoal
    using live_ok_result[OF assms] unfolding match_change_team_def
    by (auto split: option.splits prod.splits
        intro!: live_ok_sync_keeps live_ok_try_finish live_ok_deliver)
  subgoal
    using live_ok_result[OF assms] unfolding match_change_host_def
    by (auto split: option.splits prod.splits
        intro!: live_ok_announce live_ok_deliver)
  subgoal
    using live_ok_result[OF assms] unfolding match_start_def Let_def
    by (auto split: option.splits prod.splits
        intro!: live_ok_sync_keeps live_ok_deliver live_ok_fields)
  subgoal
    using assms live_ok_edit[OF assms] unfolding match_complete_def
    by (auto split: option.splits intro!: live_ok_try_finish)
  subgoal using assms unfolding match_load_complete_def Let_def
    by (auto split: option.split intro!: live_ok_deliver live_ok_fields)
  subgoal using assms unfolding match_score_update_def relay_match_score_frame_def Let_def
    by (auto split: option.split io_res.split intro!: live_ok_deliver live_ok_fields)
  subgoal using assms unfolding announce_slot_def
    by (auto split: option.split intro!: live_ok_deliver)
  done

lemma live_ok_part:
  assumes "room_inv s" and "live_ok nows s" and "ids_agree (match_part env u s)"
  shows "live_ok nows (match_part env u s)"
proof (cases "remove_user_from_match u s")
  case (Pair r s1)
  have s1: "room_inv s1" "live_ok nows s1"
    using room_inv_remove_user[OF assms(1), of u] live_ok_remove_user(1)[OF assms(1,2), of u] Pair by simp_all
  show ?thesis
    using assms(3) s1 room_inv_pending[OF s1(1)]
    by (auto simp: match_part_def Pair Let_def split: option.splits prod.splits
        intro!: live_ok_cleanup live_ok_sync_keeps live_ok_try_finish live_ok_deliver)
qed

text \<open>Entering a match: its row is written after the user's old match may have closed.\<close>

lemma live_ok_enter:
  assumes "live_ok nows s1" and "room_inv s1"
    and "tasks s = tasks s1" and "hget (matches s) = (hget (matches s1))(mid \<mapsto> m)"
    and "pending_disbanded_matches s = pending_disbanded_matches s1"
    and "mid \<notin> set (pending_disbanded_matches s1)" and "m_id m = mid"
  shows "live_ok nows (cleanup_disbanded_matches (sync_match_to_multi_db env mid s))"
proof (rule live_ok_cleanup)
  have "live nows (tasks s) (dom (hget (matches s)) - {mid}) (known_ids s)"
    using assms(1) unfolding live_ok_def assms(3)
    by (rule live_mono) (auto simp: assms(4) known_ids_def assms(5))
  moreover have "ids_agree s"
    using room_inv_ids[OF assms(2)] assms(7) by (simp add: ids_agree_def assms(4))
  moreover have "mid \<in> dom (hget (matches s))" by (simp add: assms(4))
  ultimately show "live_ok nows (sync_match_to_multi_db env mid s)"
    by (intro live_ok_sync)
  show "hget (matches (sync_match_to_multi_db env mid s)) mid' = None"
    if "mid' \<in> set (pending_disbanded_matches (sync_match_to_multi_db env mid s))" for mid'
    using that room_inv_pending[OF assms(2), of mid'] assms(6) by (auto simp: assms(4,5))
qed

lemma live_ok_create:
  assumes "rooms_ok s" and "live_ok nows s"
  shows "live_ok nows (match_create env token u m s)"
proof -
  have inv: "room_inv s" using assms(1) by (simp add: rooms_ok_def)
  note left = room_inv_leave_current[OF inv, of u] live_ok_remove_user(2)[OF inv assms(2), of u]
  have "next_match_id s \<notin> known_ids s"
    using assms(1) fresh_ids_free[of s] by (auto simp: rooms_ok_def known_ids_def)
  then have "next_match_id s \<notin> set (pending_disbanded_matches (leave_current u s))"
    using known_ids_leave_parts(2)[of u s] by blast
  then show ?thesis
    unfolding match_create_def Let_def
    by (intro live_ok_enter[OF left(2,1), where m = "created_match (next_match_id s) u m"])
      (simp_all add: created_match_def)
qed

lemma live_ok_join:
  assumes "room_inv s" and "live_ok nows s"
  shows "live_ok nows (match_join env token u mid pw s)"
proof -
  note left = room_inv_leave_current[OF assms(1), of u] live_ok_remove_user(2)[OF assms, of u]
  have seat: "m_id (seat_player u m) = m_id m" for m by (simp add: seat_player_def)
  show ?thesis
  proof (cases "hget (matches (leave_current u s)) (ucast mid)")
    case (Some m)
    have "ucast mid \<notin> set (pending_disbanded_matches (leave_current u s))"
      using room_inv_pending[OF left(1), of "ucast mid"] Some by auto
    moreover have "m_id m = ucast mid" using room_inv_match(1)[OF left(1) Some] .
    ultimately show ?thesis
      using assms(2) unfolding match_join_def Let_def Some option.case
      by (cases "can_join (hget (matches s) (ucast mid)) pw")
        (auto simp: live_ok_fields seat intro!: live_ok_enter[OF left(2,1)])
  qed (use assms(2) left in \<open>simp add: match_join_def Let_def live_ok_fields\<close>)
qed

lemma tasks_spectating [simp]:
  fixes s :: sys
  shows "tasks (stop_spectating_packet u s) = tasks s" "tasks (release_spectators u s) = tasks s"
    "tasks (leave_channels u s) = tasks s" "tasks (start_spectating token u target s) = tasks s"
proof -
  show stop: "tasks (stop_spectating_packet u s) = tasks s"
    by (auto simp: stop_spectating_packet_eq stop_spectating_def Let_def split: option.split)
  have "tasks (fold (\<lambda>v s. send_to_user v p (s\<lparr>spectating_target := hdel v (spectating_target s)\<rparr>)) vs x) = tasks x"
    for p vs and x :: sys
    by (induction vs arbitrary: x) simp_all
  then show "tasks (release_spectators u s) = tasks s"
    by (simp add: release_spectators_def split: option.split)
  show "tasks (leave_channels u s) = tasks s" by (simp add: leave_channels_def)
  have "tasks (fold (\<lambda>x. send_to_user u (build_fellow_spectator_joined x)) xs st) = tasks st" for xs and st :: sys
    by (induction xs arbitrary: st) simp_all
  then show "tasks (start_spectating token u target s) = tasks s"
    by (simp add: start_spectating_def Let_def stop)
qed

lemma matches_start_spectating: "matches (start_spectating token u target s) = matches s"
  by (simp add: start_spectating_def Let_def)

lemma live_ok_spectating:
  "live_ok nows s \<Longrightarrow> live_ok nows (stop_spectating_packet u s)"
  "live_ok nows s \<Longrightarrow> live_ok nows (release_spectators u s)"
  "live_ok nows s \<Longrightarrow> live_ok nows (leave_channels u s)"
  "live_ok nows s \<Longrightarrow> live_ok nows (start_spectating token u target s)"
  by - (rule live_ok_same, assumption, simp, simp add: matches_start_spectating,
      simp add: next_id_start_spectating)+

lemma live_ok_remove_session:
  assumes "room_inv s" and "live_ok nows s"
  shows "live_ok nows (snd (remove_session token s))"
proof (cases "hget (sessions s) token")
  case (Some x)
  let ?s1 = "s\<lparr>sessions := hdel token (sessions s),
      user_id_to_token := hdel (ss_user_id x) (user_id_to_token s),
      lobby_subscribers := hs_remove (ss_user_id x) (lobby_subscribers s)\<rparr>"
  have "room_inv ?s1"
    using assms(1) by (rule room_inv_cong[rotated -1]) simp_all
  moreover have "live_ok nows ?s1"
    using assms(2) by (simp add: live_ok_fields)
  ultimately have "room_inv ?s1" "live_ok nows ?s1" .
  then show ?thesis
    by (simp add: remove_session_eq[OF Some] live_ok_spectating live_ok_remove_user(2))
qed (use assms in \<open>simp add: remove_session_absent\<close>)

subsection \<open>Every step of the server\<close>

interpretation live_hold: server_invariant "\<lambda>s. rooms_ok s \<and> live_ok nows s" "\<lambda>s. next_match_id s \<noteq> - 1" for nows
proof -
  have ids: "ids_agree s" if "rooms_ok s" for s
    using that room_inv_ids by (simp add: rooms_ok_def)
  have inv: "room_inv s" if "rooms_ok s" for s
    using that by (simp add: rooms_ok_def)
  show "server_invariant (\<lambda>s. rooms_ok s \<and> live_ok nows s) (\<lambda>s. next_match_id s \<noteq> - 1)"
  proof (unfold_locales, goal_cases)
    case (1 s s')
    then show ?case using rooms_hold.quiet live_ok_quiet by blast
  next
    case (9 s token)
    then show ?case using rooms_hold.gone live_ok_remove_session[OF inv] by blast
  next
    case (10 s)
    then show ?case
      using rooms_hold.cleaned[of s] live_ok_cleanup[of nows s] room_inv_pending[OF inv, of s] by blast
  next
    case (11 s u env token m)
    then show ?case using rooms_hold.created live_ok_create by blast
  next
    case (12 s u env token mid pw)
    then show ?case using rooms_hold.joined live_ok_join[OF inv] by blast
  next
    case (13 s env u)
    then show ?case using rooms_hold.parted[of s env u] live_ok_part[OF inv, of s nows env u] ids by blast
  next
    case (3 s f t)
    then show ?case using rooms_hold.session_write[of s f t] live_ok_fields(9) by blast
  qed (blast intro: live_ok_spawn live_ok_fields live_ok_spectating ids live_ok_edits live_ok_play
      rooms_hold.spawned rooms_hold.channel_write rooms_hold.lobby_write rooms_hold.warned_write
      rooms_hold.spectate rooms_hold.unspectate rooms_hold.edited rooms_hold.played)+
qed

interpretation live_server: whole_server "\<lambda>s. rooms_ok s \<and> live_ok nows s" "\<lambda>s. next_match_id s \<noteq> - 1" for nows
proof unfold_locales
  fix s and x :: session
  assume a: "rooms_ok s \<and> live_ok nows s" "positive (ss_user_id x)" "get_session (ss_token x) s = None"
  have "live_ok nows (add_session x s)"
    by (rule live_ok_same[of nows s]) (use a in \<open>simp_all add: known_ids_def\<close>, simp add: add_session_def)
  then show "rooms_ok (add_session x s) \<and> live_ok nows (add_session x s)"
    using a rooms_server.added by blast
qed

lemma reachable_live_ok:
  assumes "reachable n st" and "n < 65535"
  shows "live_ok nows st"
  using assms
proof induction
  case (start now rules)
  show ?case using live_start by (simp add: live_ok_def known_ids_def)
next
  case (packet n st uid packet_id sv env token payload)
  have n: "n < 65535" using packet.prems by (auto split: if_splits)
  note ok = reachable_rooms_ok[OF packet.hyps(1) n]
  have "unat (- 1 :: u16) = 65535" by (simp add: unsigned_minus_1_eq_mask mask_eq_exp_minus_1)
  then have "packet_id = OSU_MATCH_CREATE \<Longrightarrow> next_match_id st \<noteq> - 1"
    using ok packet.prems by auto
  then show ?case
    using live_hold.handle_packet_keeps[of st nows uid packet_id sv env token payload]
      ok packet.IH[OF n] packet.hyps(2) by blast
next
  case (evict n st uid)
  then show ?case using reachable_rooms_ok live_server.login_keeps(1)[of st nows uid] by blast
next
  case (enter n st s sv)
  then show ?case using reachable_rooms_ok live_server.login_keeps(2)[of st nows s sv] by blast
next
  case (ping n st env header token)
  then show ?case using reachable_rooms_ok live_server.poll_keeps(1)[of st nows env header token] by blast
next
  case (drain n st token)
  then show ?case using reachable_rooms_ok live_server.poll_keeps(2)[of st nows token] by blast
next
  case (stats n st sv auth uid mode rx)
  then show ?case
    using reachable_rooms_ok live_server.stats_update_keeps[of st nows sv auth uid mode rx] by blast
next
  case (prune n st now)
  then show ?case using reachable_rooms_ok live_server.prune_keeps[of st nows now] by blast
next
  case (replay n st history token chan)
  then show ?case
    using reachable_rooms_ok live_server.replay_keeps[of st nows history token chan] by blast
qed

text \<open>The list of the live rooms is the list of the open matches.\<close>

lemma live_rooms_open:
  assumes "live_ok nows st" and "pending_disbanded_matches st = []"
  defines "db \<equiv> run_multi_tasks nows (tasks st) empty_multi_db"
  shows "distinct (map (lr_match_id \<circ> rd_room) (get_all_live_rooms db))"
    "set (map (lr_match_id \<circ> rd_room) (get_all_live_rooms db)) = ucast ` dom (hget (matches st))"
proof -
  have ok: "multi_ok db" and ids: "room_ids db = ucast ` dom (hget (matches st))"
    using assms by (auto simp: live_ok_def live_def known_ids_def)
  have rooms: "map (lr_match_id \<circ> rd_room) (get_all_live_rooms db) =
      map lr_match_id (order_desc (sint \<circ> lr_updated_at) (md_rooms db))"
    by (simp add: get_all_live_rooms_eq[OF ok] room_details_def)
  show "distinct (map (lr_match_id \<circ> rd_room) (get_all_live_rooms db))"
    unfolding rooms using ok by (auto simp: multi_ok_def intro: distinct_map_mset)
  show "set (map (lr_match_id \<circ> rd_room) (get_all_live_rooms db)) = ucast ` dom (hget (matches st))"
    unfolding rooms using ids by (simp add: room_ids_def)
qed

end
