(* ===== verification/Server_Properties.thy ===== *)
theory Server_Properties
  imports Samples Live_Rooms
begin

text \<open>
  What the server as a whole guarantees: every request is a sequence of steps, sessions and
  spectators stay consistent, users who leave are gone everywhere, and who may log in.
\<close>

subsection \<open>Sessions and spectators\<close>

text \<open>C2: Handling a request of any client is a sequence of steps of the server: from a
  reachable state it leads to a reachable one, with at most one match created per seven
  bytes of the body.\<close>

theorem poll_is_steps:
  assumes "reachable n st"
  shows "\<exists>m \<le> n + length body div 7.
    reachable m (snd (handle_packet_poll sv envs version_header token body st))"
proof (cases "get_session token st")
  case None
  then show ?thesis using assms by (auto simp: handle_packet_poll_def intro!: exI[of _ n])
next
  case (Some s)
  let ?st1 = "poll_begin (envs 0) version_header token st"
  define r where "r = (if body \<noteq> [] then handle_client_packets sv envs token 1 body ?st1 else (Stop, ?st1))"
  have st1: "reachable n ?st1" by (rule reachable.ping[OF assms])
  then obtain m where m: "m \<le> n + length body div 7" "reachable m (snd r)"
    using reachable_client_packets[OF st1, of body sv envs token 1]
    by (cases "body = []") (auto simp: r_def intro: that[of n])
  have "snd (handle_packet_poll sv envs version_header token body st) = snd r
      \<or> snd (handle_packet_poll sv envs version_header token body st) = snd (poll_end token (snd r))"
    by (cases r) (simp add: handle_packet_poll_def Some Let_def r_def[symmetric] split: prod.split)
  then show ?thesis using m reachable.drain[OF m(2), of token] by metis
qed

theorem poll_is_steps_witness:
  "\<exists>m \<le> 1 + 2. reachable m (snd (handle_packet_poll sample_services (\<lambda>_. sample_env) None (lit ''ann'')
     (build_packet OSU_PONG [] @ build_packet OSU_PONG []) lonely_state))"
  using poll_is_steps[OF lonely_reachable, where body = "build_packet OSU_PONG [] @ build_packet OSU_PONG []"]
  by (simp add: length_build_packet)

text \<open>C26: In every reachable state a user's token leads to a session of that user which carries
  this token, all users with a session have positive ids, and no token serves two users.\<close>

theorem reachable_sessions_consistent:
  assumes "reachable n st" and "hget (user_id_to_token st) u = Some token"
  shows "\<exists>s. hget (sessions st) token = Some s \<and> ss_token s = token \<and> ss_user_id s = u
    \<and> positive u \<and> (\<forall>v. hget (user_id_to_token st) v = Some token \<longrightarrow> v = u)"
proof -
  have inv: "session_inv st" by (rule reachable_session_inv[OF assms(1)])
  obtain s where "hget (sessions st) token = Some s" "ss_user_id s = u" "ss_token s = token"
    using session_inv_user[OF inv assms(2)] by blast
  moreover have "positive u"
    using reachable_ids_positive[OF assms(1)] calculation by (auto simp: ids_positive_def)
  ultimately show ?thesis using session_inv_inj[OF inv _ assms(2)] by auto
qed

theorem reachable_sessions_consistent_witness:
  "\<exists>s. hget (sessions ann_online) (lit ''ann'') = Some s \<and> ss_user_id s = 5"
  using reachable_sessions_consistent[OF ann_online] by auto

text \<open>C25: In every reachable state the two spectator tables mirror each other: a user watches
  a host exactly when it is in the host's list, which has no duplicates, is never empty and
  never holds the host; so nobody watches two hosts or itself.\<close>

theorem reachable_spectators_mirrored:
  assumes "reachable n st"
  shows "(\<forall>u h. hget (spectating_target st) u = Some h \<longleftrightarrow>
        (\<exists>us. hget (spectators st) h = Some us \<and> u \<in> set us))
    \<and> (\<forall>h us. hget (spectators st) h = Some us \<longrightarrow> us \<noteq> [] \<and> distinct us \<and> h \<notin> set us)"
proof -
  have m: "mirrored (hget (spectators st)) (hget (spectating_target st))"
    using reachable_spec_inv[OF assms] by (simp add: spec_inv_def)
  have w: "u \<in> set (watchers (hget (spectators st)) h) \<longleftrightarrow>
      (\<exists>us. hget (spectators st) h = Some us \<and> u \<in> set us)" for u h
    by (cases "hget (spectators st) h") (simp_all add: watchers_def)
  have "us \<noteq> [] \<and> distinct us \<and> h \<notin> set us" if "hget (spectators st) h = Some us" for h us
    using mirroredD(2-4)[OF m, of h] that by (auto simp: watchers_def)
  moreover have "hget (spectating_target st) u = Some h \<longleftrightarrow>
      (\<exists>us. hget (spectators st) h = Some us \<and> u \<in> set us)" for u h
    using mirroredD(1)[OF m, of u h] unfolding w .
  ultimately show ?thesis by blast
qed

theorem reachable_spectators_mirrored_witness:
  "\<exists>us. hget (spectators (start_spectating (lit ''ann'') 7 5 ann_online)) 5 = Some us \<and> 7 \<in> set us"
proof -
  let ?st = "start_spectating (lit ''ann'') 7 5 ann_online"
  have "snd (handle_packet sample_services sample_env (lit ''ann'') 7 OSU_START_SPECTATING (write_i32 5)
      ann_online) = ?st"
    using i32c.dec_enc_all[of 5] by (simp add: handle_packet_def on_parsed_def)
  then have "reachable 1 ?st"
    using reachable.packet[OF ann_online(1), of 7 OSU_START_SPECTATING sample_services sample_env
      "lit ''ann''" "write_i32 5"] by simp
  moreover have "hget (spectating_target ?st) 7 = Some 5"
    by (simp add: start_spectating_def Let_def ann_online(2) add_to_channel_def)
  ultimately show ?thesis using reachable_spectators_mirrored[of 1 ?st] by blast
qed

subsection \<open>Leaving\<close>

text \<open>What leaving does to the tables of matches: only a match of this user alone goes.\<close>

definition emptied_by :: "i32 \<Rightarrow> sys \<Rightarrow> u16 list" where
  "emptied_by u st =
     (case hget (user_to_match st) u of
        None \<Rightarrow> []
      | Some mid \<Rightarrow> if map_option players (hget (matches st) mid) = Some [u] then [mid] else [])"

lemma leave_current_pending:
  assumes "room_inv st"
  shows "pending_disbanded_matches (leave_current u st) = pending_disbanded_matches st @ emptied_by u st"
proof (cases "hget (user_to_match st) u")
  case (Some mid)
  then show ?thesis
    by (rule remove_user_present[OF assms]) (auto simp: emptied_by_def Some)
qed (simp add: remove_user_absent emptied_by_def)

lemma leave_current_matches:
  assumes "room_inv st" and m: "hget (matches st) mid = Some m"
  shows "hget (matches (leave_current u st)) mid = None \<longleftrightarrow> players m = [u]"
    and "players m = [u] \<Longrightarrow> mid \<in> set (emptied_by u st)"
proof -
  have seat: "u \<in> set (players m) \<longleftrightarrow> hget (user_to_match st) u = Some mid"
    by (rule room_inv_seat[OF assms])
  show "mid \<in> set (emptied_by u st)" if "players m = [u]"
    using seat that m by (simp add: emptied_by_def)
  show "hget (matches (leave_current u st)) mid = None \<longleftrightarrow> players m = [u]"
  proof (cases "hget (user_to_match st) u")
    case None
    then show ?thesis using seat m by (auto simp: leave_current_eq remove_user_absent)
  next
    case (Some mid')
    then show ?thesis
    proof (rule remove_user_present[OF assms(1)], goal_cases)
      case (1 m')
      then show ?thesis using seat m Some by (cases "mid' = mid") (auto simp: leave_current_eq)
    qed
  qed
qed

text \<open>C9: After a logout nothing of the user is left: its session and token are gone, it is in
  no lobby, match or channel, watches nobody and is watched by nobody.  A match of this user
  alone is gone, every other match stays, and for exactly the emptied match (beside those that
  waited already) a task is started that deletes it from the live rooms; no other task is
  started.  The invariants of sessions, matches and spectators stay.\<close>

theorem logout_leaves_no_trace:
  assumes "session_inv st" and "room_inv st" and "spec_inv st"
    and "hget (sessions st) token = Some s" and "ss_user_id s = u"
  shows "let st' = logout token st in
    hget (sessions st') token = None \<and> hget (user_id_to_token st') u = None
    \<and> u \<notin> set (lobby_subscribers st') \<and> hget (user_to_match st') u = None
    \<and> (\<forall>mid m. hget (matches st') mid = Some m \<longrightarrow> u \<notin> set (players m))
    \<and> (\<forall>name ch. hget (channels st') name = Some ch \<longrightarrow> u \<notin> set (ch_members ch))
    \<and> hget (spectating_target st') u = None \<and> hget (spectators st') u = None
    \<and> (\<forall>v. hget (spectating_target st') v \<noteq> Some u)
    \<and> pending_disbanded_matches st' = []
    \<and> tasks st' = tasks st @ map DeleteRoom (pending_disbanded_matches st
        @ (case hget (user_to_match st) u of
             None \<Rightarrow> []
           | Some mid \<Rightarrow> if map_option players (hget (matches st) mid) = Some [u] then [mid] else []))
    \<and> (\<forall>mid m. hget (matches st) mid = Some m \<longrightarrow>
         (if players m = [u] then hget (matches st') mid = None \<and> DeleteRoom mid \<in> set (tasks st')
          else hget (matches st') mid \<noteq> None))
    \<and> session_inv st' \<and> room_inv st' \<and> spec_inv st'"
proof -
  define st0 where "st0 = st\<lparr>sessions := hdel token (sessions st),
      user_id_to_token := hdel u (user_id_to_token st),
      lobby_subscribers := hs_remove u (lobby_subscribers st)\<rparr>"
  define st1 where "st1 = snd (remove_session token st)"
  have st1: "st1 = leave_channels u (release_spectators u (stop_spectating_packet u (leave_current u st0)))"
    using assms(4,5) by (simp add: st1_def remove_session_eq st0_def)
  have inv: "session_inv st1" "room_inv st1" "spec_inv st1"
    unfolding st1_def
    by (simp_all add: session_inv_remove_session room_inv_remove_session spec_inv_remove_session assms(1-3))
  have inv0: "spec_inv (stop_spectating_packet u (leave_current u st0))"
    using assms(3) by (intro spec_inv_stop_packet spec_inv_leave_current) (simp add: st0_def spec_inv_def)
  have "hkeys (sessions st1) = hkeys (hdel token (sessions st))"
    by (simp add: st1 leave_current_eq remove_user_frame st0_def)
  then have tok: "hget (sessions st1) token = None"
    using arg_cong[of _ _ set] by (simp only: hm.fresh_key hm.keys_del) simp
  have um: "hget (user_to_match st1) u = None" by (simp add: st1)
  then have pl: "hget (matches st1) mid = Some m \<Longrightarrow> u \<notin> set (players m)" for mid m
    using room_inv_seat[OF inv(2), of mid m u] by simp
  have ch: "hget (channels st1) name = Some ch \<Longrightarrow> u \<notin> set (ch_members ch)" for name ch
    by (auto simp: st1 remove_member_def)
  have tg: "hget (spectating_target st1) u = None"
    by (simp add: st1 spec_inv_release(3) stop_spectating_packet_eq stop_spectating_target)
  have sp: "hget (spectators st1) u = None" by (simp add: st1 spec_inv_release(2)[OF inv0])
  then have "hget (spectating_target st1) v \<noteq> Some u" for v
    using mirroredD(1)[of "hget (spectators st1)" "hget (spectating_target st1)" v u] inv(3)
    by (simp add: spec_inv_def watchers_def)
  moreover define b where "b = broadcast (build_user_quit u 0) st1"
  moreover have "session_inv (cleanup_disbanded_matches b)" "room_inv (cleanup_disbanded_matches b)"
    "spec_inv (cleanup_disbanded_matches b)"
    using inv by (simp_all add: b_def session_inv_cleanup room_inv_tasks(3) to_all.session_inv_run
        to_all.room_inv_run spec_inv_def)
  moreover have st': "logout token st = cleanup_disbanded_matches b"
    using assms(4,5) by (simp add: logout_def st1_def remove_session_eq b_def)
  moreover have "u \<notin> set (lobby_subscribers st1)" "hget (user_id_to_token st1) u = None"
    by (simp_all add: st1 st0_def)
  moreover have "hget (sessions b) token = None"
    using to_all.run_absent[OF tok] by (simp add: b_def)
  moreover have same: "emptied_by u st0 = emptied_by u st" "room_inv st0"
      "pending_disbanded_matches st0 = pending_disbanded_matches st" "tasks st0 = tasks st"
      "matches st0 = matches st"
    by (simp_all add: st0_def emptied_by_def room_inv_cong[OF _ _ _ _ _ _ assms(2)]
        cong: option.case_cong)
  moreover have pend: "pending_disbanded_matches b = pending_disbanded_matches st @ emptied_by u st"
    using leave_current_pending[OF same(2), of u] same by (simp add: b_def st1)
  moreover have "tasks b = tasks st" by (simp add: b_def st1 same)
  moreover have "hget (matches b) mid = None \<longleftrightarrow> players m = [u]" if "hget (matches st) mid = Some m" for mid m
    using leave_current_matches(1)[OF same(2), of mid m u] that same by (simp add: b_def st1)
  moreover have "mid \<in> set (emptied_by u st)"
    if "hget (matches st) mid = Some m" "players m = [u]" for mid m
    using leave_current_matches(2)[OF assms(2) that] .
  ultimately show ?thesis
    unfolding Let_def st' emptied_by_def[symmetric] using um pl ch tg sp
    by (simp add: cleanup_eq image_Un)
qed

theorem logout_leaves_no_trace_witness:
  "hget (user_to_match (logout (lit ''ann'') (sample_state SLOT_READY False))) 5 = None"
  using logout_leaves_no_trace[OF sample_session_inv[of SLOT_READY False]
      sample_room_inv[of SLOT_READY False] sample_spec_inv, of "lit ''ann''" _ 5]
  by (simp add: sample_session_def new_session_def Let_def)

lemma keys_remove_session:
  "set (hkeys (sessions (snd (remove_session token st)))) = set (hkeys (sessions st)) - {token}"
proof (cases "hget (sessions st) token")
  case None
  then show ?thesis by (simp add: remove_session_absent hm.fresh_key)
next
  case (Some s)
  have "hkeys (sessions (snd (remove_session token st))) = hkeys (hdel token (sessions st))"
    by (simp add: remove_session_eq[OF Some] leave_current_eq remove_user_frame)
  from arg_cong[OF this, of set] show ?thesis by (simp only: hm.keys_del)
qed

lemma keys_prune_fold:
  "set (hkeys (sessions (fold prune_one xs st))) = set (hkeys (sessions st)) - set (map fst xs)"
proof (induction xs arbitrary: st)
  case (Cons x xs)
  have "set (hkeys (sessions (prune_one x st))) = set (hkeys (sessions st)) - {fst x}"
    using keys_remove_session[of "fst x" st]
    by (simp only: prune_one_def split_def to_all.run_keys)
  then show ?case unfolding fold_Cons o_apply Cons.IH by auto
qed simp

text \<open>The pruning task removes exactly the sessions that have been silent for more than two
  minutes, takes over every match this closes into the deletions, and keeps the other
  guarantees.  The tokens of the session table are distinct, as the keys of a map are.\<close>

theorem prune_removes_the_silent:
  assumes "distinct (hkeys (sessions st))" and "session_inv st" and "room_inv st" and "spec_inv st"
  shows "let st' = prune_sessions now st in
    (\<forall>token. hget (sessions st') token \<noteq> None \<longleftrightarrow>
       (\<exists>s. hget (sessions st) token = Some s \<and> now - ss_last_ping s \<le> 120 * 1000000000))
    \<and> pending_disbanded_matches st' = [] \<and> session_inv st' \<and> room_inv st' \<and> spec_inv st'"
proof -
  have inv: "session_inv (fold prune_one xs s) \<and> room_inv (fold prune_one xs s)
      \<and> spec_inv (fold prune_one xs s)"
    if "session_inv s" "room_inv s" "spec_inv s" for xs s
    using that
    by (induction xs arbitrary: s)
      (simp_all add: prune_one_def split_def session_inv_remove_session room_inv_remove_session
        spec_inv_remove_session to_all.session_inv_run to_all.room_inv_run to_all.spec_inv_run)
  have gone: "token \<in> set (map fst (timed_out now st)) \<longleftrightarrow>
      (\<exists>s. hget (sessions st) token = Some s \<and> 120 * 1000000000 < now - ss_last_ping s)" for token
    using assms(1) by (force simp: timed_out_def image_iff split_def)
  have "hget (sessions (fold prune_one (timed_out now st) st)) token \<noteq> None \<longleftrightarrow>
      (\<exists>s. hget (sessions st) token = Some s \<and> now - ss_last_ping s \<le> 120 * 1000000000)" for token
    using keys_prune_fold[of "timed_out now st" st] gone[of token]
      hm.fresh_key[of "sessions st" token]
      hm.fresh_key[of "sessions (fold prune_one (timed_out now st) st)" token]
    by (cases "hget (sessions st) token") auto
  then show ?thesis
    using inv[OF assms(2-4), of "timed_out now st"]
    by (simp add: prune_sessions_def Let_def session_inv_cleanup room_inv_tasks(3) spec_inv_def)
      (simp add: cleanup_eq)
qed

theorem prune_removes_the_silent_witness:
  "hget (sessions (prune_sessions (121 * 1000000000) (sample_state SLOT_READY False))) (lit ''ann'') = None
   \<and> hget (sessions (prune_sessions (120 * 1000000000) (sample_state SLOT_READY False))) (lit ''ann'') \<noteq> None"
proof -
  have d: "distinct (hkeys (sessions (sample_state SLOT_READY False)))"
    by (simp add: sample_state_def)
  note p = prune_removes_the_silent[OF d sample_session_inv sample_room_inv sample_spec_inv,
      unfolded Let_def, THEN conjunct1, THEN spec, of _ "lit ''ann''"]
  show ?thesis
    using p[of "121 * 1000000000"] p[of "120 * 1000000000"]
    by (simp add: sample_session_def new_session_def)
qed

subsection \<open>Logging in\<close>

text \<open>C10: A token is handed out only to a client outside the blocked networks that gave the
  password of an existing user, or that was registered just now because nobody has the name;
  the limit of accounts per device holds in both cases, private addresses exempt.\<close>

theorem token_needs_credentials:
  assumes "token \<noteq> no_token"
    and "fst (handle_login sv cfg ac env token version_header ip body st) = LoginReply token packets"
  shows "\<exists>rq user. parse_login ac version_header body = Parsed rq
    \<and> \<not> (lc_block_vpn cfg \<and> is_known_vpn_or_datacenter ip)
    \<and> (ac_find_user ac (clean_username (lq_username rq)) = Some (Some user)
         \<and> (ac_verify_password ac (lq_password_md5 rq) (lu_password_hash user)
            \<or> ac_verify_password ac (ac_md5_hex ac (lq_password_md5 rq)) (lu_password_hash user))
         \<and> \<not> too_many_accounts cfg ac ip (Some (lu_id user)) (lq_hardware rq)
       \<or> ac_find_user ac (clean_username (lq_username rq)) = Some None \<and> lc_auto_register cfg
         \<and> \<not> too_many_accounts cfg ac ip None (lq_hardware rq)
         \<and> register_user cfg ac rq = Allow user)"
proof -
  obtain rq where rq: "parse_login ac version_header body = Parsed rq"
    using assms by (cases "parse_login ac version_header body") (auto simp: handle_login_def)
  have v: "\<not> (lc_block_vpn cfg \<and> is_known_vpn_or_datacenter ip)"
    using assms rq by (auto simp: handle_login_def)
  obtain user where "authenticate cfg ac ip rq = Allow user"
    using assms rq v by (cases "authenticate cfg ac ip rq") (auto simp: handle_login_def)
  then show ?thesis
    using rq v by (auto simp: authenticate_def split: option.splits if_splits)
qed

text \<open>One user, \<open>ann\<close>, whose hash is her password, for the examples.\<close>

definition sample_config :: login_config where
  "sample_config = \<lparr>lc_block_vpn = True, lc_anti_multiaccount = False, lc_max_accounts_per_hwid = 1,
     lc_auto_register = False, lc_default_country = 0, lc_welcome_message = []\<rparr>"

definition sample_accounts :: accounts where
  "sample_accounts = \<lparr>ac_find_user = (\<lambda>n. Some (if n = lit ''ann''
       then Some \<lparr>lu_id = 5, lu_username = lit ''ann'', lu_password_hash = lit ''secret'',
         lu_privileges = 1, lu_country = 0\<rparr> else None)),
     ac_create_user = (\<lambda>_ _ _ _. None), ac_check_multiaccount = (\<lambda>_ _ _. None),
     ac_verify_password = (=), ac_md5_hex = id, ac_hash_password = Some, ac_fingerprint = (\<lambda>_. id),
     ac_badge_tags = (\<lambda>_. None)\<rparr>"

definition sample_login :: "string \<Rightarrow> u8 list" where
  "sample_login password = utf8_encode (lit ''ann'' @ [10] @ lit password @ [10] @ lit ''b1|0|x|a:b:c|0'')"

lemma sample_trim: "trim (lit ''ann'') = lit ''ann''" "trim (lit ''secret'') = lit ''secret''"
  "trim (lit ''wrong'') = lit ''wrong''" "clean_username (lit ''ann'') = lit ''ann''"
  by code_simp+

lemma sample_lines:
  "str_lines (lit ''ann'' @ [10] @ lit ''secret'' @ [10] @ lit ''b1|0|x|a:b:c|0'') =
     [lit ''ann'', lit ''secret'', lit ''b1|0|x|a:b:c|0'']"
  "str_lines (lit ''ann'' @ [10] @ lit ''wrong'' @ [10] @ lit ''b1|0|x|a:b:c|0'') =
     [lit ''ann'', lit ''wrong'', lit ''b1|0|x|a:b:c|0'']"
  by code_simp+

lemma sample_parse:
  assumes "password \<in> {''secret'', ''wrong''}"
  obtains rq where "parse_login sample_accounts None (sample_login password) = Parsed rq"
    and "lq_username rq = lit ''ann''" and "lq_password_md5 rq = lit password"
proof -
  have "utf8_decode (sample_login password) =
      Some (lit ''ann'' @ [10] @ lit password @ [10] @ lit ''b1|0|x|a:b:c|0'')"
    unfolding sample_login_def
    by (rule utf8_decode_encode)
      (use assms in \<open>auto simp: valid_str_def lit_def is_scalar_def is_surrogate_def\<close>)
  then show ?thesis
    using that assms sample_lines sample_trim by (auto simp: parse_login_def Let_def)
qed

lemma sample_ip: "\<not> is_known_vpn_or_datacenter (IPv6 1)"
  by (simp add: is_known_vpn_or_datacenter_def)

lemma sample_accepted:
  "\<exists>packets. fst (handle_login sample_services sample_config sample_accounts sample_env (lit ''t1'')
     None (IPv6 1) (sample_login ''secret'') (sample_state SLOT_READY False)) =
   LoginReply (lit ''t1'') packets"
proof -
  obtain rq where rq: "parse_login sample_accounts None (sample_login ''secret'') = Parsed rq"
    "lq_username rq = lit ''ann''" "lq_password_md5 rq = lit ''secret''"
    by (rule sample_parse[of "''secret''"]) simp_all
  have "\<exists>user. authenticate sample_config sample_accounts (IPv6 1) rq = Allow user"
    by (simp add: authenticate_def rq(2,3) sample_trim sample_accounts_def too_many_accounts_def
        sample_config_def)
  then show ?thesis
    by (auto simp: handle_login_def rq(1) sample_ip Let_def split: prod.split)
qed

theorem token_needs_credentials_witness:
  "\<exists>rq user. parse_login sample_accounts None (sample_login ''secret'') = Parsed rq
     \<and> ac_find_user sample_accounts (clean_username (lq_username rq)) = Some (Some user)"
proof -
  have "lit ''t1'' \<noteq> no_token" by (simp add: no_token_def)
  from sample_accepted token_needs_credentials[OF this] show ?thesis
    by (fastforce simp: sample_config_def)
qed

text \<open>A login that gets no token, for whatever reason, leaves the server as it was.\<close>

theorem denied_login_changes_nothing:
  assumes "\<forall>packets. fst (handle_login sv cfg ac env token version_header ip body st)
      \<noteq> LoginReply token packets"
  shows "snd (handle_login sv cfg ac env token version_header ip body st) = st"
  using assms
  by (auto simp: handle_login_def Let_def split: login_parse.splits decision.splits if_splits prod.splits)

theorem denied_login_changes_nothing_witness:
  "snd (handle_login sample_services sample_config sample_accounts sample_env (lit ''t1'')
     None (IPv6 1) (sample_login ''wrong'') (sample_state SLOT_READY False)) =
   sample_state SLOT_READY False"
proof (rule denied_login_changes_nothing, intro allI)
  fix packets
  obtain rq where rq: "parse_login sample_accounts None (sample_login ''wrong'') = Parsed rq"
    "lq_username rq = lit ''ann''" "lq_password_md5 rq = lit ''wrong''"
    by (rule sample_parse[of "''wrong''"]) simp_all
  have "authenticate sample_config sample_accounts (IPv6 1) rq = Deny (build_user_id (- 1))"
    by (simp add: authenticate_def rq(2,3) sample_trim sample_accounts_def)
  then show "fst (handle_login sample_services sample_config sample_accounts sample_env (lit ''t1'')
     None (IPv6 1) (sample_login ''wrong'') (sample_state SLOT_READY False)) \<noteq>
    LoginReply (lit ''t1'') packets"
    by (simp add: handle_login_def rq(1) sample_ip no_token_def)
qed

lemma granted_login:
  assumes "fst (handle_login sv cfg ac env token version_header ip body st) = LoginReply token packets"
    and "token \<noteq> no_token"
  obtains rq user where "parse_login ac version_header body = Parsed rq"
    and "authenticate cfg ac ip rq = Allow user"
    and "snd (handle_login sv cfg ac env token version_header ip body st) =
    snd (login_enter sv (login_session ac env rq user token) (login_evict (lu_id user) st))"
proof -
  obtain rq where rq: "parse_login ac version_header body = Parsed rq"
    using assms by (cases "parse_login ac version_header body") (auto simp: handle_login_def)
  have v: "\<not> (lc_block_vpn cfg \<and> is_known_vpn_or_datacenter ip)"
    using assms rq by (auto simp: handle_login_def)
  obtain user where au: "authenticate cfg ac ip rq = Allow user"
    using assms rq v by (cases "authenticate cfg ac ip rq") (auto simp: handle_login_def)
  then have "snd (handle_login sv cfg ac env token version_header ip body st) =
      snd (login_enter sv (login_session ac env rq user token) (login_evict (lu_id user) st))"
    using v by (simp only: handle_login_def rq login_parse.case decision.case Let_def split_def
        if_False snd_conv)
  with rq au show ?thesis by (rule that)
qed

lemma users_remove_session:
  assumes "hget (sessions st) token = Some s"
  shows "user_id_to_token (snd (remove_session token st)) = hdel (ss_user_id s) (user_id_to_token st)"
  by (simp add: remove_session_eq[OF assms])

text \<open>C22: A granted login takes over: the new token leads to a fresh session of exactly the user
  the credentials were accepted for, with an empty queue and the two automatic channels, and is
  this user's token from now on; the token the user had before is worthless, and the tokens of all
  other users stay as they are.  The sessions were consistent before, and the new token is one no session
  has.\<close>

theorem login_replaces_session:
  assumes "session_inv st" and "get_session token st = None" and "token \<noteq> no_token"
    and "fst (handle_login sv cfg ac env token version_header ip body st) = LoginReply token packets"
  shows "let st' = snd (handle_login sv cfg ac env token version_header ip body st) in
    \<exists>rq user s. parse_login ac version_header body = Parsed rq
    \<and> authenticate cfg ac ip rq = Allow user
    \<and> get_session token st' = Some s \<and> ss_user_id s = lu_id user \<and> ss_token s = token
    \<and> set (ss_channels s) = {lit ''#osu'', lit ''#announce''} \<and> ss_packet_queue s = []
    \<and> get_session_by_user_id (lu_id user) st' = Some s
    \<and> (\<forall>old. hget (user_id_to_token st) (lu_id user) = Some old \<longrightarrow> get_session old st' = None)
    \<and> (\<forall>v. v \<noteq> lu_id user \<longrightarrow>
          hget (user_id_to_token st') v = hget (user_id_to_token st) v)"
proof -
  obtain rq user where parsed: "parse_login ac version_header body = Parsed rq"
      "authenticate cfg ac ip rq = Allow user" and st': "snd (handle_login sv cfg ac env token version_header ip body st) =
      snd (login_enter sv (login_session ac env rq user token) (login_evict (lu_id user) st))"
    by (rule granted_login[OF assms(4,3)])
  define u where "u = lu_id user"
  define s where "s = login_session ac env rq user token"
  define st1 where "st1 = login_evict u st"
  define st2 where "st2 = snd (login_enter sv s st1)"
  have s: "ss_token s = token" "ss_user_id s = u" "ss_packet_queue s = []"
    "set (ss_channels s) = {lit ''#osu'', lit ''#announce''}"
    by (simp_all add: s_def login_session_def new_session_def u_def)
  have enter: "user_id_to_token st2 = hput u token (user_id_to_token st1)" "get_session token st2 = Some s"
    by (simp_all add: st2_def login_enter_def Let_def split_def add_session_def get_session_def s
        add_to_channel_def)
  have absent: "hget (sessions st2) t = None" if "t \<noteq> token" "hget (sessions st1) t = None" for t
    using that
    by (simp add: st2_def login_enter_def Let_def split_def add_session_def s add_to_channel_def
        broadcast_def)
  have old: "hget (sessions st1) t = None \<and> t \<noteq> token" if t: "hget (user_id_to_token st) u = Some t" for t
  proof -
    have "t \<notin> set (hkeys (sessions st1))"
      using keys_remove_session[of t st] that by (simp add: st1_def login_evict_def)
    moreover obtain x where "hget (sessions st) t = Some x"
      using session_inv_user[OF assms(1) t] by blast
    ultimately show ?thesis using assms(2) by (auto simp: hm.fresh_key[of "sessions st1"] get_session_def)
  qed
  have others: "hget (user_id_to_token st2) v = hget (user_id_to_token st) v" if "v \<noteq> u" for v
  proof (cases "hget (user_id_to_token st) u")
    case None
    then show ?thesis using that by (simp add: enter(1) st1_def login_evict_def)
  next
    case (Some t)
    then obtain x where x: "hget (sessions st) t = Some x" "ss_user_id x = u"
      using session_inv_user[OF assms(1)] by blast
    show ?thesis
      using that users_remove_session[OF x(1)] x(2) Some
      by (simp add: enter(1) st1_def login_evict_def)
  qed
  have "get_session_by_user_id u st2 = Some s"
    using enter by (simp add: get_session_by_user_id_def get_session_def)
  then show ?thesis
    unfolding Let_def st' u_def[symmetric] s_def[symmetric] st1_def[symmetric] st2_def[symmetric]
    using parsed s enter(2) old absent others
    by (intro exI[of _ rq] exI[of _ user] exI[of _ s]) (auto simp: get_session_def u_def)
qed

theorem login_replaces_session_witness:
  "get_session (lit ''ann'') (sample_state SLOT_READY False) \<noteq> None
   \<and> get_session (lit ''ann'') (snd (handle_login sample_services sample_config sample_accounts
      sample_env (lit ''t1'') None (IPv6 1) (sample_login ''secret'') (sample_state SLOT_READY False))) = None"
proof -
  have "lit ''t1'' \<noteq> no_token" by (simp add: no_token_def)
  moreover have "get_session (lit ''t1'') (sample_state SLOT_READY False) = None"
    by (simp add: get_session_def)
  moreover obtain packets where "fst (handle_login sample_services sample_config sample_accounts
      sample_env (lit ''t1'') None (IPv6 1) (sample_login ''secret'') (sample_state SLOT_READY False)) =
      LoginReply (lit ''t1'') packets"
    using sample_accepted by blast
  moreover have "lu_id user = 5" if "parse_login sample_accounts None (sample_login ''secret'') = Parsed rq"
    "authenticate sample_config sample_accounts (IPv6 1) rq = Allow user" for rq user
  proof -
    have "lq_username rq = lit ''ann''" using that(1) sample_parse[of "''secret''"] by fastforce
    with that(2) show ?thesis
      by (auto simp: authenticate_def sample_trim sample_accounts_def split: if_splits)
  qed
  ultimately have "get_session (lit ''ann'') (snd (handle_login sample_services sample_config sample_accounts
      sample_env (lit ''t1'') None (IPv6 1) (sample_login ''secret'') (sample_state SLOT_READY False))) = None"
    using login_replaces_session[OF sample_session_inv[of SLOT_READY False], of "lit ''t1''" sample_services
        sample_config sample_accounts sample_env None "IPv6 1" "sample_login ''secret''"]
    unfolding Let_def by fastforce
  then show ?thesis by (simp add: get_session_def)
qed

subsection \<open>Polling\<close>

text \<open>A poll without packets answers with exactly what was queued for the session, in order,
  and leaves the queue empty: a second poll answers nothing.  A token without a session is
  told to reconnect, and nothing changes.\<close>

theorem poll_drains_queue:
  "handle_packet_poll sv envs version_header token [] st =
     (case get_session token st of
        None \<Rightarrow> (Some (build_restart 0), st)
      | Some s \<Rightarrow> (Some (ss_packet_queue s),
          snd (handle_packet_poll sv envs version_header token [] st)))
   \<and> (\<forall>s. get_session token st = Some s \<longrightarrow>
        fst (handle_packet_poll sv envs version_header token []
          (snd (handle_packet_poll sv envs version_header token [] st))) = Some []
      \<and> (\<forall>t. t \<noteq> token \<longrightarrow> get_session t (snd (handle_packet_poll sv envs version_header token [] st)) =
          get_session t st))"
  by (auto simp: handle_packet_poll_def poll_begin_def poll_end_def get_session_def
      dequeue_all_packets_def Let_def split: option.splits)

theorem poll_drains_queue_witness:
  "handle_packet_poll sample_services (\<lambda>_. sample_env) None (lit ''dan'') [] (sample_state SLOT_READY False) =
     (Some (build_restart 0), sample_state SLOT_READY False)"
  using conjunct1[OF poll_drains_queue[of sample_services "\<lambda>_. sample_env" None "lit ''dan''"
      "sample_state SLOT_READY False"]]
  by (simp add: get_session_def)

end
