(* ===== verification/Chat_Properties.thy ===== *)
theory Chat_Properties
  imports Samples
begin

text \<open>
  What the chat guarantees: what the filter leaves alone, who receives a message, what is
  stored and what never is.
\<close>

subsection \<open>The filter\<close>

text \<open>One rule replaces whole occurrences only: the text is cut into kept pieces and
  occurrences of the word, the pieces stay and every occurrence becomes the replacement.\<close>

theorem filter_replaces_occurrences:
  assumes "pattern \<noteq> []" and "msg \<noteq> []"
  shows "\<exists>k ks ws. length ks = length ws \<and> msg = interleave (k # ks) (ws @ [[]])
    \<and> filter_text lower [(pattern, replacement)] msg =
        interleave (k # ks) (replicate (length ws) replacement @ [[]])
    \<and> (\<forall>w \<in> set ws. length w = length pattern \<and> word_here lower pattern w)"
  using replace_word_pieces[OF assms(1), of msg lower replacement] assms
  by (simp add: filter_text_def)

theorem filter_replaces_occurrences_witness:
  "\<exists>k ks ws. length ks = length ws \<and> lit ''a FOO b'' = interleave (k # ks) (ws @ [[]])
    \<and> filter_text (\<lambda>c. [ascii_lower c]) [(lit ''foo'', lit ''*'')] (lit ''a FOO b'') =
        interleave (k # ks) (replicate (length ws) (lit ''*'') @ [[]])"
  using filter_replaces_occurrences[of "lit ''foo''" "lit ''a FOO b''" "\<lambda>c. [ascii_lower c]" "lit ''*''"]
  by auto

subsection \<open>Delivery\<close>

text \<open>C31: A public message that is no command reaches every online member of the channel but
  its sender exactly once, with the filtered text under the sender's own name, and one row
  is stored for it.  The members of a channel are a set.\<close>

theorem public_message_delivery:
  assumes "session_inv st" and "get_session token st = Some s"
    and "hget (channels st) target = Some ch" and "distinct (ch_members ch)"
    and "content = filter_text (sv_char_lower sv) (chat_filter st) raw"
    and "\<not> starts_with (trim content) [33]"
  shows "let st' = send_public_message sv env token raw target st;
      packet = build_send_message \<lparr>cm_sender = ss_username s, cm_content = content,
        cm_target = target, cm_sender_id = ss_user_id s\<rparr>
    in (\<forall>u. inbox u st' = inbox u st
         @ (if online u st \<and> u \<in> set (ch_members ch) \<and> u \<noteq> ss_user_id s then packet else []))
      \<and> tasks st' = tasks st @ [SaveChat (ss_user_id s) (ss_username s) target content False]"
proof -
  let ?st1 = "spawn (SaveChat (ss_user_id s) (ss_username s) target content False) st"
  have bot: "handle_bot_command sv env content (ss_username s) (ss_user_id s) target x = (None, x)" for x
    using assms(6) by (simp add: handle_bot_command_def Let_def)
  have inv: "session_inv ?st1" by (rule session_inv_spawn[OF assms(1)])
  have same: "inbox u ?st1 = inbox u st" "online u ?st1 = online u st" for u
    using inbox_cong[of ?st1 st] by simp_all
  have tasks: "tasks (fold (enqueue_to_user p) us x) = tasks x" for p us and x :: sys
    by (induction us arbitrary: x) simp_all
  show ?thesis
    using assms(2,3,4) bot[of ?st1]
    by (simp add: tasks send_public_message_def Let_def assms(5)[symmetric] broadcast_to_channel_except_def
        inbox_fold_distinct[OF inv] same)
qed

text \<open>The example state with one channel, which \<open>ann\<close> and \<open>bob\<close> have joined.\<close>

definition talking_state :: sys where
  "talking_state = (sample_state SLOT_READY False)
     \<lparr>channels := [(lit ''#osu'', \<lparr>ch_name = lit ''#osu'', ch_topic = [], ch_auto_join = True,
        ch_read_only = False, ch_members = [5, 6]\<rparr>)]\<rparr>"

theorem public_message_delivery_witness:
  "let st' = send_public_message sample_services sample_env (lit ''ann'') (lit ''hello'') (lit ''#osu'')
       talking_state;
     packet = build_send_message \<lparr>cm_sender = lit ''ann'', cm_content = lit ''hello'',
       cm_target = lit ''#osu'', cm_sender_id = 5\<rparr>
   in inbox 6 st' = [] @ packet \<and> inbox 5 st' = []
     \<and> tasks st' = tasks talking_state @ [SaveChat 5 (lit ''ann'') (lit ''#osu'') (lit ''hello'') False]"
proof -
  have inv: "session_inv talking_state"
    using sample_session_inv[of SLOT_READY False] unfolding talking_state_def
    by (simp add: session_inv_def)
  have fields: "get_session (lit ''ann'') talking_state = Some (sample_session ''ann'' 5)"
      "online u talking_state \<longleftrightarrow> u \<in> {5, 6, 7}" "inbox u talking_state = []" for u
    using sample_inboxes[of u SLOT_READY False]
      inbox_cong[of talking_state "sample_state SLOT_READY False"]
    by (simp_all add: talking_state_def get_session_def)
  have ann: "ss_user_id (sample_session ''ann'' 5) = 5" "ss_username (sample_session ''ann'' 5) = lit ''ann''"
    by (simp_all add: sample_session_def new_session_def)
  have no_filter: "chat_filter talking_state = []"
    by (simp add: talking_state_def sample_state_def initial_sys_def new_bancho_state_def bancho_state.defs)
  have hello: "\<not> starts_with (trim (lit ''hello'')) [33]" by code_simp
  let ?ch = "\<lparr>ch_name = lit ''#osu'', ch_topic = [], ch_auto_join = True,
        ch_read_only = False, ch_members = [5, 6]\<rparr>"
  have ch: "hget (channels talking_state) (lit ''#osu'') = Some ?ch"
    by (simp add: talking_state_def)
  have "lit ''hello'' = filter_text (sv_char_lower sample_services) (chat_filter talking_state) (lit ''hello'')"
    by (simp add: no_filter filter_text_def)
  then show ?thesis
    using public_message_delivery[where sv = sample_services and env = sample_env,
        OF inv fields(1) ch _ _ hello]
    by (simp add: Let_def ann fields)
qed

subsection \<open>Private messages\<close>

text \<open>No message sent in private ever reaches a database: sending one starts no task, and
  whatever tasks run on the chat table, the query for direct messages finds none.\<close>

theorem private_messages_never_stored:
  fixes st :: sys
  shows "tasks (send_private_message sv env token raw target st) = tasks st
   \<and> get_direct_messages (fold (run_chat_task now) ts \<lparr>ct_rows = [], ct_next_id = 1\<rparr>) a b n = []"
proof
  have ok: "chat_ok \<lparr>ct_rows = [], ct_next_id = 1\<rparr>" by (simp add: chat_ok_def)
  show "get_direct_messages (fold (run_chat_task now) ts \<lparr>ct_rows = [], ct_next_id = 1\<rparr>) a b n = []"
    by (rule no_direct_messages[OF chat_ok_run_all[OF ok]])
  have "tasks (snd (cmd_relax sv parts uid x)) = tasks x" for parts uid and x :: sys
    by (rule cmd_relax_cases[of sv parts uid x]) simp_all
  then have bot: "tasks (snd (handle_bot_command sv env content name uid channel x)) = tasks x"
    for content name uid channel and x :: sys
    using bot_cases[of sv env content name uid channel x] by auto
  have warn: "tasks (pm_warn env s t token x) = tasks x" for s t and x :: sys
    by (simp add: pm_warn_def Let_def)
  have bot_tasks: "tasks st1 = tasks x" if "handle_bot_command sv env content name uid channel x = (r, st1)"
    for content name uid channel r st1 and x :: sys
    using bot[of content name uid channel x] that by simp
  show "tasks (send_private_message sv env token raw target st) = tasks st"
    by (auto simp: send_private_message_def Let_def warn bot_tasks split: option.split prod.split)
qed

subsection \<open>The history of a channel\<close>

text \<open>What the tasks say in public to a target, in the order they run.\<close>

fun said_to :: "rstr \<Rightarrow> task list \<Rightarrow> (rstr \<times> rstr) list" where
  "said_to target [] = []"
| "said_to target (SaveChat sid name target' msg is_private # ts) =
     (if target' = target \<and> \<not> is_private then (name, msg) # said_to target ts else said_to target ts)"
| "said_to target (_ # ts) = said_to target ts"

lemma rows_said:
  assumes "chat_ok t"
  shows "map (\<lambda>r. (cr_sender_name r, cr_message r))
      (filter (\<lambda>r. cr_target r = target) (ct_rows (fold (run_chat_task now) ts t))) =
    map (\<lambda>r. (cr_sender_name r, cr_message r)) (filter (\<lambda>r. cr_target r = target) (ct_rows t))
    @ said_to target ts"
  using assms
proof (induction ts arbitrary: t)
  case (Cons x ts)
  show ?case
    using Cons.IH[OF chat_ok_run[OF Cons.prems, of now x]]
    by (cases x) (auto simp: save_chat_message_def)
qed simp

text \<open>C32: The history of a channel is what was said in it, oldest first: all of it for a
  negative limit, otherwise the last messages up to the limit, whatever ran in between.\<close>

theorem channel_history_is_what_was_said:
  "map (\<lambda>r. (cr_sender_name r, cr_message r))
      (get_channel_history (fold (run_chat_task now) ts \<lparr>ct_rows = [], ct_next_id = 1\<rparr>) target n) =
    (if n < 0 then said_to target ts
     else drop (length (said_to target ts) - nat n) (said_to target ts))"
proof -
  have ok: "chat_ok \<lparr>ct_rows = [], ct_next_id = 1\<rparr>" by (simp add: chat_ok_def)
  note said = rows_said[OF ok, of target now ts]
  have "length (filter (\<lambda>r. cr_target r = target)
      (ct_rows (fold (run_chat_task now) ts \<lparr>ct_rows = [], ct_next_id = 1\<rparr>))) = length (said_to target ts)"
    using arg_cong[OF said, of length] by simp
  then show ?thesis
    using said by (simp add: channel_history_eq[OF chat_ok_run_all[OF ok]] Let_def drop_map[symmetric])
qed

subsection \<open>Networks\<close>

lemma div_same_interval:
  "0 < (K::nat) \<Longrightarrow> x div K = y div K \<longleftrightarrow> y div K * K \<le> x \<and> x < y div K * K + K"
  by (metis div_mult_mod_eq add.commute le_add1 mod_less_divisor nat_add_left_cancel_less
      div_nat_eqI mult.commute mult_Suc_right)

lemma in_net_range:
  "in_net net n a \<longleftrightarrow>
     unat net div 2 ^ (32 - n) * 2 ^ (32 - n) \<le> unat a
     \<and> unat a < unat net div 2 ^ (32 - n) * 2 ^ (32 - n) + 2 ^ (32 - n)"
  unfolding in_net_interval by (rule div_same_interval) simp

lemma unat_ipv4: "a < 256 \<Longrightarrow> b < 256 \<Longrightarrow> c < 256 \<Longrightarrow> d < 256 \<Longrightarrow>
    unat (ipv4 a b c d) = ((a * 256 + b) * 256 + c) * 256 + d"
  unfolding ipv4_def by (subst unat_of_nat) (simp add: take_bit_eq_mod)

text \<open>No network of the datacenter list overlaps a private range: for IPv4 the test for
  private addresses never changes the outcome, and an address is blocked exactly if one of
  the 26 networks contains it.\<close>

theorem datacenters_are_public:
  "is_known_vpn_or_datacenter (IPv4 a) \<longleftrightarrow> (\<exists>(net, n) \<in> set known_datacenter_cidrs. in_net net n a)"
proof -
  have disjoint: "\<not> is_private_or_loopback_ip (IPv4 a)"
    if "(net, n) \<in> set known_datacenter_cidrs" "in_net net n a" for net n
  proof -
    have top: "drop_bit 24 a = 0 \<longleftrightarrow> unat a div 2 ^ 24 = 0"
      unfolding word_unat_eq_iff unat_drop_bit_eq by (simp add: drop_bit_eq_div)
    have bcast: "a = - 1 \<longleftrightarrow> unat a = 2 ^ 32 - 1"
      by (simp add: word_unat_eq_iff unsigned_minus_1_eq_mask mask_eq_exp_minus_1)
    show ?thesis
      using that
      by (auto simp: known_datacenter_cidrs_def is_private_or_loopback_ip_def ipv4_loopback_def
          ipv4_private_def ipv4_link_local_def ipv4_broadcast_def ipv4_documentation_def
          top bcast in_net_range unat_ipv4)
  qed
  then show ?thesis
    by (auto simp: is_known_vpn_or_datacenter_def list_ex_iff)
qed

end
