(* ===== verification/Match_Db.thy ===== *)
theory Match_Db
  imports Tasks Sql
begin

text \<open>
  \<^verbatim>\<open>src/db/matches.rs\<close>: the history of the finished matches.  Both tables number their
  rows and nothing deletes from them.  The scores are inserted one statement after the other;
  the model is a run in which none fails.
\<close>

record match_history =
  mh_id :: int
  mh_name :: rstr
  mh_beatmap_id :: i64
  mh_beatmap_name :: rstr
  mh_beatmap_md5 :: rstr
  mh_mode :: i64
  mh_scoring_type :: i64
  mh_team_type :: i64
  mh_mods :: i64
  mh_played_at :: i64
  mh_duration :: i64
  mh_winner_id :: i64
  mh_winner_name :: rstr

record match_score =
  hs_id :: int
  hs_match_id :: int
  hs_user_id :: i64
  hs_username :: rstr
  hs_slot_id :: i64
  hs_team :: i64
  hs_score :: i64
  hs_max_combo :: i64
  hs_accuracy :: fp
  hs_c300 :: i64
  hs_c100 :: i64
  hs_c50 :: i64
  hs_c_miss :: i64
  hs_c_geki :: i64
  hs_c_katu :: i64
  hs_passed :: i64
  hs_won :: i64

record match_with_scores =
  mw_match_info :: match_history
  mw_scores :: "match_score list"

record history_db =
  hd_matches :: "match_history list"
  hd_scores :: "match_score list"
  hd_next_match :: int
  hd_next_score :: int

definition match_history_row :: "int \<Rightarrow> i64 \<Rightarrow> rstr \<Rightarrow> match_result \<Rightarrow> match_history" where
  "match_history_row match_id now name res =
     \<lparr>mh_id = match_id, mh_name = name, mh_beatmap_id = scast (mr_beatmap_id res),
      mh_beatmap_name = mr_beatmap_name res, mh_beatmap_md5 = mr_beatmap_md5 res,
      mh_mode = ucast (mr_mode res), mh_scoring_type = ucast (mr_scoring_type res),
      mh_team_type = ucast (mr_team_type res), mh_mods = ucast (mr_mods res),
      mh_played_at = now, mh_duration = mr_duration res,
      mh_winner_id = scast (mr_winner_id res), mh_winner_name = mr_winner_name res\<rparr>"

definition match_score_row :: "int \<Rightarrow> int \<Rightarrow> new_match_score \<Rightarrow> match_score" where
  "match_score_row score_id match_id sc =
     \<lparr>hs_id = score_id, hs_match_id = match_id, hs_user_id = scast (ns_user_id sc),
      hs_username = ns_username sc, hs_slot_id = ucast (ns_slot_id sc),
      hs_team = ucast (ns_team sc), hs_score = scast (ns_score sc),
      hs_max_combo = ucast (ns_max_combo sc), hs_accuracy = fp_cast f64 (ns_accuracy sc),
      hs_c300 = ucast (ns_c300 sc), hs_c100 = ucast (ns_c100 sc), hs_c50 = ucast (ns_c50 sc),
      hs_c_miss = ucast (ns_c_miss sc), hs_c_geki = ucast (ns_c_geki sc),
      hs_c_katu = ucast (ns_c_katu sc), hs_passed = (if ns_passed sc then 1 else 0),
      hs_won = (if ns_won sc then 1 else 0)\<rparr>"

definition insert_match_score :: "int \<Rightarrow> new_match_score \<Rightarrow> history_db \<Rightarrow> history_db" where
  "insert_match_score match_id sc db =
     db\<lparr>hd_scores := hd_scores db @ [match_score_row (hd_next_score db) match_id sc],
        hd_next_score := hd_next_score db + 1\<rparr>"

definition save_match_result :: "i64 \<Rightarrow> rstr \<Rightarrow> match_result \<Rightarrow> history_db \<Rightarrow> int \<times> history_db" where
  "save_match_result now name res db =
     (let match_id = hd_next_match db;
          db1 = db\<lparr>hd_matches := hd_matches db @ [match_history_row match_id now name res],
                   hd_next_match := match_id + 1\<rparr>
      in (match_id, fold (insert_match_score match_id) (mr_scores res) db1))"

definition get_recent_matches :: "history_db \<Rightarrow> int \<Rightarrow> match_history list" where
  "get_recent_matches db limit = sql_limit limit (order_desc (sint \<circ> mh_played_at) (hd_matches db))"

definition get_match_detail :: "history_db \<Rightarrow> int \<Rightarrow> match_with_scores option" where
  "get_match_detail db match_id =
     (case find (\<lambda>m. mh_id m = match_id) (hd_matches db) of
        None \<Rightarrow> None
      | Some info \<Rightarrow>
          Some \<lparr>mw_match_info = info,
            mw_scores = order_desc (sint \<circ> hs_score)
              (filter (\<lambda>s. hs_match_id s = match_id) (hd_scores db))\<rparr>)"

text \<open>Running a spawned task on these tables; the other tasks do not touch them.\<close>

fun run_history_task :: "i64 \<Rightarrow> task \<Rightarrow> history_db \<Rightarrow> history_db" where
  "run_history_task now (SaveMatchResult name res) db = snd (save_match_result now name res db)"
| "run_history_task now _ db = db"

subsection \<open>Rows are numbered, and stay\<close>

definition history_ok :: "history_db \<Rightarrow> bool" where
  "history_ok db \<longleftrightarrow>
     (\<forall>m \<in> set (hd_matches db). mh_id m < hd_next_match db)
     \<and> (\<forall>s \<in> set (hd_scores db). hs_match_id s < hd_next_match db)"

lemma history_row_id [simp]:
  "mh_id (match_history_row k now name res) = k" "hs_match_id (match_score_row i k sc) = k"
  by (simp_all add: match_history_row_def match_score_row_def)

fun score_rows :: "int \<Rightarrow> int \<Rightarrow> new_match_score list \<Rightarrow> match_score list" where
  "score_rows i k [] = []"
| "score_rows i k (sc # scs) = match_score_row i k sc # score_rows (i + 1) k scs"

lemma insert_match_scores:
  "fold (insert_match_score k) scs db =
     db\<lparr>hd_scores := hd_scores db @ score_rows (hd_next_score db) k scs,
        hd_next_score := hd_next_score db + int (length scs)\<rparr>"
  by (induction scs arbitrary: db) (simp_all add: insert_match_score_def)

lemma score_rows_match: "s \<in> set (score_rows i k scs) \<Longrightarrow> hs_match_id s = k"
  by (induction scs arbitrary: i) auto

lemma save_match_eq:
  "save_match_result now name res db =
     (hd_next_match db,
      db\<lparr>hd_matches := hd_matches db @ [match_history_row (hd_next_match db) now name res],
         hd_next_match := hd_next_match db + 1,
         hd_scores := hd_scores db @ score_rows (hd_next_score db) (hd_next_match db) (mr_scores res),
         hd_next_score := hd_next_score db + int (length (mr_scores res))\<rparr>)"
  by (simp add: save_match_result_def Let_def insert_match_scores)

lemma history_ok_save [keeps]: "history_ok db \<Longrightarrow> history_ok (snd (save_match_result now name res db))"
  by (force simp: history_ok_def save_match_eq dest: score_rows_match)

lemma history_ok_run [keeps]: "history_ok db \<Longrightarrow> history_ok (run_history_task now t db)"
  by (cases t) (simp_all add: history_ok_save)

text \<open>A match of the history is not changed by what is saved later.\<close>

lemma detail_later:
  assumes "history_ok db" and "k < hd_next_match db"
  shows "get_match_detail (snd (save_match_result now name res db)) k = get_match_detail db k"
proof -
  have "filter (\<lambda>s. hs_match_id s = k) (score_rows i (hd_next_match db) scs) = []" for i scs
    using assms(2) by (auto simp: filter_empty_conv dest: score_rows_match)
  moreover have "find (\<lambda>m. mh_id m = k) (xs @ [match_history_row (hd_next_match db) now name res]) =
      find (\<lambda>m. mh_id m = k) xs" for xs
    using assms(2) by (induction xs) simp_all
  ultimately show ?thesis by (simp add: get_match_detail_def save_match_eq split: option.split)
qed

lemma run_history_next: "hd_next_match db \<le> hd_next_match (run_history_task now t db)"
  by (cases t) (simp_all add: save_match_eq)

lemma detail_stays:
  assumes "history_ok db" and "k < hd_next_match db"
  shows "get_match_detail (fold (\<lambda>(now, t). run_history_task now t) later db) k = get_match_detail db k"
  using assms
proof (induction later arbitrary: db)
  case (Cons x later)
  obtain now t where x: "x = (now, t)" by (cases x)
  let ?db' = "run_history_task now t db"
  have "get_match_detail ?db' k = get_match_detail db k"
    using detail_later[OF Cons.prems] by (cases t) simp_all
  then show ?case
    using Cons.IH[OF history_ok_run[OF Cons.prems(1)], of now t] Cons.prems(2)
      run_history_next[of db now t] by (simp add: x)
qed simp

lemma detail_saved:
  assumes "history_ok db"
  shows "get_match_detail (snd (save_match_result now name res db)) (hd_next_match db) =
    Some \<lparr>mw_match_info = match_history_row (hd_next_match db) now name res,
      mw_scores = order_desc (sint \<circ> hs_score)
        (score_rows (hd_next_score db) (hd_next_match db) (mr_scores res))\<rparr>"
proof -
  have "filter (\<lambda>s. hs_match_id s = hd_next_match db) (hd_scores db) = []"
    using assms by (fastforce simp: history_ok_def filter_empty_conv)
  moreover have "filter (\<lambda>s. hs_match_id s = k) (score_rows i k scs) = score_rows i k scs" for i k scs
    by (auto simp: filter_id_conv dest: score_rows_match)
  moreover have "find (\<lambda>m. mh_id m = hd_next_match db)
      (hd_matches db @ [match_history_row (hd_next_match db) now name res]) =
      Some (match_history_row (hd_next_match db) now name res)"
  proof -
    have "find (\<lambda>m. mh_id m = k) (xs @ [match_history_row k now name res]) =
        Some (match_history_row k now name res)" if "\<forall>m \<in> set xs. mh_id m < k" for xs k
      using that by (induction xs) auto
    then show ?thesis using assms by (simp add: history_ok_def)
  qed
  ultimately show ?thesis by (simp add: get_match_detail_def save_match_eq)
qed

end
