(* ===== verification/Images.thy ===== *)
theory Images
  imports Wire
begin

unbundle bit_operations_syntax

text \<open>
  The removal of metadata from uploaded pictures (\<^verbatim>\<open>src/server/avatars.rs\<close>): PNG, JPEG
  and WebP.  A loop over an offset into the picture is a recursion on what follows the offset.
  Offsets and lengths stay below \<open>2 ^ 63\<close>, so the checked additions do not overflow.
\<close>

definition byte_lit :: "string \<Rightarrow> u8 list" where
  "byte_lit s = map of_char s"

definition be32 :: "u8 list \<Rightarrow> nat" where
  "be32 bs = unat (of_le (rev bs) :: u32)"

definition be16 :: "u8 list \<Rightarrow> nat" where
  "be16 bs = unat (of_le (rev bs) :: u16)"

definition le32 :: "u8 list \<Rightarrow> nat" where
  "le32 bs = unat (of_le bs :: u32)"

subsection \<open>PNG\<close>

definition png_signature :: "u8 list" where
  "png_signature = [0x89, 0x50, 0x4E, 0x47, 0x0D, 0x0A, 0x1A, 0x0A]"

definition png_metadata :: "u8 list \<Rightarrow> bool" where
  "png_metadata kind \<longleftrightarrow>
     kind \<in> {byte_lit ''eXIf'', byte_lit ''tEXt'', byte_lit ''zTXt'', byte_lit ''iTXt'', byte_lit ''iCCP''}"

function strip_png_chunks :: "u8 list \<Rightarrow> u8 list \<Rightarrow> u8 list option" where
  "strip_png_chunks rest output =
     (if length rest < 12 then None
      else
        let stop = 12 + be32 (take 4 rest)
        in if length rest < stop then None
           else
             let kind = take 4 (drop 4 rest);
                 output' = (if png_metadata kind then output else output @ take stop rest)
             in if kind = byte_lit ''IEND'' then (if drop stop rest = [] then Some output' else None)
                else strip_png_chunks (drop stop rest) output')"
  by pat_completeness auto
termination by (relation "measure (length \<circ> fst)") auto

declare strip_png_chunks.simps [simp del]

definition strip_png_metadata :: "u8 list \<Rightarrow> u8 list option" where
  "strip_png_metadata bytes =
     (if take 8 bytes \<noteq> png_signature then None
      else strip_png_chunks (drop 8 bytes) png_signature)"

subsection \<open>JPEG\<close>

text \<open>\<^verbatim>\<open>while bytes[offset] == 0xff\<close>\<close>

definition fill_bytes :: "u8 list \<Rightarrow> nat" where
  "fill_bytes bytes = length (takeWhile (\<lambda>b. b = 0xff) bytes)"

definition jpeg_metadata :: "u8 \<Rightarrow> bool" where
  "jpeg_metadata marker \<longleftrightarrow> marker \<in> {0xe1, 0xed, 0xfe}"

definition jpeg_alone :: "u8 \<Rightarrow> bool" where
  "jpeg_alone marker \<longleftrightarrow> marker = 0x01 \<or> 0xd0 \<le> marker \<and> marker \<le> 0xd7"

function strip_jpeg_segments :: "u8 list \<Rightarrow> u8 list \<Rightarrow> u8 list option" where
  "strip_jpeg_segments rest output =
     (if rest = [] \<or> hd rest \<noteq> 0xff then None
      else
        let n = fill_bytes rest
        in if length rest \<le> n then None
           else
             let marker = rest ! n; after = drop (Suc n) rest; head = take (Suc n) rest
             in if marker = 0xda then Some (output @ rest)
                else if marker = 0xd9 then (if after = [] then Some (output @ head) else None)
                else if jpeg_alone marker then strip_jpeg_segments after (output @ head)
                else if length after < 2 then None
                else
                  let len = be16 (take 2 after)
                  in if len < 2 \<or> length after < len then None
                     else strip_jpeg_segments (drop len after)
                            (if jpeg_metadata marker then output else output @ head @ take len after))"
  by pat_completeness auto
termination by (relation "measure (length \<circ> fst)") auto

declare strip_jpeg_segments.simps [simp del]

definition strip_jpeg_metadata :: "u8 list \<Rightarrow> u8 list option" where
  "strip_jpeg_metadata bytes =
     (if take 2 bytes \<noteq> [0xff, 0xd8] then None else strip_jpeg_segments (drop 2 bytes) [0xff, 0xd8])"

subsection \<open>WebP\<close>

definition webp_metadata :: "u8 list \<Rightarrow> bool" where
  "webp_metadata kind \<longleftrightarrow> kind = byte_lit ''EXIF'' \<or> kind = byte_lit ''XMP ''"

text \<open>The flags of the extended header that announce the removed chunks are cleared.\<close>

definition clear_flags :: "u8 list \<Rightarrow> nat \<Rightarrow> u8 list \<Rightarrow> u8 list" where
  "clear_flags kind len chunk =
     (if kind = byte_lit ''VP8X'' \<and> 1 \<le> len then chunk[8 := chunk ! 8 AND NOT (0x08 OR 0x04)] else chunk)"

function strip_webp_chunks :: "u8 list \<Rightarrow> u8 list \<Rightarrow> u8 list option" where
  "strip_webp_chunks rest output =
     (if length rest < 8 then (if rest = [] then Some output else None)
      else
        let kind = take 4 rest; len = le32 (take 4 (drop 4 rest)); stop = 8 + (len + len mod 2)
        in if length rest < stop then None
           else strip_webp_chunks (drop stop rest)
                  (if webp_metadata kind then output
                   else output @ clear_flags kind len (take stop rest)))"
  by pat_completeness auto
termination by (relation "measure (length \<circ> fst)") auto

declare strip_webp_chunks.simps [simp del]

definition riff_size :: "u8 list \<Rightarrow> u8 list option" where
  "riff_size output =
     (if length output < 8 \<or> 2 ^ 32 \<le> length output - 8 then None
      else Some (take 4 output @ le_bytes 4 (of_nat (length output - 8) :: u32) @ drop 8 output))"

definition strip_webp_metadata :: "u8 list \<Rightarrow> u8 list option" where
  "strip_webp_metadata bytes =
     (if length bytes < 12 \<or> take 4 bytes \<noteq> byte_lit ''RIFF''
         \<or> take 4 (drop 8 bytes) \<noteq> byte_lit ''WEBP'' then None
      else if le32 (take 4 (drop 4 bytes)) + 8 \<noteq> length bytes then None
      else Option.bind
             (strip_webp_chunks (drop 12 bytes) (byte_lit ''RIFF'' @ [0, 0, 0, 0] @ byte_lit ''WEBP''))
             riff_size)"

definition sanitize_uploaded_image :: "u8 list \<Rightarrow> u8 list option" where
  "sanitize_uploaded_image bytes =
     (case strip_png_metadata bytes of
        Some img \<Rightarrow> Some img
      | None \<Rightarrow>
          (case strip_jpeg_metadata bytes of
             Some img \<Rightarrow> Some img
           | None \<Rightarrow> strip_webp_metadata bytes))"

subsection \<open>Numbers in pictures\<close>

lemma le_bytes_of_le:
  "length bs = n \<Longrightarrow> 8 * n \<le> LENGTH('a) \<Longrightarrow> le_bytes n (of_le bs :: 'a::len word) = bs"
proof (induction bs arbitrary: n)
  case (Cons b bs)
  then obtain k where k: "n = Suc k" "length bs = k" "8 * k \<le> LENGTH('a)" "8 + 8 * k \<le> LENGTH('a)"
    by auto
  let ?w = "of_le bs :: 'a word"
  have "ucast (ucast b OR push_bit 8 ?w) = b"
    by (rule bit_word_eqI) (use k(4) in \<open>auto simp: bit_simps\<close>)
  moreover have "le_bytes k (drop_bit 8 (ucast b OR push_bit 8 ?w)) = le_bytes k ?w"
  proof -
    have agree: "le_bytes m v = le_bytes m w" if "\<And>i. i < 8 * m \<Longrightarrow> bit v i = bit w i" for m and v w :: "'a word"
      using that
    proof (induction m arbitrary: v w)
      case (Suc m)
      have "(ucast v :: u8) = ucast w"
        by (rule bit_word_eqI) (use Suc.prems in \<open>auto simp: bit_simps\<close>)
      moreover have "le_bytes m (drop_bit 8 v) = le_bytes m (drop_bit 8 w)"
        by (rule Suc.IH) (use Suc.prems in \<open>auto simp: bit_simps\<close>)
      ultimately show ?case by simp
    qed simp
    show ?thesis
      by (rule agree) (use k(4) in \<open>auto simp: bit_simps dest: bit_imp_le_length\<close>)
  qed
  ultimately show ?case using Cons.IH[OF k(2,3)] k(1) by simp
qed simp

subsection \<open>What is a well-formed picture\<close>

definition chunk_kind :: "u8 list \<Rightarrow> u8 list" where
  "chunk_kind c = take 4 (drop 4 c)"

definition png_chunk :: "u8 list \<Rightarrow> bool" where
  "png_chunk c \<longleftrightarrow> 12 \<le> length c \<and> 12 + be32 (take 4 c) = length c"

text \<open>The chunks of a picture: the only \<^verbatim>\<open>IEND\<close> is the last one.\<close>

definition png_chunks :: "u8 list list \<Rightarrow> bool" where
  "png_chunks cs \<longleftrightarrow>
     cs \<noteq> [] \<and> (\<forall>c \<in> set cs. png_chunk c) \<and> chunk_kind (last cs) = byte_lit ''IEND''
     \<and> (\<forall>c \<in> set (butlast cs). chunk_kind c \<noteq> byte_lit ''IEND'')"

lemma length_byte_lit [simp]: "length (byte_lit s) = length s"
  by (simp add: byte_lit_def)

lemma end_is_no_metadata [simp]: "\<not> png_metadata (byte_lit ''IEND'')"
  by code_simp

lemma png_step:
  assumes "png_chunk c"
  shows "strip_png_chunks (c @ r) out =
    (let out' = (if png_metadata (chunk_kind c) then out else out @ c)
     in if chunk_kind c = byte_lit ''IEND'' then (if r = [] then Some out' else None)
        else strip_png_chunks r out')"
proof -
  have parts: "take 4 (c @ r) = take 4 c" "take 4 (drop 4 (c @ r)) = chunk_kind c"
    "12 \<le> length (c @ r)" "12 + be32 (take 4 c) = length c"
    using assms by (auto simp: png_chunk_def chunk_kind_def)
  show ?thesis
    using parts(3) unfolding strip_png_chunks.simps[of "c @ r" out]
    by (simp add: Let_def parts(1,2,4) del: drop_append take_append)
       (simp add: not_less)
qed

lemma png_head:
  assumes "strip_png_chunks rest out = Some res"
  obtains c r where "rest = c @ r" "png_chunk c"
proof
  let ?n = "12 + be32 (take 4 rest)"
  have "\<not> length rest < 12 \<and> \<not> length rest < ?n"
    using assms by (subst (asm) strip_png_chunks.simps) (simp add: Let_def split: if_splits)
  then have "length (take ?n rest) = ?n" "take 4 (take ?n rest) = take 4 rest" by simp_all
  then show "png_chunk (take ?n rest)" by (simp only: png_chunk_def) simp
  show "rest = take ?n rest @ drop ?n rest" by simp
qed

lemma png_chunks_single: "png_chunks [c] \<longleftrightarrow> png_chunk c \<and> chunk_kind c = byte_lit ''IEND''"
  by (auto simp: png_chunks_def)

lemma png_chunks_Cons:
  "cs \<noteq> [] \<Longrightarrow> png_chunks (c # cs) \<longleftrightarrow>
     png_chunk c \<and> chunk_kind c \<noteq> byte_lit ''IEND'' \<and> png_chunks cs"
  by (auto simp: png_chunks_def)

abbreviation kept_png :: "u8 list list \<Rightarrow> u8 list list" where
  "kept_png \<equiv> filter (\<lambda>c. \<not> png_metadata (chunk_kind c))"

lemma png_complete: "png_chunks cs \<Longrightarrow> strip_png_chunks (concat cs) out = Some (out @ concat (kept_png cs))"
proof (induction cs arbitrary: out)
  case (Cons c cs)
  show ?case
  proof (cases "cs = []")
    case True
    then show ?thesis
      using Cons.prems png_step[of c "[]"] by (auto simp: png_chunks_single Let_def)
  next
    case False
    then show ?thesis using Cons by (auto simp: png_chunks_Cons png_step Let_def)
  qed
qed (simp add: png_chunks_def)

lemma png_sound: "strip_png_chunks rest out = Some res \<Longrightarrow> \<exists>cs. rest = concat cs \<and> png_chunks cs"
proof (induction "length rest" arbitrary: rest out rule: less_induct)
  case less
  obtain c r where c: "rest = c @ r" "png_chunk c" by (rule png_head[OF less.prems])
  show ?case
  proof (cases "chunk_kind c = byte_lit ''IEND''")
    case True
    then have "r = []" using less.prems c by (auto simp: png_step Let_def split: if_splits)
    then show ?thesis using True c by (intro exI[of _ "[c]"]) (simp add: png_chunks_single)
  next
    case False
    have "length r < length rest" using c by (auto simp: png_chunk_def)
    moreover have "strip_png_chunks r (if png_metadata (chunk_kind c) then out else out @ c) = Some res"
      using less.prems False c by (simp add: png_step Let_def)
    ultimately obtain cs where "r = concat cs" "png_chunks cs"
      using less.hyps by blast
    then show ?thesis
      using False c by (intro exI[of _ "c # cs"]) (auto simp: png_chunks_Cons png_chunks_def)
  qed
qed

lemma strip_png_iff:
  "strip_png_metadata bytes = Some out \<longleftrightarrow>
     (\<exists>cs. png_chunks cs \<and> bytes = png_signature @ concat cs
           \<and> out = png_signature @ concat (kept_png cs))"
proof -
  have len: "length png_signature = 8" by (simp add: png_signature_def)
  have "strip_png_metadata (png_signature @ concat cs) = Some (png_signature @ concat (kept_png cs))"
    if "png_chunks cs" for cs
    using that len by (simp add: strip_png_metadata_def png_complete)
  moreover have "\<exists>cs. png_chunks cs \<and> bytes = png_signature @ concat cs" if "strip_png_metadata bytes = Some out"
  proof -
    have "take 8 bytes = png_signature" and s: "strip_png_chunks (drop 8 bytes) png_signature = Some out"
      using that by (auto simp: strip_png_metadata_def split: if_splits)
    then show ?thesis using png_sound[OF s] by (metis append_take_drop_id)
  qed
  ultimately show ?thesis by (metis option.inject)
qed

lemma png_chunks_kept: "png_chunks cs \<Longrightarrow> png_chunks (kept_png cs)"
proof (induction cs)
  case (Cons c cs)
  show ?case
  proof (cases "cs = []")
    case True
    then show ?thesis using Cons.prems by (auto simp: png_chunks_single)
  next
    case False
    then have IH: "png_chunks (kept_png cs)" using Cons by (simp add: png_chunks_Cons)
    then have "kept_png cs \<noteq> []" by (simp add: png_chunks_def)
    then show ?thesis using False IH Cons.prems by (simp add: png_chunks_Cons)
  qed
qed simp

text \<open>
  A JPEG segment: fill bytes, the marker and, unless the marker stands alone, a body that begins
  with its length.  The picture ends with the scan, copied as it is, or an end marker.
\<close>

definition jpeg_segment :: "u8 list \<Rightarrow> bool" where
  "jpeg_segment s \<longleftrightarrow>
     (\<exists>n m body. s = replicate (Suc n) 0xff @ m # body \<and> m \<noteq> 0xff \<and> m \<noteq> 0xda \<and> m \<noteq> 0xd9
        \<and> (if jpeg_alone m then body = [] else 2 \<le> length body \<and> be16 (take 2 body) = length body))"

definition jpeg_end :: "u8 list \<Rightarrow> bool" where
  "jpeg_end s \<longleftrightarrow>
     (\<exists>n m body. s = replicate (Suc n) 0xff @ m # body \<and> (m = 0xda \<or> m = 0xd9 \<and> body = []))"

definition jpeg_marker :: "u8 list \<Rightarrow> u8" where
  "jpeg_marker s = s ! fill_bytes s"

abbreviation kept_jpeg :: "u8 list list \<Rightarrow> u8 list list" where
  "kept_jpeg \<equiv> filter (\<lambda>s. \<not> jpeg_metadata (jpeg_marker s))"

lemma fill_bytes_replicate [simp]: "m \<noteq> 0xff \<Longrightarrow> fill_bytes (replicate n 0xff @ m # r) = n"
  by (induction n) (simp_all add: fill_bytes_def)

lemma jpeg_marker_replicate [simp]: "m \<noteq> 0xff \<Longrightarrow> jpeg_marker (replicate n 0xff @ m # r) = m"
  by (simp add: jpeg_marker_def nth_append)

lemma jpeg_head:
  assumes "m \<noteq> 0xff"
  shows "strip_jpeg_segments (replicate (Suc n) 0xff @ m # after) out =
    (let head = replicate (Suc n) 0xff @ [m]
     in if m = 0xda then Some (out @ head @ after)
        else if m = 0xd9 then (if after = [] then Some (out @ head) else None)
        else if jpeg_alone m then strip_jpeg_segments after (out @ head)
        else if length after < 2 then None
        else
          let len = be16 (take 2 after)
          in if len < 2 \<or> length after < len then None
             else strip_jpeg_segments (drop len after)
                    (if jpeg_metadata m then out else out @ head @ take len after))"
proof -
  let ?rest = "replicate (Suc n) 0xff @ m # after"
  have parts: "fill_bytes ?rest = Suc n" "?rest ! Suc n = m" "drop (Suc (Suc n)) ?rest = after"
    "take (Suc (Suc n)) ?rest = replicate (Suc n) 0xff @ [m]" "\<not> (?rest = [] \<or> hd ?rest \<noteq> 0xff)"
    "\<not> length ?rest \<le> Suc n" "out @ ?rest = out @ (replicate (Suc n) 0xff @ [m]) @ after"
    using fill_bytes_replicate[OF assms, of "Suc n" after] by (simp_all add: nth_append)
  show ?thesis
    by (subst strip_jpeg_segments.simps) (simp only: parts Let_def if_False)
qed

lemma jpeg_decompose:
  assumes "strip_jpeg_segments rest out = Some res"
  obtains n m after where "rest = replicate (Suc n) 0xff @ m # after" "m \<noteq> 0xff"
proof -
  let ?n = "fill_bytes rest"
  have r: "rest \<noteq> []" "hd rest = 0xff" "?n < length rest"
    using assms by (auto simp: strip_jpeg_segments.simps[of rest] Let_def split: if_splits)
  obtain k where k: "?n = Suc k" using r by (cases rest) (auto simp: fill_bytes_def)
  have "takeWhile (\<lambda>b. b = 0xff) rest = replicate ?n 0xff"
    by (rule replicate_eqI) (auto simp: fill_bytes_def dest: set_takeWhileD)
  then have "rest = replicate ?n 0xff @ drop ?n rest"
    by (metis dropWhile_eq_drop fill_bytes_def takeWhile_dropWhile_id)
  moreover have "drop ?n rest \<noteq> []" using r(3) by simp
  moreover from this have "hd (drop ?n rest) \<noteq> 0xff"
    using hd_dropWhile[of "\<lambda>b. b = 0xff" rest] by (simp only: fill_bytes_def dropWhile_eq_drop simp_thms)
  ultimately obtain m after where "rest = replicate ?n 0xff @ m # after" "m \<noteq> 0xff"
    by (metis list.collapse)
  then show ?thesis using that k by metis
qed

lemma jpeg_step:
  assumes "jpeg_segment s"
  shows "strip_jpeg_segments (s @ r) out =
    strip_jpeg_segments r (if jpeg_metadata (jpeg_marker s) then out else out @ s)"
proof -
  obtain n m body where s: "s = replicate (Suc n) 0xff @ m # body" "m \<noteq> 0xff" "m \<noteq> 0xda" "m \<noteq> 0xd9"
    and body: "if jpeg_alone m then body = [] else 2 \<le> length body \<and> be16 (take 2 body) = length body"
    using assms by (auto simp: jpeg_segment_def)
  have alone: "\<not> jpeg_metadata m" if "jpeg_alone m"
    using that unfolding jpeg_alone_def jpeg_metadata_def by (auto simp: word_le_nat_alt)
  have "s @ r = replicate (Suc n) 0xff @ m # (body @ r)" using s by simp
  then show ?thesis
    using s body alone jpeg_marker_replicate[OF s(2), of "Suc n" body]
    by (simp only: jpeg_head[OF s(2)]) (auto simp: Let_def split: if_splits)
qed

lemma jpeg_complete:
  assumes "jpeg_end e"
  shows "\<forall>s \<in> set ss. jpeg_segment s \<Longrightarrow>
    strip_jpeg_segments (concat ss @ e) out = Some (out @ concat (kept_jpeg ss) @ e)"
proof (induction ss arbitrary: out)
  case Nil
  obtain n m body where "e = replicate (Suc n) 0xff @ m # body" "m = 0xda \<or> m = 0xd9 \<and> body = []"
    using assms by (auto simp: jpeg_end_def)
  then show ?case using jpeg_head[of m n body out] by (auto simp: Let_def)
next
  case (Cons s ss)
  then show ?case by (simp add: jpeg_step)
qed

lemma jpeg_sound:
  "strip_jpeg_segments rest out = Some res \<Longrightarrow>
     \<exists>ss e. rest = concat ss @ e \<and> (\<forall>s \<in> set ss. jpeg_segment s) \<and> jpeg_end e"
proof (induction "length rest" arbitrary: rest out rule: less_induct)
  case less
  obtain n m after where r: "rest = replicate (Suc n) 0xff @ m # after" "m \<noteq> 0xff"
    by (rule jpeg_decompose[OF less.prems])
  note run = less.prems[unfolded r(1) jpeg_head[OF r(2)]]
  show ?case
  proof (cases "m = 0xda \<or> m = 0xd9")
    case True
    then have "jpeg_end rest"
      unfolding jpeg_end_def r(1) using run by (auto simp: Let_def split: if_splits)
    then show ?thesis by (intro exI[of _ "[]"] exI[of _ rest]) simp
  next
    case False
    define k where "k = (if jpeg_alone m then 0 else be16 (take 2 after))"
    have k: "\<not> jpeg_alone m \<Longrightarrow> 2 \<le> k" "k \<le> length after" "\<exists>o'. strip_jpeg_segments (drop k after) o' = Some res"
      using run False by (auto simp: k_def Let_def split: if_splits)
    let ?s = "replicate (Suc n) 0xff @ m # take k after"
    have "be16 (take 2 (take k after)) = k" if "\<not> jpeg_alone m"
      using k(1)[OF that] that by (simp add: k_def min_def)
    then have "jpeg_segment ?s"
      unfolding jpeg_segment_def using r(2) False k(1,2)
      by (intro exI[of _ n] exI[of _ m] exI[of _ "take k after"]) (auto simp: k_def min_def)
    moreover obtain ss e where "drop k after = concat ss @ e" "\<forall>s \<in> set ss. jpeg_segment s" "jpeg_end e"
    proof -
      have "length (drop k after) < length rest" using r(1) by simp
      then show ?thesis using less.hyps k(3) that by blast
    qed
    ultimately show ?thesis
      using append_take_drop_id[of k after]
      by (intro exI[of _ "?s # ss"] exI[of _ e]) (auto simp: r(1))
  qed
qed

lemma strip_jpeg_iff:
  "strip_jpeg_metadata bytes = Some out \<longleftrightarrow>
     (\<exists>ss e. (\<forall>s \<in> set ss. jpeg_segment s) \<and> jpeg_end e \<and> bytes = [0xff, 0xd8] @ concat ss @ e
             \<and> out = [0xff, 0xd8] @ concat (kept_jpeg ss) @ e)"
proof -
  have "strip_jpeg_metadata ([0xff, 0xd8] @ concat ss @ e) = Some ([0xff, 0xd8] @ concat (kept_jpeg ss) @ e)"
    if "\<forall>s \<in> set ss. jpeg_segment s" "jpeg_end e" for ss e
    using jpeg_complete[OF that(2,1), of "[0xff, 0xd8]"] by (simp add: strip_jpeg_metadata_def)
  moreover have "\<exists>ss e. (\<forall>s \<in> set ss. jpeg_segment s) \<and> jpeg_end e \<and> bytes = [0xff, 0xd8] @ concat ss @ e"
    if "strip_jpeg_metadata bytes = Some out"
  proof -
    have "take 2 bytes = [0xff, 0xd8]" and s: "strip_jpeg_segments (drop 2 bytes) [0xff, 0xd8] = Some out"
      using that by (auto simp: strip_jpeg_metadata_def split: if_splits)
    then show ?thesis using jpeg_sound[OF s] by (metis append_take_drop_id)
  qed
  ultimately show ?thesis by (metis option.inject)
qed

text \<open>
  A WebP file is a RIFF header that declares the size of what follows, and its chunks, padded to
  an even length.
\<close>

definition webp_chunk :: "u8 list \<Rightarrow> bool" where
  "webp_chunk c \<longleftrightarrow>
     8 \<le> length c \<and> 8 + (le32 (take 4 (drop 4 c)) + le32 (take 4 (drop 4 c)) mod 2) = length c"

definition webp_file :: "u8 list list \<Rightarrow> u8 list" where
  "webp_file cs =
     byte_lit ''RIFF'' @ le_bytes 4 (of_nat (4 + length (concat cs)) :: u32)
     @ byte_lit ''WEBP'' @ concat cs"

definition cleared :: "u8 list \<Rightarrow> u8 list" where
  "cleared c = clear_flags (take 4 c) (le32 (take 4 (drop 4 c))) c"

definition clean_webp :: "u8 list list \<Rightarrow> u8 list list" where
  "clean_webp cs = map cleared (filter (\<lambda>c. \<not> webp_metadata (take 4 c)) cs)"

lemma webp_step:
  assumes "webp_chunk c"
  shows "strip_webp_chunks (c @ r) out =
    strip_webp_chunks r (if webp_metadata (take 4 c) then out else out @ cleared c)"
proof -
  have parts: "take 4 (c @ r) = take 4 c" "take 4 (drop 4 (c @ r)) = take 4 (drop 4 c)"
    "\<not> length (c @ r) < 8"
    "8 + (le32 (take 4 (drop 4 c)) + le32 (take 4 (drop 4 c)) mod 2) = length c"
    using assms by (auto simp: webp_chunk_def)
  show ?thesis
    unfolding strip_webp_chunks.simps[of "c @ r" out]
    by (simp only: parts Let_def cleared_def if_False) simp
qed

lemma webp_complete:
  "\<forall>c \<in> set cs. webp_chunk c \<Longrightarrow> strip_webp_chunks (concat cs) out = Some (out @ concat (clean_webp cs))"
proof (induction cs arbitrary: out)
  case Nil
  then show ?case by (simp add: strip_webp_chunks.simps clean_webp_def)
next
  case (Cons c cs)
  then show ?case by (simp add: webp_step clean_webp_def)
qed

lemma webp_sound:
  "strip_webp_chunks rest out = Some res \<Longrightarrow> \<exists>cs. rest = concat cs \<and> (\<forall>c \<in> set cs. webp_chunk c)"
proof (induction "length rest" arbitrary: rest out rule: less_induct)
  case less
  show ?case
  proof (cases "rest = []")
    case True
    then show ?thesis by (intro exI[of _ "[]"]) simp
  next
    case False
    let ?l = "le32 (take 4 (drop 4 rest))"
    let ?n = "8 + (?l + ?l mod 2)"
    have n: "?n \<le> length rest" "\<exists>o'. strip_webp_chunks (drop ?n rest) o' = Some res"
      using less.prems False by (auto simp: strip_webp_chunks.simps[of rest] Let_def split: if_splits)
    have "take 4 (drop 4 (take ?n rest)) = take 4 (drop 4 rest)" "length (take ?n rest) = ?n"
      using n(1) by (simp_all add: drop_take)
    then have "webp_chunk (take ?n rest)" by (simp only: webp_chunk_def) simp
    moreover have "length (drop ?n rest) < length rest" using False by (cases rest) auto
    then obtain cs where "drop ?n rest = concat cs" "\<forall>c \<in> set cs. webp_chunk c"
      using less.hyps n(2) by blast
    ultimately show ?thesis
      using append_take_drop_id[of ?n rest] by (intro exI[of _ "take ?n rest # cs"]) auto
  qed
qed

lemma length_cleared [simp]: "length (cleared c) = length c"
  by (simp add: cleared_def clear_flags_def)

lemma cleared_parts [simp]:
  "take 4 (cleared c) = take 4 c" "take 4 (drop 4 (cleared c)) = take 4 (drop 4 c)"
  by (simp_all add: cleared_def clear_flags_def drop_update_swap)

lemma webp_chunk_cleared [simp]: "webp_chunk (cleared c) = webp_chunk c"
  by (simp add: webp_chunk_def)

lemma cleared_cleared [simp]: "webp_chunk c \<Longrightarrow> cleared (cleared c) = cleared c"
proof -
  assume c: "webp_chunk c"
  show ?thesis
  proof (cases "take 4 c = byte_lit ''VP8X'' \<and> 1 \<le> le32 (take 4 (drop 4 c))")
    case True
    then have l: "8 < length c" using c by (auto simp: webp_chunk_def)
    have e: "cleared c = c[8 := c ! 8 AND NOT (0x08 OR 0x04)]"
      using True by (simp add: cleared_def clear_flags_def)
    have "cleared (cleared c) = (cleared c)[8 := cleared c ! 8 AND NOT (0x08 OR 0x04)]"
      using True by (subst cleared_def) (simp only: cleared_parts clear_flags_def if_True simp_thms)
    then show ?thesis using l by (simp add: e and.assoc)
  next
    case False
    then have "cleared c = c" by (simp only: cleared_def clear_flags_def if_False)
    then show ?thesis by simp
  qed
qed

lemma clean_webp_idem: "\<forall>c \<in> set cs. webp_chunk c \<Longrightarrow> clean_webp (clean_webp cs) = clean_webp cs"
  by (induction cs) (simp_all add: clean_webp_def)

lemma clean_webp_chunks: "\<forall>c \<in> set cs. webp_chunk c \<Longrightarrow> \<forall>c \<in> set (clean_webp cs). webp_chunk c"
  by (auto simp: clean_webp_def)

lemma clean_webp_length: "length (concat (clean_webp cs)) \<le> length (concat cs)"
  by (induction cs) (auto simp: clean_webp_def)

lemma le32_of_nat: "n < 2 ^ 32 \<Longrightarrow> le32 (le_bytes 4 (of_nat n :: u32)) = n"
  by (simp add: le32_def unat_of_nat_small)

lemma riff_size_file:
  assumes "4 + length body < 2 ^ 32"
  shows "riff_size (byte_lit ''RIFF'' @ [0, 0, 0, 0] @ byte_lit ''WEBP'' @ body)
    = Some (byte_lit ''RIFF'' @ le_bytes 4 (of_nat (4 + length body) :: u32) @ byte_lit ''WEBP'' @ body)"
proof -
  let ?f = "byte_lit ''RIFF'' @ [0, 0, 0, 0] @ byte_lit ''WEBP'' @ body"
  have parts: "take 4 ?f = byte_lit ''RIFF''" "drop 8 ?f = byte_lit ''WEBP'' @ body"
    "length ?f - 8 = 4 + length body" "\<not> length ?f < 8"
    by simp_all
  show ?thesis
    unfolding riff_size_def parts using assms parts(4) by (simp only: not_le[symmetric] simp_thms if_False)
qed

lemma strip_webp_file:
  assumes "\<forall>c \<in> set cs. webp_chunk c" and "4 + length (concat cs) < 2 ^ 32"
  shows "strip_webp_metadata (webp_file cs) = Some (webp_file (clean_webp cs))"
proof -
  let ?f = "webp_file cs"
  have parts: "length ?f = 12 + length (concat cs)" "take 4 ?f = byte_lit ''RIFF''"
    "take 4 (drop 4 ?f) = le_bytes 4 (of_nat (4 + length (concat cs)) :: u32)"
    "take 4 (drop 8 ?f) = byte_lit ''WEBP''" "drop 12 ?f = concat cs"
    by (simp_all add: webp_file_def del: le_bytes.simps of_nat_add)
  have size: "riff_size (byte_lit ''RIFF'' @ [0, 0, 0, 0] @ byte_lit ''WEBP'' @ concat (clean_webp cs))
      = Some (webp_file (clean_webp cs))"
    unfolding webp_file_def using assms(2) clean_webp_length[of cs] by (intro riff_size_file) linarith
  show ?thesis
    unfolding strip_webp_metadata_def parts le32_of_nat[OF assms(2)]
    using size by (simp add: webp_complete[OF assms(1)])
qed

lemma twelve: "take 4 xs @ take 4 (drop 4 xs) @ take 4 (drop 8 xs) @ drop 12 xs = xs"
proof -
  have "take 8 xs = take 4 xs @ take 4 (drop 4 xs)" "take 12 xs = take 8 xs @ take 4 (drop 8 xs)"
    using take_add[of 4 4 xs] take_add[of 8 4 xs] by simp_all
  then show ?thesis using append_take_drop_id[of 12 xs] by simp
qed

lemma strip_webp_iff:
  "strip_webp_metadata bytes = Some out \<longleftrightarrow>
     (\<exists>cs. (\<forall>c \<in> set cs. webp_chunk c) \<and> 4 + length (concat cs) < 2 ^ 32
           \<and> bytes = webp_file cs \<and> out = webp_file (clean_webp cs))"
proof -
  have "\<exists>cs. (\<forall>c \<in> set cs. webp_chunk c) \<and> 4 + length (concat cs) < 2 ^ 32 \<and> bytes = webp_file cs"
    if s: "strip_webp_metadata bytes = Some out"
  proof -
    have h: "12 \<le> length bytes" "take 4 bytes = byte_lit ''RIFF''" "take 4 (drop 8 bytes) = byte_lit ''WEBP''"
      and len: "le32 (take 4 (drop 4 bytes)) + 8 = length bytes"
      and run: "\<exists>o'. strip_webp_chunks (drop 12 bytes) (byte_lit ''RIFF'' @ [0, 0, 0, 0] @ byte_lit ''WEBP'') = Some o'"
      using s by (auto simp: strip_webp_metadata_def bind_eq_Some_conv split: if_splits)
    obtain cs where cs: "drop 12 bytes = concat cs" "\<forall>c \<in> set cs. webp_chunk c"
      using webp_sound run by blast
    have size: "4 + length (concat cs) = le32 (take 4 (drop 4 bytes))"
      using len h(1) unfolding cs(1)[symmetric] by simp
    then have small: "4 + length (concat cs) < 2 ^ 32" using unsigned_less[of "of_le (take 4 (drop 4 bytes)) :: u32"] by (simp add: le32_def)
    have four: "take 4 (drop 4 bytes) = le_bytes 4 (of_nat (4 + length (concat cs)) :: u32)"
    proof -
      have "of_nat (unat (of_le (take 4 (drop 4 bytes)) :: u32)) = (of_le (take 4 (drop 4 bytes)) :: u32)"
        by simp
      then show ?thesis
        unfolding size le32_def using h(1) le_bytes_of_le[of "take 4 (drop 4 bytes)" 4, where 'a = 32] by simp
    qed
    have "bytes = take 4 bytes @ take 4 (drop 4 bytes) @ take 4 (drop 8 bytes) @ drop 12 bytes"
      by (simp only: twelve)
    then have "bytes = webp_file cs" unfolding webp_file_def h(2,3) four cs(1) .
    with cs(2) small show ?thesis by blast
  qed
  then show ?thesis using strip_webp_file by (metis option.inject)
qed

subsection \<open>Any of the three\<close>

lemma first_byte:
  "strip_png_metadata bytes = Some a \<Longrightarrow> hd bytes = 0x89"
  "strip_jpeg_metadata bytes = Some b \<Longrightarrow> hd bytes = 0xff"
  "strip_webp_metadata bytes = Some c \<Longrightarrow> hd bytes = 0x52"
proof -
  show "hd bytes = 0x52" if webp: "strip_webp_metadata bytes = Some c"
  proof -
    obtain r where "bytes = byte_lit ''RIFF'' @ r"
      using webp unfolding strip_webp_iff webp_file_def by blast
    moreover have "hd (byte_lit ''RIFF'') = 0x52" by code_simp
    moreover have "byte_lit ''RIFF'' \<noteq> []" by (simp add: byte_lit_def)
    ultimately show ?thesis by simp
  qed
qed (auto simp: strip_png_iff strip_jpeg_iff png_signature_def)

lemma sanitize_iff:
  "sanitize_uploaded_image bytes = Some out \<longleftrightarrow>
     strip_png_metadata bytes = Some out \<or> strip_jpeg_metadata bytes = Some out
     \<or> strip_webp_metadata bytes = Some out"
  using first_byte[of bytes] by (auto simp: sanitize_uploaded_image_def split: option.splits)

lemma kept_idem: "filter p (filter p xs) = filter p xs"
  by (simp add: filter_filter)

lemma strip_png_idem: "strip_png_metadata bytes = Some out \<Longrightarrow> strip_png_metadata out = Some out"
  unfolding strip_png_iff by (metis kept_idem png_chunks_kept)

lemma strip_jpeg_idem: "strip_jpeg_metadata bytes = Some out \<Longrightarrow> strip_jpeg_metadata out = Some out"
proof -
  assume "strip_jpeg_metadata bytes = Some out"
  then obtain ss e where "\<forall>s \<in> set ss. jpeg_segment s" "jpeg_end e"
    and out: "out = [0xff, 0xd8] @ concat (kept_jpeg ss) @ e"
    unfolding strip_jpeg_iff by blast
  then show ?thesis
    unfolding strip_jpeg_iff by (intro exI[of _ "kept_jpeg ss"] exI[of _ e]) (simp add: kept_idem)
qed

lemma strip_webp_idem: "strip_webp_metadata bytes = Some out \<Longrightarrow> strip_webp_metadata out = Some out"
proof -
  assume "strip_webp_metadata bytes = Some out"
  then obtain cs where cs: "\<forall>c \<in> set cs. webp_chunk c" "4 + length (concat cs) < 2 ^ 32"
    and out: "out = webp_file (clean_webp cs)"
    unfolding strip_webp_iff by blast
  show ?thesis
    unfolding strip_webp_iff out
    using clean_webp_chunks[OF cs(1)] clean_webp_idem[OF cs(1)] cs(2) clean_webp_length[of cs]
    by (intro exI[of _ "clean_webp cs"]) auto
qed

lemma sanitize_idem: "sanitize_uploaded_image bytes = Some out \<Longrightarrow> sanitize_uploaded_image out = Some out"
  unfolding sanitize_iff using strip_png_idem strip_jpeg_idem strip_webp_idem by blast

end
