(* ===== verification/Database_Properties.thy ===== *)
theory Database_Properties
  imports Samples Live_Rooms Match_Db Images
begin

text \<open>
  The properties of the list of live rooms, the match history and the uploaded pictures, each
  with an instance at concrete data.
\<close>

subsection \<open>Live rooms\<close>

text \<open>C36: The list of live rooms shows the open matches: whatever clients did, when the spawned
  writes have run in the order they were spawned and no disbanded match is pending, the list
  contains every open match of the server exactly once and no other room. This holds while fewer
  than 65535 matches were created.\<close>

theorem live_rooms_are_open_matches:
  assumes "reachable n st" and "n < 65535" and "pending_disbanded_matches st = []"
  shows "let rooms = get_all_live_rooms (run_multi_tasks nows (tasks st) empty_multi_db)
    in distinct (map (lr_match_id \<circ> rd_room) rooms)
       \<and> set (map (lr_match_id \<circ> rd_room) rooms) = ucast ` dom (hget (matches st))"
  using live_rooms_open[OF reachable_live_ok[OF assms(1,2)] assms(3)] by (simp add: Let_def)

theorem live_rooms_are_open_matches_witness:
  "set (map (lr_match_id \<circ> rd_room)
     (get_all_live_rooms (run_multi_tasks (\<lambda>_. 0) (tasks lonely_state) empty_multi_db))) = {1}"
proof -
  have "pending_disbanded_matches lonely_state = []"
    by (simp add: lonely_state_def match_create_def Let_def leave_current_def remove_user_absent
        announce_left_def add_to_channel_def cleanup_eq)
  then show ?thesis
    using live_rooms_are_open_matches[OF lonely_reachable, of "\<lambda>_. 0"] by (simp add: Let_def)
qed

definition one_room_db :: multi_db where
  "one_room_db = upsert_room \<lparr>lr_match_id = 4, lr_name = [], lr_host_id = 5, lr_host_name = [],
     lr_beatmap_id = 0, lr_beatmap_name = [], lr_beatmap_md5 = [], lr_mode = 0, lr_scoring_type = 0,
     lr_team_type = 0, lr_mods = 0, lr_in_progress = 0, lr_player_count = 1, lr_slots = [],
     lr_created_at = 0, lr_updated_at = 0\<rparr> empty_multi_db"

text \<open>The list of live rooms, which is put together in memory from three queries and two hash
  maps, equals the nested queries it replaces: the rooms, the latest change first, each with its
  games, the latest first, each with its scores, the best first.\<close>

theorem live_list_is_nested_query:
  assumes "multi_ok db"
  shows "get_all_live_rooms db =
    map (\<lambda>r. \<lparr>rd_room = r, rd_slots = lr_slots r,
        rd_games = map (\<lambda>g. \<lparr>gs_game = g,
            gs_scores = order_desc (sint \<circ> ms_score) (filter (\<lambda>s. ms_game_id s = mg_id g) (md_scores db))\<rparr>)
          (order_desc mg_id (filter (\<lambda>g. mg_match_id g = lr_match_id r) (md_games db)))\<rparr>)
      (order_desc (sint \<circ> lr_updated_at) (md_rooms db))"
  unfolding get_all_live_rooms_eq[OF assms] room_details_def game_details_def ..

theorem live_list_is_nested_query_witness:
  "map (lr_match_id \<circ> rd_room) (get_all_live_rooms one_room_db) = [4]"
proof -
  have "multi_ok one_room_db" unfolding one_room_db_def by (rule multi_ok_upsert) (rule multi_ok_empty)
  from live_list_is_nested_query[OF this] show ?thesis
    by (simp add: one_room_db_def upsert_room_def empty_multi_db_def order_desc_def)
qed

subsection \<open>Match history\<close>

definition empty_history :: history_db where
  "empty_history = \<lparr>hd_matches = [], hd_scores = [], hd_next_match = 1, hd_next_score = 1\<rparr>"

definition sample_result :: match_result where
  "sample_result = \<lparr>mr_beatmap_id = 1, mr_beatmap_name = [], mr_beatmap_md5 = [], mr_mode = 0,
     mr_scoring_type = 0, mr_team_type = 0, mr_mods = 0, mr_duration = 60, mr_winner_id = 5,
     mr_winner_name = lit ''ann'', mr_scores = []\<rparr>"

text \<open>C39: A saved match is read back as it was saved, at any later time: under its number the
  history returns what the result said and one row per player's score, the best first, whatever
  other results were saved since.\<close>

theorem match_history_roundtrip:
  assumes "history_ok db" and "save_match_result now name res db = (k, db')"
  shows "\<exists>rows. get_match_detail (fold (\<lambda>(t, task). run_history_task t task) later db') k =
      Some \<lparr>mw_match_info = match_history_row k now name res, mw_scores = order_desc (sint \<circ> hs_score) rows\<rparr>
    \<and> list_all2 (\<lambda>row sc. row = match_score_row (hs_id row) k sc) rows (mr_scores res)"
proof -
  have k: "k = hd_next_match db" and db': "db' = snd (save_match_result now name res db)"
    using assms(2) by (auto simp: save_match_result_def Let_def)
  have next_id: "k < hd_next_match db'" "history_ok db'"
    using history_ok_save[OF assms(1), of now name res] by (simp_all add: k db' save_match_eq)
  have rows: "list_all2 (\<lambda>row sc. row = match_score_row (hs_id row) k sc) (score_rows i k scs) scs" for i scs
    by (induction scs arbitrary: i) (simp_all add: match_score_row_def)
  show ?thesis
    using detail_stays[OF next_id(2,1), of later] detail_saved[OF assms(1), of now name res] rows
    by (auto simp: k db')
qed

theorem match_history_roundtrip_witness:
  "\<exists>rows. get_match_detail (snd (save_match_result 0 (lit ''room'') sample_result empty_history)) 1 =
      Some \<lparr>mw_match_info = match_history_row 1 0 (lit ''room'') sample_result,
        mw_scores = order_desc (sint \<circ> hs_score) rows\<rparr>"
proof -
  have "history_ok empty_history" by (simp add: history_ok_def empty_history_def)
  moreover have "save_match_result 0 (lit ''room'') sample_result empty_history
      = (1, snd (save_match_result 0 (lit ''room'') sample_result empty_history))"
    by (simp add: save_match_result_def Let_def empty_history_def)
  ultimately show ?thesis
    using match_history_roundtrip[of empty_history 0 "lit ''room''" sample_result 1 _ "[]"] by auto
qed

subsection \<open>Uploaded pictures\<close>

text \<open>C38: An uploaded file is accepted exactly when its framing is that of a PNG (chunks up to the first
  \<open>IEND\<close>), of a JPEG (segments up to an end marker or the first start of scan) or of a WebP (chunks
  that fill the declared size); nothing inside the chunks is checked. Of a PNG the chunks eXIf, tEXt,
  zTXt, iTXt and iCCP go and of a WebP the chunks EXIF and XMP; of a JPEG the segments E1, ED and FE
  go that come before the first start of scan, and all that follows it is copied, metadata or not.
  Everything else stays, unchanged and in its order, with the flags and the size in the WebP header
  corrected.\<close>

theorem upload_keeps_all_but_metadata:
  "sanitize_uploaded_image bytes = Some out \<longleftrightarrow>
     (\<exists>cs. png_chunks cs \<and> bytes = png_signature @ concat cs
         \<and> out = png_signature @ concat (filter (\<lambda>c. chunk_kind c \<notin>
             {byte_lit ''eXIf'', byte_lit ''tEXt'', byte_lit ''zTXt'', byte_lit ''iTXt'', byte_lit ''iCCP''}) cs))
     \<or> (\<exists>ss e. (\<forall>s \<in> set ss. jpeg_segment s) \<and> jpeg_end e
         \<and> bytes = [0xff, 0xd8] @ concat ss @ e
         \<and> out = [0xff, 0xd8] @ concat (filter (\<lambda>s. jpeg_marker s \<notin> {0xe1, 0xed, 0xfe}) ss) @ e)
     \<or> (\<exists>cs. (\<forall>c \<in> set cs. webp_chunk c) \<and> 4 + length (concat cs) < 2 ^ 32 \<and> bytes = webp_file cs
         \<and> out = webp_file (map cleared (filter (\<lambda>c. take 4 c \<notin> {byte_lit ''EXIF'', byte_lit ''XMP ''}) cs)))"
  unfolding sanitize_iff strip_png_iff strip_jpeg_iff strip_webp_iff clean_webp_def
    png_metadata_def jpeg_metadata_def webp_metadata_def by simp

text \<open>A picture with a comment loses the comment segment \<open>ff fe\<close>.\<close>

theorem upload_keeps_all_but_metadata_witness:
  "sanitize_uploaded_image [0xff, 0xd8, 0xff, 0xfe, 0, 4, 1, 2, 0xff, 0xd9] = Some [0xff, 0xd8, 0xff, 0xd9]"
proof -
  have "be16 [0, 4] = 4" "\<not> jpeg_alone 0xfe" by code_simp+
  then have comment: "jpeg_segment [0xff, 0xfe, 0, 4, 1, 2]"
    unfolding jpeg_segment_def
    by (intro exI[of _ "0::nat"] exI[of _ "0xfe::u8"] exI[of _ "[0, 4, 1, 2] :: u8 list"]) simp
  have fin: "jpeg_end [0xff, 0xd9]"
    unfolding jpeg_end_def
    by (intro exI[of _ "0::nat"] exI[of _ "0xd9::u8"] exI[of _ "[] :: u8 list"]) simp
  have "jpeg_marker [0xff, 0xfe, 0, 4, 1, 2] = 0xfe" by code_simp
  with comment fin show ?thesis
    unfolding upload_keeps_all_but_metadata
    by (intro disjI2 disjI1 exI[of _ "[[0xff, 0xfe, 0, 4, 1, 2]]"] exI[of _ "[0xff, 0xd9]"]) simp
qed

text \<open>Cleaning a picture is final: what is stored is accepted again, and cleaning it once more
  changes nothing.\<close>

lemma upload_sanitizing_is_final:
  assumes "sanitize_uploaded_image bytes = Some out"
  shows "sanitize_uploaded_image out = Some out"
  using assms by (rule sanitize_idem)

text \<open>An empty picture is such a picture.\<close>

lemma upload_sanitizing_example:
  "sanitize_uploaded_image [0xff, 0xd8, 0xff, 0xd9] = Some [0xff, 0xd8, 0xff, 0xd9]"
proof -
  have "sanitize_uploaded_image [0xff, 0xd8, 0xff, 0xfe, 0, 4, 1, 2, 0xff, 0xd9] = Some [0xff, 0xd8, 0xff, 0xd9]"
    by code_simp
  then show ?thesis by (rule upload_sanitizing_is_final)
qed

end
