(* ===== verification/Users_Db.thy ===== *)
theory Users_Db
  imports Login Sql "HOL-Library.Product_Lexorder"
begin

text \<open>
  \<^verbatim>\<open>src/db/users.rs\<close>: accounts, their statistics, the hardware they log in from and the
  revoked web sessions, with the constraints the schema of \<^verbatim>\<open>src/db/mod.rs\<close> puts on the
  tables.  User ids are far below \<open>2 ^ 31\<close>.  The sums in the statistics are added by SQLite, whose
  INTEGER has 64 bits (\<open>sql_plus\<close>).  A query whose statement fails is \<open>None\<close>; only constraints make
  one fail.
\<close>

subsection \<open>Sums\<close>

text \<open>
  The sum of two INTEGER cells is an INTEGER when it fits 64 bits.  Otherwise, and when one of the
  cells is REAL, both are added as doubles; a column of type INTEGER stores the REAL result, and
  turns one that fits 64 bits (all but \<open>- 2 ^ 63\<close>) back into an INTEGER.  A cell is the integer it
  holds: one outside 64 bits is REAL, and reading it as an \<^verbatim>\<open>i64\<close> panics (\<^verbatim>\<open>Row::get\<close>).
\<close>

definition is_integer_cell :: "int \<Rightarrow> bool" where
  "is_integer_cell k \<longleftrightarrow> - (2 ^ 63) \<le> k \<and> k < 2 ^ 63"

definition whole_of :: "fp \<Rightarrow> int" where
  "whole_of x = (case x of Fin r \<Rightarrow> \<lfloor>r\<rfloor> | _ \<Rightarrow> 0)"

definition sql_plus :: "int \<Rightarrow> int \<Rightarrow> int" where
  "sql_plus a b =
     (if is_integer_cell a \<and> is_integer_cell b \<and> is_integer_cell (a + b) then a + b
      else whole_of (fp_add f64 (fp_of_int f64 a) (fp_of_int f64 b)))"

text \<open>What a query hands to its caller.\<close>

datatype 'a sql_answer = Answered 'a | Failed | Panicked

lemma sql_plus_exact: "is_integer_cell a \<Longrightarrow> is_integer_cell b \<Longrightarrow> is_integer_cell (a + b) \<Longrightarrow> sql_plus a b = a + b"
  by (simp add: sql_plus_def)

lemma i64_cell [simp]: "is_integer_cell (sint (x :: i64))"
  using sint_ge[of x] sint_lt[of x] by (simp add: is_integer_cell_def)

subsection \<open>Tables\<close>

record user_row =
  ur_id :: int
  ur_username :: rstr
  ur_password_hash :: rstr
  ur_email :: rstr
  ur_privileges :: i64
  ur_country :: i64
  ur_bio :: rstr
  ur_created_at :: i64

record stats_row =
  st_user_id :: i64
  st_mode :: i64
  st_ranked_score :: int
  st_accuracy :: fp
  st_play_count :: int
  st_total_score :: int
  st_pp :: int

record hardware_row =
  hr_id :: int
  hr_user_id :: i64
  hr_adapters_hash :: rstr
  hr_uninstall_id :: rstr
  hr_disk_signature :: rstr
  hr_last_ip :: rstr
  hr_protection_version :: int
  hr_created_at :: i64

record revoked_row =
  rv_token_hash :: rstr
  rv_expires_at :: i64

record users_db =
  ud_users :: "user_row list"
  ud_next_user :: int
  ud_stats :: "stats_row list"
  ud_hardware :: "hardware_row list"
  ud_next_hardware :: int
  ud_revoked :: "revoked_row list"

definition empty_users_db :: users_db where
  "empty_users_db = \<lparr>ud_users = [], ud_next_user = 1, ud_stats = [], ud_hardware = [],
     ud_next_hardware = 1, ud_revoked = []\<rparr>"

text \<open>The struct a query returns.\<close>

record user =
  us_id :: i32
  us_username :: rstr
  us_password_hash :: rstr
  us_email :: rstr
  us_privileges :: i32
  us_country :: u8
  us_bio :: rstr
  us_created_at :: i64

definition user_of_row :: "user_row \<Rightarrow> user" where
  "user_of_row r =
     \<lparr>us_id = word_of_int (ur_id r), us_username = ur_username r,
      us_password_hash = ur_password_hash r, us_email = ur_email r,
      us_privileges = ucast (ur_privileges r), us_country = ucast (ur_country r),
      us_bio = ur_bio r, us_created_at = ur_created_at r\<rparr>"

text \<open>\<^verbatim>\<open>COLLATE NOCASE\<close> folds the ASCII letters.\<close>

abbreviation nocase :: "rstr \<Rightarrow> rstr \<Rightarrow> bool" where
  "nocase \<equiv> eq_ignore_ascii_case"

subsection \<open>Accounts\<close>

definition get_user_by_username :: "users_db \<Rightarrow> rstr \<Rightarrow> user option" where
  "get_user_by_username db username =
     map_option user_of_row (find (\<lambda>r. nocase (ur_username r) username) (ud_users db))"

definition get_user_by_id :: "users_db \<Rightarrow> i32 \<Rightarrow> user option" where
  "get_user_by_id db uid = map_option user_of_row (find (\<lambda>r. ur_id r = sint uid) (ud_users db))"

definition get_user_by_email :: "users_db \<Rightarrow> rstr \<Rightarrow> user option" where
  "get_user_by_email db email =
     map_option user_of_row (find (\<lambda>r. nocase (ur_email r) email) (ud_users db))"

definition update_user :: "i32 \<Rightarrow> (user_row \<Rightarrow> user_row) \<Rightarrow> users_db \<Rightarrow> users_db" where
  "update_user uid f db =
     db\<lparr>ud_users := map (\<lambda>r. if ur_id r = sint uid then f r else r) (ud_users db)\<rparr>"

definition update_user_password :: "i32 \<Rightarrow> rstr \<Rightarrow> users_db \<Rightarrow> users_db" where
  "update_user_password uid new_hash = update_user uid (\<lambda>r. r\<lparr>ur_password_hash := new_hash\<rparr>)"

definition update_user_bio :: "i32 \<Rightarrow> rstr \<Rightarrow> users_db \<Rightarrow> users_db" where
  "update_user_bio uid bio = update_user uid (\<lambda>r. r\<lparr>ur_bio := bio\<rparr>)"

definition update_user_country :: "i32 \<Rightarrow> u8 \<Rightarrow> users_db \<Rightarrow> users_db" where
  "update_user_country uid country = update_user uid (\<lambda>r. r\<lparr>ur_country := ucast country\<rparr>)"

definition count_users :: "users_db \<Rightarrow> int" where
  "count_users db = int (length (ud_users db))"

subsection \<open>Statistics\<close>

definition is_stats :: "i32 \<Rightarrow> u8 \<Rightarrow> stats_row \<Rightarrow> bool" where
  "is_stats uid mode r \<longleftrightarrow> st_user_id r = scast uid \<and> st_mode r = ucast mode"

definition fresh_stats :: "i32 \<Rightarrow> u8 \<Rightarrow> stats_row" where
  "fresh_stats uid mode =
     \<lparr>st_user_id = scast uid, st_mode = ucast mode, st_ranked_score = 0, st_accuracy = Zero False,
      st_play_count = 0, st_total_score = 0, st_pp = 0\<rparr>"

text \<open>
  \<^verbatim>\<open>INSERT OR IGNORE INTO stats\<close>: a row with the key is left alone; a row for a user who does
  not exist violates the foreign key, which \<^verbatim>\<open>OR IGNORE\<close> does not cover.
\<close>

definition ensure_stats :: "i32 \<Rightarrow> u8 \<Rightarrow> users_db \<Rightarrow> users_db option" where
  "ensure_stats uid mode db =
     (if \<exists>r \<in> set (ud_stats db). is_stats uid mode r then Some db
      else if \<forall>r \<in> set (ud_users db). ur_id r \<noteq> sint uid then None
      else Some (db\<lparr>ud_stats := ud_stats db @ [fresh_stats uid mode]\<rparr>))"

definition stats_of_row :: "stats_row \<Rightarrow> db_user_stats" where
  "stats_of_row r =
     \<lparr>du_user_id = ucast (st_user_id r), du_mode = ucast (st_mode r),
      du_ranked_score = word_of_int (st_ranked_score r), du_accuracy = fp_cast f32 (st_accuracy r),
      du_play_count = word_of_int (st_play_count r), du_total_score = word_of_int (st_total_score r),
      du_pp = word_of_int (st_pp r)\<rparr>"

definition readable_stats :: "stats_row \<Rightarrow> bool" where
  "readable_stats r \<longleftrightarrow> is_integer_cell (st_play_count r) \<and> is_integer_cell (st_total_score r)"

definition get_or_create_stats :: "i32 \<Rightarrow> u8 \<Rightarrow> users_db \<Rightarrow> db_user_stats sql_answer \<times> users_db" where
  "get_or_create_stats uid mode db =
     (case find (is_stats uid mode) (ud_stats db) of
        Some r \<Rightarrow> (if readable_stats r then Answered (stats_of_row r) else Panicked, db)
      | None \<Rightarrow>
          (case ensure_stats uid mode db of
             None \<Rightarrow> (Failed, db)
           | Some db' \<Rightarrow>
               (Answered \<lparr>du_user_id = uid, du_mode = mode, du_ranked_score = 0, du_accuracy = Zero False,
                  du_play_count = 0, du_total_score = 0, du_pp = 0\<rparr>, db')))"

text \<open>
  A rank is one more than the number of rows of the mode that are better.  When the user has no
  row the subqueries are \<^verbatim>\<open>NULL\<close>, and nothing compares with it.
\<close>

definition better_than :: "stats_row \<Rightarrow> stats_row \<Rightarrow> bool" where
  "better_than mine r \<longleftrightarrow>
     st_pp mine < st_pp r \<or> st_pp r = st_pp mine \<and> st_ranked_score mine < st_ranked_score r"

definition get_user_rank :: "users_db \<Rightarrow> i32 \<Rightarrow> u8 \<Rightarrow> i32" where
  "get_user_rank db uid mode =
     (case find (is_stats uid mode) (ud_stats db) of
        None \<Rightarrow> 1
      | Some mine \<Rightarrow>
          word_of_int (1 + int (length
            (filter (\<lambda>r. st_mode r = ucast mode \<and> better_than mine r) (ud_stats db)))))"

record leaderboard_user =
  lb_rank :: i32
  lb_user_id :: i32
  lb_username :: rstr
  lb_country :: u8
  lb_pp :: i16
  lb_ranked_score :: i64
  lb_total_score :: i64
  lb_accuracy :: fp
  lb_play_count :: i32

definition leaderboard_entry :: "nat \<Rightarrow> user_row \<times> stats_row \<Rightarrow> leaderboard_user" where
  "leaderboard_entry idx = (\<lambda>(u, s).
     \<lparr>lb_rank = of_nat (idx + 1), lb_user_id = word_of_int (ur_id u), lb_username = ur_username u,
      lb_country = ucast (ur_country u), lb_pp = word_of_int (st_pp s),
      lb_ranked_score = word_of_int (st_ranked_score s),
      lb_total_score = word_of_int (st_total_score s), lb_accuracy = fp_cast f32 (st_accuracy s),
      lb_play_count = word_of_int (st_play_count s)\<rparr>)"

text \<open>\<^verbatim>\<open>FROM stats s JOIN users u ON u.id = s.user_id\<close>\<close>

definition stats_with_users :: "users_db \<Rightarrow> (stats_row \<Rightarrow> bool) \<Rightarrow> (user_row \<times> stats_row) list" where
  "stats_with_users db p =
     [(u, s). s \<leftarrow> ud_stats db, p s, u \<leftarrow> ud_users db, ur_id u = sint (st_user_id s)]"

definition leaderboard_rows :: "users_db \<Rightarrow> u8 \<Rightarrow> int \<Rightarrow> (user_row \<times> stats_row) list" where
  "leaderboard_rows db mode limit =
     sql_limit limit
       (order_desc (\<lambda>(u, s). (st_pp s, st_ranked_score s, st_play_count s))
         (stats_with_users db
           (\<lambda>s. st_mode s = ucast mode \<and> (0 < st_play_count s \<or> 0 < st_total_score s))))"

text \<open>One row that cannot be read panics the query (\<open>None\<close>).\<close>

definition get_leaderboard :: "users_db \<Rightarrow> u8 \<Rightarrow> int \<Rightarrow> leaderboard_user list option" where
  "get_leaderboard db mode limit =
     (let rows = leaderboard_rows db mode limit
      in if list_all (\<lambda>(u, s). readable_stats s) rows
         then Some (map (\<lambda>(idx, r). leaderboard_entry idx r) (enumerate 0 rows))
         else None)"

subsection \<open>Registration\<close>

fun ensure_modes :: "i32 \<Rightarrow> u8 list \<Rightarrow> users_db \<Rightarrow> bool \<times> users_db" where
  "ensure_modes uid [] db = (True, db)"
| "ensure_modes uid (mode # modes) db =
     (case ensure_stats uid mode db of
        None \<Rightarrow> (False, db)
      | Some db' \<Rightarrow> ensure_modes uid modes db')"

definition create_user ::
    "i64 \<Rightarrow> rstr \<Rightarrow> rstr \<Rightarrow> rstr \<Rightarrow> u8 \<Rightarrow> users_db \<Rightarrow> user option \<times> users_db" where
  "create_user now username password_hash email country db =
     (if \<exists>r \<in> set (ud_users db). nocase (ur_username r) username then (None, db)
      else
        let row = \<lparr>ur_id = ud_next_user db, ur_username = username, ur_password_hash = password_hash,
                   ur_email = email, ur_privileges = 1, ur_country = ucast country, ur_bio = [],
                   ur_created_at = now\<rparr>;
            user_id = (word_of_int (ud_next_user db) :: i32);
            (ok, db') = ensure_modes user_id [0, 1, 2, 3]
              (db\<lparr>ud_users := ud_users db @ [row], ud_next_user := ud_next_user db + 1\<rparr>)
        in if \<not> ok then (None, db')
           else (Some \<lparr>us_id = user_id, us_username = username, us_password_hash = password_hash,
                   us_email = email, us_privileges = 1, us_country = country, us_bio = [],
                   us_created_at = now\<rparr>, db'))"

subsection \<open>Hardware\<close>

definition same_hardware :: "client_hardware \<Rightarrow> hardware_row \<Rightarrow> bool" where
  "same_hardware hw r \<longleftrightarrow>
     hr_adapters_hash r = hw_adapters_hash hw \<and> hr_adapters_hash r \<noteq> []
     \<or> hr_disk_signature r = hw_disk_signature hw \<and> hr_disk_signature r \<noteq> []"

definition check_multiaccount :: "users_db \<Rightarrow> i32 option \<Rightarrow> client_hardware \<Rightarrow> u32 \<Rightarrow> bool" where
  "check_multiaccount db target_user_id hw max_allowed =
     (if hw_adapters_hash hw = [] \<and> hw_disk_signature hw = [] then False
      else
        let distinct_users =
              remdups (map (\<lambda>r. ucast (hr_user_id r) :: i32) (filter (same_hardware hw) (ud_hardware db)));
            others = (case target_user_id of
                        Some uid \<Rightarrow> filter (\<lambda>i. i \<noteq> uid) distinct_users
                      | None \<Rightarrow> distinct_users)
        in unat max_allowed \<le> length others)"

definition record_user_hardware ::
    "i64 \<Rightarrow> i32 \<Rightarrow> client_hardware \<Rightarrow> rstr \<Rightarrow> users_db \<Rightarrow> users_db option" where
  "record_user_hardware now uid hw ip db =
     (if \<forall>r \<in> set (ud_users db). ur_id r \<noteq> sint uid then None
      else Some (db\<lparr>ud_hardware := ud_hardware db @
             [\<lparr>hr_id = ud_next_hardware db, hr_user_id = scast uid,
               hr_adapters_hash = hw_adapters_hash hw, hr_uninstall_id = hw_uninstall_id hw,
               hr_disk_signature = hw_disk_signature hw, hr_last_ip = ip, hr_protection_version = 1,
               hr_created_at = now\<rparr>],
             ud_next_hardware := ud_next_hardware db + 1\<rparr>))"

text \<open>The byte is an ASCII letter, digit, hyphen or underscore.\<close>

definition fingerprint_byte :: "u8 \<Rightarrow> bool" where
  "fingerprint_byte b \<longleftrightarrow>
     0x30 \<le> b \<and> b \<le> 0x39 \<or> 0x41 \<le> b \<and> b \<le> 0x5A \<or> 0x61 \<le> b \<and> b \<le> 0x7A \<or> b = 0x2D \<or> b = 0x5F"

definition looks_like_privacy_fingerprint :: "rstr \<Rightarrow> bool" where
  "looks_like_privacy_fingerprint value =
     (length (utf8_encode value) = 43 \<and> list_all fingerprint_byte (utf8_encode value))"

text \<open>The keyed fingerprint, already applied to the server's secret, is a parameter.\<close>

definition protect_identifier :: "(rstr \<Rightarrow> rstr \<Rightarrow> rstr) \<Rightarrow> rstr \<Rightarrow> rstr \<Rightarrow> rstr" where
  "protect_identifier fingerprint namespace value =
     (if value = [] \<or> looks_like_privacy_fingerprint value then value else fingerprint namespace value)"

definition migrate_row :: "(rstr \<Rightarrow> rstr \<Rightarrow> rstr) \<Rightarrow> hardware_row \<Rightarrow> hardware_row" where
  "migrate_row fingerprint r =
     (if hr_protection_version r = 0 then
        r\<lparr>hr_adapters_hash := protect_identifier fingerprint (lit ''hardware-adapter'') (hr_adapters_hash r),
          hr_uninstall_id := protect_identifier fingerprint (lit ''hardware-uninstall'') (hr_uninstall_id r),
          hr_disk_signature := protect_identifier fingerprint (lit ''hardware-disk'') (hr_disk_signature r),
          hr_last_ip := protect_identifier fingerprint (lit ''client-ip'') (hr_last_ip r),
          hr_protection_version := 1\<rparr>
      else r)"

definition migrate_legacy_hardware_identifiers ::
    "(rstr \<Rightarrow> rstr \<Rightarrow> rstr) \<Rightarrow> users_db \<Rightarrow> nat \<times> users_db" where
  "migrate_legacy_hardware_identifiers fingerprint db =
     (length (filter (\<lambda>r. hr_protection_version r = 0) (ud_hardware db)),
      db\<lparr>ud_hardware := map (migrate_row fingerprint) (ud_hardware db)\<rparr>)"

subsection \<open>Passwords of the old format\<close>

definition ascii_hexdigit :: "rchar \<Rightarrow> bool" where
  "ascii_hexdigit c \<longleftrightarrow> 48 \<le> c \<and> c \<le> 57 \<or> 65 \<le> c \<and> c \<le> 70 \<or> 97 \<le> c \<and> c \<le> 102"

text \<open>\<open>hash.len()\<close> counts bytes, \<^verbatim>\<open>length(password_hash)\<close> of the query characters.\<close>

definition legacy_md5 :: "rstr \<Rightarrow> bool" where
  "legacy_md5 hash \<longleftrightarrow>
     length hash = 32 \<and> length (utf8_encode hash) = 32 \<and> list_all ascii_hexdigit hash"

definition upgrade_password :: "(rstr \<Rightarrow> rstr option) \<Rightarrow> user_row \<Rightarrow> user_row" where
  "upgrade_password hash_password r =
     (if legacy_md5 (ur_password_hash r) then
        (case hash_password (ur_password_hash r) of
           Some upgraded \<Rightarrow> r\<lparr>ur_password_hash := upgraded\<rparr>
         | None \<Rightarrow> r)
      else r)"

definition migrate_legacy_md5_passwords :: "(rstr \<Rightarrow> rstr option) \<Rightarrow> users_db \<Rightarrow> nat \<times> users_db" where
  "migrate_legacy_md5_passwords hash_password db =
     (length (filter (\<lambda>r. legacy_md5 (ur_password_hash r) \<and> hash_password (ur_password_hash r) \<noteq> None)
        (ud_users db)),
      db\<lparr>ud_users := map (upgrade_password hash_password) (ud_users db)\<rparr>)"

subsection \<open>Revoked web sessions\<close>

definition revoke_session :: "i64 \<Rightarrow> rstr \<Rightarrow> i64 \<Rightarrow> users_db \<Rightarrow> users_db" where
  "revoke_session now token_hash expires_at db =
     (let live = filter (\<lambda>r. \<not> sint (rv_expires_at r) \<le> sint now) (ud_revoked db)
      in db\<lparr>ud_revoked := filter (\<lambda>r. rv_token_hash r \<noteq> token_hash) live
                @ [\<lparr>rv_token_hash = token_hash, rv_expires_at = expires_at\<rparr>]\<rparr>)"

definition is_session_revoked :: "i64 \<Rightarrow> users_db \<Rightarrow> rstr \<Rightarrow> bool" where
  "is_session_revoked now db token_hash \<longleftrightarrow>
     (\<exists>r \<in> set (ud_revoked db). rv_token_hash r = token_hash \<and> sint now < sint (rv_expires_at r))"

subsection \<open>The constraints of the tables\<close>

definition users_ok :: "users_db \<Rightarrow> bool" where
  "users_ok db \<longleftrightarrow>
     distinct (map (\<lambda>r. map ascii_lower (ur_username r)) (ud_users db))
     \<and> distinct (map ur_id (ud_users db))
     \<and> (\<forall>r \<in> set (ud_users db). 1 \<le> ur_id r \<and> ur_id r < ud_next_user db)
     \<and> distinct (map (\<lambda>s. (st_user_id s, st_mode s)) (ud_stats db))
     \<and> (\<forall>s \<in> set (ud_stats db). \<exists>r \<in> set (ud_users db). ur_id r = sint (st_user_id s))
     \<and> 1 \<le> ud_next_user db"

lemma users_okD:
  assumes "users_ok db"
  shows "distinct (map (\<lambda>r. map ascii_lower (ur_username r)) (ud_users db))"
    and "distinct (map ur_id (ud_users db))"
    and "r \<in> set (ud_users db) \<Longrightarrow> 1 \<le> ur_id r \<and> ur_id r < ud_next_user db"
    and "distinct (map (\<lambda>s. (st_user_id s, st_mode s)) (ud_stats db))"
    and "s \<in> set (ud_stats db) \<Longrightarrow> \<exists>r \<in> set (ud_users db). ur_id r = sint (st_user_id s)"
    and "1 \<le> ud_next_user db"
  using assms by (auto simp: users_ok_def)

lemma empty_users_ok: "users_ok empty_users_db"
  by (simp add: users_ok_def empty_users_db_def)

lemma sint_id: "1 \<le> k \<Longrightarrow> k < 2 ^ 31 \<Longrightarrow> sint (word_of_int k :: i32) = k"
  by (simp add: sint_sbintrunc' signed_take_bit_int_eq_self)

lemma sint_scast_i32 [simp]: "sint (scast (w :: i32) :: i64) = sint w"
  by (simp add: sint_up_scast is_up)

lemma scast_i32_inj [simp]: "(scast (a :: i32) :: i64) = scast b \<longleftrightarrow> a = b"
  by (metis sint_scast_i32 signed_word_eqI)

lemma ucast_u8_back [simp]: "ucast (ucast (a :: u8) :: i64) = a"
  by (rule bit_word_eqI) (auto simp: bit_simps dest: bit_imp_le_length)

lemma ucast_u8_inj [simp]: "(ucast (a :: u8) :: i64) = ucast b \<longleftrightarrow> a = b"
  by (metis ucast_u8_back)

lemma nocase_trans: "nocase a b \<Longrightarrow> nocase b c \<Longrightarrow> nocase a c"
  and nocase_sym: "nocase a b \<longleftrightarrow> nocase b a"
  by (auto simp: eq_ignore_ascii_case_def)

text \<open>Rows with distinct keys: the first row found is the only one.\<close>

lemma find_unique:
  "distinct (map f xs) \<Longrightarrow> x \<in> set xs \<Longrightarrow> (\<And>y. P y \<Longrightarrow> f y = f x) \<Longrightarrow> P x \<Longrightarrow> find P xs = Some x"
proof (induction xs)
  case (Cons a xs)
  show ?case
  proof (cases "a = x")
    case False
    then have x: "x \<in> set xs" using Cons.prems(2) by simp
    have "f a \<notin> f ` set xs" using Cons.prems(1) by simp
    then have "f a \<noteq> f x" using x by auto
    then have "\<not> P a" using Cons.prems(3) by blast
    moreover have "find P xs = Some x"
      by (rule Cons.IH[OF _ x Cons.prems(3,4)]) (use Cons.prems(1) in simp_all)
    ultimately show ?thesis by simp
  qed (use Cons.prems(4) in simp)
qed simp

lemma find_append: "find P (xs @ ys) = (case find P xs of Some x \<Rightarrow> Some x | None \<Rightarrow> find P ys)"
  by (induction xs) auto

lemma find_SomeD: "find P xs = Some x \<Longrightarrow> x \<in> set xs \<and> P x"
  by (induction xs) (auto split: if_splits)

lemma find_NoneD: "find P xs = None \<Longrightarrow> x \<in> set xs \<Longrightarrow> \<not> P x"
  by (simp add: find_None_iff)

subsection \<open>Registration keeps them\<close>

definition has_stats :: "users_db \<Rightarrow> i32 \<Rightarrow> u8 \<Rightarrow> bool" where
  "has_stats db uid mode \<longleftrightarrow> (\<exists>r \<in> set (ud_stats db). is_stats uid mode r)"

lemma fresh_stats_is [simp]: "is_stats uid m (fresh_stats uid' m') \<longleftrightarrow> uid' = uid \<and> m' = m"
  by (auto simp: is_stats_def fresh_stats_def)

lemma has_stats_append [simp]:
  "has_stats (db\<lparr>ud_stats := ud_stats db @ [fresh_stats uid m]\<rparr>) uid' m'
     \<longleftrightarrow> has_stats db uid' m' \<or> uid' = uid \<and> m' = m"
  by (auto simp: has_stats_def)

lemma ensure_modes_eq:
  assumes "\<exists>r \<in> set (ud_users db). ur_id r = sint uid" and "distinct modes"
  shows "ensure_modes uid modes db = (True, db\<lparr>ud_stats := ud_stats db @
           map (fresh_stats uid) (filter (\<lambda>m. \<not> has_stats db uid m) modes)\<rparr>)"
  using assms
proof (induction modes arbitrary: db)
  case (Cons m modes)
  show ?case
  proof (cases "has_stats db uid m")
    case True
    then have "ensure_stats uid m db = Some db" by (simp add: ensure_stats_def has_stats_def)
    then show ?thesis using True Cons by simp
  next
    case False
    let ?db = "db\<lparr>ud_stats := ud_stats db @ [fresh_stats uid m]\<rparr>"
    have e: "ensure_stats uid m db = Some ?db"
      using False Cons.prems(1) by (auto simp: ensure_stats_def has_stats_def)
    have "filter (\<lambda>k. \<not> has_stats ?db uid k) modes = filter (\<lambda>k. \<not> has_stats db uid k) modes"
      using Cons.prems(2) by (intro filter_cong) auto
    then show ?thesis using False Cons.IH[of ?db] Cons.prems e by simp
  qed
qed simp

definition added_user :: "i64 \<Rightarrow> rstr \<Rightarrow> rstr \<Rightarrow> rstr \<Rightarrow> u8 \<Rightarrow> users_db \<Rightarrow> users_db" where
  "added_user now username password_hash email country db =
     (let row = \<lparr>ur_id = ud_next_user db, ur_username = username, ur_password_hash = password_hash,
                 ur_email = email, ur_privileges = 1, ur_country = ucast country, ur_bio = [],
                 ur_created_at = now\<rparr>
      in db\<lparr>ud_users := ud_users db @ [row], ud_next_user := ud_next_user db + 1,
            ud_stats := ud_stats db @ map (fresh_stats (word_of_int (ud_next_user db))) [0, 1, 2, 3]\<rparr>)"

lemma no_stats_yet:
  assumes "users_ok db" and "ud_next_user db < 2 ^ 31"
  shows "\<not> has_stats db (word_of_int (ud_next_user db)) m"
proof
  assume "has_stats db (word_of_int (ud_next_user db)) m"
  then obtain s where s: "s \<in> set (ud_stats db)" "st_user_id s = scast (word_of_int (ud_next_user db) :: i32)"
    by (auto simp: has_stats_def is_stats_def)
  obtain r where r: "r \<in> set (ud_users db)" "ur_id r = sint (st_user_id s)"
    using users_okD(5)[OF assms(1) s(1)] by auto
  then have "ur_id r = ud_next_user db"
    using s(2) sint_id[OF users_okD(6)[OF assms(1)] assms(2)] by simp
  then show False using users_okD(3)[OF assms(1) r(1)] by simp
qed

lemma create_user_eq:
  assumes "users_ok db" and "ud_next_user db < 2 ^ 31"
  shows "create_user now name h e c db =
    (if \<exists>r \<in> set (ud_users db). nocase (ur_username r) name then (None, db)
     else (Some \<lparr>us_id = word_of_int (ud_next_user db), us_username = name, us_password_hash = h,
             us_email = e, us_privileges = 1, us_country = c, us_bio = [], us_created_at = now\<rparr>,
           added_user now name h e c db))"
proof -
  let ?uid = "word_of_int (ud_next_user db) :: i32"
  let ?row = "\<lparr>ur_id = ud_next_user db, ur_username = name, ur_password_hash = h, ur_email = e,
    ur_privileges = 1, ur_country = ucast c, ur_bio = [], ur_created_at = now\<rparr>"
  let ?db = "db\<lparr>ud_users := ud_users db @ [?row], ud_next_user := ud_next_user db + 1\<rparr>"
  have "\<not> has_stats ?db ?uid m" for m using no_stats_yet[OF assms] by (simp add: has_stats_def)
  moreover have "\<exists>r \<in> set (ud_users ?db). ur_id r = sint ?uid"
    using sint_id[OF users_okD(6)[OF assms(1)] assms(2)] by simp
  ultimately have "ensure_modes ?uid [0, 1, 2, 3] ?db
      = (True, ?db\<lparr>ud_stats := ud_stats db @ map (fresh_stats ?uid) [0, 1, 2, 3]\<rparr>)"
    by (subst ensure_modes_eq) simp_all
  then show ?thesis
    unfolding create_user_def Let_def by (simp add: added_user_def del: ensure_modes.simps)
qed

lemma added_user_ok:
  assumes "users_ok db" and "ud_next_user db < 2 ^ 31"
    and "\<forall>r \<in> set (ud_users db). \<not> nocase (ur_username r) name"
  shows "users_ok (added_user now name h e c db)"
proof -
  let ?uid = "word_of_int (ud_next_user db) :: i32"
  have uid: "sint ?uid = ud_next_user db" by (rule sint_id[OF users_okD(6)[OF assms(1)] assms(2)])
  have keys: "distinct (map (\<lambda>s. (st_user_id s, st_mode s)) (map (fresh_stats ?uid) [0, 1, 2, 3]))"
    by (simp add: fresh_stats_def)
  have "(st_user_id s, st_mode s) \<noteq> (st_user_id t, st_mode t)"
    if s: "s \<in> set (ud_stats db)" and t: "t \<in> set (map (fresh_stats ?uid) [0, 1, 2, 3])" for s t
  proof -
    obtain m where "t = fresh_stats ?uid m" using t by auto
    then show ?thesis
      using no_stats_yet[OF assms(1,2), of m] s by (auto simp: has_stats_def is_stats_def fresh_stats_def)
  qed
  then have stats: "distinct (map (\<lambda>s. (st_user_id s, st_mode s))
      (ud_stats db @ map (fresh_stats ?uid) [0, 1, 2, 3]))"
    using keys users_okD(4)[OF assms(1)] unfolding map_append distinct_append by fastforce
  have bound: "\<forall>r \<in> set (ud_users db). 1 \<le> ur_id r \<and> ur_id r < ud_next_user db + 1"
    "ud_next_user db \<notin> ur_id ` set (ud_users db)"
    using users_okD(3)[OF assms(1)] by force+
  show ?thesis
    unfolding users_ok_def added_user_def Let_def users_db.simps
    using users_okD(1,2,5,6)[OF assms(1)] bound stats uid assms(3)
    by (auto simp: eq_ignore_ascii_case_def fresh_stats_def)
qed

lemma create_user_ok: "users_ok db \<Longrightarrow> ud_next_user db < 2 ^ 31 \<Longrightarrow> users_ok (snd (create_user now name h e c db))"
  by (auto simp: create_user_eq intro!: added_user_ok)

lemma find_added_user:
  "get_user_by_username (added_user now name h e c db) n =
     (case get_user_by_username db n of
        Some u \<Rightarrow> Some u
      | None \<Rightarrow>
          if nocase name n then
            Some \<lparr>us_id = word_of_int (ud_next_user db), us_username = name, us_password_hash = h,
              us_email = e, us_privileges = 1, us_country = c, us_bio = [], us_created_at = now\<rparr>
          else None)"
  by (auto simp: get_user_by_username_def added_user_def Let_def find_append user_of_row_def
      split: option.splits)

lemma not_found_iff:
  "get_user_by_username db n = None \<longleftrightarrow> (\<forall>r \<in> set (ud_users db). \<not> nocase (ur_username r) n)"
  by (auto simp: get_user_by_username_def find_None_iff)

end
