(* ===== verification/Ip_Text.thy ===== *)
theory Ip_Text
  imports Security
begin

text \<open>
  \<^verbatim>\<open>IpAddr::from_str\<close> and \<^verbatim>\<open>IpAddr::to_string\<close> of the standard library: the gateway writes the
  client's address into a header and the services read it back.
\<close>

subsection \<open>Reading\<close>

definition to_digit :: "int \<Rightarrow> rchar \<Rightarrow> int option" where
  "to_digit radix c =
     (let d = (if 48 \<le> c \<and> c \<le> 57 then c - 48 else if 97 \<le> c \<and> c \<le> 122 then c - 87
               else if 65 \<le> c \<and> c \<le> 90 then c - 55 else 99)
      in if d < radix then Some d else None)"

fun read_digits :: "int \<Rightarrow> nat \<Rightarrow> int \<Rightarrow> nat \<Rightarrow> rstr \<Rightarrow> (int \<times> nat \<times> rstr) option" where
  "read_digits radix most acc n [] = Some (acc, n, [])"
| "read_digits radix most acc n (c # s) =
     (case to_digit radix c of
        None \<Rightarrow> Some (acc, n, c # s)
      | Some d \<Rightarrow> if most < n + 1 then None else read_digits radix most (acc * radix + d) (n + 1) s)"

definition read_number :: "int \<Rightarrow> nat \<Rightarrow> bool \<Rightarrow> int \<Rightarrow> rstr \<Rightarrow> (int \<times> rstr) option" where
  "read_number radix most allow_zero_prefix hi s =
     (case read_digits radix most 0 0 s of
        None \<Rightarrow> None
      | Some (v, n, r) \<Rightarrow>
          if n = 0 \<or> hi < v \<or> \<not> allow_zero_prefix \<and> hd s = 48 \<and> 1 < n then None else Some (v, r))"

fun read_char :: "rchar \<Rightarrow> rstr \<Rightarrow> rstr option" where
  "read_char c [] = None"
| "read_char c (d # s) = (if d = c then Some s else None)"

definition read_separator :: "rchar \<Rightarrow> nat \<Rightarrow> (rstr \<Rightarrow> ('a \<times> rstr) option) \<Rightarrow> rstr \<Rightarrow> ('a \<times> rstr) option" where
  "read_separator sep i p s = (if i = 0 then p s else Option.bind (read_char sep s) p)"

fun read_octets :: "nat \<Rightarrow> nat \<Rightarrow> rstr \<Rightarrow> (int list \<times> rstr) option" where
  "read_octets i 0 s = Some ([], s)"
| "read_octets i (Suc n) s =
     Option.bind (read_separator 46 i (read_number 10 3 False 255) s) (\<lambda>(v, r).
       map_option (\<lambda>(vs, r'). (v # vs, r')) (read_octets (i + 1) n r))"

definition read_ipv4_addr :: "rstr \<Rightarrow> (int list \<times> rstr) option" where
  "read_ipv4_addr s = read_octets 0 4 s"

text \<open>
  At most \<open>limit - i\<close> groups of an IPv6 address; the flag says that the last two were written
  as an IPv4 address.
\<close>

function read_groups :: "nat \<Rightarrow> nat \<Rightarrow> rstr \<Rightarrow> int list \<times> bool \<times> rstr" where
  "read_groups i limit s =
     (if limit \<le> i then ([], False, s)
      else
        case (if i < limit - 1 then read_separator 58 i read_ipv4_addr s else None) of
          Some (v4, r) \<Rightarrow> ([v4 ! 0 * 256 + v4 ! 1, v4 ! 2 * 256 + v4 ! 3], True, r)
        | None \<Rightarrow>
            (case read_separator 58 i (read_number 16 4 True 65535) s of
               None \<Rightarrow> ([], False, s)
             | Some (g, r) \<Rightarrow>
                 (let (gs, v4, r') = read_groups (i + 1) limit r in (g # gs, v4, r'))))"
  by pat_completeness auto
termination
  by (relation "measure (\<lambda>(i, limit, s). limit - i)") auto

declare read_groups.simps [simp del]

definition read_ipv6_addr :: "rstr \<Rightarrow> (int list \<times> rstr) option" where
  "read_ipv6_addr s =
     (let (head, head_ipv4, r) = read_groups 0 8 s
      in if length head = 8 then Some (head, r)
         else if head_ipv4 then None
         else Option.bind (read_char 58 r) (\<lambda>r1. Option.bind (read_char 58 r1) (\<lambda>r2.
           let (tail, _, r3) = read_groups 0 (8 - (length head + 1)) r2
           in Some (head @ replicate (8 - length head - length tail) 0 @ tail, r3))))"

definition of_groups :: "nat \<Rightarrow> int list \<Rightarrow> int" where
  "of_groups k gs = foldl (\<lambda>acc g. acc * 2 ^ k + g) 0 gs"

definition ipv4_of :: "int list \<Rightarrow> ip_addr" where
  "ipv4_of v = IPv4 (word_of_int (of_groups 8 v))"

definition ipv6_of :: "int list \<Rightarrow> ip_addr" where
  "ipv6_of gs = IPv6 (word_of_int (of_groups 16 gs))"

text \<open>An IPv4 address that is followed by more is not tried as an IPv6 address.\<close>

definition parse_ip :: "rstr \<Rightarrow> ip_addr option" where
  "parse_ip s =
     (case (case read_ipv4_addr s of
              Some (v, r) \<Rightarrow> Some (ipv4_of v, r)
            | None \<Rightarrow> map_option (\<lambda>(gs, r). (ipv6_of gs, r)) (read_ipv6_addr s)) of
        Some (ip, []) \<Rightarrow> Some ip
      | _ \<Rightarrow> None)"

subsection \<open>Writing\<close>

fun groups_of :: "nat \<Rightarrow> nat \<Rightarrow> int \<Rightarrow> int list" where
  "groups_of k 0 x = []"
| "groups_of k (Suc n) x = groups_of k n (x div 2 ^ k) @ [x mod 2 ^ k]"

definition hex_digit :: "int \<Rightarrow> rchar" where
  "hex_digit d = (if d < 10 then 48 + d else 87 + d)"

function show_hex :: "int \<Rightarrow> rstr" where
  "show_hex n = (if n < 16 then [hex_digit n] else show_hex (n div 16) @ [hex_digit (n mod 16)])"
  by pat_completeness auto
termination
  by (relation "measure nat") auto

declare show_hex.simps [simp del]

fun join_with :: "rchar \<Rightarrow> rstr list \<Rightarrow> rstr" where
  "join_with c [] = []"
| "join_with c [s] = s"
| "join_with c (s # ss) = s @ c # join_with c ss"

definition show_ipv4 :: "int list \<Rightarrow> rstr" where
  "show_ipv4 v = join_with 46 (map show_int v)"

definition show_groups :: "int list \<Rightarrow> rstr" where
  "show_groups gs = join_with 58 (map show_hex gs)"

text \<open>The longest run of zero groups, the first of the longest: start and length.\<close>

fun zero_run :: "nat \<Rightarrow> nat \<times> nat \<Rightarrow> nat \<times> nat \<Rightarrow> int list \<Rightarrow> nat \<times> nat" where
  "zero_run i longest current [] = longest"
| "zero_run i longest current (g # gs) =
     (if g = 0 then
        let current = (if snd current = 0 then (i, 1) else (fst current, snd current + 1))
        in zero_run (i + 1) (if snd longest < snd current then current else longest) current gs
      else zero_run (i + 1) longest (0, 0) gs)"

definition show_ipv6 :: "int list \<Rightarrow> rstr" where
  "show_ipv6 gs =
     (if take 6 gs = [0, 0, 0, 0, 0, 65535] then
        lit ''::ffff:'' @ show_ipv4 [gs ! 6 div 256, gs ! 6 mod 256, gs ! 7 div 256, gs ! 7 mod 256]
      else
        let (start, len) = zero_run 0 (0, 0) (0, 0) gs
        in if 1 < len then show_groups (take start gs) @ [58, 58] @ show_groups (drop (start + len) gs)
           else show_groups gs)"

fun show_ip :: "ip_addr \<Rightarrow> rstr" where
  "show_ip (IPv4 a) = show_ipv4 (groups_of 8 4 (uint a))"
| "show_ip (IPv6 a) = show_ipv6 (groups_of 16 8 (uint a))"

subsection \<open>What is written is read back\<close>

lemma of_groups_append [simp]: "of_groups k (gs @ [g]) = of_groups k gs * 2 ^ k + g"
  by (simp add: of_groups_def)

lemma of_groups_of: "of_groups k (groups_of k n x) = x mod 2 ^ (k * n)"
proof (induction n arbitrary: x)
  case 0
  then show ?case by (simp add: of_groups_def)
next
  case (Suc n)
  have "x mod 2 ^ (k * Suc n) = 2 ^ k * (x div 2 ^ k mod 2 ^ (k * n)) + x mod 2 ^ k"
    using zmod_zmult2_eq[of "2 ^ (k * n)" x "2 ^ k"] by (simp add: power_add)
  then show ?case by (simp add: Suc.IH)
qed

lemma length_groups_of [simp]: "length (groups_of k n x) = n"
  by (induction n arbitrary: x) simp_all

lemma groups_of_range: "g \<in> set (groups_of k n x) \<Longrightarrow> 0 \<le> g \<and> g < 2 ^ k"
  by (induction n arbitrary: x) auto

lemma read_digits_append:
  assumes "read_digits radix most acc n s = Some (v, m, [])" and "r = [] \<or> to_digit radix (hd r) = None"
  shows "read_digits radix most acc n (s @ r) = Some (v, m, r)"
  using assms
  by (induction s arbitrary: acc n) (cases r; auto split: option.splits if_splits)+

lemma to_digit_dec: "0 \<le> d \<Longrightarrow> d < 10 \<Longrightarrow> to_digit 10 (48 + d) = Some d"
  by (simp add: to_digit_def)

lemma to_digit_hex: "0 \<le> d \<Longrightarrow> d < 16 \<Longrightarrow> to_digit 16 (hex_digit d) = Some d"
  by (auto simp: to_digit_def hex_digit_def)

lemma to_digit_sep [simp]: "to_digit 10 46 = None" "to_digit 10 58 = None" "to_digit 16 58 = None" "to_digit 16 46 = None"
  by (simp_all add: to_digit_def)

lemma div_less_bound: "0 < k \<Longrightarrow> n < k * m \<Longrightarrow> n div k < (m :: int)"
  by (smt (verit) pos_mod_sign mult_div_mod_eq mult_less_cancel_left_pos)

lemma read_dec_digits:
  "\<forall>d \<in> set ds. 0 \<le> d \<and> d < 10 \<Longrightarrow> n + length ds \<le> most \<Longrightarrow>
     read_digits 10 most acc n (map ((+) 48) ds) = Some (foldl (\<lambda>a d. a * 10 + d) acc ds, n + length ds, [])"
  by (induction ds arbitrary: acc n) (simp_all add: to_digit_dec)

lemma dec_digits_digits:
  "0 \<le> n \<Longrightarrow> \<exists>ds. dec_digits n = map ((+) 48) ds \<and> ds \<noteq> [] \<and> (\<forall>d \<in> set ds. 0 \<le> d \<and> d < 10)
     \<and> foldl (\<lambda>a d. a * 10 + d) 0 ds = n \<and> (hd ds = 0 \<longrightarrow> length ds = 1)
     \<and> (\<forall>k. n < 10 ^ Suc k \<longrightarrow> length ds \<le> Suc k)"
proof (induction n rule: dec_digits.induct)
  case (1 n)
  show ?case
  proof (cases "n < 10")
    case True
    then show ?thesis using 1 by (intro exI[of _ "[n]"]) (simp add: dec_digits.simps[of n])
  next
    case False
    then have pos: "1 \<le> n div 10" by simp
    then have "0 \<le> n div 10" by simp
    from "1.IH"[OF False this]
    obtain ds where ds: "dec_digits (n div 10) = map ((+) 48) ds" "ds \<noteq> []" "\<forall>d \<in> set ds. 0 \<le> d \<and> d < 10"
      "foldl (\<lambda>a d. a * 10 + d) 0 ds = n div 10" "hd ds = 0 \<longrightarrow> length ds = 1"
      "\<forall>k. n div 10 < 10 ^ Suc k \<longrightarrow> length ds \<le> Suc k"
      by blast
    have "length ds + 1 \<le> Suc k" if n: "n < 10 ^ Suc k" for k
    proof (cases k)
      case 0
      then show ?thesis using n False by simp
    next
      case (Suc j)
      then have "n div 10 < 10 ^ Suc j" using n by (simp add: div_less_bound)
      then show ?thesis using ds(6) Suc by auto
    qed
    moreover have "hd ds \<noteq> 0"
    proof
      assume z: "hd ds = 0"
      then obtain d where "ds = [d]" using ds(5) by (auto simp: length_Suc_conv)
      then show False using z ds(4) pos by simp
    qed
    ultimately show ?thesis
      using ds(1-4) False
      by (intro exI[of _ "ds @ [n mod 10]"]) (auto simp: dec_digits.simps[of n])
  qed
qed

lemma read_octet:
  assumes "0 \<le> n" and "n < 256" and "r = [] \<or> to_digit 10 (hd r) = None"
  shows "read_number 10 3 False 255 (show_int n @ r) = Some (n, r)"
proof -
  obtain ds where ds: "dec_digits n = map ((+) 48) ds" "ds \<noteq> []" "\<forall>d \<in> set ds. 0 \<le> d \<and> d < 10"
    "foldl (\<lambda>a d. a * 10 + d) 0 ds = n" "hd ds = 0 \<longrightarrow> length ds = 1" "n < 10 ^ Suc 2 \<longrightarrow> length ds \<le> Suc 2"
    using dec_digits_digits[OF assms(1)] by blast
  have e: "show_int n = map ((+) 48) ds" using assms(1) ds(1) by (simp add: show_int_def)
  then have "read_digits 10 3 0 0 (show_int n) = Some (n, length ds, [])"
    using assms(2) ds read_dec_digits[of ds 0 3 0] by simp
  moreover have "hd (show_int n @ r) = 48 \<longrightarrow> length ds = 1" using ds(2,5) by (simp add: e hd_map)
  ultimately show ?thesis
    using read_digits_append[of 10 3 0 0 "show_int n" n "length ds" r] assms ds(2) by (auto simp: read_number_def)
qed

lemma read_dotted:
  assumes "0 \<le> a" "a < 256" "0 \<le> b" "b < 256" "0 \<le> c" "c < 256" "0 \<le> d" "d < 256"
  shows "read_ipv4_addr (show_ipv4 [a, b, c, d]) = Some ([a, b, c, d], [])"
proof -
  have four: "(4::nat) = Suc (Suc (Suc (Suc 0)))" by simp
  show ?thesis
    using assms unfolding read_ipv4_addr_def show_ipv4_def four
    by (simp add: read_separator_def read_octet read_octet[where r = "[]", simplified])
qed

lemma read_hex_digits:
  "\<forall>d \<in> set ds. 0 \<le> d \<and> d < 16 \<Longrightarrow> n + length ds \<le> most \<Longrightarrow>
     read_digits 16 most acc n (map hex_digit ds) = Some (foldl (\<lambda>a d. a * 16 + d) acc ds, n + length ds, [])"
  by (induction ds arbitrary: acc n) (simp_all add: to_digit_hex)

lemma show_hex_digits:
  "0 \<le> n \<Longrightarrow> \<exists>ds. show_hex n = map hex_digit ds \<and> ds \<noteq> [] \<and> (\<forall>d \<in> set ds. 0 \<le> d \<and> d < 16)
     \<and> foldl (\<lambda>a d. a * 16 + d) 0 ds = n \<and> (\<forall>k. n < 16 ^ Suc k \<longrightarrow> length ds \<le> Suc k)"
proof (induction n rule: show_hex.induct)
  case (1 n)
  show ?case
  proof (cases "n < 16")
    case True
    then show ?thesis using 1 by (intro exI[of _ "[n]"]) (simp add: show_hex.simps[of n])
  next
    case False
    have "0 \<le> n div 16" using 1 by simp
    from "1.IH"[OF False this]
    obtain ds where ds: "show_hex (n div 16) = map hex_digit ds" "ds \<noteq> []" "\<forall>d \<in> set ds. 0 \<le> d \<and> d < 16"
      "foldl (\<lambda>a d. a * 16 + d) 0 ds = n div 16" "\<forall>k. n div 16 < 16 ^ Suc k \<longrightarrow> length ds \<le> Suc k"
      by blast
    have "length ds + 1 \<le> Suc k" if n: "n < 16 ^ Suc k" for k
    proof (cases k)
      case 0
      then show ?thesis using n False by simp
    next
      case (Suc j)
      then have "n div 16 < 16 ^ Suc j" using n by (simp add: div_less_bound)
      then show ?thesis using ds(5) Suc by auto
    qed
    then show ?thesis
      using ds(1-4) False
      by (intro exI[of _ "ds @ [n mod 16]"]) (auto simp: show_hex.simps[of n])
  qed
qed

lemma read_group:
  assumes "0 \<le> n" and "n < 65536" and "r = [] \<or> to_digit 16 (hd r) = None"
  shows "read_number 16 4 True 65535 (show_hex n @ r) = Some (n, r)"
proof -
  obtain ds where ds: "show_hex n = map hex_digit ds" "ds \<noteq> []" "\<forall>d \<in> set ds. 0 \<le> d \<and> d < 16"
    "foldl (\<lambda>a d. a * 16 + d) 0 ds = n" "n < 16 ^ Suc 3 \<longrightarrow> length ds \<le> Suc 3"
    using show_hex_digits[OF assms(1)] by blast
  then have "read_digits 16 4 0 0 (show_hex n) = Some (n, length ds, [])"
    using assms(2) read_hex_digits[of ds 0 4 0] by simp
  then show ?thesis
    using read_digits_append[of 16 4 0 0 "show_hex n" n "length ds" r] assms ds(2) by (simp add: read_number_def)
qed

text \<open>Reading and writing groups.\<close>

lemma no_dot_octets: "46 \<notin> set s \<Longrightarrow> read_octets i (Suc (Suc n)) s = None"
proof -
  assume dot: "46 \<notin> set s"
  have rest: "set r \<subseteq> set s'" if "read_digits radix most acc k s' = Some (v, m, r)" for radix most acc k s' v m r
    using that by (induction s' arbitrary: acc k) (auto split: option.splits if_splits)
  have num: "set r \<subseteq> set s'" if "read_number 10 3 False 255 s' = Some (v, r)" for s' v r
    using that rest by (fastforce simp: read_number_def split: option.splits if_splits)
  have char: "read_char 46 r = None" if "46 \<notin> set r" for r using that by (cases r) auto
  show ?thesis
  proof (cases "read_separator 46 i (read_number 10 3 False 255) s")
    case (Some a)
    obtain v r where a: "a = (v, r)" by (cases a)
    have "i = 0" using Some dot char by (cases "i = 0") (auto simp: read_separator_def)
    then have "46 \<notin> set r" using Some a dot num by (auto simp: read_separator_def)
    then have "read_octets (i + 1) (Suc n) r = None" using char by (simp add: read_separator_def)
    then show ?thesis using Some a by simp
  qed simp
qed

lemma no_dot_ipv4: "46 \<notin> set s \<Longrightarrow> read_ipv4_addr s = None"
  using no_dot_octets[of s 0 2] by (simp add: read_ipv4_addr_def)

lemma no_dot_separator: "46 \<notin> set s \<Longrightarrow> read_separator 58 i read_ipv4_addr s = None"
  by (cases s) (auto simp: read_separator_def no_dot_ipv4)

lemma show_hex_chars: "0 \<le> n \<Longrightarrow> c \<in> set (show_hex n) \<Longrightarrow> c \<noteq> 46 \<and> c \<noteq> 58"
proof -
  assume n: "0 \<le> n" and c: "c \<in> set (show_hex n)"
  obtain ds where "show_hex n = map hex_digit ds" "\<forall>d \<in> set ds. 0 \<le> d \<and> d < 16"
    using show_hex_digits[OF n] by blast
  then show ?thesis using c by (auto simp: hex_digit_def split: if_splits)
qed

lemma show_groups_chars: "\<forall>g \<in> set gs. 0 \<le> g \<Longrightarrow> 46 \<notin> set (show_groups gs)"
  unfolding show_groups_def
  by (induction gs rule: induct_list012) (auto dest: show_hex_chars)

text \<open>What stops the reading of groups: the end, or the double colon.\<close>

definition groups_end :: "rstr \<Rightarrow> bool" where
  "groups_end r \<longleftrightarrow> r = [] \<or> (\<exists>r'. r = 58 # 58 # r')"

lemma groups_end_stops: "groups_end r \<Longrightarrow> read_separator 58 i (read_number 16 4 True 65535) r = None"
  by (auto simp: groups_end_def read_separator_def read_number_def)

lemma groups_end_digit: "groups_end r \<Longrightarrow> r = [] \<or> to_digit 16 (hd r) = None"
  by (auto simp: groups_end_def)

fun tail_groups :: "nat \<Rightarrow> int list \<Rightarrow> rstr" where
  "tail_groups i [] = []"
| "tail_groups i (g # gs) = (if i = 0 then [] else [58]) @ show_hex g @ tail_groups (i + 1) gs"

lemma tail_groups_show: "tail_groups 0 gs = show_groups gs"
proof -
  have "0 < i \<Longrightarrow> tail_groups i gs = concat (map (\<lambda>g. 58 # show_hex g) gs)" for i gs
    by (induction gs arbitrary: i) simp_all
  moreover have "join_with 58 (s # ss) = s @ concat (map ((#) 58) ss)" for s ss
    by (induction ss arbitrary: s) simp_all
  ultimately show ?thesis by (cases gs) (simp_all add: show_groups_def comp_def)
qed

lemma read_groups_tail:
  assumes "\<forall>g \<in> set gs. 0 \<le> g \<and> g < 65536" and "i + length gs \<le> limit" and "groups_end r"
    and "46 \<notin> set (tail_groups i gs @ r)"
  shows "read_groups i limit (tail_groups i gs @ r) = (gs, False, r)"
  using assms
proof (induction gs arbitrary: i)
  case Nil
  then show ?case
    by (simp add: read_groups.simps[of i] no_dot_separator groups_end_stops)
next
  case (Cons g gs)
  let ?s = "tail_groups i (g # gs) @ r" and ?r = "tail_groups (i + 1) gs @ r"
  have "?r = [] \<or> to_digit 16 (hd ?r) = None"
    using groups_end_digit[OF Cons.prems(3)] by (cases gs) simp_all
  then have "read_separator 58 i (read_number 16 4 True 65535) ?s = Some (g, ?r)"
    using read_group[of g ?r] Cons.prems(1) by (auto simp: read_separator_def)
  moreover have "read_separator 58 i read_ipv4_addr ?s = None"
    by (rule no_dot_separator) (use Cons.prems(4) in simp)
  moreover have "read_groups (i + 1) limit ?r = (gs, False, r)"
    by (rule Cons.IH) (use Cons.prems in auto)
  ultimately show ?case
    using Cons.prems(2) by (simp add: read_groups.simps[of i])
qed

text \<open>The run that is left out consists of zeros.\<close>

definition zeros_at :: "int list \<Rightarrow> nat \<times> nat \<Rightarrow> bool" where
  "zeros_at xs p \<longleftrightarrow> fst p + snd p \<le> length xs \<and> (\<forall>j < snd p. xs ! (fst p + j) = 0)"

lemma zeros_at_append: "zeros_at xs p \<Longrightarrow> zeros_at (xs @ ys) p"
  by (auto simp: zeros_at_def nth_append)

lemma zero_run_zeros:
  assumes "zeros_at xs longest" and "zeros_at xs current" and "snd current \<noteq> 0 \<longrightarrow> fst current + snd current = length xs"
  shows "zeros_at (xs @ gs) (zero_run (length xs) longest current gs)"
  using assms
proof (induction gs arbitrary: xs longest current)
  case Nil
  then show ?case by simp
next
  case (Cons g gs)
  have next_xs: "xs @ g # gs = (xs @ [g]) @ gs" "Suc (length xs) = length (xs @ [g])" by simp_all
  show ?case
  proof (cases "g = 0")
    case True
    define cur where "cur = (if snd current = 0 then (length xs, 1) else (fst current, snd current + 1))"
    have cur: "zeros_at (xs @ [g]) cur" "fst cur + snd cur = length (xs @ [g])"
      using Cons.prems(2,3) True by (auto simp: zeros_at_def cur_def nth_append less_Suc_eq)
    have "zeros_at (xs @ [g]) (if snd longest < snd cur then cur else longest)"
      using cur Cons.prems(1) by (simp add: zeros_at_append)
    then have "zeros_at ((xs @ [g]) @ gs)
        (zero_run (length (xs @ [g])) (if snd longest < snd cur then cur else longest) cur gs)"
      using cur by (intro Cons.IH) simp_all
    then show ?thesis using True unfolding cur_def by (simp add: Let_def)
  next
    case False
    have "zeros_at ((xs @ [g]) @ gs) (zero_run (length (xs @ [g])) longest (0, 0) gs)"
      using Cons.prems(1) by (intro Cons.IH zeros_at_append) (simp_all add: zeros_at_def)
    then show ?thesis using False by simp
  qed
qed

lemma zeros_split:
  assumes "zeros_at gs (s, l)"
  shows "gs = take s gs @ replicate l 0 @ drop (s + l) gs"
proof (rule nth_equalityI)
  show "length gs = length (take s gs @ replicate l 0 @ drop (s + l) gs)"
    using assms by (simp add: zeros_at_def)
  fix i
  assume i: "i < length gs"
  consider "i < s" | j where "i = s + j" "j < l" | "s + l \<le> i"
    by (metis add_less_cancel_left le_add_diff_inverse linorder_not_less)
  then show "gs ! i = (take s gs @ replicate l 0 @ drop (s + l) gs) ! i"
    using assms i by cases (auto simp: zeros_at_def nth_append)
qed

lemma read_written_groups:
  assumes gs: "\<forall>g \<in> set gs. 0 \<le> g \<and> g < 65536" and n: "length gs = 8"
    and plain: "take 6 gs \<noteq> [0, 0, 0, 0, 0, 65535]"
  shows "46 \<notin> set (show_ipv6 gs) \<and> read_ipv6_addr (show_ipv6 gs) = Some (gs, [])"
proof -
  obtain s l where run: "zero_run 0 (0, 0) (0, 0) gs = (s, l)" by fastforce
  have dots: "46 \<notin> set (show_groups xs)" if "set xs \<subseteq> set gs" for xs
    using gs that by (intro show_groups_chars) blast
  show ?thesis
  proof (cases "1 < l")
    case True
    have z: "zeros_at gs (s, l)"
      using zero_run_zeros[of "[]" "(0, 0)" "(0, 0)" gs] run by (simp add: zeros_at_def)
    let ?head = "take s gs" and ?tail = "drop (s + l) gs"
    have sl: "s + l \<le> 8" using z n by (simp add: zeros_at_def)
    have shown: "show_ipv6 gs = tail_groups 0 ?head @ 58 # 58 # tail_groups 0 ?tail"
      using plain True run by (simp add: show_ipv6_def tail_groups_show)
    have dot: "46 \<notin> set (tail_groups 0 ?head @ 58 # 58 # tail_groups 0 ?tail)" "46 \<notin> set (tail_groups 0 ?tail)"
      using dots[of ?head] dots[of ?tail] by (auto simp: tail_groups_show set_take_subset set_drop_subset)
    have head: "read_groups 0 8 (show_ipv6 gs) = (?head, False, 58 # 58 # tail_groups 0 ?tail)"
      unfolding shown using gs sl n dot(1)
      by (intro read_groups_tail) (auto simp: groups_end_def dest: in_set_takeD)
    have "read_groups 0 (8 - (length ?head + 1)) (tail_groups 0 ?tail @ []) = (?tail, False, [])"
      using gs sl n True dot(2)
      by (intro read_groups_tail) (auto simp: groups_end_def dest: in_set_dropD)
    then have "read_ipv6_addr (show_ipv6 gs) =
        Some (?head @ replicate (8 - length ?head - length ?tail) 0 @ ?tail, [])"
      using sl n True by (simp add: read_ipv6_addr_def head)
    moreover have "8 - length ?head - length ?tail = l" using sl n by simp
    ultimately show ?thesis using zeros_split[OF z] dot(1) by (simp add: shown)
  next
    case False
    then have shown: "show_ipv6 gs = tail_groups 0 gs @ []"
      using plain run by (simp add: show_ipv6_def tail_groups_show)
    have "read_groups 0 8 (tail_groups 0 gs @ []) = (gs, False, [])"
      using gs n dots[of gs] by (intro read_groups_tail) (auto simp: groups_end_def tail_groups_show)
    then show ?thesis using n dots[of gs] unfolding shown by (simp add: read_ipv6_addr_def tail_groups_show)
  qed
qed

lemma groups_end_Nil [simp]: "groups_end []"
  by (simp add: groups_end_def)

lemma groups_end_colons [simp]: "groups_end (58 # 58 # r)"
  by (simp add: groups_end_def)

lemma colon_no_ipv4: "read_ipv4_addr (58 # s) = None"
  by (simp add: read_ipv4_addr_def eval_nat_numeral read_separator_def read_number_def)

lemma letter_no_ipv4: "read_ipv4_addr (102 # s) = None"
  by (simp add: read_ipv4_addr_def eval_nat_numeral read_separator_def read_number_def to_digit_def)

text \<open>An IPv4 address inside an IPv6 one is written as such.\<close>

lemma read_mapped:
  assumes "0 \<le> a" "a < 256" "0 \<le> b" "b < 256" "0 \<le> c" "c < 256" "0 \<le> d" "d < 256"
  shows "read_ipv6_addr (lit ''::ffff:'' @ show_ipv4 [a, b, c, d]) =
    Some ([0, 0, 0, 0, 0, 65535, a * 256 + b, c * 256 + d], [])"
proof -
  let ?v4 = "show_ipv4 [a, b, c, d]"
  have l: "lit ''::ffff:'' = 58 # 58 # show_hex 65535 @ [58]"
    by (simp add: lit_def show_hex.simps[of 65535] show_hex.simps[of 4095] show_hex.simps[of 255]
        show_hex.simps[of 15] hex_digit_def)
  have f: "\<exists>s. show_hex 65535 @ 58 # ?v4 = 102 # s"
    by (simp add: show_hex.simps[of 65535] show_hex.simps[of 4095] show_hex.simps[of 255]
        show_hex.simps[of 15] hex_digit_def)
  have head: "read_groups 0 8 (58 # 58 # show_hex 65535 @ 58 # ?v4) = ([], False, 58 # 58 # show_hex 65535 @ 58 # ?v4)"
    by (simp add: read_groups.simps[of 0] read_separator_def colon_no_ipv4 read_number_def)
  have "read_groups 1 7 (58 # ?v4) = ([a * 256 + b, c * 256 + d], True, [])"
    using assms by (subst read_groups.simps) (simp add: read_separator_def read_dotted)
  moreover have "read_separator 58 0 read_ipv4_addr (show_hex 65535 @ 58 # ?v4) = None"
    using f letter_no_ipv4 by (auto simp: read_separator_def)
  moreover have "read_separator 58 0 (read_number 16 4 True 65535) (show_hex 65535 @ 58 # ?v4) = Some (65535, 58 # ?v4)"
    using read_group[of 65535 "58 # ?v4"] by (simp add: read_separator_def)
  ultimately have "read_groups 0 7 (show_hex 65535 @ 58 # ?v4) = ([65535, a * 256 + b, c * 256 + d], True, [])"
    by (simp add: read_groups.simps[of 0])
  moreover have "replicate 5 (0::int) = [0, 0, 0, 0, 0]" by (simp add: eval_nat_numeral)
  ultimately show ?thesis unfolding l by (simp add: read_ipv6_addr_def head)
qed

theorem parse_show_ip: "parse_ip (show_ip ip) = Some ip"
proof (cases ip)
  case (IPv4 a)
  let ?g = "groups_of 8 4 (uint a)"
  obtain w x y z where g: "?g = [w, x, y, z]"
    using length_groups_of[of 8 4 "uint a"] by (auto simp: length_Suc_conv eval_nat_numeral)
  have "\<forall>v \<in> set [w, x, y, z]. 0 \<le> v \<and> v < 2 ^ 8" unfolding g[symmetric] using groups_of_range by blast
  then have "read_ipv4_addr (show_ipv4 [w, x, y, z]) = Some ([w, x, y, z], [])" by (intro read_dotted) simp_all
  moreover have "of_groups 8 [w, x, y, z] = uint a"
    using of_groups_of[of 8 4 "uint a"] uint_bounded[of a] by (simp add: g)
  ultimately show ?thesis by (simp add: parse_ip_def IPv4 g ipv4_of_def)
next
  case (IPv6 a)
  let ?g = "groups_of 16 8 (uint a)"
  have bounds: "\<forall>v \<in> set ?g. 0 \<le> v \<and> v < 65536" using groups_of_range[of _ 16 8 "uint a"] by auto
  have same: "of_groups 16 ?g = uint a" using of_groups_of[of 16 8 "uint a"] uint_bounded[of a] by simp
  have "read_ipv4_addr (show_ipv6 ?g) = None \<and> read_ipv6_addr (show_ipv6 ?g) = Some (?g, [])"
  proof (cases "take 6 ?g = [0, 0, 0, 0, 0, 65535]")
    case False
    then show ?thesis using read_written_groups[OF bounds _ False] no_dot_ipv4 by simp
  next
    case True
    have "length (drop 6 ?g) = Suc (Suc 0)" by simp
    then obtain x y where "drop 6 ?g = [x, y]" unfolding length_Suc_conv length_0_conv by blast
    then have g: "?g = [0, 0, 0, 0, 0, 65535, x, y]"
      using append_take_drop_id[of 6 ?g] True by simp
    have "0 \<le> x" "x < 65536" "0 \<le> y" "y < 65536" using bounds by (simp_all add: g)
    then have "0 \<le> x div 256" "x div 256 < 256" "0 \<le> y div 256" "y div 256 < 256" by auto
    then show ?thesis
      using read_mapped[of "x div 256" "x mod 256" "y div 256" "y mod 256"]
      by (simp add: g show_ipv6_def lit_def colon_no_ipv4)
  qed
  then show ?thesis using same by (simp add: parse_ip_def IPv6 ipv6_of_def)
qed

end
