(* ===== verification/Accounts.thy ===== *)
theory Accounts
  imports Users_Db Ip_Text
begin

text \<open>
  The accounts of a login are those of the database: \<open>db_accounts\<close> fills in the queries of
  \<^verbatim>\<open>src/db/users.rs\<close>.  What registration, the ranking, the session revocation and the
  migrations promise.
\<close>

definition login_user_of :: "user \<Rightarrow> login_user" where
  "login_user_of u =
     \<lparr>lu_id = us_id u, lu_username = us_username u, lu_password_hash = us_password_hash u,
      lu_privileges = us_privileges u, lu_country = us_country u\<rparr>"

definition db_accounts :: "i64 \<Rightarrow> users_db \<Rightarrow> accounts \<Rightarrow> accounts" where
  "db_accounts now db ac =
     ac\<lparr>ac_find_user := (\<lambda>name. Some (map_option login_user_of (get_user_by_username db name))),
        ac_create_user := (\<lambda>name h e c. map_option login_user_of (fst (create_user now name h e c db))),
        ac_check_multiaccount := (\<lambda>uid hw most. Some (check_multiaccount db uid hw most))\<rparr>"

lemma db_accounts_simps [simp]:
  "ac_find_user (db_accounts now db ac) name = Some (map_option login_user_of (get_user_by_username db name))"
  "ac_create_user (db_accounts now db ac) name h e c
     = map_option login_user_of (fst (create_user now name h e c db))"
  "ac_check_multiaccount (db_accounts now db ac) uid hw most = Some (check_multiaccount db uid hw most)"
  "ac_verify_password (db_accounts now db ac) = ac_verify_password ac"
  "ac_md5_hex (db_accounts now db ac) = ac_md5_hex ac"
  "ac_hash_password (db_accounts now db ac) = ac_hash_password ac"
  "ac_fingerprint (db_accounts now db ac) = ac_fingerprint ac"
  "ac_badge_tags (db_accounts now db ac) = ac_badge_tags ac"
  by (simp_all add: db_accounts_def)

text \<open>
  What a login does to the database. An account is made only when the name is unknown and nothing
  else forbids it; whoever is let in leaves a row with the hardware (its fingerprints, from
  \<open>parse_login\<close>) and the fingerprint of the address. A request from a blocked network never
  gets here.
\<close>

definition created_account ::
    "i64 \<Rightarrow> login_config \<Rightarrow> accounts \<Rightarrow> ip_addr \<Rightarrow> login_request \<Rightarrow> users_db \<Rightarrow> users_db" where
  "created_account now cfg ac ip rq db =
     (if get_user_by_username db (clean_username (lq_username rq)) = None \<and> lc_auto_register cfg
         \<and> \<not> too_many_accounts cfg (db_accounts now db ac) ip None (lq_hardware rq)
      then
        (case ac_hash_password ac (lq_password_md5 rq) of
           None \<Rightarrow> db
         | Some hashed \<Rightarrow>
             snd (create_user now (lq_username rq) hashed (lq_username rq @ [64] @ lit ''ayanomi.local'')
                    (lc_default_country cfg) db))
      else db)"

definition login_db ::
    "i64 \<Rightarrow> login_config \<Rightarrow> accounts \<Rightarrow> ip_addr \<Rightarrow> login_request \<Rightarrow> users_db
       \<Rightarrow> login_user decision \<times> users_db" where
  "login_db now cfg ac ip rq db =
     (let db1 = created_account now cfg ac ip rq db
      in case authenticate cfg (db_accounts now db ac) ip rq of
           Deny reply \<Rightarrow> (Deny reply, db1)
         | Allow user \<Rightarrow>
             (Allow user,
              case record_user_hardware now (lu_id user) (lq_hardware rq)
                     (ac_fingerprint ac (lit ''client-ip'') (show_ip ip)) db1 of
                Some db2 \<Rightarrow> db2
              | None \<Rightarrow> db1))"

subsection \<open>Register, then log in\<close>

text \<open>The users who logged in from some hardware; a check counts them, but for the user itself.\<close>

definition hardware_users :: "client_hardware \<Rightarrow> users_db \<Rightarrow> i32 set" where
  "hardware_users hw db = set (map (\<lambda>r. ucast (hr_user_id r)) (filter (same_hardware hw) (ud_hardware db)))"

lemma finite_hardware_users [simp]: "finite (hardware_users hw db)"
  by (simp add: hardware_users_def)

lemma check_multiaccount_iff:
  "check_multiaccount db target hw most \<longleftrightarrow>
     \<not> (hw_adapters_hash hw = [] \<and> hw_disk_signature hw = [])
     \<and> unat most \<le> card (hardware_users hw db - set_option target)"
proof -
  let ?ids = "remdups (map (\<lambda>r. ucast (hr_user_id r) :: i32) (filter (same_hardware hw) (ud_hardware db)))"
  have ids: "set ?ids = hardware_users hw db" by (simp only: hardware_users_def set_remdups)
  have "length (filter (\<lambda>i. i \<notin> set_option target) ?ids) = card (set (filter (\<lambda>i. i \<notin> set_option target) ?ids))"
    by (rule distinct_card[symmetric]) simp
  also have "set (filter (\<lambda>i. i \<notin> set_option target) ?ids) = hardware_users hw db - set_option target"
    using ids by auto
  finally have "length (case target of Some uid \<Rightarrow> filter (\<lambda>i. i \<noteq> uid) ?ids | None \<Rightarrow> ?ids)
      = card (hardware_users hw db - set_option target)"
    by (cases target) simp_all
  then show ?thesis unfolding check_multiaccount_def Let_def by simp
qed

lemma check_multiaccount_mono:
  assumes "hardware_users hw db' - {uid} \<subseteq> hardware_users hw db" and "\<not> check_multiaccount db None hw most"
  shows "\<not> check_multiaccount db' (Some uid) hw most"
  using assms(2) card_mono[OF finite_hardware_users assms(1)] by (auto simp: check_multiaccount_iff)

definition shares_hardware :: "client_hardware \<Rightarrow> client_hardware \<Rightarrow> bool" where
  "shares_hardware a b \<longleftrightarrow>
     hw_adapters_hash a = hw_adapters_hash b \<and> hw_adapters_hash a \<noteq> []
     \<or> hw_disk_signature a = hw_disk_signature b \<and> hw_disk_signature a \<noteq> []"

lemma recorded:
  assumes "record_user_hardware now uid hw ip db = Some db'"
  shows "ud_users db' = ud_users db" "ud_stats db' = ud_stats db" "ud_next_user db' = ud_next_user db"
    and "hardware_users hw' db' = hardware_users hw' db \<union> (if shares_hardware hw hw' then {uid} else {})"
proof -
  have id: "ucast (scast uid :: i64) = uid"
    by (rule bit_word_eqI) (auto simp: bit_simps dest: bit_imp_le_length)
  show "hardware_users hw' db' = hardware_users hw' db \<union> (if shares_hardware hw hw' then {uid} else {})"
  proof -
    obtain row where row: "ud_hardware db' = ud_hardware db @ [row]" "hr_user_id row = scast uid"
        "hr_adapters_hash row = hw_adapters_hash hw" "hr_disk_signature row = hw_disk_signature hw"
      using assms by (auto simp: record_user_hardware_def split: if_splits)
    have "same_hardware hw' row \<longleftrightarrow> shares_hardware hw hw'"
      by (auto simp: same_hardware_def shares_hardware_def row(3,4))
    then show ?thesis
      unfolding hardware_users_def row(1) filter_append map_append set_append by (simp add: row(2) id)
  qed
qed (use assms in \<open>auto simp: record_user_hardware_def split: if_splits\<close>)

lemma same_users:
  assumes "ud_users db' = ud_users db" and "ud_stats db' = ud_stats db" and "ud_next_user db' = ud_next_user db"
  shows "users_ok db' = users_ok db" "get_user_by_username db' name = get_user_by_username db name"
  using assms by (simp_all add: users_ok_def get_user_by_username_def)

lemma same_name: "nocase a b \<Longrightarrow> get_user_by_username db a = get_user_by_username db b"
proof -
  assume "nocase a b"
  then have "(\<lambda>r. nocase (ur_username r) a) = (\<lambda>r. nocase (ur_username r) b)"
    using nocase_trans nocase_sym by blast
  then show ?thesis unfolding get_user_by_username_def by (rule arg_cong)
qed

lemma allowed_known:
  assumes "authenticate cfg (db_accounts now db ac) ip rq = Allow u"
    and "get_user_by_username db (clean_username (lq_username rq)) = Some z"
  shows "u = login_user_of z"
  using assms by (auto simp: authenticate_def split: if_splits)

lemma created_account_keeps:
  fixes now cfg ac ip rq
  assumes "users_ok db" and "ud_next_user db < 2 ^ 31"
  defines "db1 \<equiv> created_account now cfg ac ip rq db"
  shows "users_ok db1" "ud_next_user db1 \<le> ud_next_user db + 1" "hardware_users hw db1 = hardware_users hw db"
    and "get_user_by_username db name = Some z \<Longrightarrow> get_user_by_username db1 name = Some z"
  using create_user_eq[OF assms(1,2)] added_user_ok[OF assms(1,2)] assms(1)
  by (auto simp: db1_def created_account_def find_added_user hardware_users_def split: option.split)
    (auto simp: added_user_def Let_def)

lemma login_db_cases:
  obtains "snd (login_db now cfg ac ip rq db) = created_account now cfg ac ip rq db"
  | u fp where "authenticate cfg (db_accounts now db ac) ip rq = Allow u"
      "record_user_hardware now (lu_id u) (lq_hardware rq) fp (created_account now cfg ac ip rq db)
         = Some (snd (login_db now cfg ac ip rq db))"
proof (cases "authenticate cfg (db_accounts now db ac) ip rq")
  case (Deny reply)
  then show ?thesis using that(1) by (simp add: login_db_def Let_def)
next
  case (Allow u)
  let ?fp = "ac_fingerprint ac (lit ''client-ip'') (show_ip ip)"
  show ?thesis
    by (cases "record_user_hardware now (lu_id u) (lq_hardware rq) ?fp (created_account now cfg ac ip rq db)")
      (use that Allow in \<open>auto simp: login_db_def Let_def\<close>)
qed

text \<open>What a later login leaves of an account that is there: everything but for the hardware
  rows of others, and those only when they come from the same hardware under another name.\<close>

lemma login_db_keeps:
  fixes now cfg ac ip rq
  assumes ok: "users_ok db" "ud_next_user db < 2 ^ 31" and found: "get_user_by_username db name = Some z"
    and other: "nocase (clean_username (lq_username rq)) name \<or> \<not> shares_hardware (lq_hardware rq) hw"
  defines "db' \<equiv> snd (login_db now cfg ac ip rq db)"
  shows "users_ok db'" "ud_next_user db' \<le> ud_next_user db + 1" "get_user_by_username db' name = Some z"
    and "hardware_users hw db' - {us_id z} \<subseteq> hardware_users hw db"
proof -
  define db1 where "db1 = created_account now cfg ac ip rq db"
  note kept = created_account_keeps[OF ok, where now = now and cfg = cfg and ac = ac and ip = ip and rq = rq,
      folded db1_def]
  consider "db' = db1"
    | u fp where "authenticate cfg (db_accounts now db ac) ip rq = Allow u"
        "record_user_hardware now (lu_id u) (lq_hardware rq) fp db1 = Some db'"
    unfolding db'_def db1_def by (rule login_db_cases)
  then have "(users_ok db' \<and> ud_next_user db' \<le> ud_next_user db + 1 \<and> get_user_by_username db' name = Some z)
      \<and> hardware_users hw db' - {us_id z} \<subseteq> hardware_users hw db"
  proof cases
    case 1
    then show ?thesis using kept(1-3) kept(4)[OF found] by auto
  next
    case (2 u fp)
    have "lu_id u = us_id z" if "shares_hardware (lq_hardware rq) hw"
      using other that allowed_known[OF 2(1)] found same_name by (fastforce simp: login_user_of_def)
    then show ?thesis
      using recorded[OF 2(2)] same_users[OF recorded(1-3)[OF 2(2)]] kept(1-3) kept(4)[OF found] by auto
  qed
  then show "users_ok db'" "ud_next_user db' \<le> ud_next_user db + 1" "get_user_by_username db' name = Some z"
    "hardware_users hw db' - {us_id z} \<subseteq> hardware_users hw db" by blast+
qed

text \<open>The logins of some time, one after the other.\<close>

definition run_logins ::
    "login_config \<Rightarrow> accounts \<Rightarrow> (i64 \<times> ip_addr \<times> login_request) list \<Rightarrow> users_db \<Rightarrow> users_db" where
  "run_logins cfg ac = fold (\<lambda>(now, ip, rq) db. snd (login_db now cfg ac ip rq db))"

lemma run_logins_keep:
  assumes "users_ok db" and "ud_next_user db + int (length logins) \<le> 2 ^ 31"
    and "get_user_by_username db name = Some z"
    and "\<forall>(_, _, rq) \<in> set logins. nocase (clean_username (lq_username rq)) name \<or> \<not> shares_hardware (lq_hardware rq) hw"
  shows "get_user_by_username (run_logins cfg ac logins db) name = Some z
    \<and> hardware_users hw (run_logins cfg ac logins db) - {us_id z} \<subseteq> hardware_users hw db"
  using assms
proof (induction logins arbitrary: db)
  case (Cons x logins)
  obtain now ip rq where x: "x = (now, ip, rq)" by (cases x)
  let ?db = "snd (login_db now cfg ac ip rq db)"
  have "ud_next_user db < 2 ^ 31" using Cons.prems(2) by simp
  note kept = login_db_keeps[OF Cons.prems(1) this Cons.prems(3), where rq = rq and hw = hw and now = now and cfg = cfg
    and ac = ac and ip = ip]
  have other: "nocase (clean_username (lq_username rq)) name \<or> \<not> shares_hardware (lq_hardware rq) hw"
    using Cons.prems(4) x by simp
  have "get_user_by_username (run_logins cfg ac logins ?db) name = Some z
    \<and> hardware_users hw (run_logins cfg ac logins ?db) - {us_id z} \<subseteq> hardware_users hw ?db"
    by (rule Cons.IH) (use kept[OF other] Cons.prems(2,4) in auto)
  then show ?case using kept(4)[OF other] by (auto simp: run_logins_def x)
qed (simp add: run_logins_def)

lemma login_db_decision: "fst (login_db now cfg ac ip rq db) = authenticate cfg (db_accounts now db ac) ip rq"
  by (simp add: login_db_def Let_def split: decision.split)

text \<open>A first login that is allowed has made the account.\<close>

lemma first_login:
  assumes ok: "users_ok db" "ud_next_user db < 2 ^ 31"
    and first: "login_db now cfg ac ip rq db = (Allow u, db')"
    and new: "get_user_by_username db (clean_username (lq_username rq)) = None"
  obtains h e db1 where "ac_hash_password ac (lq_password_md5 rq) = Some h"
    and "db1 = added_user now (lq_username rq) h e (lc_default_country cfg) db"
    and "\<forall>r \<in> set (ud_users db). \<not> nocase (ur_username r) (lq_username rq)"
    and "users_ok db1" "ud_next_user db1 = ud_next_user db + 1" "hardware_users hw db1 = hardware_users hw db"
    and "u = \<lparr>lu_id = word_of_int (ud_next_user db), lu_username = lq_username rq, lu_password_hash = h,
           lu_privileges = 1, lu_country = lc_default_country cfg\<rparr>"
    and "\<not> too_many_accounts cfg (db_accounts now db ac) ip None (lq_hardware rq)"
    and "db' = db1 \<or> (\<exists>fp. record_user_hardware now (lu_id u) (lq_hardware rq) fp db1 = Some db')"
proof -
  let ?n = "lq_username rq" and ?e = "lq_username rq @ [64] @ lit ''ayanomi.local''"
  have allowed: "authenticate cfg (db_accounts now db ac) ip rq = Allow u"
    using login_db_decision[of now cfg ac ip rq db] first by simp
  then obtain h where h: "ac_hash_password ac (lq_password_md5 rq) = Some h"
    and u: "map_option login_user_of (fst (create_user now ?n h ?e (lc_default_country cfg) db)) = Some u"
    and few: "\<not> too_many_accounts cfg (db_accounts now db ac) ip None (lq_hardware rq)"
    and auto: "lc_auto_register cfg"
    using new by (auto simp: authenticate_def register_user_def split: option.splits if_splits)
  have absent: "\<forall>r \<in> set (ud_users db). \<not> nocase (ur_username r) ?n"
    using u create_user_eq[OF ok] by (auto split: if_splits)
  let ?db1 = "added_user now ?n h ?e (lc_default_country cfg) db"
  have db1: "created_account now cfg ac ip rq db = ?db1"
    using create_user_eq[OF ok] absent new few auto h by (simp add: created_account_def)
  have "db' = ?db1 \<or> (\<exists>fp. record_user_hardware now (lu_id u) (lq_hardware rq) fp ?db1 = Some db')"
    by (rule login_db_cases[of now cfg ac ip rq db]) (use first db1 allowed in auto)
  moreover have "ud_next_user ?db1 = ud_next_user db + 1" "hardware_users hw ?db1 = hardware_users hw db"
    by (simp_all add: added_user_def Let_def hardware_users_def)
  moreover have "u = \<lparr>lu_id = word_of_int (ud_next_user db), lu_username = ?n, lu_password_hash = h,
           lu_privileges = 1, lu_country = lc_default_country cfg\<rparr>"
    using u absent create_user_eq[OF ok] by (auto simp: login_user_of_def)
  ultimately show ?thesis
    using that[OF h refl absent added_user_ok[OF ok absent]] few by blast
qed

lemma first_login_found:
  assumes ok: "users_ok db" "ud_next_user db < 2 ^ 31"
    and first: "login_db now cfg ac ip rq db = (Allow u, db')"
    and new: "get_user_by_username db (clean_username (lq_username rq)) = None"
  shows "users_ok db'" "ud_next_user db' = ud_next_user db + 1"
    and "hardware_users hw db' - {lu_id u} \<subseteq> hardware_users hw db"
    and "nocase (lq_username rq) name \<Longrightarrow> get_user_by_username db name = None \<Longrightarrow>
      \<exists>z. get_user_by_username db' name = Some z \<and> login_user_of z = u"
    and "\<not> nocase (lq_username rq) name \<Longrightarrow> get_user_by_username db' name = get_user_by_username db name"
proof -
  obtain h e db1 where d: "db1 = added_user now (lq_username rq) h e (lc_default_country cfg) db"
      "users_ok db1" "ud_next_user db1 = ud_next_user db + 1" "hardware_users hw db1 = hardware_users hw db"
      "u = \<lparr>lu_id = word_of_int (ud_next_user db), lu_username = lq_username rq, lu_password_hash = h,
           lu_privileges = 1, lu_country = lc_default_country cfg\<rparr>"
      "db' = db1 \<or> (\<exists>fp. record_user_hardware now (lu_id u) (lq_hardware rq) fp db1 = Some db')"
    by (rule first_login[OF assms, of hw]) blast
  have same: "users_ok db' = users_ok db1" "ud_next_user db' = ud_next_user db1"
      "get_user_by_username db' n = get_user_by_username db1 n"
      "hardware_users hw db' - {lu_id u} \<subseteq> hardware_users hw db1" for n
    using d(6) recorded same_users[OF recorded(1-3)] by (auto split: if_splits)
  show "users_ok db'" "ud_next_user db' = ud_next_user db + 1"
    "hardware_users hw db' - {lu_id u} \<subseteq> hardware_users hw db"
    using d same by simp_all
  show "\<exists>z. get_user_by_username db' name = Some z \<and> login_user_of z = u"
    if "nocase (lq_username rq) name" "get_user_by_username db name = None"
    using that d by (simp add: same find_added_user login_user_of_def)
  show "get_user_by_username db' name = get_user_by_username db name" if "\<not> nocase (lq_username rq) name"
    using that d by (simp add: same find_added_user split: option.split)
qed

lemma register_then_login:
  assumes ok: "users_ok db" "ud_next_user db + int (length logins) < 2 ^ 31"
    and first: "login_db now cfg ac ip rq db = (Allow u, db')"
    and new: "get_user_by_username db (clean_username (lq_username rq)) = None"
    and plain: "nocase (lq_username rq) (clean_username (lq_username rq))"
    and bcrypt: "\<forall>p h. ac_hash_password ac p = Some h \<longrightarrow> ac_verify_password ac p h"
    and between: "\<forall>(_, _, rq') \<in> set logins. nocase (clean_username (lq_username rq')) (clean_username (lq_username rq))
      \<or> \<not> shares_hardware (lq_hardware rq') (lq_hardware rq)"
  shows "fst (login_db later cfg ac ip rq (run_logins cfg ac logins db')) = Allow u"
proof -
  let ?n = "clean_username (lq_username rq)" and ?hw = "lq_hardware rq"
  let ?db = "run_logins cfg ac logins db'"
  have bound: "ud_next_user db < 2 ^ 31" using ok(2) by simp
  note made = first_login_found[OF ok(1) bound first new]
  obtain z where z: "get_user_by_username db' ?n = Some z" "login_user_of z = u"
    using made(4)[OF plain new] by blast
  then have uid: "us_id z = lu_id u" by (auto simp: login_user_of_def)
  have "ud_next_user db' + int (length logins) \<le> 2 ^ 31" using made(2) ok(2) by simp
  from run_logins_keep[OF made(1) this z(1) between]
  have there: "get_user_by_username ?db ?n = Some z" "hardware_users ?hw ?db - {lu_id u} \<subseteq> hardware_users ?hw db"
    using made(3)[of ?hw] uid by auto
  obtain h where h: "ac_hash_password ac (lq_password_md5 rq) = Some h" "lu_password_hash u = h"
    and few: "\<not> too_many_accounts cfg (db_accounts now db ac) ip None ?hw"
    by (rule first_login[OF ok(1) bound first new]) simp
  have "\<not> too_many_accounts cfg (db_accounts later ?db ac) ip (Some (lu_id u)) ?hw"
    using few check_multiaccount_mono[OF there(2)] by (auto simp: too_many_accounts_def)
  then show ?thesis
    using there(1) z(2) h bcrypt by (simp add: login_db_decision authenticate_def)
qed

text \<open>A name with a tag is stored as it is, and never found again.\<close>

lemma tagged_name_locked_out:
  assumes ok: "users_ok db" "ud_next_user db < 2 ^ 31"
    and first: "login_db now cfg ac ip rq db = (Allow u, db')"
    and new: "get_user_by_username db (clean_username (lq_username rq)) = None"
    and tagged: "\<not> nocase (lq_username rq) (clean_username (lq_username rq))"
  shows "\<exists>reply. fst (login_db later cfg ac ip rq db') = Deny reply"
proof -
  note made = first_login_found[OF assms(1-4)]
  have "get_user_by_username db' (clean_username (lq_username rq)) = None" using made(5)[OF tagged] new by simp
  moreover have "\<exists>r \<in> set (ud_users db'). nocase (ur_username r) (lq_username rq)"
  proof (rule ccontr)
    assume absent: "\<not> (\<exists>r \<in> set (ud_users db'). nocase (ur_username r) (lq_username rq))"
    obtain h e db1 where "db1 = added_user now (lq_username rq) h e (lc_default_country cfg) db"
        "db' = db1 \<or> (\<exists>fp. record_user_hardware now (lu_id u) (lq_hardware rq) fp db1 = Some db')"
      by (rule first_login[OF ok first new]) blast
    then have "ud_users db' = ud_users (added_user now (lq_username rq) h e (lc_default_country cfg) db)"
      using recorded(1) by blast
    then show False using absent by (simp add: added_user_def Let_def eq_ignore_ascii_case_def)
  qed
  then have "fst (create_user later (lq_username rq) h e c db') = None" for h e c by (simp add: create_user_def)
  ultimately show ?thesis
    by (simp add: login_db_decision authenticate_def register_user_def split: option.split)
qed

subsection \<open>Ranks\<close>

lemma better_trans: "better_than a b \<Longrightarrow> better_than b c \<Longrightarrow> better_than a c"
  by (auto simp: better_than_def)

lemma better_irrefl: "\<not> better_than a a"
  by (simp add: better_than_def)

lemma better_total: "\<not> better_than b a \<Longrightarrow> better_than b c \<Longrightarrow> better_than a c"
  by (auto simp: better_than_def)

abbreviation ahead :: "users_db \<Rightarrow> u8 \<Rightarrow> stats_row \<Rightarrow> stats_row list" where
  "ahead db mode s \<equiv> filter (\<lambda>r. st_mode r = ucast mode \<and> better_than s r) (ud_stats db)"

lemma length_filter_strict:
  "(\<And>x. P x \<Longrightarrow> Q x) \<Longrightarrow> x \<in> set xs \<Longrightarrow> Q x \<Longrightarrow> \<not> P x \<Longrightarrow> length (filter P xs) < length (filter Q xs)"
proof (induction xs)
  case (Cons y ys)
  have "length (filter P ys) \<le> length (filter Q ys)"
    using Cons.prems(1) by (induction ys) auto
  then show ?case using Cons by auto
qed simp

lemma ahead_less_iff:
  assumes "b \<in> set (ud_stats db)" and "st_mode b = ucast mode"
    and "a \<in> set (ud_stats db)" and "st_mode a = ucast mode"
  shows "length (ahead db mode a) < length (ahead db mode b) \<longleftrightarrow> better_than b a"
proof
  assume "better_than b a"
  then show "length (ahead db mode a) < length (ahead db mode b)"
    using assms better_irrefl[of a] by (intro length_filter_strict[of _ _ a]) (auto intro: better_trans)
next
  assume less: "length (ahead db mode a) < length (ahead db mode b)"
  show "better_than b a"
  proof (rule ccontr)
    assume not: "\<not> better_than b a"
    have "length (ahead db mode b) \<le> length (ahead db mode a)"
      unfolding length_filter_conv_card
      using better_total[OF not] by (intro card_mono) auto
    with less show False by simp
  qed
qed

lemma user_rank_eq:
  assumes "find (is_stats uid mode) (ud_stats db) = Some s" and "length (ud_stats db) < 2 ^ 31 - 1"
  shows "sint (get_user_rank db uid mode) = 1 + int (length (ahead db mode s))"
proof -
  have "length (ud_stats db) < 2147483647" using assms(2) by simp
  moreover have "length (ahead db mode s) \<le> length (ud_stats db)" by (rule length_filter_le)
  ultimately have "1 + int (length (ahead db mode s)) < 2147483648" by linarith
  then show ?thesis
    unfolding get_user_rank_def assms(1) option.case by (intro sint_id) simp_all
qed

lemma rank_order:
  assumes "find (is_stats a mode) (ud_stats db) = Some sa"
    and "find (is_stats b mode) (ud_stats db) = Some sb"
    and "length (ud_stats db) < 2 ^ 31 - 1"
  shows "sint (get_user_rank db a mode) < sint (get_user_rank db b mode) \<longleftrightarrow> better_than sb sa"
  using ahead_less_iff[of sb db mode sa] find_SomeD[OF assms(1)] find_SomeD[OF assms(2)] assms(3)
  by (simp add: user_rank_eq[OF assms(1)] user_rank_eq[OF assms(2)] is_stats_def)

subsection \<open>The leaderboard\<close>

lemma leaderboard_ranks:
  "get_leaderboard db mode limit = Some l \<Longrightarrow>
     map lb_rank l = map of_nat [1 ..< Suc (length (leaderboard_rows db mode limit))]"
  by (rule nth_equalityI)
    (auto simp: get_leaderboard_def Let_def leaderboard_entry_def nth_enumerate_eq split_def
      simp del: upt_Suc split: if_splits)

abbreviation board_key :: "user_row \<times> stats_row \<Rightarrow> int \<times> int \<times> int" where
  "board_key \<equiv> \<lambda>(u, s). (st_pp s, st_ranked_score s, st_play_count s)"

definition on_board :: "users_db \<Rightarrow> u8 \<Rightarrow> user_row \<times> stats_row \<Rightarrow> bool" where
  "on_board db mode = (\<lambda>(u, s). u \<in> set (ud_users db) \<and> s \<in> set (ud_stats db)
     \<and> ur_id u = sint (st_user_id s) \<and> st_mode s = ucast mode
     \<and> (0 < st_play_count s \<or> 0 < st_total_score s))"

lemma stats_with_users_set:
  "r \<in> set (stats_with_users db (\<lambda>s. st_mode s = ucast mode \<and> (0 < st_play_count s \<or> 0 < st_total_score s)))
     \<longleftrightarrow> on_board db mode r"
  by (cases r) (auto simp: stats_with_users_def on_board_def)

lemma leaderboard_sorted: "sorted_wrt (\<lambda>a b. board_key b \<le> board_key a) (leaderboard_rows db mode limit)"
  using sorted_order_desc[of board_key] sorted_wrt_take
  unfolding leaderboard_rows_def sql_limit_def by auto

lemma leaderboard_best:
  assumes "x \<in> set (leaderboard_rows db mode limit)"
    and "on_board db mode y" and "y \<notin> set (leaderboard_rows db mode limit)"
  shows "board_key y \<le> board_key x"
  using limit_best[OF sorted_order_desc, of x limit board_key _ y] assms
  by (simp add: leaderboard_rows_def stats_with_users_set)

lemma leaderboard_on_board: "x \<in> set (leaderboard_rows db mode limit) \<Longrightarrow> on_board db mode x"
  using set_sql_limit unfolding leaderboard_rows_def by (fastforce simp flip: stats_with_users_set)

subsection \<open>Revoked sessions\<close>

lemma revoked_after:
  assumes "sint now \<le> sint later"
  shows "is_session_revoked later (revoke_session now h expires db) h' \<longleftrightarrow>
    (if h' = h then sint later < sint expires else is_session_revoked later db h')"
  using assms by (auto simp: is_session_revoked_def revoke_session_def Let_def)

subsection \<open>Migrations\<close>

lemma hardware_migrated_once:
  "fst (migrate_legacy_hardware_identifiers f (snd (migrate_legacy_hardware_identifiers f db))) = 0"
  "snd (migrate_legacy_hardware_identifiers f (snd (migrate_legacy_hardware_identifiers f db)))
     = snd (migrate_legacy_hardware_identifiers f db)"
  by (auto simp: migrate_legacy_hardware_identifiers_def filter_map comp_def migrate_row_def)

lemma passwords_migrated_once:
  assumes "\<forall>p h. hash_password p = Some h \<longrightarrow> \<not> legacy_md5 h"
  shows "fst (migrate_legacy_md5_passwords hash_password (snd (migrate_legacy_md5_passwords hash_password db))) = 0"
proof -
  have "\<not> (legacy_md5 (ur_password_hash (upgrade_password hash_password r))
           \<and> hash_password (ur_password_hash (upgrade_password hash_password r)) \<noteq> None)" for r
    using assms by (auto simp: upgrade_password_def split: option.splits)
  then show ?thesis by (simp add: migrate_legacy_md5_passwords_def filter_map comp_def filter_empty_conv)
qed

end
