(* ===== verification/Float_Ops.thy ===== *)
theory Float_Ops
  imports Floats
begin

text \<open>
  The operations on \<^verbatim>\<open>f32\<close> and \<^verbatim>\<open>f64\<close> the score calculation adds: subtraction,
  comparison, \<^verbatim>\<open>max\<close>, \<^verbatim>\<open>clamp\<close>, \<^verbatim>\<open>round\<close>, \<^verbatim>\<open>sqrt\<close> and the saturating casts to
  integers; and that rounding is monotone, which bounds what rounded arithmetic can give.
\<close>

definition lit64 :: "rat \<Rightarrow> fp" where
  "lit64 r = fp_round f64 r"

definition lit32 :: "rat \<Rightarrow> fp" where
  "lit32 r = fp_round f32 r"

definition fp_neg :: "fp \<Rightarrow> fp" where
  "fp_neg x = (case x of NaN \<Rightarrow> NaN | Inf s \<Rightarrow> Inf (\<not> s) | Zero s \<Rightarrow> Zero (\<not> s) | Fin r \<Rightarrow> Fin (- r))"

definition fp_sub :: "fp_format \<Rightarrow> fp \<Rightarrow> fp \<Rightarrow> fp" where
  "fp_sub F x y = fp_add F x (fp_neg y)"

definition fp_eq :: "fp \<Rightarrow> fp \<Rightarrow> bool" where
  "fp_eq x y \<longleftrightarrow> fp_key x \<noteq> None \<and> fp_key x = fp_key y"

definition fp_le :: "fp \<Rightarrow> fp \<Rightarrow> bool" where
  "fp_le x y \<longleftrightarrow> fp_less x y \<or> fp_eq x y"

definition fp_max :: "fp \<Rightarrow> fp \<Rightarrow> fp" where
  "fp_max x y = (if x = NaN then y else if y = NaN then x else if fp_less x y then y else x)"

text \<open>\<^verbatim>\<open>clamp\<close> keeps a NaN; it panics only on bounds out of order, which never happens here.\<close>

definition fp_clamp :: "fp \<Rightarrow> fp \<Rightarrow> fp \<Rightarrow> fp" where
  "fp_clamp lo hi x =
     (let y = (if fp_less x lo then lo else x) in if fp_less hi y then hi else y)"

text \<open>\<^verbatim>\<open>round\<close>: to the nearest integer, halves away from zero.\<close>

definition fp_round_away :: "fp \<Rightarrow> fp" where
  "fp_round_away x =
     (case x of
        Fin r \<Rightarrow> (let n = \<lfloor>\<bar>r\<bar> + 1 / 2\<rfloor>
                  in if n = 0 then Zero (r < 0) else Fin (if r < 0 then - of_int n else of_int n))
      | _ \<Rightarrow> x)"

text \<open>\<^verbatim>\<open>x as iN\<close>: towards zero, saturating, NaN to 0.\<close>

definition fp_to_int :: "int \<Rightarrow> int \<Rightarrow> fp \<Rightarrow> int" where
  "fp_to_int lo hi x =
     (case x of NaN \<Rightarrow> 0 | Zero _ \<Rightarrow> 0 | Inf s \<Rightarrow> (if s then lo else hi)
      | Fin r \<Rightarrow> max lo (min hi (if r < 0 then - \<lfloor>- r\<rfloor> else \<lfloor>r\<rfloor>)))"

subsection \<open>Square root\<close>

function isqrt :: "int \<Rightarrow> int" where
  "isqrt n =
     (if n \<le> 0 then 0
      else let r = 2 * isqrt (n div 4) in if (r + 1) * (r + 1) \<le> n then r + 1 else r)"
  by pat_completeness auto
termination
  by (relation "measure nat") auto

declare isqrt.simps [simp del]

text \<open>
  The root is cut two bits below the precision; what is cut off only matters when it is not
  zero, and then half a unit stands for it.
\<close>

definition fp_sqrt :: "fp_format \<Rightarrow> fp \<Rightarrow> fp" where
  "fp_sqrt F x =
     (case x of NaN \<Rightarrow> NaN | Zero s \<Rightarrow> Zero s | Inf s \<Rightarrow> (if s then NaN else Inf False)
      | Fin r \<Rightarrow>
          (if r < 0 then NaN
           else
             let k = int (prec F) + 2 - rat_log2 r div 2; q = r * 4 powi k; s = isqrt \<lfloor>q\<rfloor>;
                 root = (if of_int (s * s) = q then of_int s else of_int s + 1 / 2)
             in fp_round F (root / 2 powi k)))"

lemma isqrt_bounds: "0 \<le> n \<Longrightarrow> 0 \<le> isqrt n \<and> isqrt n * isqrt n \<le> n \<and> n < (isqrt n + 1) * (isqrt n + 1)"
proof (induction n rule: isqrt.induct)
  case (1 n)
  show ?case
  proof (cases "n \<le> 0")
    case True
    then have "n = 0" using 1 by simp
    moreover have "isqrt 0 = 0" by (subst isqrt.simps) simp
    ultimately show ?thesis by simp
  next
    case False
    define m r where "m = n div 4" and "r = isqrt m"
    have IH: "0 \<le> r" "r * r \<le> m" "m < (r + 1) * (r + 1)"
      using 1 False by (auto simp: m_def r_def)
    have n: "4 * m \<le> n" "n < 4 * m + 4" unfolding m_def by presburger+
    have sq: "(2 * r) * (2 * r) = 4 * (r * r)" "(2 * r + 1 + 1) * (2 * r + 1 + 1) = 4 * ((r + 1) * (r + 1))"
      by (simp_all add: algebra_simps)
    have e: "isqrt n = (if (2 * r + 1) * (2 * r + 1) \<le> n then 2 * r + 1 else 2 * r)"
      using False by (simp add: isqrt.simps[of n] Let_def m_def r_def)
    show ?thesis
    proof (cases "(2 * r + 1) * (2 * r + 1) \<le> n")
      case True
      moreover have "n < (2 * r + 1 + 1) * (2 * r + 1 + 1)" using IH(3) n unfolding sq by linarith
      ultimately show ?thesis using IH(1) unfolding e by simp
    next
      case False
      moreover have "2 * r * (2 * r) \<le> n" using IH(2) n unfolding sq by linarith
      ultimately show ?thesis using IH(1) unfolding e by simp
    qed
  qed
qed

subsection \<open>Rounding is monotone\<close>

lemma rat_log2_bounds:
  assumes "0 < a"
  shows "2 powi rat_log2 a \<le> a \<and> a < 2 powi (rat_log2 a + 1)"
proof -
  obtain n d where q: "quotient_of a = (n, d)" by fastforce
  have d: "0 < d" and a: "a = of_int n / of_int d"
    using quotient_of_denom_pos[OF q] quotient_of_div[OF q] by auto
  have n: "0 < n" using assms a d by (simp add: zero_less_divide_iff)
  let ?k = "int_log2 n" and ?l = "int_log2 d"
  have powi: "(2::rat) powi i = of_int (2 ^ nat i)" if "0 \<le> i" for i
    using that by (simp add: power_int_def)
  have bounds: "2 powi int_log2 m \<le> (of_int m :: rat)" "of_int m < (2::rat) * 2 powi int_log2 m"
    if "0 < m" for m
  proof -
    have m: "0 \<le> int_log2 m" "2 ^ nat (int_log2 m) \<le> m" "m < 2 * 2 ^ nat (int_log2 m)"
      using int_log2_bounds[of m] that by auto
    then show "2 powi int_log2 m \<le> (of_int m :: rat)" by (simp only: powi of_int_le_iff)
    have "(of_int m :: rat) < of_int (2 * 2 ^ nat (int_log2 m))" using m(3) by (simp only: of_int_less_iff)
    then show "of_int m < (2::rat) * 2 powi int_log2 m" using m(1) by (simp add: powi)
  qed
  note N = bounds[OF n] and D = bounds[OF d]
  have split: "(2::rat) powi (?k - ?l) = 2 powi ?k / 2 powi ?l"
    by (simp add: power_int_diff)
  have D0: "(0::rat) < of_int d" "(0::rat) < 2 powi ?l" "(0::rat) < 2 powi ?k" using d by auto
  have up: "a < 2 * 2 powi (?k - ?l)"
  proof -
    have "a \<le> of_int n / (2 :: rat) powi ?l" unfolding a using D D0 n by (intro divide_left_mono) auto
    also have "\<dots> < 2 * 2 powi ?k / 2 powi ?l" using N D0 by (intro divide_strict_right_mono) auto
    finally show ?thesis by (simp add: split)
  qed
  have low: "2 powi (?k - ?l) / 2 \<le> a"
  proof -
    have "2 powi ?k / (2 * (2 :: rat) powi ?l) \<le> of_int n / (2 * 2 powi ?l)"
      using N D0 by (intro divide_right_mono) auto
    also have "\<dots> \<le> a" unfolding a using D D0 n by (intro divide_left_mono) auto
    finally show ?thesis by (simp add: split)
  qed
  have step: "(2::rat) powi (i + 1) = 2 * 2 powi i" "(2::rat) powi (i - 1) = 2 powi i / 2" for i
    by (simp_all add: power_int_add power_int_diff)
  show ?thesis
    using up low unfolding rat_log2_def q by (simp add: Let_def step split)
qed

lemma powi_less: "(2::rat) powi m < 2 powi n \<longleftrightarrow> m < n"
  by (metis less_le_not_le linorder_not_le one_less_numeral_iff order_less_imp_le power_int_increasing
      power_int_strict_increasing semiring_norm(76))

lemma powi_le: "(2::rat) powi m \<le> 2 powi n \<longleftrightarrow> m \<le> n"
  by (simp only: powi_less flip: linorder_not_less)

lemma powi_nat: "m \<le> n \<Longrightarrow> (2::rat) powi n = of_int (2 ^ nat (n - m)) * 2 powi m"
  using power_int_add[of "2::rat" "n - m" m] by (simp add: power_int_def[of _ "n - m"])

lemma rat_log2_mono: "0 < a \<Longrightarrow> a \<le> b \<Longrightarrow> rat_log2 a \<le> rat_log2 b"
proof -
  assume ab: "0 < a" "a \<le> b"
  then have "2 powi rat_log2 a < (2::rat) powi (rat_log2 b + 1)"
    using rat_log2_bounds[of a] rat_log2_bounds[of b] by linarith
  then show ?thesis by (simp add: powi_less)
qed

lemma round_half_even_mono: "p \<le> q \<Longrightarrow> round_half_even p \<le> round_half_even q"
proof -
  assume pq: "p \<le> q"
  then have le: "\<lfloor>p\<rfloor> \<le> \<lfloor>q\<rfloor>" by (rule floor_mono)
  show ?thesis
  proof (cases "\<lfloor>p\<rfloor> = \<lfloor>q\<rfloor>")
    case True
    then show ?thesis using pq by (auto simp: round_half_even_def Let_def)
  next
    case False
    then show ?thesis using le by (auto simp: round_half_even_def Let_def)
  qed
qed

lemma round_half_even_int [simp]: "round_half_even (of_int k) = k"
  by (simp add: round_half_even_def)

definition rounded :: "fp_format \<Rightarrow> rat \<Rightarrow> rat" where
  "rounded F a = of_int (round_half_even (a / ulp F a)) * ulp F a"

lemma ulp_pos [simp]: "0 < ulp F a"
  by (simp add: ulp_def)

lemma rounded_exact: "a = of_int k * ulp F a \<Longrightarrow> rounded F a = a"
  by (metis less_irrefl nonzero_mult_div_cancel_right round_half_even_int rounded_def ulp_pos)

lemma rounded_multiple:
  assumes "a = of_int k * 2 powi j" and "max (rat_log2 a - int (prec F) + 1) (emin F) \<le> j"
  shows "rounded F a = a"
  by (rule rounded_exact[of _ "k * 2 ^ nat (j - max (rat_log2 a - int (prec F) + 1) (emin F))"])
    (use assms(1) powi_nat[OF assms(2)] in \<open>simp add: ulp_def\<close>)

lemma rounded_le: "a \<le> b \<Longrightarrow> b = of_int k * ulp F a \<Longrightarrow> rounded F a \<le> b"
proof -
  assume "a \<le> b" and b: "b = of_int k * ulp F a"
  then have "a / ulp F a \<le> of_int k" by (simp add: divide_le_eq)
  then have "round_half_even (a / ulp F a) \<le> k" using round_half_even_mono by fastforce
  then show ?thesis unfolding rounded_def b by (intro mult_right_mono) (auto simp: less_imp_le)
qed

lemma le_rounded: "b \<le> a \<Longrightarrow> b = of_int k * ulp F a \<Longrightarrow> b \<le> rounded F a"
proof -
  assume "b \<le> a" and b: "b = of_int k * ulp F a"
  then have "of_int k \<le> a / ulp F a" by (simp add: le_divide_eq)
  then have "k \<le> round_half_even (a / ulp F a)" using round_half_even_mono by fastforce
  then show ?thesis unfolding rounded_def b by (intro mult_right_mono) (auto simp: less_imp_le)
qed

lemma rounded_mono:
  assumes "0 < x" and "x \<le> y" and "1 \<le> prec F"
  shows "rounded F x \<le> rounded F y"
proof -
  let ?e = "\<lambda>a. max (rat_log2 a - int (prec F) + 1) (emin F)"
  note logs = rat_log2_mono[OF assms(1,2)]
  show ?thesis
  proof (cases "?e x = ?e y")
    case True
    then have u: "ulp F x = ulp F y" by (simp add: ulp_def)
    have "x / ulp F y \<le> y / ulp F y" using assms(2) by (intro divide_right_mono) (auto simp: less_imp_le)
    then show ?thesis
      unfolding rounded_def u by (intro mult_right_mono) (auto simp: less_imp_le intro: round_half_even_mono)
  next
    case False
    then have e: "rat_log2 x < rat_log2 y" "?e x \<le> rat_log2 y" "?e y \<le> rat_log2 y"
      using logs assms(3) by (auto simp: max_def split: if_splits)
    let ?b = "(2::rat) powi rat_log2 y"
    have "x \<le> ?b"
      using rat_log2_bounds[OF assms(1)] e(1) powi_le[of "rat_log2 x + 1" "rat_log2 y"] by linarith
    then have "rounded F x \<le> ?b" using powi_nat[OF e(2)] by (intro rounded_le) (auto simp: ulp_def)
    moreover have "?b \<le> rounded F y"
      using rat_log2_bounds[of y] assms(1,2) powi_nat[OF e(3)] by (intro le_rounded) (auto simp: ulp_def)
    ultimately show ?thesis by linarith
  qed
qed

lemma rounded_nonneg: "0 \<le> a \<Longrightarrow> 0 \<le> rounded F a"
  by (rule le_rounded[of 0 a 0]) simp_all

lemma fp_round_nonneg:
  "0 \<le> a \<Longrightarrow> fp_round F a =
     (if rounded F a = 0 then Zero False
      else if max_finite F < rounded F a then Inf False else Fin (rounded F a))"
  by (auto simp: fp_round_def Let_def rounded_def round_half_even_def)

text \<open>What lies between 0 and \<open>b\<close>, rounded or not.\<close>

definition between0 :: "rat \<Rightarrow> fp \<Rightarrow> bool" where
  "between0 b x \<longleftrightarrow> x = Zero False \<or> (\<exists>v. x = Fin v \<and> 0 < v \<and> v \<le> b)"

lemma fp_round_between:
  assumes "0 \<le> a" and "a \<le> b" and "fp_round F b = Fin b" and "1 \<le> prec F"
  shows "between0 b (fp_round F a)"
proof (cases "a = 0")
  case True
  then show ?thesis by (simp add: between0_def fp_round_def)
next
  case False
  have "0 \<le> b" using assms(1,2) by linarith
  then have b: "\<not> max_finite F < rounded F b" "rounded F b = b"
    using assms(3) fp_round_nonneg[of b F] by (cases "rounded F b = 0"; cases "max_finite F < rounded F b"; force)+
  have le: "rounded F a \<le> b" using rounded_mono[of a b F] assms(1,2,4) False b(2) by linarith
  have "0 \<le> rounded F a" using assms(1) by (rule rounded_nonneg)
  moreover have "\<not> max_finite F < rounded F a" using le b by linarith
  ultimately show ?thesis
    unfolding between0_def fp_round_nonneg[OF assms(1)] using le by (cases "rounded F a = 0") simp_all
qed

lemma between0_Fin:
  assumes "between0 b x"
  obtains "x = Zero False" | v where "x = Fin v" "0 < v" "v \<le> b"
  using assms by (auto simp: between0_def)

lemma between0_le: "between0 b x \<Longrightarrow> fp_le (Zero False) x \<and> (0 \<le> b \<longrightarrow> fp_le x (Fin b))"
  by (auto simp: between0_def fp_le_def fp_less_def fp_eq_def fp_key_def)

lemma fp_round_int:
  assumes "0 < n" and "n < 2 ^ prec F" and "emin F \<le> 0" and "of_int n \<le> max_finite F"
  shows "fp_round F (of_int n) = Fin (of_int n)"
proof -
  have "2 powi rat_log2 (of_int n) \<le> (of_int n :: rat)" using rat_log2_bounds[of "of_int n"] assms(1) by simp
  also have "\<dots> < of_int (2 ^ prec F)" using assms(2) by (simp only: of_int_less_iff)
  also have "\<dots> = 2 powi int (prec F)" by simp
  finally have "rat_log2 (of_int n) < int (prec F)" by (simp only: powi_less)
  then have "rounded F (of_int n) = of_int n"
    using assms(3) by (intro rounded_multiple[of _ n 0]) auto
  then show ?thesis using assms(1,4) by (simp add: fp_round_nonneg)
qed

end
