(* ===== verification/Beatmaps_Db.thy ===== *)
theory Beatmaps_Db
  imports Match_Db Float_Ops Chat_Filter
begin

text \<open>
  \<^verbatim>\<open>src/db/beatmaps.rs\<close>: the cache of beatmap metadata, the parsing of beatmap file names and
  the resolution of a beatmap through the cache, the match history and the mirror.  The answer
  of the mirror is a parameter.
\<close>

record beatmap_meta =
  bm_map_md5 :: rstr
  bm_beatmap_id :: i64
  bm_beatmapset_id :: i64
  bm_artist :: rstr
  bm_title :: rstr
  bm_version :: rstr
  bm_creator :: rstr
  bm_stars :: fp
  bm_max_combo :: i32

record beatmap_row =
  br_meta :: beatmap_meta
  br_updated_at :: i64

definition default_meta :: beatmap_meta where
  "default_meta = \<lparr>bm_map_md5 = [], bm_beatmap_id = 0, bm_beatmapset_id = 0, bm_artist = [],
     bm_title = [], bm_version = [], bm_creator = [], bm_stars = Zero False, bm_max_combo = 0\<rparr>"

text \<open>
  The short name cuts the hash after eight bytes, and panics (\<open>None\<close>) where that is inside a
  character.
\<close>

definition str_prefix_bytes :: "nat \<Rightarrow> rstr \<Rightarrow> rstr option" where
  "str_prefix_bytes n s = utf8_decode (take n (utf8_encode s))"

definition display_name :: "beatmap_meta \<Rightarrow> rstr option" where
  "display_name m =
     (if bm_title m \<noteq> [] then
        let artist = (if bm_artist m = [] then lit ''Unknown'' else bm_artist m)
        in Some (if bm_version m \<noteq> []
                 then artist @ lit '' - '' @ bm_title m @ lit '' ['' @ bm_version m @ lit '']''
                 else artist @ lit '' - '' @ bm_title m)
      else
        map_option (\<lambda>short. lit ''Beatmap ('' @ short @ lit '')'')
          (if 8 \<le> length (utf8_encode (bm_map_md5 m)) then str_prefix_bytes 8 (bm_map_md5 m)
           else Some (bm_map_md5 m)))"

subsection \<open>The cache\<close>

definition get_beatmap_by_md5 :: "beatmap_row list \<Rightarrow> rstr \<Rightarrow> beatmap_meta option" where
  "get_beatmap_by_md5 bs md5 = map_option br_meta (find (\<lambda>r. bm_map_md5 (br_meta r) = md5) bs)"

text \<open>\<^verbatim>\<open>ON CONFLICT(map_md5) DO UPDATE\<close>: a field is replaced by one that says something.\<close>

definition merge_meta :: "beatmap_meta \<Rightarrow> beatmap_meta \<Rightarrow> beatmap_meta" where
  "merge_meta excluded old =
     old\<lparr>bm_beatmap_id := (if positive (bm_beatmap_id excluded) then bm_beatmap_id excluded else bm_beatmap_id old),
         bm_beatmapset_id :=
           (if positive (bm_beatmapset_id excluded) then bm_beatmapset_id excluded else bm_beatmapset_id old),
         bm_artist := (if bm_artist excluded \<noteq> [] then bm_artist excluded else bm_artist old),
         bm_title := (if bm_title excluded \<noteq> [] then bm_title excluded else bm_title old),
         bm_version := (if bm_version excluded \<noteq> [] then bm_version excluded else bm_version old),
         bm_creator := (if bm_creator excluded \<noteq> [] then bm_creator excluded else bm_creator old),
         bm_stars := (if fp_less (Zero False) (bm_stars excluded) then bm_stars excluded else bm_stars old),
         bm_max_combo := (if positive (bm_max_combo excluded) then bm_max_combo excluded else bm_max_combo old)\<rparr>"

definition save_beatmap :: "i64 \<Rightarrow> beatmap_meta \<Rightarrow> beatmap_row list \<Rightarrow> beatmap_row list" where
  "save_beatmap now meta bs =
     (if \<exists>r \<in> set bs. bm_map_md5 (br_meta r) = bm_map_md5 meta then
        map (\<lambda>r. if bm_map_md5 (br_meta r) = bm_map_md5 meta
                 then \<lparr>br_meta = merge_meta meta (br_meta r), br_updated_at = now\<rparr> else r) bs
      else bs @ [\<lparr>br_meta = meta, br_updated_at = now\<rparr>])"

subsection \<open>File names\<close>

fun rfind_char :: "rchar \<Rightarrow> rstr \<Rightarrow> nat option" where
  "rfind_char c [] = None"
| "rfind_char c (x # xs) =
     (case rfind_char c xs of Some i \<Rightarrow> Some (Suc i) | None \<Rightarrow> if x = c then Some 0 else None)"

fun find_str :: "rstr \<Rightarrow> rstr \<Rightarrow> nat option" where
  "find_str p [] = (if p = [] then Some 0 else None)"
| "find_str p (x # xs) = (if starts_with (x # xs) p then Some 0 else map_option Suc (find_str p xs))"

function trim_end_matches :: "rstr \<Rightarrow> rstr \<Rightarrow> rstr" where
  "trim_end_matches p s =
     (if p \<noteq> [] \<and> length p \<le> length s \<and> drop (length s - length p) s = p
      then trim_end_matches p (take (length s - length p) s) else s)"
  by pat_completeness auto
termination
proof (relation "measure (length \<circ> snd)")
  fix p s :: rstr
  assume "p \<noteq> [] \<and> length p \<le> length s \<and> drop (length s - length p) s = p"
  then have "length s - length p < length s" by (cases p; cases s) auto
  then show "((p, take (length s - length p) s), p, s) \<in> measure (length \<circ> snd)" by simp
qed simp

declare trim_end_matches.simps [simp del]

definition split_version :: "rstr \<Rightarrow> rstr \<times> rstr" where
  "split_version s =
     (case (rfind_char 91 s, rfind_char 93 s) of
        (Some start, Some stop) \<Rightarrow>
          if start < stop then (trim (take (stop - Suc start) (drop (Suc start) s)), trim (take start s))
          else ([], s)
      | _ \<Rightarrow> ([], s))"

definition drop_creator :: "rstr \<Rightarrow> rstr" where
  "drop_creator rest =
     (case (rfind_char 40 rest, rfind_char 41 rest) of
        (Some c_start, Some c_end) \<Rightarrow>
          if c_start < c_end \<and> c_end = length rest - 1 then trim (take c_start rest) else rest
      | _ \<Rightarrow> rest)"

definition parse_osu_filename :: "rstr \<Rightarrow> rstr \<times> rstr \<times> rstr" where
  "parse_osu_filename s =
     (let (version, rest0) = split_version s; rest = drop_creator rest0
      in case find_str (lit '' - '') rest of
           Some dash_idx \<Rightarrow> (trim (take dash_idx rest), trim (drop (dash_idx + 3) rest), version)
         | None \<Rightarrow> ([], rest, version))"

definition save_raw_beatmap_name ::
    "i64 \<Rightarrow> rstr \<Rightarrow> rstr \<Rightarrow> i64 \<Rightarrow> beatmap_row list \<Rightarrow> beatmap_row list" where
  "save_raw_beatmap_name now md5 raw_name beatmap_id bs =
     (if trim md5 = [] \<or> trim raw_name = [] then bs
      else
        let clean = trim_end_matches (lit ''.osu'') (trim raw_name);
            (artist, title, version) = parse_osu_filename clean
        in save_beatmap now
             \<lparr>bm_map_md5 = md5, bm_beatmap_id = beatmap_id, bm_beatmapset_id = 0, bm_artist = artist,
              bm_title = title, bm_version = version, bm_creator = [], bm_stars = Zero False,
              bm_max_combo = 0\<rparr> bs)"

subsection \<open>Resolution\<close>

record mirror_set =
  ms_id :: "i64 option"
  ms_title :: "rstr option"
  ms_title_unicode :: "rstr option"
  ms_artist :: "rstr option"
  ms_artist_unicode :: "rstr option"
  ms_creator :: "rstr option"

record mirror_beatmap =
  mb_id :: "i64 option"
  mb_beatmapset_id :: "i64 option"
  mb_version :: "rstr option"
  mb_difficulty_rating :: "fp option"
  mb_max_combo :: "i32 option"
  mb_set :: "mirror_set option"

definition or_else :: "'a option \<Rightarrow> 'a option \<Rightarrow> 'a option" where
  "or_else a b = (case a of Some x \<Rightarrow> Some x | None \<Rightarrow> b)"

definition unwrap_or :: "'a \<Rightarrow> 'a option \<Rightarrow> 'a" where
  "unwrap_or d a = (case a of Some x \<Rightarrow> x | None \<Rightarrow> d)"

definition meta_of_mirror :: "rstr \<Rightarrow> mirror_beatmap \<Rightarrow> beatmap_meta" where
  "meta_of_mirror md5 d =
     (let from_set = (\<lambda>f. Option.bind (mb_set d) f)
      in \<lparr>bm_map_md5 = md5, bm_beatmap_id = unwrap_or 0 (mb_id d),
          bm_beatmapset_id = unwrap_or 0 (or_else (mb_beatmapset_id d) (Option.bind (mb_set d) ms_id)),
          bm_artist = unwrap_or [] (from_set (\<lambda>s. or_else (ms_artist s) (ms_artist_unicode s))),
          bm_title = unwrap_or [] (from_set (\<lambda>s. or_else (ms_title s) (ms_title_unicode s))),
          bm_version = unwrap_or [] (mb_version d), bm_creator = unwrap_or [] (from_set ms_creator),
          bm_stars = unwrap_or (Zero False) (mb_difficulty_rating d),
          bm_max_combo = unwrap_or 0 (mb_max_combo d)\<rparr>)"

text \<open>The first row of the match history that names the beatmap.\<close>

definition history_name :: "history_db \<Rightarrow> rstr \<Rightarrow> (rstr \<times> i64) option" where
  "history_name hist md5 =
     map_option (\<lambda>m. (mh_beatmap_name m, mh_beatmap_id m))
       (find (\<lambda>m. mh_beatmap_md5 m = md5 \<and> mh_beatmap_name m \<noteq> []) (hd_matches hist))"

definition ask_mirror ::
    "i64 \<Rightarrow> (rstr \<Rightarrow> mirror_beatmap option) \<Rightarrow> rstr \<Rightarrow> beatmap_row list \<Rightarrow> beatmap_meta \<times> beatmap_row list" where
  "ask_mirror now mirror md5 bs =
     (case mirror md5 of
        Some d \<Rightarrow> (meta_of_mirror md5 d, save_beatmap now (meta_of_mirror md5 d) bs)
      | None \<Rightarrow> (default_meta\<lparr>bm_map_md5 := md5\<rparr>, bs))"

definition resolve_uncached ::
    "i64 \<Rightarrow> (rstr \<Rightarrow> mirror_beatmap option) \<Rightarrow> history_db \<Rightarrow> rstr \<Rightarrow> beatmap_row list
       \<Rightarrow> beatmap_meta \<times> beatmap_row list" where
  "resolve_uncached now mirror hist md5 bs =
     (case history_name hist md5 of
        Some (name, bid) \<Rightarrow>
          let bs' = save_raw_beatmap_name now md5 name bid bs
          in (case get_beatmap_by_md5 bs' md5 of
                Some cached \<Rightarrow> (cached, bs')
              | None \<Rightarrow> ask_mirror now mirror md5 bs')
      | None \<Rightarrow> ask_mirror now mirror md5 bs)"

definition resolve_beatmap_meta ::
    "i64 \<Rightarrow> (rstr \<Rightarrow> mirror_beatmap option) \<Rightarrow> history_db \<Rightarrow> rstr \<Rightarrow> beatmap_row list
       \<Rightarrow> beatmap_meta \<times> beatmap_row list" where
  "resolve_beatmap_meta now mirror hist md5 bs =
     (let clean_md5 = trim md5
      in if clean_md5 = [] then (default_meta, bs)
         else
           case get_beatmap_by_md5 bs clean_md5 of
             Some cached \<Rightarrow>
               if bm_title cached \<noteq> [] then (cached, bs)
               else resolve_uncached now mirror hist clean_md5 bs
           | None \<Rightarrow> resolve_uncached now mirror hist clean_md5 bs)"

subsection \<open>What the cache keeps\<close>

definition beatmaps_ok :: "beatmap_row list \<Rightarrow> bool" where
  "beatmaps_ok bs \<longleftrightarrow> distinct (map (\<lambda>r. bm_map_md5 (br_meta r)) bs)"

lemma merge_md5 [simp]: "bm_map_md5 (merge_meta m old) = bm_map_md5 old"
  by (simp add: merge_meta_def)

lemma md5_after_merge:
  "map (\<lambda>r. bm_map_md5 (br_meta (if bm_map_md5 (br_meta r) = k
      then \<lparr>br_meta = merge_meta m (br_meta r), br_updated_at = now\<rparr> else r))) bs
   = map (\<lambda>r. bm_map_md5 (br_meta r)) bs"
  by simp

lemma save_beatmap_ok: "beatmaps_ok bs \<Longrightarrow> beatmaps_ok (save_beatmap now m bs)"
  unfolding beatmaps_ok_def save_beatmap_def by (auto simp: comp_def md5_after_merge)

lemma find_after_merge:
  "find (\<lambda>r. bm_map_md5 (br_meta r) = md5) (map (\<lambda>r. if bm_map_md5 (br_meta r) = k
      then \<lparr>br_meta = merge_meta m (br_meta r), br_updated_at = now\<rparr> else r) bs)
   = map_option (\<lambda>r. if bm_map_md5 (br_meta r) = k
      then \<lparr>br_meta = merge_meta m (br_meta r), br_updated_at = now\<rparr> else r)
      (find (\<lambda>r. bm_map_md5 (br_meta r) = md5) bs)"
  by (induction bs) auto

lemma find_snoc: "find P (xs @ [x]) = (case find P xs of Some y \<Rightarrow> Some y | None \<Rightarrow> if P x then Some x else None)"
  by (induction xs) auto

lemma get_after_save:
  "get_beatmap_by_md5 (save_beatmap now m bs) md5 =
     (if md5 = bm_map_md5 m then
        Some (case get_beatmap_by_md5 bs md5 of Some old \<Rightarrow> merge_meta m old | None \<Rightarrow> m)
      else get_beatmap_by_md5 bs md5)"
proof (cases "\<exists>r \<in> set bs. bm_map_md5 (br_meta r) = bm_map_md5 m")
  case True
  then have "find (\<lambda>r. bm_map_md5 (br_meta r) = bm_map_md5 m) bs \<noteq> None" by (auto simp: find_None_iff)
  then obtain y where y: "find (\<lambda>r. bm_map_md5 (br_meta r) = bm_map_md5 m) bs = Some y" by auto
  then have k: "bm_map_md5 (br_meta y) = bm_map_md5 m" by (auto simp: find_Some_iff)
  have saved: "get_beatmap_by_md5 (save_beatmap now m bs) md5 =
      map_option br_meta (map_option (\<lambda>r. if bm_map_md5 (br_meta r) = bm_map_md5 m
        then \<lparr>br_meta = merge_meta m (br_meta r), br_updated_at = now\<rparr> else r)
        (find (\<lambda>r. bm_map_md5 (br_meta r) = md5) bs))" for md5
    using True by (simp only: get_beatmap_by_md5_def save_beatmap_def find_after_merge if_True)
  show ?thesis
  proof (cases "md5 = bm_map_md5 m")
    case True
    moreover have "get_beatmap_by_md5 bs md5 = Some (br_meta y)" using y True by (simp add: get_beatmap_by_md5_def)
    ultimately show ?thesis unfolding saved using y k by simp
  next
    case False
    have "bm_map_md5 (br_meta z) = md5" if "find (\<lambda>r. bm_map_md5 (br_meta r) = md5) bs = Some z" for z
      using that by (auto simp: find_Some_iff)
    then show ?thesis
      using False unfolding saved by (cases "find (\<lambda>r. bm_map_md5 (br_meta r) = md5) bs")
        (auto simp: get_beatmap_by_md5_def)
  qed
next
  case False
  then have "find (\<lambda>r. bm_map_md5 (br_meta r) = bm_map_md5 m) bs = None" by (auto simp: find_None_iff)
  then show ?thesis using False
    by (auto simp: get_beatmap_by_md5_def save_beatmap_def find_snoc split: option.splits)
qed

subsection \<open>Parsing what the client shows\<close>

lemma rfind_char_append:
  "rfind_char c (xs @ ys) =
     (case rfind_char c ys of Some i \<Rightarrow> Some (length xs + i) | None \<Rightarrow> rfind_char c xs)"
  by (induction xs) (auto split: option.splits)

lemma rfind_char_absent: "c \<notin> set xs \<Longrightarrow> rfind_char c xs = None"
  by (induction xs) auto

lemma find_str_skip:
  "p \<noteq> [] \<Longrightarrow> hd p \<noteq> x \<Longrightarrow> find_str p (x # xs) = map_option Suc (find_str p xs)"
  by (cases p) auto

definition trimmed :: "rstr \<Rightarrow> bool" where
  "trimmed s \<longleftrightarrow> s \<noteq> [] \<and> \<not> is_whitespace (hd s) \<and> \<not> is_whitespace (last s)"

lemma dropWhile_hd: "s \<noteq> [] \<Longrightarrow> \<not> P (hd s) \<Longrightarrow> dropWhile P s = s"
  by (cases s) simp_all

lemma trim_trimmed: "trimmed s \<Longrightarrow> trim s = s"
  by (simp add: trimmed_def trim_def trim_start_def dropWhile_hd hd_rev)

lemma space_is_white: "is_whitespace 32"
  by code_simp

lemma trim_space_after: "trimmed s \<Longrightarrow> trim (s @ [32]) = s"
  by (simp add: trimmed_def trim_def trim_start_def dropWhile_hd hd_rev space_is_white)

lemma split_version_found:
  assumes "trimmed front" and "trimmed version" and "91 \<notin> set version" and "93 \<notin> set version"
  shows "split_version (front @ [32] @ 91 # version @ [93]) = (version, front)"
proof -
  let ?s = "front @ [32] @ 91 # version @ [93]"
  have "rfind_char 91 ?s = Some (Suc (length front))" "rfind_char 93 ?s = Some (Suc (Suc (length front)) + length version)"
    using assms(3) by (simp_all add: rfind_char_append rfind_char_absent)
  moreover have "take (Suc (length front)) ?s = front @ [32]"
    "take (length version) (drop (Suc (Suc (length front))) ?s) = version"
    by simp_all
  ultimately show ?thesis
    unfolding split_version_def using trim_trimmed[OF assms(2)] trim_space_after[OF assms(1)] by simp
qed

lemma drop_creator_found:
  assumes "trimmed front" and "40 \<notin> set creator" and "41 \<notin> set creator"
  shows "drop_creator (front @ [32] @ 40 # creator @ [41]) = front"
proof -
  let ?s = "front @ [32] @ 40 # creator @ [41]"
  have "rfind_char 40 ?s = Some (Suc (length front))" "rfind_char 41 ?s = Some (Suc (Suc (length front)) + length creator)"
    using assms(2) by (simp_all add: rfind_char_append rfind_char_absent)
  moreover have "take (Suc (length front)) ?s = front @ [32]" by simp
  ultimately show ?thesis
    unfolding drop_creator_def using trim_space_after[OF assms(1)] by simp
qed

lemma find_dash: "45 \<notin> set artist \<Longrightarrow> find_str [32, 45, 32] (artist @ [32, 45, 32] @ title) = Some (length artist)"
proof (induction artist)
  case (Cons x xs)
  have "\<not> starts_with ((x # xs) @ [32, 45, 32] @ title) [32, 45, 32]"
    using Cons.prems by (cases xs) auto
  then show ?case using Cons by simp
qed simp

lemma dash_lit: "lit '' - '' = [32, 45, 32]"
  by code_simp

lemma parse_shown_name:
  assumes "trimmed artist" and "trimmed title" and "trimmed version"
    and "45 \<notin> set artist" and "40 \<notin> set creator" and "41 \<notin> set creator"
    and "91 \<notin> set version" and "93 \<notin> set version"
  shows "parse_osu_filename (artist @ lit '' - '' @ title @ lit '' ('' @ creator @ lit '') ['' @ version @ lit '']'')
    = (artist, title, version)"
proof -
  let ?song = "artist @ [32, 45, 32] @ title"
  let ?front = "?song @ [32] @ 40 # creator @ [41]"
  have lits: "lit '' ('' = [32, 40]" "lit '') ['' = [41, 32, 91]" "lit '']'' = [93]"
    by code_simp+
  have song: "trimmed ?song" using assms(1,2) by (simp add: trimmed_def)
  have "\<not> is_whitespace 41" by code_simp
  then have front: "trimmed ?front" using assms(1) by (simp add: trimmed_def)
  have "parse_osu_filename (?front @ [32] @ 91 # version @ [93]) = (artist, title, version)"
    unfolding parse_osu_filename_def dash_lit
    using split_version_found[OF front assms(3,7,8)] drop_creator_found[OF song assms(5,6)]
      find_dash[OF assms(4), of title] trim_trimmed[OF assms(1)] trim_trimmed[OF assms(2)]
    by (simp del: find_str.simps)
  then show ?thesis by (simp add: lits dash_lit)
qed

end
