(* ===== verification/Account_Properties.thy ===== *)
theory Account_Properties
  imports Accounts Beatmaps_Db
begin

text \<open>
  The properties of registration, rankings, revoked sessions and beatmap names, each with an
  instance at concrete data.
\<close>

subsection \<open>Example data\<close>

definition open_config :: login_config where
  "open_config = \<lparr>lc_block_vpn = False, lc_anti_multiaccount = False, lc_max_accounts_per_hwid = 1,
     lc_auto_register = True, lc_default_country = 0, lc_welcome_message = []\<rparr>"

text \<open>A hash that keeps the password behind a mark.\<close>

definition marked_accounts :: accounts where
  "marked_accounts = \<lparr>ac_find_user = (\<lambda>_. None), ac_create_user = (\<lambda>_ _ _ _. None),
     ac_check_multiaccount = (\<lambda>_ _ _. None), ac_verify_password = (\<lambda>p h. h = 36 # p), ac_md5_hex = id,
     ac_hash_password = (\<lambda>p. Some (36 # p)), ac_fingerprint = (\<lambda>_. id), ac_badge_tags = (\<lambda>_. None)\<rparr>"

definition asks_for :: "string \<Rightarrow> login_request" where
  "asks_for name = \<lparr>lq_username = lit name, lq_password_md5 = lit ''pw'', lq_osu_version = [],
     lq_utc_offset = 24, lq_hardware = \<lparr>hw_adapters_hash = [], hw_uninstall_id = [], hw_disk_signature = []\<rparr>\<rparr>"

lemma asked_names:
  "clean_username (lit ''Eve'') = lit ''Eve''" "clean_username (lit ''[X] Eve'') = lit ''Eve''"
  "\<not> nocase (lit ''[X] Eve'') (lit ''Eve'')"
  by code_simp+

lemma empty_finds [simp]: "get_user_by_username empty_users_db name = None"
  by (simp add: get_user_by_username_def empty_users_db_def)

lemma empty_bound: "ud_next_user empty_users_db < 2 ^ 31"
  by (simp add: empty_users_db_def)

lemma first_allowed:
  "\<exists>u. authenticate open_config (db_accounts 0 empty_users_db marked_accounts) ip (asks_for name) = Allow u"
  using create_user_eq[OF empty_users_ok empty_bound]
  by (simp add: authenticate_def register_user_def too_many_accounts_def open_config_def
      marked_accounts_def) (simp add: empty_users_db_def)

subsection \<open>Registration\<close>

text \<open>Registration keeps the table of accounts consistent: names are unique up to the case of
  ASCII letters, ids are unique and below the next one, every user has at most one row of
  statistics per mode, and every row of statistics has its user. It fails exactly when the name is
  taken, and then changes nothing; otherwise the new user has a row for each of the four modes.\<close>

theorem registration_keeps_accounts_consistent:
  assumes "users_ok db" and "ud_next_user db < 2 ^ 31"
  shows "let (res, db') = create_user now name h e c db
    in users_ok db'
       \<and> (res = None \<longleftrightarrow> (\<exists>r \<in> set (ud_users db). nocase (ur_username r) name))
       \<and> (res = None \<longrightarrow> db' = db)
       \<and> (\<forall>u. res = Some u \<longrightarrow> (\<forall>m \<in> {0, 1, 2, 3}. has_stats db' (us_id u) m))"
  using create_user_eq[OF assms] added_user_ok[OF assms] assms(1)
  by (auto simp: added_user_def Let_def has_stats_def)

theorem registration_keeps_accounts_consistent_witness:
  "users_ok (snd (create_user 0 (lit ''Eve'') [] [] 0 empty_users_db))"
  using registration_keeps_accounts_consistent[OF empty_users_ok empty_bound, of 0 "lit ''Eve''" "[]" "[]" 0]
  by (simp add: split_def Let_def)

text \<open>C37: Register, then log in: when a login with an unknown name without a tag is let in (the account
  is made and the hardware recorded), the same credentials are let in again at any later time, as the
  same user and also when every computer may have one account only, whatever logins happen in between,
  of this user or of others, with the accounts these make. Only others who log in from the same
  hardware (an equal network adapter or disk) could use up its accounts. This needs of the hash
  function only that it accepts what it hashed.\<close>

theorem registered_can_log_in:
  assumes "users_ok db" and "ud_next_user db + int (length logins) < 2 ^ 31"
    and "login_db now cfg ac ip rq db = (Allow u, db')"
    and "get_user_by_username db (clean_username (lq_username rq)) = None"
    and "nocase (lq_username rq) (clean_username (lq_username rq))"
    and "\<forall>p h. ac_hash_password ac p = Some h \<longrightarrow> ac_verify_password ac p h"
    and "\<forall>(_, _, rq') \<in> set logins.
        nocase (clean_username (lq_username rq')) (clean_username (lq_username rq))
        \<or> (hw_adapters_hash (lq_hardware rq') \<noteq> hw_adapters_hash (lq_hardware rq) \<or> hw_adapters_hash (lq_hardware rq') = [])
          \<and> (hw_disk_signature (lq_hardware rq') \<noteq> hw_disk_signature (lq_hardware rq) \<or> hw_disk_signature (lq_hardware rq') = [])"
  shows "fst (login_db later cfg ac ip rq
      (fold (\<lambda>(t, ip', rq') d. snd (login_db t cfg ac ip' rq' d)) logins db')) = Allow u"
  unfolding run_logins_def[symmetric]
  by (rule register_then_login[OF assms(1-6)]) (use assms(7) in \<open>auto simp: shares_hardware_def\<close>)

text \<open>One account per computer: Eve registers and logs in twice more, once after Bob registered
  from elsewhere.\<close>

definition strict_config :: login_config where
  "strict_config = open_config\<lparr>lc_anti_multiaccount := True\<rparr>"

definition from_disk :: "string \<Rightarrow> string \<Rightarrow> login_request" where
  "from_disk name disk = (asks_for name)\<lparr>lq_hardware :=
     \<lparr>hw_adapters_hash = [], hw_uninstall_id = [], hw_disk_signature = lit disk\<rparr>\<rparr>"

theorem registered_can_log_in_witness:
  "\<exists>u db'. login_db 0 strict_config marked_accounts (IPv6 (2 ^ 125)) (from_disk ''Eve'' ''d1'') empty_users_db = (Allow u, db')
    \<and> fst (login_db 9 strict_config marked_accounts (IPv6 (2 ^ 125)) (from_disk ''Eve'' ''d1'')
         (fold (\<lambda>(t, ip', rq') d. snd (login_db t strict_config marked_accounts ip' rq' d))
            [(1, IPv6 (2 ^ 125), from_disk ''Eve'' ''d1''), (2, IPv6 (2 ^ 125 + 1), from_disk ''Bob'' ''d2'')] db')) = Allow u"
proof -
  have "\<not> check_multiaccount empty_users_db None hw 1" for hw
    by (simp add: check_multiaccount_def empty_users_db_def)
  then have "fst (login_db 0 strict_config marked_accounts (IPv6 (2 ^ 125)) (from_disk ''Eve'' ''d1'') empty_users_db)
      \<noteq> Deny reply" for reply
    using create_user_eq[OF empty_users_ok empty_bound]
    by (simp add: login_db_decision authenticate_def register_user_def too_many_accounts_def strict_config_def
        open_config_def marked_accounts_def from_disk_def asks_for_def) (simp add: empty_users_db_def)
  then obtain u db' where first: "login_db 0 strict_config marked_accounts (IPv6 (2 ^ 125)) (from_disk ''Eve'' ''d1'')
      empty_users_db = (Allow u, db')"
    by (metis decision.exhaust prod.exhaust fst_conv)
  let ?rq = "from_disk ''Eve'' ''d1''"
  let ?logins = "[(1, IPv6 (2 ^ 125), ?rq), (2, IPv6 (2 ^ 125 + 1), from_disk ''Bob'' ''d2'')]"
  have name: "clean_username (lq_username ?rq) = lq_username ?rq"
    by (simp add: from_disk_def asks_for_def asked_names)
  have "lit ''d1'' \<noteq> lit ''d2''" by code_simp
  then have between: "\<forall>(_, _, rq') \<in> set ?logins.
      nocase (clean_username (lq_username rq')) (clean_username (lq_username ?rq))
      \<or> (hw_adapters_hash (lq_hardware rq') \<noteq> hw_adapters_hash (lq_hardware ?rq) \<or> hw_adapters_hash (lq_hardware rq') = [])
        \<and> (hw_disk_signature (lq_hardware rq') \<noteq> hw_disk_signature (lq_hardware ?rq) \<or> hw_disk_signature (lq_hardware rq') = [])"
    by (simp add: from_disk_def eq_ignore_ascii_case_def)
  have "ud_next_user empty_users_db + int (length ?logins) < 2 ^ 31" by (simp add: empty_users_db_def)
  moreover have "nocase (lq_username ?rq) (clean_username (lq_username ?rq))"
    unfolding name by (simp add: eq_ignore_ascii_case_def)
  moreover have "\<forall>p h. ac_hash_password marked_accounts p = Some h \<longrightarrow> ac_verify_password marked_accounts p h"
    by (simp add: marked_accounts_def)
  ultimately show ?thesis
    using registered_can_log_in[OF empty_users_ok _ first empty_finds _ _ between] first by blast
qed

text \<open>A new account whose name carries a tag is locked out: its first login is allowed and
  stores the name with the tag, but every login looks for the name without it, so all later logins
  are denied.\<close>

theorem tagged_account_locked_out:
  assumes "users_ok db" and "ud_next_user db < 2 ^ 31"
    and "login_db now cfg ac ip rq db = (Allow u, db')"
    and "get_user_by_username db (clean_username (lq_username rq)) = None"
    and "\<not> nocase (lq_username rq) (clean_username (lq_username rq))"
  shows "\<exists>reply. fst (login_db later cfg ac ip rq db') = Deny reply"
  using assms by (rule tagged_name_locked_out)

theorem tagged_account_locked_out_witness:
  "\<exists>u db' reply. login_db 0 open_config marked_accounts (IPv6 1) (asks_for ''[X] Eve'') empty_users_db = (Allow u, db')
    \<and> fst (login_db 9 open_config marked_accounts (IPv6 1) (asks_for ''[X] Eve'') db') = Deny reply"
proof -
  obtain u db' where u: "login_db 0 open_config marked_accounts (IPv6 1) (asks_for ''[X] Eve'') empty_users_db
      = (Allow u, db')"
    using first_allowed login_db_decision by (metis prod.exhaust fst_conv)
  from tagged_account_locked_out[OF empty_users_ok empty_bound u, of 9] show ?thesis
    using u by (simp add: asks_for_def asked_names)
qed

subsection \<open>Ranks\<close>

definition two_players :: users_db where
  "two_players = empty_users_db\<lparr>ud_stats := [(fresh_stats 1 0)\<lparr>st_pp := 50\<rparr>, (fresh_stats 2 0)\<lparr>st_pp := 80\<rparr>]\<rparr>"

lemma two_players_stats:
  "find (is_stats 1 0) (ud_stats two_players) = Some ((fresh_stats 1 0)\<lparr>st_pp := 50\<rparr>)"
  "find (is_stats 2 0) (ud_stats two_players) = Some ((fresh_stats 2 0)\<lparr>st_pp := 80\<rparr>)"
  by (simp_all add: two_players_def is_stats_def fresh_stats_def)

text \<open>Ranks order the players: of two players with statistics in a mode, one has the smaller
  rank exactly when he has more performance points, or as many and the higher ranked score; and
  nobody's rank is below 1.\<close>

theorem ranks_order_players:
  assumes "find (is_stats a mode) (ud_stats db) = Some sa"
    and "find (is_stats b mode) (ud_stats db) = Some sb"
    and "length (ud_stats db) < 2 ^ 31 - 1"
  shows "(sint (get_user_rank db a mode) < sint (get_user_rank db b mode) \<longleftrightarrow>
            st_pp sb < st_pp sa \<or> st_pp sa = st_pp sb \<and> st_ranked_score sb < st_ranked_score sa)
    \<and> 1 \<le> sint (get_user_rank db a mode)"
  using rank_order[OF assms] user_rank_eq[OF assms(1,3)] by (simp add: better_than_def)

theorem ranks_order_players_witness:
  "sint (get_user_rank two_players 2 0) < sint (get_user_rank two_players 1 0)"
  using ranks_order_players[OF two_players_stats(2,1)] by (simp add: two_players_def)

subsection \<open>Beatmap names\<close>

text \<open>The name a client sends for a beatmap is taken apart as the game puts it together:
  artist, title and difficulty come back from \<open>Artist - Title (Creator) [Difficulty]\<close>, when none
  begins or ends with a space, the artist has no hyphen, the creator no parenthesis and the
  difficulty no bracket.\<close>

theorem beatmap_name_roundtrip:
  assumes "trimmed artist" and "trimmed title" and "trimmed version"
    and "45 \<notin> set artist" and "40 \<notin> set creator" and "41 \<notin> set creator"
    and "91 \<notin> set version" and "93 \<notin> set version"
  shows "parse_osu_filename (artist @ lit '' - '' @ title @ lit '' ('' @ creator @ lit '') ['' @ version @ lit '']'')
    = (artist, title, version)"
  using assms by (rule parse_shown_name)

theorem beatmap_name_roundtrip_witness:
  "parse_osu_filename (lit ''nekodex'' @ lit '' - '' @ lit ''new beginnings (long) [cut]'' @ lit '' ('' @ lit ''pishifat''
     @ lit '') ['' @ lit ''tutorial'' @ lit '']'')
   = (lit ''nekodex'', lit ''new beginnings (long) [cut]'', lit ''tutorial'')"
proof -
  have "trimmed (lit ''nekodex'')" "trimmed (lit ''new beginnings (long) [cut]'')" "trimmed (lit ''tutorial'')"
    "45 \<notin> set (lit ''nekodex'')" "40 \<notin> set (lit ''pishifat'')" "41 \<notin> set (lit ''pishifat'')"
    "91 \<notin> set (lit ''tutorial'')" "93 \<notin> set (lit ''tutorial'')"
    by code_simp+
  then show ?thesis by (rule beatmap_name_roundtrip)
qed

end
