(* ===== verification/Score_Calc.thy ===== *)
theory Score_Calc
  imports Float_Ops Rust_Strings
begin

unbundle bit_operations_syntax

text \<open>
  \<^verbatim>\<open>src/utils/score_calc.rs\<close>: accuracy, grade and performance points of a score, and the
  weighted totals of a profile.  Hit counts are \<^verbatim>\<open>i32\<close>, whose arithmetic wraps as in a
  release build.  Rust leaves the precision of \<^verbatim>\<open>powf\<close> and \<^verbatim>\<open>powi\<close> open, so both are
  parameters; every other operation is the IEEE one.
\<close>

record float_fns =
  fn_powf :: "fp \<Rightarrow> fp \<Rightarrow> fp"
  fn_powi :: "fp \<Rightarrow> i32 \<Rightarrow> fp"

definition f64_of :: "i32 \<Rightarrow> fp" where
  "f64_of k = fp_of_int f64 (sint k)"

definition f32_of :: "i32 \<Rightarrow> fp" where
  "f32_of k = fp_of_int f32 (sint k)"

subsection \<open>Accuracy and grade\<close>

text \<open>\<^verbatim>\<open>((points / most) * 100.0) as f32\<close>\<close>

definition percentage :: "i32 \<Rightarrow> i32 \<Rightarrow> fp" where
  "percentage points most =
     fp_cast f32 (fp_mul f64 (fp_div f64 (f64_of points) (f64_of most)) (lit64 100))"

definition calculate_accuracy :: "u8 \<Rightarrow> i32 \<Rightarrow> i32 \<Rightarrow> i32 \<Rightarrow> i32 \<Rightarrow> i32 \<Rightarrow> i32 \<Rightarrow> fp" where
  "calculate_accuracy mode c300 c100 c50 c_geki c_katu miss =
     (if mode = 0 then
        let total_hits = c300 + c100 + c50 + miss
        in if total_hits = 0 then Zero False
           else percentage (c300 * 300 + c100 * 100 + c50 * 50) (total_hits * 300)
      else if mode = 1 then
        let total_hits = c300 + c100 + miss
        in if total_hits = 0 then Zero False
           else percentage (c300 * 2 + c100) (total_hits * 2)
      else if mode = 2 then
        let total_fruits = c300 + c100 + c50 + miss + c_katu
        in if total_fruits = 0 then Zero False
           else percentage (c300 + c100 + c50) total_fruits
      else if mode = 3 then
        let total_hits = c300 + c100 + c50 + c_geki + c_katu + miss
        in if total_hits = 0 then Zero False
           else percentage (c_geki * 305 + c300 * 300 + c_katu * 200 + c100 * 100 + c50 * 50)
                  (total_hits * 305)
      else Zero False)"

definition calculate_grade :: "u8 \<Rightarrow> i32 \<Rightarrow> i32 \<Rightarrow> i32 \<Rightarrow> i32 \<Rightarrow> u32 \<Rightarrow> rstr" where
  "calculate_grade mode c300 c100 c50 miss mods =
     (let has_hd_fl = mods AND push_bit 3 1 \<noteq> 0 \<or> mods AND push_bit 10 1 \<noteq> 0;
          total = c300 + c100 + c50 + miss
      in if total = 0 then lit ''D''
         else if mode = 0 then
           let p300 = fp_div f32 (f32_of c300) (f32_of total);
               p50 = fp_div f32 (f32_of c50) (f32_of total);
               above = (\<lambda>r. fp_less (lit32 r) p300)
           in if fp_eq p300 (lit32 1) then (if has_hd_fl then lit ''SSH'' else lit ''SS'')
              else if above (90 / 100) \<and> fp_le p50 (lit32 (1 / 100)) \<and> miss = 0
              then (if has_hd_fl then lit ''SH'' else lit ''S'')
              else if above (80 / 100) \<and> miss = 0 \<or> above (90 / 100) then lit ''A''
              else if above (70 / 100) \<and> miss = 0 \<or> above (80 / 100) then lit ''B''
              else if above (60 / 100) then lit ''C''
              else lit ''D''
         else
           let acc = calculate_accuracy mode c300 c100 c50 0 0 miss;
               reaches = (\<lambda>r. fp_le (lit32 r) acc)
           in if reaches 100 then (if has_hd_fl then lit ''SSH'' else lit ''SS'')
              else if reaches 95 then (if has_hd_fl then lit ''SH'' else lit ''S'')
              else if reaches 90 then lit ''A''
              else if reaches 80 then lit ''B''
              else if reaches 70 then lit ''C''
              else lit ''D'')"

subsection \<open>Performance points\<close>

definition total_hits_of :: "u8 \<Rightarrow> i32 \<Rightarrow> i32 \<Rightarrow> i32 \<Rightarrow> i32 \<Rightarrow> i32 \<Rightarrow> i32 \<Rightarrow> i32" where
  "total_hits_of mode c300 c100 c50 c_geki c_katu c_miss =
     (if mode = 1 then c300 + c100 + c_miss
      else if mode = 2 then c300 + c100 + c50 + c_miss + c_katu
      else if mode = 3 then c300 + c100 + c50 + c_geki + c_katu + c_miss
      else c300 + c100 + c50 + c_miss)"

definition star_rating :: "i32 \<Rightarrow> fp option \<Rightarrow> fp" where
  "star_rating total_hits map_stars =
     (let base = fp_max (f64_of total_hits) (lit64 30);
          root = fp_sqrt f64 (fp_div f64 base (lit64 100));
          estimated = fp_clamp (lit64 1) (lit64 (95 / 10))
            (fp_add f64 (fp_mul f64 root (lit64 (16 / 10))) (lit64 (12 / 10)))
      in case map_stars of
           Some s \<Rightarrow> if fp_less (Zero False) s then s else estimated
         | None \<Rightarrow> estimated)"

text \<open>\<^verbatim>\<open>((x - low).max(0.0) / span).powf(e)\<close>\<close>

definition above_floor :: "float_fns \<Rightarrow> rat \<Rightarrow> rat \<Rightarrow> rat \<Rightarrow> fp \<Rightarrow> fp" where
  "above_floor fns low width e x =
     fn_powf fns (fp_div f64 (fp_max (fp_sub f64 x (lit64 low)) (Zero False)) (lit64 width)) (lit64 e)"

definition scaled_rating :: "float_fns \<Rightarrow> fp \<Rightarrow> rat \<Rightarrow> rat \<Rightarrow> rat \<Rightarrow> fp" where
  "scaled_rating fns sr d e factor =
     fp_mul f64 (fn_powf fns (fp_div f64 sr (lit64 d)) (lit64 e)) (lit64 factor)"

definition mode_pp ::
  "float_fns \<Rightarrow> u8 \<Rightarrow> fp \<Rightarrow> fp \<Rightarrow> fp \<Rightarrow> i32 \<Rightarrow> i32 \<Rightarrow> i64 \<Rightarrow> fp" where
  "mode_pp fns mode sr combo_ratio acc c_miss total_hits score =
     (let m = fp_mul f64
      in if mode = 0 then
           let base_pp = scaled_rating fns sr (22 / 10) (32 / 10) 16;
               combo_factor = fn_powf fns combo_ratio (lit64 (85 / 100));
               acc_factor = above_floor fns 60 40 (25 / 10) acc;
               missed = fp_sub f64 (lit64 1) (m (fp_div f64 (f64_of c_miss) (f64_of total_hits)) (lit64 4));
               miss_penalty = m (fn_powi fns (lit64 (97 / 100)) c_miss) (fp_max missed (Zero False))
           in m (m (m base_pp combo_factor) acc_factor) miss_penalty
         else if mode = 1 then
           let base_pp = scaled_rating fns sr (21 / 10) (31 / 10) 15;
               combo_factor = fn_powf fns combo_ratio (lit64 (9 / 10));
               acc_factor = above_floor fns 70 30 (28 / 10) acc;
               miss_penalty = fn_powi fns (lit64 (96 / 100)) c_miss
           in m (m (m base_pp combo_factor) acc_factor) miss_penalty
         else if mode = 2 then
           let base_pp = scaled_rating fns sr 2 3 15;
               combo_factor = fn_powf fns combo_ratio (lit64 (8 / 10));
               acc_factor = fn_powf fns (fp_div f64 acc (lit64 100)) (lit64 4);
               miss_penalty = fn_powi fns (lit64 (95 / 100)) c_miss
           in m (m (m base_pp combo_factor) acc_factor) miss_penalty
         else if mode = 3 then
           let score_ratio = fp_clamp (Zero False) (lit64 1)
                 (fp_div f64 (fp_of_int f64 (sint score)) (lit64 1000000));
               over_half = fp_div f64 (fp_sub f64 score_ratio (lit64 (5 / 10))) (lit64 (5 / 10));
               score_factor =
                 (if fp_less (lit64 (9 / 10)) score_ratio then over_half
                  else if fp_less (lit64 (8 / 10)) score_ratio then fn_powi fns over_half 2
                  else fn_powi fns score_ratio 4);
               base_pp = scaled_rating fns sr 2 (32 / 10) 14;
               acc_factor = above_floor fns 70 30 (22 / 10) acc
           in m (m base_pp score_factor) acc_factor
         else Zero False)"

definition has_mod :: "u32 \<Rightarrow> nat \<Rightarrow> bool" where
  "has_mod mods n \<longleftrightarrow> mods AND push_bit n 1 \<noteq> 0"

text \<open>The multipliers in the order the code applies them.\<close>

definition mod_multiplier :: "u32 \<Rightarrow> i32 \<Rightarrow> fp" where
  "mod_multiplier mods c_miss =
     foldl (\<lambda>mod_mult (on, r). if on then fp_mul f64 mod_mult (lit64 r) else mod_mult) (lit64 1)
       [(has_mod mods 3, 106 / 100), (has_mod mods 4, 110 / 100),
        (has_mod mods 6 \<or> has_mod mods 9, 128 / 100), (has_mod mods 10, 120 / 100),
        (has_mod mods 1, 50 / 100), (has_mod mods 8, 65 / 100), (has_mod mods 12, 95 / 100),
        (has_mod mods 7, 65 / 100), (has_mod mods 0 \<and> positive c_miss, 90 / 100)]"

definition calculate_score_pp ::
  "float_fns \<Rightarrow> u8 \<Rightarrow> u32 \<Rightarrow> i32 \<Rightarrow> i32 \<Rightarrow> i32 \<Rightarrow> i32 \<Rightarrow> i32 \<Rightarrow> i32 \<Rightarrow> i32 \<Rightarrow> i64
     \<Rightarrow> fp option \<Rightarrow> i32 option \<Rightarrow> fp" where
  "calculate_score_pp fns mode mods max_combo c300 c100 c50 c_geki c_katu c_miss score
     map_stars map_max_combo =
     (let total_hits = total_hits_of mode c300 c100 c50 c_geki c_katu c_miss
      in if sint total_hits \<le> 0 then Zero False
         else
           let acc = calculate_accuracy mode c300 c100 c50 c_geki c_katu c_miss;
               full_combo = (case map_max_combo of Some c \<Rightarrow> c | None \<Rightarrow> 0);
               expected_combo =
                 (if positive full_combo then full_combo
                  else if sint total_hits < 1 then 1 else total_hits);
               combo_ratio = fp_clamp (Zero False) (lit64 1)
                 (fp_div f64 (f64_of max_combo) (f64_of expected_combo));
               sr = star_rating total_hits map_stars;
               pp = fp_mul f64 (mode_pp fns mode sr combo_ratio acc c_miss total_hits score)
                      (mod_multiplier mods c_miss)
           in if pp = NaN \<or> fp_less pp (Zero False) then Zero False else pp)"

subsection \<open>Profile totals\<close>

definition weighted_pp_step :: "fp \<times> fp \<Rightarrow> fp \<Rightarrow> fp \<times> fp" where
  "weighted_pp_step = (\<lambda>(total_pp, weight) pp.
     (fp_add f64 total_pp (fp_mul f64 pp weight), fp_mul f64 weight (lit64 (95 / 100))))"

definition calculate_weighted_pp :: "float_fns \<Rightarrow> fp list \<Rightarrow> fp" where
  "calculate_weighted_pp fns sorted_desc_pps =
     (let total_pp = fst (foldl weighted_pp_step (Zero False, lit64 1) sorted_desc_pps);
          n = (of_nat (length sorted_desc_pps) :: i32);
          bonus = fp_mul f64 (lit64 (4166667 / 10000))
            (fp_sub f64 (lit64 1) (fn_powi fns (lit64 (9994 / 10000)) n))
      in fp_add f64 total_pp bonus)"

definition weighted_accuracy_step :: "fp \<times> fp \<times> fp \<Rightarrow> fp \<Rightarrow> fp \<times> fp \<times> fp" where
  "weighted_accuracy_step = (\<lambda>(weighted_acc_sum, weight_sum, weight) acc.
     (fp_add f64 weighted_acc_sum (fp_mul f64 acc weight), fp_add f64 weight_sum weight,
      fp_mul f64 weight (lit64 (95 / 100))))"

definition calculate_weighted_accuracy :: "fp list \<Rightarrow> fp" where
  "calculate_weighted_accuracy accs_by_best_pp =
     (if accs_by_best_pp = [] then Zero False
      else
        let (weighted_acc_sum, weight_sum, weight) =
          foldl weighted_accuracy_step (Zero False, Zero False, lit64 1) accs_by_best_pp
        in if fp_le weight_sum (Zero False) then Zero False
           else fp_clamp (Zero False) (lit64 100) (fp_div f64 weighted_acc_sum weight_sum))"

subsection \<open>Accuracy is a percentage\<close>

text \<open>Hit counts of a play: none negative, and so few that the sums of points do not wrap.\<close>

definition real_counts :: "i32 list \<Rightarrow> bool" where
  "real_counts cs \<longleftrightarrow> (\<forall>c \<in> set cs. 0 \<le> sint c) \<and> (\<Sum>c\<leftarrow>cs. sint c) * 305 < 2 ^ 31"

lemma sint_add_i32:
  "0 \<le> sint (a :: i32) \<Longrightarrow> 0 \<le> sint b \<Longrightarrow> sint a + sint b < 2 ^ 31 \<Longrightarrow> sint (a + b) = sint a + sint b"
  by (simp add: sint_word_add signed_take_bit_int_eq_self)

lemma sint_mult_i32:
  "0 \<le> sint (a :: i32) \<Longrightarrow> 0 \<le> sint b \<Longrightarrow> sint a * sint b < 2 ^ 31 \<Longrightarrow> sint (a * b) = sint a * sint b"
  by (simp add: sint_word_mult signed_take_bit_int_eq_self order.trans[of "- 2147483648" 0])

lemma f64_of_exact: "0 < sint k \<Longrightarrow> f64_of k = Fin (of_int (sint k))"
proof -
  assume k: "0 < sint k"
  have lt: "sint k < 2 ^ 31" using sint_lt[of k] by simp
  have "(of_int (sint k) :: rat) < of_int (2 ^ 31)" using lt by (simp only: of_int_less_iff)
  also have "(of_int (2 ^ 31) :: rat) \<le> max_finite f64" by code_simp
  finally show ?thesis
    unfolding f64_of_def fp_of_int_def using k lt by (intro fp_round_int) (auto simp: f64_def)
qed

lemma f64_of_0: "sint k = 0 \<Longrightarrow> f64_of k = Zero False"
  by (simp add: f64_of_def fp_of_int_def fp_round_def)

lemma percentage_between:
  assumes "0 \<le> sint points" and "sint points \<le> sint most" and "0 < sint most"
  shows "between0 100 (percentage points most)"
proof -
  let ?r = "of_int (sint points) / of_int (sint most) :: rat"
  have prec: "1 \<le> prec f64" "1 \<le> prec f32" by (simp_all add: f64_def f32_def)
  have one: "fp_round f64 1 = Fin 1" and hundred: "fp_round f64 100 = Fin 100" "fp_round f32 100 = Fin 100"
    by code_simp+
  have q: "between0 1 (fp_div f64 (f64_of points) (f64_of most))"
  proof (cases "sint points = 0")
    case True
    have "\<not> (of_int (sint most) :: rat) < 0" using assms(3) by (simp only: of_int_less_0_iff)
    then show ?thesis using True assms(3) by (simp add: f64_of_0 f64_of_exact between0_def fp_neg_sign_def)
  next
    case False
    then have "fp_div f64 (f64_of points) (f64_of most) = fp_round f64 ?r"
      using assms by (simp add: f64_of_exact)
    moreover have "(0 :: rat) \<le> of_int (sint points)" "(of_int (sint points) :: rat) \<le> of_int (sint most)"
      "(0 :: rat) < of_int (sint most)"
      using assms by (simp_all only: of_int_0_le_iff of_int_le_iff of_int_0_less_iff)
    then have "0 \<le> ?r" "?r \<le> 1" by (simp_all only: divide_nonneg_pos divide_le_eq_1_pos)
    ultimately show ?thesis using fp_round_between[OF _ _ one prec(1)] by simp
  qed
  have m: "between0 100 (fp_mul f64 (fp_div f64 (f64_of points) (f64_of most)) (lit64 100))"
  proof (cases rule: between0_Fin[OF q])
    case 1
    then show ?thesis by (simp add: lit64_def hundred between0_def fp_neg_sign_def)
  next
    case (2 v)
    then show ?thesis
      using fp_round_between[OF _ _ hundred(1) prec(1), of "v * 100"] by (simp add: lit64_def hundred)
  qed
  show ?thesis
    unfolding percentage_def
  proof (cases rule: between0_Fin[OF m])
    case 1
    then show "between0 100 (fp_cast f32 (fp_mul f64 (fp_div f64 (f64_of points) (f64_of most)) (lit64 100)))"
      by (simp add: fp_cast_def between0_def)
  next
    case (2 v)
    then show "between0 100 (fp_cast f32 (fp_mul f64 (fp_div f64 (f64_of points) (f64_of most)) (lit64 100)))"
      using fp_round_between[OF _ _ hundred(2) prec(2), of v] by (simp add: fp_cast_def)
  qed
qed

lemma accuracy_between:
  assumes "real_counts [c300, c100, c50, c_geki, c_katu, miss]"
  shows "between0 100 (calculate_accuracy mode c300 c100 c50 c_geki c_katu miss)"
proof -
  have pos: "0 \<le> sint c300" "0 \<le> sint c100" "0 \<le> sint c50" "0 \<le> sint c_geki" "0 \<le> sint c_katu" "0 \<le> sint miss"
    and sum: "(sint c300 + sint c100 + sint c50 + sint c_geki + sint c_katu + sint miss) * 305 < 2 ^ 31"
    using assms by (simp_all add: real_counts_def algebra_simps)
  note ops = sint_add_i32 sint_mult_i32
  have zero: "w = 0 \<longleftrightarrow> sint w = 0" for w :: i32 by (metis sint_0 signed_word_eqI)
  have std: "sint (c300 + c100 + c50 + miss) = sint c300 + sint c100 + sint c50 + sint miss"
    "sint (c300 * 300 + c100 * 100 + c50 * 50) = sint c300 * 300 + sint c100 * 100 + sint c50 * 50"
    "sint ((c300 + c100 + c50 + miss) * 300) = (sint c300 + sint c100 + sint c50 + sint miss) * 300"
    using pos sum by (simp_all add: ops)
  have taiko: "sint (c300 + c100 + miss) = sint c300 + sint c100 + sint miss"
    "sint (c300 * 2 + c100) = sint c300 * 2 + sint c100"
    "sint ((c300 + c100 + miss) * 2) = (sint c300 + sint c100 + sint miss) * 2"
    using pos sum by (simp_all add: ops)
  have fruits: "sint (c300 + c100 + c50 + miss + c_katu)
      = sint c300 + sint c100 + sint c50 + sint miss + sint c_katu"
    "sint (c300 + c100 + c50) = sint c300 + sint c100 + sint c50"
    using pos sum by (simp_all add: ops)
  have mania: "sint (c300 + c100 + c50 + c_geki + c_katu + miss)
      = sint c300 + sint c100 + sint c50 + sint c_geki + sint c_katu + sint miss"
    "sint (c_geki * 305 + c300 * 300 + c_katu * 200 + c100 * 100 + c50 * 50)
      = sint c_geki * 305 + sint c300 * 300 + sint c_katu * 200 + sint c100 * 100 + sint c50 * 50"
    "sint ((c300 + c100 + c50 + c_geki + c_katu + miss) * 305)
      = (sint c300 + sint c100 + sint c50 + sint c_geki + sint c_katu + sint miss) * 305"
    using pos sum by (simp_all add: ops)
  have parts: "total = 0 \<or> between0 100 (percentage points most)"
    if "0 \<le> sint points" "sint points \<le> sint most" "sint most = k * sint total" "0 \<le> sint total" "1 \<le> k"
    for total points most :: i32 and k :: int
  proof (cases "total = 0")
    case False
    then have "0 < sint most" using that zero[of total] by simp
    then show ?thesis using percentage_between that by simp
  qed simp
  have "c300 + c100 + c50 + miss = 0 \<or>
      between0 100 (percentage (c300 * 300 + c100 * 100 + c50 * 50) ((c300 + c100 + c50 + miss) * 300))"
    by (rule parts[of _ _ 300]; (simp only: std)?; (simp only: distrib_right)?; (use pos in linarith)?)
  moreover have "c300 + c100 + miss = 0 \<or>
      between0 100 (percentage (c300 * 2 + c100) ((c300 + c100 + miss) * 2))"
    by (rule parts[of _ _ 2]; (simp only: taiko)?; (simp only: distrib_right)?; (use pos in linarith)?)
  moreover have "c300 + c100 + c50 + miss + c_katu = 0 \<or>
      between0 100 (percentage (c300 + c100 + c50) (c300 + c100 + c50 + miss + c_katu))"
    by (rule parts[of _ _ 1]; (simp only: fruits mult_1)?; (simp only: distrib_right)?; (use pos in linarith)?)
  moreover have "c300 + c100 + c50 + c_geki + c_katu + miss = 0 \<or>
      between0 100 (percentage (c_geki * 305 + c300 * 300 + c_katu * 200 + c100 * 100 + c50 * 50)
        ((c300 + c100 + c50 + c_geki + c_katu + miss) * 305))"
    by (rule parts[of _ _ 305]; (simp only: mania)?; (simp only: distrib_right)?; (use pos in linarith)?)
  moreover have "between0 100 (Zero False)" by (simp add: between0_def)
  ultimately show ?thesis
    unfolding calculate_accuracy_def Let_def by (simp only: split: if_split) blast
qed

end
