(* ===== verification/Scores_Db.thy ===== *)
theory Scores_Db
  imports Users_Db Beatmaps_Db Score_Calc
begin

unbundle bit_operations_syntax

text \<open>
  \<^verbatim>\<open>src/db/scores.rs\<close>: the submitted scores and what they make of the statistics of a
  profile.  The statements of one call run without another call between them.  A call whose
  statement violates a constraint ends there with the changes made so far; its result is
  \<open>None\<close>.
\<close>

record score_row =
  sr_id :: int
  sr_map_md5 :: rstr
  sr_checksum :: rstr
  sr_user_id :: i64
  sr_score :: i64
  sr_max_combo :: i64
  sr_c300 :: i64
  sr_c100 :: i64
  sr_c50 :: i64
  sr_c_geki :: i64
  sr_c_katu :: i64
  sr_c_miss :: i64
  sr_perfect :: i64
  sr_mods :: i64
  sr_mode :: i64
  sr_submitted_at :: i64
  sr_pp :: fp
  sr_accuracy :: fp

record score_db =
  sd_users :: users_db
  sd_beatmaps :: "beatmap_row list"
  sd_scores :: "score_row list"
  sd_next :: int

text \<open>The arguments of \<^verbatim>\<open>save_score\<close>.\<close>

record submission =
  sb_map_md5 :: rstr
  sb_checksum :: rstr
  sb_user_id :: i32
  sb_score :: i64
  sb_max_combo :: i32
  sb_c300 :: i32
  sb_c100 :: i32
  sb_c50 :: i32
  sb_c_geki :: i32
  sb_c_katu :: i32
  sb_c_miss :: i32
  sb_perfect :: i32
  sb_mods :: u32
  sb_mode :: u8

record score_save_result =
  sv_score_id :: int
  sv_score_pp :: fp
  sv_score_acc :: fp
  sv_total_pp_before :: i16
  sv_total_pp_after :: i16
  sv_acc_before :: fp
  sv_acc_after :: fp

subsection \<open>The best plays of a profile\<close>

definition is_relax :: "'a::len word \<Rightarrow> bool" where
  "is_relax mods \<longleftrightarrow> mods AND 128 \<noteq> 0"

definition stats_mode_of :: "bool \<Rightarrow> u8 \<Rightarrow> u8" where
  "stats_mode_of relax mode = (if relax \<and> mode \<le> 2 then mode + 4 else mode)"

definition plays_of :: "score_row list \<Rightarrow> i32 \<Rightarrow> u8 \<Rightarrow> bool \<Rightarrow> score_row list" where
  "plays_of scores uid mode relax =
     filter (\<lambda>s. sr_user_id s = scast uid \<and> sr_mode s = ucast mode \<and> is_relax (sr_mods s) = relax) scores"

text \<open>The order of SQL on a REAL column, which holds no NaN.\<close>

definition real_key :: "fp \<Rightarrow> int \<times> rat" where
  "real_key x = (case fp_key x of Some k \<Rightarrow> k | None \<Rightarrow> (- 2, 0))"

fun first_per :: "('a \<Rightarrow> 'k) \<Rightarrow> 'a list \<Rightarrow> 'a list" where
  "first_per key [] = []"
| "first_per key (x # xs) = x # first_per key (filter (\<lambda>y. key y \<noteq> key x) xs)"

text \<open>\<^verbatim>\<open>ROW_NUMBER() OVER (PARTITION BY map_md5 ORDER BY pp DESC, score DESC) = 1\<close>\<close>

definition top_plays :: "score_row list \<Rightarrow> i32 \<Rightarrow> u8 \<Rightarrow> bool \<Rightarrow> score_row list" where
  "top_plays scores uid mode relax =
     sql_limit 100 (order_desc (real_key \<circ> sr_pp)
       (first_per sr_map_md5
         (order_desc (\<lambda>s. (real_key (sr_pp s), sint (sr_score s))) (plays_of scores uid mode relax))))"

definition total_pp_of :: "float_fns \<Rightarrow> score_row list \<Rightarrow> i16" where
  "total_pp_of fns plays =
     word_of_int (fp_to_int (- 32768) 32767
       (fp_clamp (Zero False) (lit64 32767) (fp_round_away (calculate_weighted_pp fns (map sr_pp plays)))))"

definition accuracy_of :: "score_row list \<Rightarrow> fp" where
  "accuracy_of plays = fp_cast f32 (calculate_weighted_accuracy (map sr_accuracy plays))"

text \<open>\<^verbatim>\<open>COALESCE(MAX(s.score), 0)\<close>\<close>

definition max_score :: "score_row list \<Rightarrow> int" where
  "max_score plays = (if plays = [] then 0 else Max ((sint \<circ> sr_score) ` set plays))"

definition update_stats :: "i32 \<Rightarrow> u8 \<Rightarrow> (stats_row \<Rightarrow> stats_row) \<Rightarrow> users_db \<Rightarrow> users_db" where
  "update_stats uid mode f db =
     db\<lparr>ud_stats := map (\<lambda>r. if is_stats uid mode r then f r else r) (ud_stats db)\<rparr>"

subsection \<open>Submission\<close>

definition new_score_row :: "int \<Rightarrow> i64 \<Rightarrow> submission \<Rightarrow> fp \<Rightarrow> fp \<Rightarrow> score_row" where
  "new_score_row score_id now sb pp acc =
     \<lparr>sr_id = score_id, sr_map_md5 = sb_map_md5 sb, sr_checksum = sb_checksum sb,
      sr_user_id = scast (sb_user_id sb), sr_score = sb_score sb, sr_max_combo = scast (sb_max_combo sb),
      sr_c300 = scast (sb_c300 sb), sr_c100 = scast (sb_c100 sb), sr_c50 = scast (sb_c50 sb),
      sr_c_geki = scast (sb_c_geki sb), sr_c_katu = scast (sb_c_katu sb), sr_c_miss = scast (sb_c_miss sb),
      sr_perfect = scast (sb_perfect sb), sr_mods = ucast (sb_mods sb), sr_mode = ucast (sb_mode sb),
      sr_submitted_at = now, sr_pp = pp, sr_accuracy = acc\<rparr>"

definition submission_accuracy :: "submission \<Rightarrow> fp" where
  "submission_accuracy sb =
     calculate_accuracy (sb_mode sb) (sb_c300 sb) (sb_c100 sb) (sb_c50 sb) (sb_c_geki sb) (sb_c_katu sb)
       (sb_c_miss sb)"

definition option_filter :: "('a \<Rightarrow> bool) \<Rightarrow> 'a option \<Rightarrow> 'a option" where
  "option_filter p x = (case x of Some v \<Rightarrow> if p v then Some v else None | None \<Rightarrow> None)"

definition submission_pp :: "float_fns \<Rightarrow> beatmap_row list \<Rightarrow> submission \<Rightarrow> fp" where
  "submission_pp fns bs sb =
     (let meta = get_beatmap_by_md5 bs (sb_map_md5 sb);
          map_stars = option_filter (\<lambda>s. fp_less (Zero False) s) (map_option bm_stars meta);
          map_max_combo = option_filter positive (map_option bm_max_combo meta)
      in calculate_score_pp fns (sb_mode sb) (sb_mods sb) (sb_max_combo sb) (sb_c300 sb) (sb_c100 sb)
           (sb_c50 sb) (sb_c_geki sb) (sb_c_katu sb) (sb_c_miss sb) (sb_score sb) map_stars map_max_combo)"

text \<open>
  \<^verbatim>\<open>INSERT INTO scores\<close>, with the foreign key on the user and the unique index on user and
  checksum.
\<close>

definition insert_score :: "score_row \<Rightarrow> score_db \<Rightarrow> score_db option" where
  "insert_score row db =
     (if \<forall>u \<in> set (ud_users (sd_users db)). ur_id u \<noteq> sint (sr_user_id row) then None
      else if sr_checksum row \<noteq> []
              \<and> (\<exists>s \<in> set (sd_scores db). sr_user_id s = sr_user_id row \<and> sr_checksum s = sr_checksum row)
      then None
      else Some (db\<lparr>sd_scores := sd_scores db @ [row], sd_next := sd_next db + 1\<rparr>))"

definition credit_stats :: "i64 \<Rightarrow> fp \<Rightarrow> i16 \<Rightarrow> int \<Rightarrow> stats_row \<Rightarrow> stats_row" where
  "credit_stats score acc pp ranked r =
     r\<lparr>st_total_score := sql_plus (st_total_score r) (sint score),
       st_play_count := sql_plus (st_play_count r) 1,
       st_accuracy := fp_cast f64 acc, st_pp := sint pp, st_ranked_score := ranked\<rparr>"

definition save_score ::
    "i64 \<Rightarrow> float_fns \<Rightarrow> submission \<Rightarrow> score_db \<Rightarrow> score_save_result option \<times> score_db" where
  "save_score now fns sb db =
     (let score_acc = submission_accuracy sb;
          score_pp = submission_pp fns (sd_beatmaps db) sb;
          score_id = sd_next db
      in case insert_score (new_score_row score_id now sb score_pp (fp_cast f64 score_acc)) db of
           None \<Rightarrow> (None, db)
         | Some db1 \<Rightarrow>
             let relax = is_relax (sb_mods sb);
                 stats_mode = stats_mode_of relax (sb_mode sb);
                 users1 = (case ensure_stats (sb_user_id sb) stats_mode (sd_users db1) of
                             Some u \<Rightarrow> u | None \<Rightarrow> sd_users db1);
                 (acc_before, pp_before) =
                   (case find (is_stats (sb_user_id sb) stats_mode) (ud_stats users1) of
                      Some r \<Rightarrow> (fp_cast f32 (st_accuracy r), word_of_int (st_pp r))
                    | None \<Rightarrow> (Zero False, 0));
                 plays = top_plays (sd_scores db1) (sb_user_id sb) (sb_mode sb) relax;
                 new_total_pp = total_pp_of fns plays;
                 new_acc = accuracy_of plays;
                 ranked = max_score (plays_of (sd_scores db1) (sb_user_id sb) (sb_mode sb) relax);
                 users2 = update_stats (sb_user_id sb) stats_mode
                            (credit_stats (sb_score sb) new_acc new_total_pp ranked) users1
             in (Some \<lparr>sv_score_id = score_id, sv_score_pp = score_pp, sv_score_acc = score_acc,
                   sv_total_pp_before = pp_before, sv_total_pp_after = new_total_pp,
                   sv_acc_before = acc_before, sv_acc_after = new_acc\<rparr>,
                 db1\<lparr>sd_users := users2\<rparr>))"

subsection \<open>Queries\<close>

record score_record =
  sc_id :: int
  sc_map_md5 :: rstr
  sc_user_id :: i32
  sc_username :: rstr
  sc_score :: i64
  sc_max_combo :: i32
  sc_c300 :: i32
  sc_c100 :: i32
  sc_c50 :: i32
  sc_c_geki :: i32
  sc_c_katu :: i32
  sc_c_miss :: i32
  sc_perfect :: i32
  sc_mods :: u32
  sc_mode :: u8
  sc_submitted_at :: i64
  sc_pp :: fp
  sc_accuracy :: fp

definition score_record_of :: "score_row \<times> user_row \<Rightarrow> score_record" where
  "score_record_of = (\<lambda>(s, u).
     \<lparr>sc_id = sr_id s, sc_map_md5 = sr_map_md5 s, sc_user_id = ucast (sr_user_id s),
      sc_username = ur_username u, sc_score = sr_score s, sc_max_combo = ucast (sr_max_combo s),
      sc_c300 = ucast (sr_c300 s), sc_c100 = ucast (sr_c100 s), sc_c50 = ucast (sr_c50 s),
      sc_c_geki = ucast (sr_c_geki s), sc_c_katu = ucast (sr_c_katu s), sc_c_miss = ucast (sr_c_miss s),
      sc_perfect = ucast (sr_perfect s), sc_mods = ucast (sr_mods s), sc_mode = ucast (sr_mode s),
      sc_submitted_at = sr_submitted_at s, sc_pp = sr_pp s, sc_accuracy = fp_cast f32 (sr_accuracy s)\<rparr>)"

text \<open>\<^verbatim>\<open>FROM scores s JOIN users u ON u.id = s.user_id WHERE ...\<close>\<close>

definition scores_with_users :: "score_db \<Rightarrow> (score_row \<Rightarrow> bool) \<Rightarrow> (score_row \<times> user_row) list" where
  "scores_with_users db p =
     [(s, u). s \<leftarrow> sd_scores db, p s, u \<leftarrow> ud_users (sd_users db), ur_id u = sint (sr_user_id s)]"

definition on_map :: "rstr \<Rightarrow> u8 \<Rightarrow> bool \<Rightarrow> score_row \<Rightarrow> bool" where
  "on_map md5 mode relax s \<longleftrightarrow>
     sr_map_md5 s = md5 \<and> sr_mode s = ucast mode \<and> is_relax (sr_mods s) = relax"

definition top_rows :: "score_db \<Rightarrow> rstr \<Rightarrow> u8 \<Rightarrow> bool \<Rightarrow> int \<Rightarrow> (score_row \<times> user_row) list" where
  "top_rows db md5 mode relax limit =
     sql_limit limit (order_desc (\<lambda>(s, u). (sint (sr_score s), - sint (sr_submitted_at s)))
       (scores_with_users db (on_map md5 mode relax)))"

definition get_top_scores_for_map ::
    "score_db \<Rightarrow> rstr \<Rightarrow> u8 \<Rightarrow> bool \<Rightarrow> int \<Rightarrow> score_record list" where
  "get_top_scores_for_map db md5 mode relax limit =
     map score_record_of (top_rows db md5 mode relax limit)"

definition get_personal_best :: "score_db \<Rightarrow> rstr \<Rightarrow> i32 \<Rightarrow> u8 \<Rightarrow> bool \<Rightarrow> score_record option" where
  "get_personal_best db md5 uid mode relax =
     (case order_desc (\<lambda>(s, u). sint (sr_score s))
        (scores_with_users db (\<lambda>s. on_map md5 mode relax s \<and> sr_user_id s = scast uid)) of
        [] \<Rightarrow> None
      | row # _ \<Rightarrow> Some (score_record_of row))"

definition count_scores :: "score_db \<Rightarrow> int" where
  "count_scores db = int (length (sd_scores db))"

definition get_user_recent_scores :: "score_db \<Rightarrow> i32 \<Rightarrow> int \<Rightarrow> score_record list" where
  "get_user_recent_scores db uid limit =
     map score_record_of (sql_limit limit (order_desc (\<lambda>(s, u). sr_id s)
       (scores_with_users db (\<lambda>s. sr_user_id s = scast uid))))"

subsection \<open>Recalculation\<close>

definition recalculated :: "fp \<Rightarrow> i16 \<Rightarrow> int \<Rightarrow> stats_row \<Rightarrow> stats_row" where
  "recalculated acc pp ranked r =
     r\<lparr>st_accuracy := fp_cast f64 acc, st_pp := sint pp, st_ranked_score := ranked\<rparr>"

definition recalculate_user_stats :: "float_fns \<Rightarrow> i32 \<Rightarrow> u8 \<Rightarrow> bool \<Rightarrow> score_db \<Rightarrow> score_db" where
  "recalculate_user_stats fns uid mode relax db =
     (let plays = top_plays (sd_scores db) uid mode relax;
          ranked = max_score (plays_of (sd_scores db) uid mode relax)
      in db\<lparr>sd_users := update_stats uid (stats_mode_of relax mode)
              (recalculated (accuracy_of plays) (total_pp_of fns plays) ranked) (sd_users db)\<rparr>)"

definition needs_recalculation :: "score_row \<Rightarrow> bool" where
  "needs_recalculation s \<longleftrightarrow>
     (fp_eq (sr_pp s) (Zero False) \<or> fp_eq (sr_accuracy s) (Zero False))
     \<and> (positive (sr_c300 s) \<or> positive (sr_c100 s) \<or> positive (sr_c50 s))"

definition recalculate_score :: "float_fns \<Rightarrow> beatmap_row list \<Rightarrow> score_row \<Rightarrow> score_row" where
  "recalculate_score fns bs s =
     (if needs_recalculation s then
        let meta = get_beatmap_by_md5 bs (sr_map_md5 s);
            acc = calculate_accuracy (ucast (sr_mode s)) (ucast (sr_c300 s)) (ucast (sr_c100 s))
                    (ucast (sr_c50 s)) (ucast (sr_c_geki s)) (ucast (sr_c_katu s)) (ucast (sr_c_miss s));
            pp = calculate_score_pp fns (ucast (sr_mode s)) (ucast (sr_mods s)) (ucast (sr_max_combo s))
                   (ucast (sr_c300 s)) (ucast (sr_c100 s)) (ucast (sr_c50 s)) (ucast (sr_c_geki s))
                   (ucast (sr_c_katu s)) (ucast (sr_c_miss s)) (sr_score s)
                   (option_filter (\<lambda>x. fp_less (Zero False) x) (map_option bm_stars meta))
                   (option_filter positive (map_option bm_max_combo meta))
        in s\<lparr>sr_pp := pp, sr_accuracy := fp_cast f64 acc\<rparr>
      else s)"

text \<open>The modes from 4 on are the relax statistics.\<close>

definition recalculate_row_stats :: "float_fns \<Rightarrow> stats_row \<Rightarrow> score_db \<Rightarrow> score_db" where
  "recalculate_row_stats fns r =
     (let smode = (ucast (st_mode r) :: i32); is_rx = (4 \<le> sint smode)
      in recalculate_user_stats fns (ucast (st_user_id r))
           (if is_rx then ucast (smode - 4) else ucast smode) is_rx)"

definition recalculate_all_scores_and_stats :: "float_fns \<Rightarrow> score_db \<Rightarrow> score_db" where
  "recalculate_all_scores_and_stats fns db =
     (let db' = db\<lparr>sd_scores := map (recalculate_score fns (sd_beatmaps db)) (sd_scores db)\<rparr>
      in fold (recalculate_row_stats fns) (ud_stats (sd_users db')) db')"

subsection \<open>What a submission does\<close>

definition scores_ok :: "score_db \<Rightarrow> bool" where
  "scores_ok db \<longleftrightarrow>
     users_ok (sd_users db)
     \<and> (\<forall>s \<in> set (sd_scores db). sr_id s < sd_next db)
     \<and> distinct (map sr_id (sd_scores db))
     \<and> distinct (map (\<lambda>s. (sr_user_id s, sr_checksum s)) (filter (\<lambda>s. sr_checksum s \<noteq> []) (sd_scores db)))
     \<and> (\<forall>s \<in> set (sd_scores db). \<exists>u \<in> set (ud_users (sd_users db)). ur_id u = sint (sr_user_id s))"

lemma mods_relax_ucast: "(ucast (m :: u32) :: i64) AND 128 = 0 \<longleftrightarrow> m AND 128 = 0"
  using and_exp_eq_0_iff_not_bit[of m 7] and_exp_eq_0_iff_not_bit[of "ucast m :: i64" 7]
  by (simp add: bit_simps)

text \<open>When the insertion is refused.\<close>

definition refused :: "submission \<Rightarrow> score_db \<Rightarrow> bool" where
  "refused sb db \<longleftrightarrow>
     (\<forall>u \<in> set (ud_users (sd_users db)). ur_id u \<noteq> sint (sb_user_id sb))
     \<or> sb_checksum sb \<noteq> []
       \<and> (\<exists>s \<in> set (sd_scores db). sr_user_id s = scast (sb_user_id sb) \<and> sr_checksum s = sb_checksum sb)"

abbreviation submitted_row :: "i64 \<Rightarrow> float_fns \<Rightarrow> submission \<Rightarrow> score_db \<Rightarrow> score_row" where
  "submitted_row now fns sb db \<equiv>
     new_score_row (sd_next db) now sb (submission_pp fns (sd_beatmaps db) sb)
       (fp_cast f64 (submission_accuracy sb))"

lemma insert_score_eq:
  "insert_score (submitted_row now fns sb db) db =
     (if refused sb db then None
      else Some (db\<lparr>sd_scores := sd_scores db @ [submitted_row now fns sb db], sd_next := sd_next db + 1\<rparr>))"
  by (auto simp: insert_score_def refused_def new_score_row_def)

lemma save_score_refused: "refused sb db \<Longrightarrow> save_score now fns sb db = (None, db)"
  by (simp add: save_score_def Let_def insert_score_eq)

abbreviation sb_relax :: "submission \<Rightarrow> bool" where
  "sb_relax sb \<equiv> is_relax (sb_mods sb)"

abbreviation sb_stats_mode :: "submission \<Rightarrow> u8" where
  "sb_stats_mode sb \<equiv> stats_mode_of (sb_relax sb) (sb_mode sb)"

text \<open>The statistics row that gets the credit, as it was before.\<close>

definition stats_before :: "submission \<Rightarrow> score_db \<Rightarrow> stats_row" where
  "stats_before sb db =
     (case find (is_stats (sb_user_id sb) (sb_stats_mode sb)) (ud_stats (sd_users db)) of
        Some s \<Rightarrow> s | None \<Rightarrow> fresh_stats (sb_user_id sb) (sb_stats_mode sb))"

definition stats_after :: "float_fns \<Rightarrow> submission \<Rightarrow> score_row list \<Rightarrow> stats_row \<Rightarrow> stats_row" where
  "stats_after fns sb scores =
     (let plays = top_plays scores (sb_user_id sb) (sb_mode sb) (sb_relax sb)
      in credit_stats (sb_score sb) (accuracy_of plays) (total_pp_of fns plays)
           (max_score (plays_of scores (sb_user_id sb) (sb_mode sb) (sb_relax sb))))"

definition credited :: "float_fns \<Rightarrow> submission \<Rightarrow> score_row list \<Rightarrow> users_db \<Rightarrow> users_db" where
  "credited fns sb scores u =
     update_stats (sb_user_id sb) (sb_stats_mode sb) (stats_after fns sb scores)
       (case ensure_stats (sb_user_id sb) (sb_stats_mode sb) u of Some v \<Rightarrow> v | None \<Rightarrow> u)"

lemma save_score_accepted:
  assumes "\<not> refused sb db"
  shows "\<exists>r. save_score now fns sb db = (Some r,
    let scores = sd_scores db @ [submitted_row now fns sb db]
    in db\<lparr>sd_scores := scores, sd_next := sd_next db + 1, sd_users := credited fns sb scores (sd_users db)\<rparr>)"
  using assms
  by (simp add: save_score_def Let_def insert_score_eq credited_def stats_after_def split: prod.split option.split)

lemma find_map_keys:
  "(\<And>r. P (f r) = P r) \<Longrightarrow> find P (map f xs) = map_option f (find P xs)"
  by (induction xs) auto

lemma is_stats_credit [simp]:
  "is_stats uid m (stats_after fns sb scores r) = is_stats uid m r"
  "is_stats uid m (recalculated acc pp ranked r) = is_stats uid m r"
  by (simp_all add: is_stats_def stats_after_def Let_def credit_stats_def recalculated_def)

lemma find_stats_ensured:
  assumes "\<exists>u \<in> set (ud_users db). ur_id u = sint uid"
  shows "\<exists>v. ensure_stats uid m db = Some v \<and> ud_users v = ud_users db
    \<and> find (is_stats uid' m') (ud_stats v) =
        (case find (is_stats uid' m') (ud_stats db) of
           Some s \<Rightarrow> Some s
         | None \<Rightarrow> if uid' = uid \<and> m' = m then Some (fresh_stats uid m) else None)"
proof (cases "\<exists>r \<in> set (ud_stats db). is_stats uid m r")
  case True
  then have "find (is_stats uid m) (ud_stats db) \<noteq> None" by (auto simp: find_None_iff)
  then show ?thesis using True by (auto simp: ensure_stats_def split: option.split)
next
  case False
  then have "ensure_stats uid m db = Some (db\<lparr>ud_stats := ud_stats db @ [fresh_stats uid m]\<rparr>)"
    using assms by (auto simp: ensure_stats_def)
  then show ?thesis by (auto simp: find_append split: option.split)
qed

lemma find_update_stats:
  assumes "\<And>r. is_stats uid' m' (f r) = is_stats uid' m' r"
  shows "find (is_stats uid' m') (ud_stats (update_stats uid m f db)) =
    (if uid' = uid \<and> m' = m then map_option f (find (is_stats uid m) (ud_stats db))
     else find (is_stats uid' m') (ud_stats db))"
proof -
  let ?g = "\<lambda>r. if is_stats uid m r then f r else r"
  have "find (is_stats uid' m') (map ?g (ud_stats db)) = map_option ?g (find (is_stats uid' m') (ud_stats db))"
    by (rule find_map_keys) (simp add: assms)
  moreover have "map_option ?g (find (is_stats uid' m') (ud_stats db)) =
      (if uid' = uid \<and> m' = m then map_option f (find (is_stats uid m) (ud_stats db))
       else find (is_stats uid' m') (ud_stats db))"
  proof (cases "find (is_stats uid' m') (ud_stats db)")
    case (Some s)
    then have "is_stats uid' m' s" by (simp add: find_SomeD)
    then have "is_stats uid m s \<longleftrightarrow> uid' = uid \<and> m' = m" by (auto simp: is_stats_def)
    then show ?thesis using Some by auto
  qed auto
  ultimately show ?thesis by (simp add: update_stats_def)
qed

lemma find_credited:
  assumes "\<not> refused sb db"
  shows "find (is_stats uid m) (ud_stats (credited fns sb scores (sd_users db))) =
    (if uid = sb_user_id sb \<and> m = sb_stats_mode sb then Some (stats_after fns sb scores (stats_before sb db))
     else find (is_stats uid m) (ud_stats (sd_users db)))"
proof -
  have "\<exists>u \<in> set (ud_users (sd_users db)). ur_id u = sint (sb_user_id sb)"
    using assms by (auto simp: refused_def)
  from find_stats_ensured[OF this, of "sb_stats_mode sb" uid m] obtain v where
    v: "ensure_stats (sb_user_id sb) (sb_stats_mode sb) (sd_users db) = Some v"
    "find (is_stats uid m) (ud_stats v) = (case find (is_stats uid m) (ud_stats (sd_users db)) of
        Some s \<Rightarrow> Some s
      | None \<Rightarrow> if uid = sb_user_id sb \<and> m = sb_stats_mode sb
               then Some (fresh_stats (sb_user_id sb) (sb_stats_mode sb)) else None)"
    by blast
  show ?thesis
    unfolding credited_def v(1) option.case
    using v(2) by (cases "uid = sb_user_id sb \<and> m = sb_stats_mode sb")
      (auto simp: find_update_stats stats_before_def split: option.split)
qed

lemma save_score_cases:
  assumes "save_score now fns sb db = (res, db')"
  obtains "refused sb db" "res = None" "db' = db"
  | scores where "\<not> refused sb db" "res \<noteq> None" "scores = sd_scores db @ [submitted_row now fns sb db]"
      "db' = db\<lparr>sd_scores := scores, sd_next := sd_next db + 1,
                sd_users := credited fns sb scores (sd_users db)\<rparr>"
proof (cases "refused sb db")
  case True
  then show ?thesis using that(1) assms by (simp add: save_score_refused)
next
  case False
  then show ?thesis
    using that(2)[OF False _ refl] assms save_score_accepted[OF False, of now fns] by (auto simp: Let_def)
qed

lemma users_credited [simp]: "ud_users (credited fns sb scores u) = ud_users u"
  by (auto simp: credited_def update_stats_def ensure_stats_def split: option.splits)

text \<open>What can happen to the database of the scores after some moment: further submissions of
  anybody, recalculations, and whatever other parts of the server do to the accounts, their
  statistics and the cached beatmaps.\<close>

inductive later_scores :: "score_db \<Rightarrow> score_db \<Rightarrow> bool" for db where
  now: "later_scores db db"
| submitted: "later_scores db d \<Longrightarrow> later_scores db (snd (save_score now fns sb d))"
| recalculated: "later_scores db d \<Longrightarrow> later_scores db (recalculate_user_stats fns uid mode relax d)"
| recalculated_all: "later_scores db d \<Longrightarrow> later_scores db (recalculate_all_scores_and_stats fns d)"
| elsewhere: "later_scores db d \<Longrightarrow> later_scores db (d\<lparr>sd_users := users, sd_beatmaps := beatmaps\<rparr>)"

text \<open>No operation removes a score or changes whose it is and what it was signed with.\<close>

definition score_marks :: "score_db \<Rightarrow> (i64 \<times> rstr) set" where
  "score_marks db = (\<lambda>s. (sr_user_id s, sr_checksum s)) ` set (sd_scores db)"

lemma marks_recalculate_user [simp]: "sd_scores (recalculate_user_stats fns uid mode relax d) = sd_scores d"
  by (simp add: recalculate_user_stats_def Let_def)

lemma marks_recalculate_all: "score_marks (recalculate_all_scores_and_stats fns d) = score_marks d"
proof -
  have "sd_scores (fold (recalculate_row_stats fns) rs x) = sd_scores x" for rs x
    by (induction rs arbitrary: x) (simp_all add: recalculate_row_stats_def Let_def)
  moreover have "(sr_user_id (recalculate_score fns bs s), sr_checksum (recalculate_score fns bs s)) =
      (sr_user_id s, sr_checksum s)" for bs s
    by (simp add: recalculate_score_def Let_def)
  ultimately show ?thesis
    by (simp add: recalculate_all_scores_and_stats_def Let_def score_marks_def image_image)
qed

lemma marks_save_score: "score_marks d \<subseteq> score_marks (snd (save_score now fns sb d))"
proof (cases "save_score now fns sb d")
  case (Pair res d')
  then show ?thesis by (rule save_score_cases) (auto simp: Pair score_marks_def)
qed

lemma later_marks: "later_scores db d \<Longrightarrow> score_marks db \<subseteq> score_marks d"
proof (induction rule: later_scores.induct)
  case (submitted d now fns sb)
  then show ?case using marks_save_score by blast
next
  case (recalculated d fns uid mode relax)
  then show ?case by (simp add: score_marks_def)
qed (simp_all add: marks_recalculate_all, simp add: score_marks_def)

lemma mark_refuses:
  "(scast (sb_user_id sb), sb_checksum sb) \<in> score_marks d \<Longrightarrow> sb_checksum sb \<noteq> [] \<Longrightarrow>
     save_score now fns sb d = (None, d)"
  by (rule save_score_refused) (auto simp: refused_def score_marks_def)

text \<open>The same submission again is refused, whenever it comes.\<close>

lemma refused_again:
  assumes "save_score now fns sb db = (Some r, db')" and "sb_checksum sb \<noteq> []"
    and "sb_user_id sb' = sb_user_id sb" and "sb_checksum sb' = sb_checksum sb" and "later_scores db' d"
  shows "save_score later fns' sb' d = (None, d)"
proof (rule save_score_cases[OF assms(1)])
  fix scores
  assume "scores = sd_scores db @ [submitted_row now fns sb db]"
    and "db' = db\<lparr>sd_scores := scores, sd_next := sd_next db + 1,
           sd_users := credited fns sb scores (sd_users db)\<rparr>"
  then have "(scast (sb_user_id sb'), sb_checksum sb') \<in> score_marks db'"
    using assms(3,4) by (simp add: score_marks_def new_score_row_def)
  then show ?thesis using later_marks[OF assms(5)] assms(2,4) by (intro mark_refuses) auto
qed simp_all

text \<open>The updated row is what a recalculation would write.\<close>

lemma recalculation_agrees:
  assumes "save_score now fns sb db = (Some r, db')"
  shows "recalculate_user_stats fns (sb_user_id sb) (sb_mode sb) (sb_relax sb) db' = db'"
proof (rule save_score_cases[OF assms])
  fix scores
  assume db': "db' = db\<lparr>sd_scores := scores, sd_next := sd_next db + 1,
           sd_users := credited fns sb scores (sd_users db)\<rparr>"
  let ?plays = "top_plays scores (sb_user_id sb) (sb_mode sb) (sb_relax sb)"
  let ?f = "recalculated (accuracy_of ?plays) (total_pp_of fns ?plays)
    (max_score (plays_of scores (sb_user_id sb) (sb_mode sb) (sb_relax sb)))"
  have same: "?f (stats_after fns sb scores r) = stats_after fns sb scores r" for r
    by (simp add: recalculated_def stats_after_def credit_stats_def Let_def)
  have "update_stats (sb_user_id sb) (sb_stats_mode sb) ?f (credited fns sb scores (sd_users db))
      = credited fns sb scores (sd_users db)"
    unfolding credited_def update_stats_def by (simp add: same cong: if_cong)
  then show ?thesis by (simp add: recalculate_user_stats_def Let_def db')
qed simp_all

lemma recalculation_idem:
  "recalculate_user_stats fns uid mode relax (recalculate_user_stats fns uid mode relax db)
     = recalculate_user_stats fns uid mode relax db"
  by (simp add: recalculate_user_stats_def Let_def update_stats_def recalculated_def is_stats_def cong: if_cong)

end
