(* ===== verification/Score_Properties.thy ===== *)
theory Score_Properties
  imports Scores_Db Accounts
begin

text \<open>
  The properties of accounts, statistics, scores and beatmap names, each with an instance at
  concrete data.
\<close>

subsection \<open>Example data\<close>

definition eve_row :: user_row where
  "eve_row = \<lparr>ur_id = 7, ur_username = lit ''Eve'', ur_password_hash = lit ''h:pw'', ur_email = [],
     ur_privileges = 1, ur_country = 0, ur_bio = [], ur_created_at = 0\<rparr>"

definition eve_stats :: stats_row where
  "eve_stats = \<lparr>st_user_id = 7, st_mode = 3, st_ranked_score = 900, st_accuracy = Zero False,
     st_play_count = 1, st_total_score = 900, st_pp = 0\<rparr>"

definition eve_users :: users_db where
  "eve_users = \<lparr>ud_users = [eve_row], ud_next_user = 8, ud_stats = [eve_stats], ud_hardware = [],
     ud_next_hardware = 1, ud_revoked = []\<rparr>"

definition eve_play :: score_row where
  "eve_play = \<lparr>sr_id = 1, sr_map_md5 = lit ''m'', sr_checksum = lit ''c1'', sr_user_id = 7,
     sr_score = 900, sr_max_combo = 10, sr_c300 = 10, sr_c100 = 0, sr_c50 = 0, sr_c_geki = 0,
     sr_c_katu = 0, sr_c_miss = 0, sr_perfect = 1, sr_mods = 0, sr_mode = 3, sr_submitted_at = 0,
     sr_pp = Zero False, sr_accuracy = Zero False\<rparr>"

definition eve_scores :: score_db where
  "eve_scores = \<lparr>sd_users = eve_users, sd_beatmaps = [], sd_scores = [eve_play], sd_next = 2\<rparr>"

definition eve_submits :: "u32 \<Rightarrow> submission" where
  "eve_submits mods = \<lparr>sb_map_md5 = lit ''m'', sb_checksum = lit ''c2'', sb_user_id = 7, sb_score = 5,
     sb_max_combo = 1, sb_c300 = 1, sb_c100 = 0, sb_c50 = 0, sb_c_geki = 0, sb_c_katu = 0,
     sb_c_miss = 0, sb_perfect = 0, sb_mods = mods, sb_mode = 3\<rparr>"

lemmas eve_data = eve_row_def eve_stats_def eve_users_def eve_play_def eve_scores_def eve_submits_def

lemma checksums_differ [simp]: "lit ''c1'' \<noteq> lit ''c2''" "lit ''c2'' \<noteq> []"
  by code_simp+

lemma eve_accepted: "\<not> refused (eve_submits mods) eve_scores"
  by (simp add: refused_def eve_data)

subsection \<open>Submissions\<close>

lemma new_row_fields [simp]:
  "sr_id (new_score_row i now sb pp acc) = i" "sr_score (new_score_row i now sb pp acc) = sb_score sb"
  "sr_user_id (new_score_row i now sb pp acc) = scast (sb_user_id sb)"
  "sr_checksum (new_score_row i now sb pp acc) = sb_checksum sb"
  "sr_mode (new_score_row i now sb pp acc) = ucast (sb_mode sb)"
  "sr_mods (new_score_row i now sb pp acc) = ucast (sb_mods sb)"
  by (simp_all add: new_score_row_def)

text \<open>C33: A submission of an existing user that is no replay is stored as the newest score, and
  credits exactly one row of the statistics, the user's row of the mode (of the relax mode, which the
  modes 0 to 2 have, for a relax play): one more play, its score added to the total as long as the
  sums fit 64 bits, and as ranked score the best of the user's plays of that mode with relax, or of
  those without, as the new play is (included): a relax play of mania leaves the ordinary row of
  mania with the best relax play alone. No other row and no account changes.\<close>

theorem submission_credits_profile:
  assumes "\<not> refused sb db"
    and "- (2 ^ 63) \<le> st_total_score (stats_before sb db)" and "st_total_score (stats_before sb db) < 2 ^ 63"
    and "- (2 ^ 63) \<le> st_total_score (stats_before sb db) + sint (sb_score sb)"
    and "st_total_score (stats_before sb db) + sint (sb_score sb) < 2 ^ 63"
    and "0 \<le> st_play_count (stats_before sb db)" and "st_play_count (stats_before sb db) < 2 ^ 63 - 1"
  shows "let (res, db') = save_score now fns sb db; uid = sb_user_id sb;
             relax = is_relax (sb_mods sb); m = stats_mode_of relax (sb_mode sb)
    in res \<noteq> None
       \<and> (\<exists>row. sd_scores db' = sd_scores db @ [row] \<and> sr_id row = sd_next db
             \<and> sr_score row = sb_score sb \<and> sr_user_id row = scast uid \<and> sr_checksum row = sb_checksum sb)
       \<and> (\<exists>s. find (is_stats uid m) (ud_stats (sd_users db')) = Some s
             \<and> st_play_count s = st_play_count (stats_before sb db) + 1
             \<and> st_total_score s = st_total_score (stats_before sb db) + sint (sb_score sb)
             \<and> st_ranked_score s = max_score (plays_of (sd_scores db') uid (sb_mode sb) relax))
       \<and> (\<forall>uid' m'. (uid', m') \<noteq> (uid, m) \<longrightarrow>
             find (is_stats uid' m') (ud_stats (sd_users db')) = find (is_stats uid' m') (ud_stats (sd_users db)))
       \<and> ud_users (sd_users db') = ud_users (sd_users db)"
proof -
  let ?scores = "sd_scores db @ [submitted_row now fns sb db]"
  obtain r where r: "save_score now fns sb db = (Some r, db\<lparr>sd_scores := ?scores, sd_next := sd_next db + 1,
      sd_users := credited fns sb ?scores (sd_users db)\<rparr>)"
    using save_score_accepted[OF assms(1), of now fns] by (auto simp: Let_def)
  have row: "find (is_stats uid m) (ud_stats (credited fns sb ?scores (sd_users db))) =
      (if uid = sb_user_id sb \<and> m = sb_stats_mode sb then Some (stats_after fns sb ?scores (stats_before sb db))
       else find (is_stats uid m) (ud_stats (sd_users db)))" for uid m
    by (rule find_credited[OF assms(1)])
  have after: "st_play_count (stats_after fns sb ?scores (stats_before sb db)) = st_play_count (stats_before sb db) + 1"
    "st_total_score (stats_after fns sb ?scores (stats_before sb db)) =
       st_total_score (stats_before sb db) + sint (sb_score sb)"
    using sql_plus_exact[OF _ i64_cell, of "st_total_score (stats_before sb db)" "sb_score sb"]
      sql_plus_exact[of "st_play_count (stats_before sb db)" 1] assms(2-7)
    by (simp_all add: stats_after_def credit_stats_def Let_def is_integer_cell_def)
  have ranked:
    "st_ranked_score (stats_after fns sb ?scores s)
       = max_score (plays_of ?scores (sb_user_id sb) (sb_mode sb) (sb_relax sb))" for s
    by (simp add: stats_after_def credit_stats_def Let_def)
  show ?thesis
    unfolding r Let_def prod.case by (auto simp: row after ranked)
qed

theorem submission_credits_profile_witness:
  "let (res, db') = save_score 0 \<lparr>fn_powf = (\<lambda>x y. x), fn_powi = (\<lambda>x k. x)\<rparr> (eve_submits 0) eve_scores
   in res \<noteq> None \<and> length (sd_scores db') = 2
     \<and> map_option st_total_score (find (is_stats 7 3) (ud_stats (sd_users db'))) = Some 905"
proof -
  have "stats_before (eve_submits 0) eve_scores = eve_stats"
    by (simp add: stats_before_def eve_data is_stats_def is_relax_def stats_mode_of_def)
  then show ?thesis
    using submission_credits_profile[OF eve_accepted[of 0], of 0 "\<lparr>fn_powf = (\<lambda>x y. x), fn_powi = (\<lambda>x k. x)\<rparr>"]
    by (auto simp: Let_def eve_data is_relax_def stats_mode_of_def split: prod.splits)
qed

text \<open>C35: The server accepts a signed score once: after a submission with a checksum was stored,
  every later one of the same user with that checksum is refused, whatever else it claims, and
  changes nothing: at once or after any number of further submissions of anybody, recalculations
  and changes of the accounts and the cached beatmaps.\<close>

theorem replayed_submission_refused:
  assumes "save_score now fns sb db = (Some r, db')" and "sb_checksum sb \<noteq> []"
    and "sb_user_id again = sb_user_id sb" and "sb_checksum again = sb_checksum sb"
    and "later_scores db' d"
  shows "save_score later fns' again d = (None, d)"
  using assms by (rule refused_again)

text \<open>The replay comes after another score of the same player and a recalculation.\<close>

theorem replayed_submission_refused_witness:
  "\<exists>r db'. save_score 0 \<lparr>fn_powf = (\<lambda>x y. x), fn_powi = (\<lambda>x k. x)\<rparr> (eve_submits 0) eve_scores = (Some r, db')
    \<and> (let d = recalculate_all_scores_and_stats \<lparr>fn_powf = (\<lambda>x y. x), fn_powi = (\<lambda>x k. x)\<rparr>
            (snd (save_score 5 \<lparr>fn_powf = (\<lambda>x y. x), fn_powi = (\<lambda>x k. x)\<rparr>
               ((eve_submits 0)\<lparr>sb_checksum := lit ''c3''\<rparr>) db'))
       in save_score 9 \<lparr>fn_powf = (\<lambda>x y. x), fn_powi = (\<lambda>x k. x)\<rparr> (eve_submits 64) d = (None, d))"
proof -
  obtain r db' where s: "save_score 0 \<lparr>fn_powf = (\<lambda>x y. x), fn_powi = (\<lambda>x k. x)\<rparr> (eve_submits 0) eve_scores = (Some r, db')"
    using save_score_accepted[OF eve_accepted] by metis
  have "later_scores db' (recalculate_all_scores_and_stats \<lparr>fn_powf = (\<lambda>x y. x), fn_powi = (\<lambda>x k. x)\<rparr>
      (snd (save_score 5 \<lparr>fn_powf = (\<lambda>x y. x), fn_powi = (\<lambda>x k. x)\<rparr> ((eve_submits 0)\<lparr>sb_checksum := lit ''c3''\<rparr>) db')))"
    by (intro later_scores.intros)
  with replayed_submission_refused[OF s, of "eve_submits 64"] s show ?thesis
    by (auto simp: eve_submits_def Let_def)
qed

text \<open>C34: The running update of a profile agrees with computing it anew: after a stored
  submission, recalculating the statistics of its user and mode from all stored scores (best play
  of every map, the hundred best weighted, the best score) changes nothing.\<close>

theorem profile_is_recomputable:
  assumes "save_score now fns sb db = (Some r, db')"
  shows "recalculate_user_stats fns (sb_user_id sb) (sb_mode sb) (is_relax (sb_mods sb)) db' = db'"
  using assms by (rule recalculation_agrees)

theorem profile_is_recomputable_witness:
  "\<exists>r db'. save_score 0 \<lparr>fn_powf = (\<lambda>x y. x), fn_powi = (\<lambda>x k. x)\<rparr> (eve_submits 0) eve_scores = (Some r, db')
    \<and> recalculate_user_stats \<lparr>fn_powf = (\<lambda>x y. x), fn_powi = (\<lambda>x k. x)\<rparr> 7 3 False db' = db'"
proof -
  obtain r db' where "save_score 0 \<lparr>fn_powf = (\<lambda>x y. x), fn_powi = (\<lambda>x k. x)\<rparr> (eve_submits 0) eve_scores = (Some r, db')"
    using save_score_accepted[OF eve_accepted] by metis
  with profile_is_recomputable[OF this] show ?thesis
    by (auto simp: eve_submits_def is_relax_def)
qed

text \<open>A relax play in mania is credited to the ordinary mania statistics, which then forget
  the ordinary plays: the ranked score of the profile falls below an ordinary play the user still
  has.\<close>

theorem relax_mania_overwrites:
  assumes "\<not> refused sb db" and "sb_mode sb = 3" and "is_relax (sb_mods sb)"
    and "best \<in> set (plays_of (sd_scores db) (sb_user_id sb) 3 False)"
    and "\<forall>s \<in> set (plays_of (sd_scores db) (sb_user_id sb) 3 True). sint (sr_score s) < sint (sr_score best)"
    and "sint (sb_score sb) < sint (sr_score best)"
  shows "\<exists>s. find (is_stats (sb_user_id sb) 3) (ud_stats (sd_users (snd (save_score now fns sb db)))) = Some s
    \<and> st_ranked_score s < sint (sr_score best)"
proof -
  let ?row = "submitted_row now fns sb db"
  have mode: "sb_stats_mode sb = 3" using assms(2) by (simp add: stats_mode_of_def)
  have relax: "is_relax (ucast (sb_mods sb) :: i64)"
    using assms(3) by (simp add: is_relax_def mods_relax_ucast)
  have plays: "plays_of (sd_scores db @ [?row]) (sb_user_id sb) 3 True
      = plays_of (sd_scores db) (sb_user_id sb) 3 True @ [?row]"
    using assms(2) relax by (simp add: plays_of_def)
  have "max_score (plays_of (sd_scores db @ [?row]) (sb_user_id sb) 3 True) < sint (sr_score best)"
    unfolding plays using assms(5,6) by (auto simp: max_score_def)
  then show ?thesis
    using save_score_accepted[OF assms(1), of now fns] find_credited[OF assms(1)] mode assms(2,3)
    by (auto simp: Let_def stats_after_def credit_stats_def)
qed

theorem relax_mania_overwrites_witness:
  "\<exists>s. find (is_stats 7 3) (ud_stats (sd_users (snd (save_score 0
      \<lparr>fn_powf = (\<lambda>x y. x), fn_powi = (\<lambda>x k. x)\<rparr> (eve_submits 128) eve_scores)))) = Some s
    \<and> st_ranked_score s < 900"
  using relax_mania_overwrites[OF eve_accepted[of 128], of eve_play 0
      "\<lparr>fn_powf = (\<lambda>x y. x), fn_powi = (\<lambda>x k. x)\<rparr>"]
  by (simp add: eve_data plays_of_def is_relax_def)

subsection \<open>The leaderboard of a map\<close>

text \<open>\<open>better_play a b\<close>: \<open>a\<close> has the higher score, or the same and was submitted before \<open>b\<close>.\<close>

definition better_play :: "score_row \<Rightarrow> score_row \<Rightarrow> bool" where
  "better_play a b \<longleftrightarrow>
     sint (sr_score b) < sint (sr_score a)
     \<or> sint (sr_score a) = sint (sr_score b) \<and> sint (sr_submitted_at a) < sint (sr_submitted_at b)"

definition listed_for :: "score_db \<Rightarrow> rstr \<Rightarrow> u8 \<Rightarrow> bool \<Rightarrow> (score_row \<times> user_row) set" where
  "listed_for db md5 mode relax =
     {(s, u). s \<in> set (sd_scores db) \<and> u \<in> set (ud_users (sd_users db)) \<and> ur_id u = sint (sr_user_id s)
              \<and> on_map md5 mode relax s}"

lemma joined_set: "set (scores_with_users db (on_map md5 mode relax)) = listed_for db md5 mode relax"
  by (auto simp: scores_with_users_def listed_for_def)

text \<open>The leaderboard of a map lists plays of that map, mode and kind with their players, at
  most as many as asked for, none after a worse one, and no play that is left out is better than a
  listed one.\<close>

theorem map_leaderboard_best:
  assumes "0 \<le> limit"
  shows "\<exists>rows. get_top_scores_for_map db md5 mode relax limit = map score_record_of rows
    \<and> length rows \<le> nat limit \<and> set rows \<subseteq> listed_for db md5 mode relax
    \<and> sorted_wrt (\<lambda>(a, _) (b, _). \<not> better_play b a) rows
    \<and> (\<forall>(a, _) \<in> set rows. \<forall>(b, v) \<in> listed_for db md5 mode relax - set rows. \<not> better_play b a)"
proof (intro exI conjI)
  let ?key = "\<lambda>(s, u :: user_row). (sint (sr_score s), - sint (sr_submitted_at s))"
  let ?all = "order_desc ?key (scores_with_users db (on_map md5 mode relax))"
  let ?rows = "top_rows db md5 mode relax limit"
  have sorted: "sorted_wrt (\<lambda>(a, _) (b, _). \<not> better_play b a) ?all"
    by (rule sorted_wrt_mono_rel[OF _ sorted_order_desc[of ?key]]) (auto simp: better_play_def)
  show "get_top_scores_for_map db md5 mode relax limit = map score_record_of ?rows"
    by (simp add: get_top_scores_for_map_def)
  show "length ?rows \<le> nat limit" using assms by (simp add: top_rows_def length_sql_limit)
  show "set ?rows \<subseteq> listed_for db md5 mode relax"
    using set_sql_limit[of limit ?all] by (simp add: top_rows_def joined_set)
  show "sorted_wrt (\<lambda>(a, _) (b, _). \<not> better_play b a) ?rows"
    using sorted unfolding top_rows_def sql_limit_def by (auto intro: sorted_wrt_take)
  show "\<forall>(a, _) \<in> set ?rows. \<forall>(b, v) \<in> listed_for db md5 mode relax - set ?rows. \<not> better_play b a"
    using limit_best[OF sorted] by (auto simp: top_rows_def joined_set)
qed

theorem map_leaderboard_best_witness:
  "\<exists>rows. get_top_scores_for_map eve_scores (lit ''m'') 3 False 50 = map score_record_of rows
    \<and> set rows \<subseteq> listed_for eve_scores (lit ''m'') 3 False"
  using map_leaderboard_best[of 50 eve_scores "lit ''m''" 3 False] by fastforce

subsection \<open>Accuracy\<close>

text \<open>C40: The accuracy of a play is a percentage: when no hit count is negative and their sum is below
  a 305th of \<open>2 ^ 31\<close>, so that no product of counts and points overflows, the rounded result is at
  least 0 and at most 100 in every mode, and so never a NaN or infinite.\<close>

theorem accuracy_is_percentage:
  assumes "\<forall>c \<in> {c300, c100, c50, c_geki, c_katu, miss}. 0 \<le> sint c"
    and "(sint c300 + sint c100 + sint c50 + sint c_geki + sint c_katu + sint miss) * 305 < 2 ^ 31"
  shows "fp_le (Zero False) (calculate_accuracy mode c300 c100 c50 c_geki c_katu miss)
    \<and> fp_le (calculate_accuracy mode c300 c100 c50 c_geki c_katu miss) (Fin 100)"
proof -
  have "real_counts [c300, c100, c50, c_geki, c_katu, miss]"
    using assms by (simp add: real_counts_def add.assoc)
  then show ?thesis using between0_le[OF accuracy_between, of _ _ _ _ _ _ mode] by simp
qed

theorem accuracy_is_percentage_witness:
  "fp_le (calculate_accuracy 0 300 12 3 0 0 1) (Fin 100)"
  using accuracy_is_percentage[of 300 12 3 0 0 1 0] by simp

end
