(* ===== verification/Float_Bounds.thy ===== *)
theory Float_Bounds
  imports Float_Ops
begin

text \<open>
  How far a rounded \<^verbatim>\<open>f64\<close> result is from the exact one: a relative error of at most
  \<open>2 ^ -53\<close>, up to overflow and above the subnormal numbers.
\<close>

definition eps :: rat where
  "eps = 1 / 2 ^ 53"

definition tiny :: rat where
  "tiny = 1 / 2 ^ 100"

definition huge :: rat where
  "huge = 2 ^ 100"

text \<open>The number a finite float that is not negative stands for.\<close>

definition val :: "fp \<Rightarrow> rat" where
  "val x = (case x of Fin r \<Rightarrow> r | _ \<Rightarrow> 0)"

lemma round_half_even_error: "\<bar>of_int (round_half_even q) - q\<bar> \<le> 1 / 2"
proof -
  have "of_int \<lfloor>q\<rfloor> \<le> q" "q < of_int \<lfloor>q\<rfloor> + 1" by linarith+
  then show ?thesis by (auto simp: round_half_even_def Let_def abs_le_iff)
qed

lemma rounded_error: "\<bar>rounded F a - a\<bar> \<le> ulp F a / 2"
proof -
  have "rounded F a - a = (of_int (round_half_even (a / ulp F a)) - a / ulp F a) * ulp F a"
    using less_imp_neq[OF ulp_pos[of F a]] by (simp add: rounded_def left_diff_distrib)
  then have "\<bar>rounded F a - a\<bar> = \<bar>of_int (round_half_even (a / ulp F a)) - a / ulp F a\<bar> * ulp F a"
    using ulp_pos[of F a] by (simp add: abs_mult abs_of_pos)
  also have "\<dots> \<le> 1 / 2 * ulp F a"
    using round_half_even_error ulp_pos[of F a] by (intro mult_right_mono) (auto simp: less_imp_le)
  finally show ?thesis by simp
qed

lemma ulp_f64: "tiny \<le> a \<Longrightarrow> ulp f64 a \<le> 2 * eps * a"
proof -
  assume a: "tiny \<le> a"
  have pos: "0 < a" using a by (rule less_le_trans[rotated]) (simp add: tiny_def)
  have "(2::rat) powi - 100 = tiny" by (simp add: tiny_def power_int_minus_divide)
  then have "(2::rat) powi - 100 \<le> a" using a by (simp only:)
  then have "(2::rat) powi - 100 < 2 powi (rat_log2 a + 1)" using rat_log2_bounds[OF pos] by linarith
  then have "- 100 < rat_log2 a + 1" by (simp only: powi_less)
  then have "ulp f64 a = 2 powi (rat_log2 a - 52)" by (simp add: ulp_def f64_def max_def)
  also have "\<dots> = 2 powi rat_log2 a / 2 ^ 52" by (simp add: power_int_diff)
  also have "\<dots> \<le> a / 2 ^ 52" using rat_log2_bounds[OF pos] by (intro divide_right_mono) auto
  finally show ?thesis by (simp add: eps_def)
qed

lemma rounded_f64_error: "tiny \<le> a \<Longrightarrow> \<bar>rounded f64 a - a\<bar> \<le> eps * a"
  using rounded_error[of f64 a] ulp_f64[of a] by simp

lemma huge_finite: "2 * huge \<le> max_finite f64"
proof -
  have "2 * huge = 2 powi 101" by (simp add: huge_def)
  also have "\<dots> \<le> (2::rat) powi 971" by (simp only: powi_le)
  also have "\<dots> = 1 * 2 powi 971" by simp
  also have "\<dots> \<le> (2 ^ 53 - 1) * 2 powi 971" by (rule mult_right_mono) simp_all
  also have "\<dots> = max_finite f64" by (simp add: max_finite_def f64_def)
  finally show ?thesis .
qed

lemma fp_round_upto:
  assumes "0 \<le> r" and "r \<le> b" and "b = 0 \<or> tiny \<le> b" and "b \<le> huge"
  shows "between0 (b * (1 + eps)) (fp_round f64 r)"
proof (cases "r = 0")
  case True
  then show ?thesis by (simp add: between0_def fp_round_def)
next
  case False
  then have r: "0 < r" and b: "tiny \<le> b" using assms by auto
  have "rounded f64 r \<le> rounded f64 b" using r assms(2) by (intro rounded_mono) (simp_all add: f64_def)
  also have "\<dots> \<le> b * (1 + eps)" using rounded_f64_error[OF b] by (simp add: algebra_simps abs_le_iff)
  finally have le: "rounded f64 r \<le> b * (1 + eps)" .
  have "b * (1 + eps) \<le> huge * 2"
    using assms(4) r assms(2) by (intro mult_mono) (simp_all add: eps_def huge_def)
  then have "rounded f64 r \<le> max_finite f64" using le huge_finite by linarith
  moreover have "0 \<le> rounded f64 r" using r by (intro rounded_nonneg) simp
  ultimately show ?thesis
    using le unfolding between0_def fp_round_nonneg[OF assms(1)] by auto
qed

text \<open>From below: at least \<open>q\<close>.\<close>

definition at_least :: "rat \<Rightarrow> fp \<Rightarrow> bool" where
  "at_least q x \<longleftrightarrow> x = Inf False \<or> (\<exists>v. x = Fin v \<and> 0 < v \<and> q \<le> v)"

lemma fp_round_at_least:
  assumes "0 < q" and "q \<le> r" and "q \<le> rounded f64 q \<or> tiny \<le> q"
  shows "at_least (if q \<le> rounded f64 q then q else q * (1 - eps)) (fp_round f64 r)"
proof -
  have "rounded f64 q \<le> rounded f64 r" using assms(1,2) by (intro rounded_mono) (simp_all add: f64_def)
  moreover have "q * (1 - eps) \<le> rounded f64 q" if "tiny \<le> q"
    using rounded_f64_error[OF that] by (simp add: algebra_simps abs_le_iff)
  moreover have "0 < q * (1 - eps)" using assms(1) by (simp add: eps_def)
  ultimately have "(if q \<le> rounded f64 q then q else q * (1 - eps)) \<le> rounded f64 r" "0 < rounded f64 r"
    using assms(1,3) by (auto split: if_splits)
  then show ?thesis using assms(1,2) by (simp add: at_least_def fp_round_nonneg)
qed

lemma int_finite: "n < 2 ^ 53 \<Longrightarrow> of_int n \<le> max_finite f64"
proof -
  assume n: "n < 2 ^ 53"
  have "(of_int n :: rat) < of_int (2 ^ 53)" using n by (simp only: of_int_less_iff)
  also have "\<dots> \<le> 2 * huge" by (simp add: huge_def)
  finally show ?thesis using huge_finite by linarith
qed

lemma fp_of_int_exact: "0 < n \<Longrightarrow> n < 2 ^ 53 \<Longrightarrow> fp_of_int f64 n = Fin (of_int n)"
  unfolding fp_of_int_def by (intro fp_round_int) (simp_all add: f64_def int_finite[unfolded f64_def])

lemma rounded_int: "0 < n \<Longrightarrow> n < 2 ^ 53 \<Longrightarrow> rounded f64 (of_int n) = of_int n"
  using fp_of_int_exact[of n] fp_round_nonneg[of "of_int n" f64]
  by (auto simp: fp_of_int_def split: if_splits)

lemma fp_of_int_0 [simp]: "fp_of_int f64 0 = Zero False"
  by (simp add: fp_of_int_def fp_round_def)

subsection \<open>The operations on what is not negative\<close>

lemma between0_val: "between0 b x \<Longrightarrow> 0 \<le> b \<Longrightarrow> 0 \<le> val x \<and> val x \<le> b"
  by (auto simp: between0_def val_def)

lemma between0_mono: "between0 a x \<Longrightarrow> a \<le> b \<Longrightarrow> between0 b x"
  by (auto simp: between0_def)

lemma between0_self: "between0 b x \<Longrightarrow> between0 (val x) x"
  by (auto simp: between0_def val_def)

lemma fp_add_upto:
  assumes "between0 a x" and "between0 b y" and "tiny \<le> a + b" and "a + b \<le> huge"
    and "0 \<le> a" and "0 \<le> b"
  shows "between0 ((a + b) * (1 + eps)) (fp_add f64 x y)"
proof -
  have le: "v \<le> a \<or> v \<le> b \<Longrightarrow> v \<le> (a + b) * (1 + eps)" for v
  proof -
    assume "v \<le> a \<or> v \<le> b"
    then have "v \<le> a + b" using assms(5,6) by auto
    also have "\<dots> = (a + b) * 1" by simp
    also have "\<dots> \<le> (a + b) * (1 + eps)" using assms(5,6) by (intro mult_left_mono) (simp_all add: eps_def)
    finally show ?thesis .
  qed
  show ?thesis
    using assms(1)
  proof (cases rule: between0_Fin)
    case 1
    then show ?thesis using assms(2) le by (auto simp: between0_def)
  next
    case (2 v)
    from assms(2) show ?thesis
    proof (cases rule: between0_Fin)
      case 1
      then show ?thesis using 2 le by (auto simp: between0_def)
    next
      case (2 w)
      then show ?thesis
        using \<open>x = Fin v\<close> \<open>0 < v\<close> \<open>v \<le> a\<close> assms(3,4) by (simp add: fp_round_upto)
    qed
  qed
qed

lemma fp_mul_upto:
  assumes "between0 a x" and "between0 b y" and "a * b = 0 \<or> tiny \<le> a * b" and "a * b \<le> huge"
    and "0 \<le> a" and "0 \<le> b"
  shows "between0 (a * b * (1 + eps)) (fp_mul f64 x y)"
  using assms(1)
proof (cases rule: between0_Fin)
  case 1
  from assms(2) show ?thesis
    by (cases rule: between0_Fin) (simp_all add: 1 between0_def fp_neg_sign_def)
next
  case (2 v)
  note x = this
  from assms(2) show ?thesis
  proof (cases rule: between0_Fin)
    case 1
    then show ?thesis using x by (simp add: between0_def fp_neg_sign_def)
  next
    case (2 w)
    have "v * w \<le> a * b" using x 2 assms(5,6) by (intro mult_mono) auto
    then show ?thesis using x 2 assms(3,4) by (simp add: fp_round_upto)
  qed
qed

lemma fp_div_upto:
  assumes "between0 a x" and "0 < d" and "a / d = 0 \<or> tiny \<le> a / d" and "a / d \<le> huge"
  shows "between0 (a / d * (1 + eps)) (fp_div f64 x (Fin d))"
  using assms(1)
proof (cases rule: between0_Fin)
  case 1
  then show ?thesis using assms(2) by (simp add: between0_def fp_neg_sign_def)
next
  case (2 v)
  have "v / d \<le> a / d" using 2 assms(2) by (intro divide_right_mono) auto
  moreover have "0 \<le> v / d" using 2 assms(2) by simp
  ultimately have "between0 (a / d * (1 + eps)) (fp_round f64 (v / d))"
    using assms(3,4) by (intro fp_round_upto)
  then show ?thesis using 2(1) by (simp only: fp_div.simps)
qed

text \<open>Any result that is not negative, and what cutting it to \<open>c\<close> leaves.\<close>

definition nonneg :: "fp \<Rightarrow> bool" where
  "nonneg x \<longleftrightarrow> x = NaN \<or> x = Inf False \<or> x = Zero False \<or> (\<exists>v. x = Fin v \<and> 0 < v)"

lemma nonneg_between0: "between0 b x \<Longrightarrow> nonneg x"
  by (auto simp: between0_def nonneg_def)

lemma nonneg_round: "0 \<le> r \<Longrightarrow> nonneg (fp_round F r)"
proof -
  assume r: "0 \<le> r"
  then have "0 \<le> rounded F r" by (rule rounded_nonneg)
  then show ?thesis using r by (simp add: fp_round_nonneg nonneg_def)
qed

lemma nonneg_simps [simp]:
  "nonneg NaN" "nonneg (Inf s) = (\<not> s)" "nonneg (Zero s) = (\<not> s)" "nonneg (Fin v) = (0 < v)"
  by (auto simp: nonneg_def)

lemma nonneg_add: "nonneg x \<Longrightarrow> nonneg y \<Longrightarrow> nonneg (fp_add F x y)"
  by (cases x; cases y) (auto simp: nonneg_round)

lemma nonneg_mul: "nonneg x \<Longrightarrow> nonneg y \<Longrightarrow> nonneg (fp_mul F x y)"
  by (cases x; cases y) (auto simp: nonneg_round fp_neg_sign_def)

lemma nonneg_div: "nonneg x \<Longrightarrow> nonneg y \<Longrightarrow> nonneg (fp_div F x y)"
  by (cases x; cases y) (auto simp: nonneg_round fp_neg_sign_def)

lemma rounded_upto:
  assumes "0 \<le> r" and "r \<le> c" and "1 \<le> c"
  shows "rounded f64 r \<le> r + eps * c"
proof (cases "tiny \<le> r")
  case True
  have "eps * r \<le> eps * c" using assms(2) by (intro mult_left_mono) (simp_all add: eps_def)
  then show ?thesis using rounded_f64_error[OF True] by (simp add: abs_le_iff)
next
  case False
  show ?thesis
  proof (cases "r = 0")
    case True
    moreover have "rounded f64 0 = 0" by (simp add: rounded_def round_half_even_def)
    ultimately show ?thesis using assms(3) by (simp add: eps_def)
  next
    case r: False
    have "rounded f64 r \<le> rounded f64 tiny" using r False assms(1) by (intro rounded_mono) (simp_all add: f64_def)
    also have "\<dots> \<le> tiny + eps * tiny" using rounded_f64_error[of tiny] by (simp add: abs_le_iff)
    also have "\<dots> \<le> eps * 1" by (simp add: tiny_def eps_def)
    also have "\<dots> \<le> eps * c" using assms(3) by (intro mult_left_mono) (simp_all add: eps_def)
    finally show ?thesis using assms(1) by linarith
  qed
qed

lemma rounded_downto:
  assumes "0 \<le> r" and "r \<le> c" and "1 \<le> c"
  shows "r - eps * c \<le> rounded f64 r"
proof (cases "tiny \<le> r")
  case True
  have "eps * r \<le> eps * c" using assms(2) by (intro mult_left_mono) (simp_all add: eps_def)
  then show ?thesis using rounded_f64_error[OF True] by (simp add: abs_le_iff)
next
  case False
  have "tiny \<le> eps * 1" by (simp add: tiny_def eps_def)
  also have "\<dots> \<le> eps * c" using assms(3) by (intro mult_left_mono) (simp_all add: eps_def)
  finally show ?thesis using False rounded_nonneg[OF assms(1), of f64] by linarith
qed

lemma at_least_mono: "at_least q x \<Longrightarrow> p \<le> q \<Longrightarrow> at_least p x"
  by (auto simp: at_least_def)

lemma at_least_int: "0 < k \<Longrightarrow> k < 2 ^ 53 \<Longrightarrow> of_int k \<le> r \<Longrightarrow> at_least (of_int k) (fp_round f64 r)"
  using fp_round_at_least[of "of_int k" r] rounded_int[of k] by simp

lemma at_least_add:
  assumes "at_least (of_int k) x" and "0 < k" and "k < 2 ^ 53" and "nonneg y" and "y \<noteq> NaN"
  shows "at_least (of_int k) (fp_add f64 x y)"
proof -
  have pos: "0 < v" if "of_int k \<le> v" for v :: rat
    using that assms(2) by (metis less_le_trans of_int_0_less_iff)
  from assms(1) consider "x = Inf False" | v where "x = Fin v" "0 < v" "of_int k \<le> v"
    by (auto simp: at_least_def)
  then show ?thesis
  proof cases
    case 1
    then show ?thesis using assms(4,5) by (cases y) (auto simp: at_least_def)
  next
    case (2 v)
    then show ?thesis
      using assms(2-5) at_least_int[of k] by (cases y) (auto simp: at_least_def)
  qed
qed

end
