(* ===== verification/Rate_Limit.thy ===== *)
theory Rate_Limit
  imports Bancho_State Security Float_Bounds
begin

text \<open>
  \<^verbatim>\<open>src/utils/ratelimit.rs\<close>: a token bucket per client address and tier.  An instant counts
  nanoseconds; one call of \<^verbatim>\<open>check\<close> reads the clock once here, several times within the lock
  in the code.  Tokens are binary floats, as in the code.
\<close>

datatype rate_limit_tier = General | Bancho | Direct | Sensitive

record rate_limit_config =
  rl_enabled :: bool
  rl_general_rpm :: u32
  rl_bancho_rpm :: u32
  rl_direct_rpm :: u32
  rl_sensitive_rpm :: u32
  rl_whitelist_private :: bool

record token_bucket =
  tb_tokens :: fp
  tb_max_tokens :: fp
  tb_fill_rate_per_sec :: fp
  tb_last_update :: instant

record client_buckets =
  cb_general :: token_bucket
  cb_bancho :: token_bucket
  cb_direct :: token_bucket
  cb_sensitive :: token_bucket
  cb_last_seen :: instant

record rate_limiter =
  rl_clients :: "(ip_addr, client_buckets) hmap"
  rl_total_blocked :: u64

subsection \<open>Floats of this module\<close>

definition fp_min :: "fp \<Rightarrow> fp \<Rightarrow> fp" where
  "fp_min x y = (if x = NaN then y else if y = NaN then x else if fp_less y x then y else x)"

definition fp_ceil :: "fp \<Rightarrow> fp" where
  "fp_ceil x =
     (case x of Fin r \<Rightarrow> (if \<lceil>r\<rceil> = 0 then Zero True else Fin (of_int \<lceil>r\<rceil>)) | _ \<Rightarrow> x)"

text \<open>\<^verbatim>\<open>Duration::as_secs_f64\<close>\<close>

definition as_secs_f64 :: "nat \<Rightarrow> fp" where
  "as_secs_f64 ns =
     fp_add f64 (fp_of_int f64 (int (ns div 10 ^ 9)))
       (fp_div f64 (fp_of_int f64 (int (ns mod 10 ^ 9))) (fp_of_int f64 (10 ^ 9)))"

definition one_token :: fp where
  "one_token = Fin 1"

subsection \<open>A bucket\<close>

definition new_bucket :: "fp \<Rightarrow> fp \<Rightarrow> instant \<Rightarrow> token_bucket" where
  "new_bucket capacity rate_per_sec now =
     \<lparr>tb_tokens = capacity, tb_max_tokens = capacity, tb_fill_rate_per_sec = rate_per_sec,
      tb_last_update = now\<rparr>"

definition refill :: "instant \<Rightarrow> token_bucket \<Rightarrow> token_bucket" where
  "refill now b =
     (let elapsed = as_secs_f64 (now - tb_last_update b)
      in b\<lparr>tb_tokens := fp_min (fp_add f64 (tb_tokens b) (fp_mul f64 elapsed (tb_fill_rate_per_sec b)))
              (tb_max_tokens b),
           tb_last_update := now\<rparr>)"

definition try_acquire :: "instant \<Rightarrow> token_bucket \<Rightarrow> bool \<times> token_bucket" where
  "try_acquire now b =
     (let b' = refill now b
      in if fp_le one_token (tb_tokens b') then (True, b'\<lparr>tb_tokens := fp_sub f64 (tb_tokens b') one_token\<rparr>)
         else (False, b'))"

definition retry_after_seconds :: "token_bucket \<Rightarrow> u64" where
  "retry_after_seconds b =
     (if fp_le (tb_fill_rate_per_sec b) (Zero False) then 60
      else
        let needed = fp_sub f64 one_token (tb_tokens b)
        in if fp_le needed (Zero False) then 0
           else word_of_int (fp_to_int 0 (2 ^ 64 - 1) (fp_ceil (fp_div f64 needed (tb_fill_rate_per_sec b)))))"

subsection \<open>The buckets of a client\<close>

definition rpm_bucket :: "u32 \<Rightarrow> instant \<Rightarrow> token_bucket" where
  "rpm_bucket rpm now =
     (let r = fp_of_int f64 (uint rpm)
      in new_bucket (fp_max r one_token) (fp_div f64 r (fp_of_int f64 60)) now)"

definition new_client_buckets :: "rate_limit_config \<Rightarrow> instant \<Rightarrow> client_buckets" where
  "new_client_buckets config now =
     \<lparr>cb_general = rpm_bucket (rl_general_rpm config) now,
      cb_bancho = rpm_bucket (rl_bancho_rpm config) now,
      cb_direct = rpm_bucket (rl_direct_rpm config) now,
      cb_sensitive = rpm_bucket (rl_sensitive_rpm config) now, cb_last_seen = now\<rparr>"

fun bucket_of :: "rate_limit_tier \<Rightarrow> client_buckets \<Rightarrow> token_bucket" where
  "bucket_of General = cb_general"
| "bucket_of Bancho = cb_bancho"
| "bucket_of Direct = cb_direct"
| "bucket_of Sensitive = cb_sensitive"

fun set_bucket :: "rate_limit_tier \<Rightarrow> token_bucket \<Rightarrow> client_buckets \<Rightarrow> client_buckets" where
  "set_bucket General b = cb_general_update (\<lambda>_. b)"
| "set_bucket Bancho b = cb_bancho_update (\<lambda>_. b)"
| "set_bucket Direct b = cb_direct_update (\<lambda>_. b)"
| "set_bucket Sensitive b = cb_sensitive_update (\<lambda>_. b)"

subsection \<open>The limiter\<close>

definition new_rate_limiter :: rate_limiter where
  "new_rate_limiter = \<lparr>rl_clients = [], rl_total_blocked = 0\<rparr>"

text \<open>\<open>Inl\<close> is the refusal, with the seconds to wait.\<close>

definition check ::
    "instant \<Rightarrow> ip_addr \<Rightarrow> rate_limit_tier \<Rightarrow> rate_limit_config \<Rightarrow> rate_limiter \<Rightarrow> (u64 + unit) \<times> rate_limiter" where
  "check now ip tier config rl =
     (if \<not> rl_enabled config then (Inr (), rl)
      else if rl_whitelist_private config \<and> is_private_or_loopback_ip ip then (Inr (), rl)
      else
        let buckets = (case hget (rl_clients rl) ip of Some b \<Rightarrow> b | None \<Rightarrow> new_client_buckets config now);
            buckets = buckets\<lparr>cb_last_seen := now\<rparr>;
            (acquired, bucket) = try_acquire now (bucket_of tier buckets);
            rl' = rl\<lparr>rl_clients := hput ip (set_bucket tier bucket buckets) (rl_clients rl)\<rparr>
        in if acquired then (Inr (), rl')
           else (Inl (max (retry_after_seconds bucket) 1),
                 rl'\<lparr>rl_total_blocked := rl_total_blocked rl + 1\<rparr>))"

definition prune_stale :: "instant \<Rightarrow> nat \<Rightarrow> rate_limiter \<Rightarrow> nat \<times> rate_limiter" where
  "prune_stale now max_idle rl =
     (let kept = filter (\<lambda>(ip, b). now - cb_last_seen b < max_idle) (rl_clients rl)
      in (length (rl_clients rl) - length kept, rl\<lparr>rl_clients := kept\<rparr>))"

definition tracked_ips_count :: "rate_limiter \<Rightarrow> nat" where
  "tracked_ips_count rl = length (rl_clients rl)"

definition total_blocked_count :: "rate_limiter \<Rightarrow> u64" where
  "total_blocked_count = rl_total_blocked"

text \<open>What \<^verbatim>\<open>main.rs\<close> runs every five minutes.\<close>

definition prune_worker :: "instant \<Rightarrow> rate_limiter \<Rightarrow> rate_limiter" where
  "prune_worker now rl = snd (prune_stale now (600 * 10 ^ 9) rl)"

definition classify_tier :: "rstr \<Rightarrow> rstr \<Rightarrow> rate_limit_tier" where
  "classify_tier meth path =
     (if path \<in> set (map lit [''/api/register'', ''/api/login'', ''/users'', ''/users/'',
           ''/api/profile/update'', ''/api/profile/avatar'', ''/api/profile/banner'',
           ''/api/backgrounds/upload'', ''/web/osu-submit-modular-selector.php'',
           ''/web/osu-submit-modular.php'']) then Sensitive
      else if path = lit ''/web/osu-search.php'' \<or> path = lit ''/web/osu-search-set.php''
              \<or> starts_with path (lit ''/d/'') then Direct
      else if meth = lit ''POST'' \<and> (path = lit ''/'' \<or> path = lit ''/c'') then Bancho
      else General)"

end
