(* ===== verification/Rate_Bounds.thy ===== *)
theory Rate_Bounds
  imports Rate_Limit
begin

text \<open>
  What the token buckets guarantee: how many requests of one client and tier they let through
  in any window, whatever else happens, and that a client who waits is served again.
\<close>

subsection \<open>The invariant of a bucket\<close>

definition capacity :: "u32 \<Rightarrow> rat" where
  "capacity rpm = max 1 (of_int (uint rpm))"

definition bucket_ok :: "u32 \<Rightarrow> token_bucket \<Rightarrow> bool" where
  "bucket_ok rpm b \<longleftrightarrow>
     tb_max_tokens b = Fin (capacity rpm)
     \<and> tb_fill_rate_per_sec b = fp_div f64 (fp_of_int f64 (uint rpm)) (Fin 60)
     \<and> between0 (capacity rpm) (tb_tokens b)"

declare of_int_uint [simp del]

lemma uint_u32: "0 \<le> uint (w :: u32)" "uint (w :: u32) < 2 ^ 32"
  using uint_bounded[of w] by simp_all

lemma capacity_bounds: "1 \<le> capacity rpm" "capacity rpm \<le> 2 ^ 32"
proof -
  show "1 \<le> capacity rpm" by (simp add: capacity_def)
  have "(of_int (uint rpm) :: rat) \<le> of_int (2 ^ 32)"
    using uint_u32(2)[of rpm] unfolding of_int_le_iff by linarith
  then show "capacity rpm \<le> 2 ^ 32" by (simp add: capacity_def)
qed

lemma capacity_int: "capacity rpm = of_int (max 1 (uint rpm))"
  by (simp add: capacity_def of_int_max)

lemma capacity_exact: "fp_round f64 (capacity rpm) = Fin (capacity rpm)"
  using fp_of_int_exact[of "max 1 (uint rpm)"] uint_u32[of rpm]
  by (simp add: capacity_int fp_of_int_def)

lemma rpm_bucket_ok: "bucket_ok rpm (rpm_bucket rpm now)"
proof -
  have sixty: "fp_of_int f64 60 = Fin 60" using fp_of_int_exact[of 60] by simp
  have "fp_max (fp_of_int f64 (uint rpm)) one_token = Fin (capacity rpm)"
  proof (cases "uint rpm = 0")
    case True
    then show ?thesis by (simp add: fp_max_def one_token_def fp_less_def fp_key_def capacity_def)
  next
    case False
    then have one: "1 \<le> uint rpm" using uint_u32(1)[of rpm] by linarith
    then have "fp_of_int f64 (uint rpm) = Fin (of_int (uint rpm))"
      using uint_u32(2)[of rpm] by (intro fp_of_int_exact) simp_all
    with one show ?thesis by (simp add: fp_max_def one_token_def fp_less_def fp_key_def capacity_def)
  qed
  then show ?thesis
    using capacity_bounds(1)[of rpm]
    by (simp add: bucket_ok_def rpm_bucket_def Let_def new_bucket_def sixty between0_def)
qed

lemma nonneg_of_int: "0 \<le> k \<Longrightarrow> nonneg (fp_of_int F k)"
  by (simp add: fp_of_int_def nonneg_round)

lemma nonneg_secs: "nonneg (as_secs_f64 d)"
  unfolding as_secs_f64_def by (intro nonneg_add nonneg_div nonneg_of_int) simp_all

lemma nonneg_rate: "bucket_ok rpm b \<Longrightarrow> nonneg (tb_fill_rate_per_sec b)"
  by (simp add: bucket_ok_def nonneg_div nonneg_of_int)

lemma fp_min_between0: "nonneg x \<Longrightarrow> 1 \<le> c \<Longrightarrow> between0 c (fp_min x (Fin c))"
  by (cases x) (auto simp: fp_min_def fp_less_def fp_key_def between0_def)

lemma bucket_ok_refill: "bucket_ok rpm b \<Longrightarrow> bucket_ok rpm (refill now b)"
proof -
  assume b: "bucket_ok rpm b"
  then have "nonneg (fp_add f64 (tb_tokens b) (fp_mul f64 (as_secs_f64 d) (tb_fill_rate_per_sec b)))" for d
    by (intro nonneg_add nonneg_mul nonneg_secs nonneg_rate) (auto simp: bucket_ok_def intro: nonneg_between0)
  then show ?thesis
    using b fp_min_between0[OF _ capacity_bounds(1)] by (simp add: bucket_ok_def refill_def Let_def)
qed

lemma enough_tokens: "between0 c t \<Longrightarrow> fp_le one_token t \<longleftrightarrow> (\<exists>v. t = Fin v \<and> 1 \<le> v \<and> v \<le> c)"
  by (auto simp: between0_def fp_le_def fp_less_def fp_eq_def fp_key_def one_token_def)

lemma take_token:
  assumes "between0 c t" and "fp_le one_token t" and "fp_round f64 c = Fin c" and "1 \<le> c"
  shows "between0 c (fp_sub f64 t one_token) \<and> val (fp_sub f64 t one_token) \<le> val t - 1 + eps * c"
proof -
  obtain v where v: "t = Fin v" "1 \<le> v" "v \<le> c" using assms(1,2) by (auto simp: enough_tokens)
  have s: "fp_sub f64 t one_token = fp_round f64 (v - 1)" by (simp add: v fp_sub_def fp_neg_def one_token_def)
  have b: "between0 c (fp_round f64 (v - 1))"
    using v assms(3) by (intro fp_round_between) (simp_all add: f64_def)
  have "rounded f64 (v - 1) \<le> v - 1 + eps * c" using v assms(4) by (intro rounded_upto) auto
  moreover have "val (fp_round f64 (v - 1)) \<le> rounded f64 (v - 1)"
    using v rounded_nonneg[of "v - 1" f64] by (simp add: fp_round_nonneg val_def)
  ultimately show ?thesis using b unfolding s by (simp add: v(1) val_def[of "Fin v"])
qed

lemma bucket_ok_acquire: "bucket_ok rpm b \<Longrightarrow> bucket_ok rpm (snd (try_acquire now b))"
proof -
  assume "bucket_ok rpm b"
  then have r: "bucket_ok rpm (refill now b)" by (rule bucket_ok_refill)
  then have "between0 (capacity rpm) (tb_tokens (refill now b))" by (simp add: bucket_ok_def)
  note t = take_token[OF this _ capacity_exact capacity_bounds(1)]
  show ?thesis using r t by (auto simp: try_acquire_def Let_def bucket_ok_def)
qed

lemma acquire_last_update [simp]: "tb_last_update (snd (try_acquire now b)) = now"
  by (simp add: try_acquire_def Let_def refill_def)

subsection \<open>How much a bucket can gain\<close>

definition gain :: "u32 \<Rightarrow> nat \<Rightarrow> rat" where
  "gain rpm d = of_nat d / 10 ^ 9 * (of_int (uint rpm) / 60) * (1 + eps) ^ 4"

lemma gain_nonneg: "0 \<le> gain rpm d"
  using uint_u32(1)[of rpm] by (simp add: gain_def eps_def)

lemma gain_add: "gain rpm (c + d) = gain rpm c + gain rpm d"
  by (simp add: gain_def add_divide_distrib distrib_right)

lemma gain_0 [simp]: "gain rpm 0 = 0"
  by (simp add: gain_def)

lemma gain_mono: "c \<le> d \<Longrightarrow> gain rpm c \<le> gain rpm d"
  using gain_add[of rpm c "d - c"] gain_nonneg[of rpm "d - c"] by simp

lemma of_int_nat_upto: "int n < 2 ^ 53 \<Longrightarrow> between0 (of_nat n) (fp_of_int f64 (int n))"
  by (cases n) (simp_all add: fp_of_int_exact between0_def)

text \<open>Durations up to \<open>2 ^ 53\<close> seconds are exact up to their fraction.\<close>

lemma secs_upto:
  assumes "0 < d" and "d < 2 ^ 64"
  shows "between0 (of_nat d / 10 ^ 9 * (1 + eps) ^ 2) (as_secs_f64 d)"
proof -
  define s n where "s = d div 10 ^ 9" and "n = d mod 10 ^ 9"
  have d: "(of_nat d :: rat) = of_nat s * 10 ^ 9 + of_nat n"
    unfolding s_def n_def by (metis (mono_tags, lifting) div_mult_mod_eq of_nat_add of_nat_mult of_nat_numeral of_nat_power)
  have s: "int s < 2 ^ 53" "(of_nat s :: rat) \<le> 2 ^ 53"
  proof -
    have "s < 2 ^ 53" using assms(2) unfolding s_def by (simp add: div_less_iff_less_mult)
    then have "of_nat s < (of_nat (2 ^ 53) :: rat)" "int s < int (2 ^ 53)" by (simp_all only: of_nat_less_iff)
    then show "int s < 2 ^ 53" "(of_nat s :: rat) \<le> 2 ^ 53" by simp_all
  qed
  have n: "n < 10 ^ 9" by (simp add: n_def)
  then have n': "int n < 2 ^ 53" "(of_nat n :: rat) \<le> 10 ^ 9"
  proof -
    have "of_nat n < (of_nat (10 ^ 9) :: rat)" using n by (simp only: of_nat_less_iff)
    then show "(of_nat n :: rat) \<le> 10 ^ 9" by simp
    show "int n < 2 ^ 53" using n by simp
  qed
  have billion: "fp_of_int f64 (10 ^ 9) = Fin (10 ^ 9)" using fp_of_int_exact[of "10 ^ 9"] by simp
  have frac: "between0 (of_nat n / 10 ^ 9 * (1 + eps)) (fp_div f64 (fp_of_int f64 (int n)) (Fin (10 ^ 9)))"
  proof (rule fp_div_upto[OF of_int_nat_upto])
    show "(of_nat n :: rat) / 10 ^ 9 = 0 \<or> tiny \<le> of_nat n / 10 ^ 9"
    proof (cases n)
      case (Suc m)
      have "tiny * 10 ^ 9 \<le> 1" by (simp add: tiny_def)
      also have "(1 :: rat) \<le> of_nat n" using Suc by simp
      finally show ?thesis by (simp add: le_divide_eq)
    qed simp
    show "(of_nat n :: rat) / 10 ^ 9 \<le> huge" using n'(2) by (simp add: huge_def divide_le_eq)
  qed (use n' in simp_all)
  have sum: "between0 ((of_nat s + of_nat n / 10 ^ 9 * (1 + eps)) * (1 + eps)) (as_secs_f64 d)"
    unfolding as_secs_f64_def billion[symmetric] s_def[symmetric] n_def[symmetric]
  proof (rule fp_add_upto[OF of_int_nat_upto])
    show "between0 (of_nat n / 10 ^ 9 * (1 + eps)) (fp_div f64 (fp_of_int f64 (int n)) (fp_of_int f64 (10 ^ 9)))"
      using frac by (simp only: billion)
    have "1 \<le> of_nat s * 10 ^ 9 + (of_nat n :: rat)" using assms(1) d by (metis One_nat_def Suc_leI of_nat_1 of_nat_le_iff)
    then have "1 / 10 ^ 9 \<le> of_nat s + of_nat n / (10 ^ 9 :: rat)" by (simp add: divide_le_eq distrib_right)
    moreover have "(of_nat n :: rat) / 10 ^ 9 * 1 \<le> of_nat n / 10 ^ 9 * (1 + eps)"
      by (intro mult_left_mono) (simp_all add: eps_def)
    moreover have "tiny \<le> 1 / 10 ^ 9" by (simp add: tiny_def)
    ultimately show "tiny \<le> of_nat s + of_nat n / 10 ^ 9 * (1 + eps)" by linarith
    have "of_nat n / 10 ^ 9 * (1 + eps) \<le> 1 * (2 :: rat)"
      using n'(2) by (intro mult_mono) (simp_all add: eps_def divide_le_eq)
    then show "of_nat s + of_nat n / 10 ^ 9 * (1 + eps) \<le> huge" using s(2) by (simp add: huge_def)
  qed (use s in \<open>simp_all add: eps_def\<close>)
  have "(of_nat s + of_nat n / 10 ^ 9 * (1 + eps)) * (1 + eps)
      \<le> (of_nat s * (1 + eps) + of_nat n / 10 ^ 9 * (1 + eps)) * (1 + eps)"
    by (intro mult_right_mono add_right_mono) (simp_all add: eps_def)
  also have "\<dots> = of_nat d / 10 ^ 9 * (1 + eps) ^ 2"
    unfolding d by (simp add: power2_eq_square add_divide_distrib algebra_simps)
  finally show ?thesis using sum by (rule between0_mono[rotated])
qed

lemma rate_upto:
  assumes "bucket_ok rpm b"
  shows "between0 (of_int (uint rpm) / 60 * (1 + eps)) (tb_fill_rate_per_sec b)"
proof (cases "uint rpm = 0")
  case True
  then show ?thesis using assms by (simp add: bucket_ok_def between0_def fp_neg_sign_def)
next
  case False
  then have one: "1 \<le> uint rpm" using uint_u32(1)[of rpm] by linarith
  have e: "fp_of_int f64 (uint rpm) = Fin (of_int (uint rpm))"
    using uint_u32(2)[of rpm] one by (intro fp_of_int_exact) simp_all
  have "(of_int 1 :: rat) \<le> of_int (uint rpm)" "of_int (uint rpm) \<le> (of_int (2 ^ 32) :: rat)"
    using one uint_u32(2)[of rpm] unfolding of_int_le_iff by linarith+
  then have u: "(1::rat) \<le> of_int (uint rpm)" "of_int (uint rpm) \<le> (2 ^ 32 :: rat)" by simp_all
  have "between0 (of_int (uint rpm) / 60 * (1 + eps)) (fp_div f64 (Fin (of_int (uint rpm))) (Fin 60))"
    using u by (intro fp_div_upto) (simp_all add: between0_def tiny_def huge_def)
  then show ?thesis using assms e by (simp add: bucket_ok_def)
qed

lemma product_upto:
  assumes "bucket_ok rpm b" and "0 < d" and "d < 2 ^ 64"
  shows "between0 (gain rpm d) (fp_mul f64 (as_secs_f64 d) (tb_fill_rate_per_sec b))"
proof -
  define e where "e = (of_nat d / 10 ^ 9 * (1 + eps) ^ 2 :: rat)"
  define r where "r = (of_int (uint rpm) / 60 * (1 + eps) :: rat)"
  have "(of_int (uint rpm) :: rat) \<le> of_int (2 ^ 32)"
    using uint_u32(2)[of rpm] unfolding of_int_le_iff by linarith
  then have r: "r \<le> 2 ^ 32 / 60 * 2"
    unfolding r_def by (intro mult_mono divide_right_mono) (simp_all add: eps_def)
  have "(of_nat d :: rat) \<le> of_nat (2 ^ 64)" using assms(3) unfolding of_nat_le_iff by linarith
  then have e: "e \<le> 2 ^ 64 / 10 ^ 9 * 2"
    unfolding e_def by (intro mult_mono divide_right_mono) (simp_all add: eps_def power2_eq_square)
  have nn: "0 \<le> e" "0 \<le> r" using uint_u32(1)[of rpm] by (simp_all add: eps_def e_def r_def)
  have "e * r \<le> 2 ^ 64 / 10 ^ 9 * 2 * (2 ^ 32 / 60 * 2)" using e r nn by (intro mult_mono) simp_all
  then have big: "e * r \<le> huge" by (simp add: huge_def)
  have small: "e * r = 0 \<or> tiny \<le> e * r"
  proof (cases "uint rpm = 0")
    case False
    then have "(of_int 1 :: rat) \<le> of_int (uint rpm)"
      using uint_u32(1)[of rpm] unfolding of_int_le_iff by linarith
    then have "1 / 60 * 1 \<le> r"
      unfolding r_def by (intro mult_mono divide_right_mono) (simp_all add: eps_def)
    moreover have "1 / 10 ^ 9 * 1 \<le> e"
      unfolding e_def using assms(2)
      by (intro mult_mono divide_right_mono) (simp_all add: eps_def power2_eq_square)
    ultimately have "1 / 10 ^ 9 * 1 * (1 / 60 * 1) \<le> e * r" by (intro mult_mono) simp_all
    then show ?thesis by (simp add: tiny_def)
  qed (simp add: r_def)
  have "between0 (e * r * (1 + eps)) (fp_mul f64 (as_secs_f64 d) (tb_fill_rate_per_sec b))"
    using fp_mul_upto[OF secs_upto[OF assms(2,3)] rate_upto[OF assms(1)]] small big nn
    by (simp only: e_def[symmetric] r_def[symmetric])
  moreover have "e * r * (1 + eps) = gain rpm d"
    by (simp add: gain_def e_def r_def power2_eq_square eval_nat_numeral)
  ultimately show ?thesis by simp
qed

lemma product_0: "bucket_ok rpm b \<Longrightarrow> fp_mul f64 (as_secs_f64 0) (tb_fill_rate_per_sec b) = Zero False"
proof -
  assume "bucket_ok rpm b"
  from rate_upto[OF this] have "between0 (of_int (uint rpm) / 60 * (1 + eps)) (tb_fill_rate_per_sec b)" .
  moreover have "as_secs_f64 0 = Zero False"
    using fp_of_int_exact[of "10 ^ 9"] by (simp add: as_secs_f64_def fp_neg_sign_def)
  ultimately show ?thesis by (auto simp: between0_def fp_neg_sign_def)
qed

text \<open>What a bucket holds once it is filled up to an instant: at most \<open>level\<close>, up to a rounding.\<close>

definition level :: "u32 \<Rightarrow> instant \<Rightarrow> token_bucket \<Rightarrow> rat" where
  "level rpm now b = min (capacity rpm) (val (tb_tokens b) + gain rpm (now - tb_last_update b))"

lemma min_upto:
  assumes "between0 c t" and "between0 g p" and "0 \<le> g" and "1 \<le> c" and "c \<le> huge"
  shows "val (fp_min (fp_add f64 t p) (Fin c)) \<le> min c (val t + g) + eps * c"
proof -
  have e: "0 \<le> eps * c" using assms(4) by (simp add: eps_def)
  have tc: "0 \<le> val t \<and> val t \<le> c" using assms(1,4) by (auto simp: between0_def val_def)
  have pg: "0 \<le> val p \<and> val p \<le> g" using assms(2,3) by (auto simp: between0_def val_def)
  have cut: "val (fp_min x (Fin c)) \<le> c" if "nonneg x" for x
    using that assms(4) by (cases x) (auto simp: fp_min_def fp_less_def fp_key_def val_def)
  have cut': "val (fp_min x (Fin c)) \<le> val x" if "x = Zero False \<or> (\<exists>v. x = Fin v \<and> 0 < v)" for x
    using that assms(4) by (auto simp: fp_min_def fp_less_def fp_key_def val_def)
  have nn: "nonneg (fp_add f64 t p)" using assms(1,2) by (intro nonneg_add nonneg_between0)
  have "val (fp_min (fp_add f64 t p) (Fin c)) \<le> val t + val p + eps * c" if le: "val t + val p \<le> c"
  proof (cases "\<exists>v w. t = Fin v \<and> p = Fin w \<and> 0 < v \<and> 0 < w")
    case True
    then obtain v w where vw: "t = Fin v" "p = Fin w" "0 < v" "0 < w" by blast
    have up: "rounded f64 (v + w) \<le> v + w + eps * c"
      using le assms(4) vw by (intro rounded_upto) (simp_all add: val_def)
    have "eps * c \<le> 1 * c" using assms(4) by (intro mult_right_mono) (simp_all add: eps_def)
    moreover have "v + w \<le> c" using le vw by (simp add: val_def)
    ultimately have "rounded f64 (v + w) \<le> max_finite f64"
      using up huge_finite assms(5) by linarith
    then have "fp_round f64 (v + w) = Zero False \<or> fp_round f64 (v + w) = Fin (rounded f64 (v + w))"
      and "val (fp_round f64 (v + w)) = rounded f64 (v + w)" and "0 \<le> rounded f64 (v + w)"
      using vw fp_round_nonneg[of "v + w" f64] rounded_nonneg[of "v + w" f64] by (auto simp: val_def)
    then have "val (fp_min (fp_round f64 (v + w)) (Fin c)) \<le> rounded f64 (v + w)"
      using cut'[of "fp_round f64 (v + w)"] vw fp_round_nonneg[of "v + w" f64] by force
    then show ?thesis using up vw by (simp add: val_def)
  next
    case False
    then have "fp_add f64 t p = t \<and> val p = 0 \<or> fp_add f64 t p = p \<and> val t = 0"
      using assms(1,2) by (auto simp: between0_def val_def)
    moreover have "val (fp_min t (Fin c)) \<le> val t" "val (fp_min p (Fin c)) \<le> val p"
      using assms(1,2) by (auto intro!: cut' simp: between0_def)
    ultimately show ?thesis using e by auto
  qed
  then show ?thesis using cut[OF nn] tc pg e by (cases "val t + val p \<le> c") auto
qed

lemma acquire_level:
  assumes ok: "bucket_ok rpm b" and d: "now < 2 ^ 64" and acq: "try_acquire now b = (a, b')"
  shows "val (tb_tokens b') + of_bool a \<le> level rpm now b + 2 * eps * capacity rpm"
proof -
  let ?c = "capacity rpm" and ?d = "now - tb_last_update b"
  let ?p = "fp_mul f64 (as_secs_f64 ?d) (tb_fill_rate_per_sec b)"
  have t: "between0 ?c (tb_tokens b)" using ok by (simp add: bucket_ok_def)
  have p: "between0 (gain rpm ?d) ?p"
    using product_upto[OF ok, of ?d] product_0[OF ok] d by (cases "?d = 0") (simp_all add: between0_def)
  have c: "1 \<le> ?c" "?c \<le> huge" using capacity_bounds[of rpm] by (simp_all add: huge_def)
  have filled: "val (tb_tokens (refill now b)) \<le> level rpm now b + eps * ?c"
    using min_upto[OF t p gain_nonneg c] ok by (simp add: refill_def Let_def bucket_ok_def level_def)
  have e: "0 \<le> eps * ?c" using c by (simp add: eps_def)
  have "between0 ?c (tb_tokens (refill now b))" using bucket_ok_refill[OF ok] by (simp add: bucket_ok_def)
  note take = take_token[OF this _ capacity_exact c(1)]
  show ?thesis using acq filled take e by (auto simp: try_acquire_def Let_def split: if_splits)
qed

subsection \<open>The limiter at work\<close>

text \<open>Requests of any client and the clean-up, at any times.\<close>

datatype rl_event = Request instant ip_addr rate_limit_tier | Prune instant

fun event_time :: "rl_event \<Rightarrow> instant" where
  "event_time (Request now ip tier) = now"
| "event_time (Prune now) = now"

fun rl_step :: "rate_limit_config \<Rightarrow> rl_event \<Rightarrow> rate_limiter \<Rightarrow> rate_limiter" where
  "rl_step config (Request now ip tier) rl = snd (check now ip tier config rl)"
| "rl_step config (Prune now) rl = prune_worker now rl"

fun asks :: "ip_addr \<Rightarrow> rate_limit_tier \<Rightarrow> rl_event \<Rightarrow> bool" where
  "asks ip tier (Request now ip' tier') \<longleftrightarrow> ip' = ip \<and> tier' = tier"
| "asks ip tier (Prune now) \<longleftrightarrow> False"

fun passes :: "rate_limit_config \<Rightarrow> rl_event \<Rightarrow> rate_limiter \<Rightarrow> bool" where
  "passes config (Request now ip tier) rl \<longleftrightarrow> fst (check now ip tier config rl) = Inr ()"
| "passes config (Prune now) rl \<longleftrightarrow> False"

text \<open>How many requests of a client in a tier are let through.\<close>

fun let_through :: "rate_limit_config \<Rightarrow> ip_addr \<Rightarrow> rate_limit_tier \<Rightarrow> rl_event list \<Rightarrow> rate_limiter \<Rightarrow> nat" where
  "let_through config ip tier [] rl = 0"
| "let_through config ip tier (e # es) rl =
     of_bool (asks ip tier e \<and> passes config e rl) + let_through config ip tier es (rl_step config e rl)"

fun tier_rpm :: "rate_limit_config \<Rightarrow> rate_limit_tier \<Rightarrow> u32" where
  "tier_rpm config General = rl_general_rpm config"
| "tier_rpm config Bancho = rl_bancho_rpm config"
| "tier_rpm config Direct = rl_direct_rpm config"
| "tier_rpm config Sensitive = rl_sensitive_rpm config"

definition limited :: "rate_limit_config \<Rightarrow> ip_addr \<Rightarrow> bool" where
  "limited config ip \<longleftrightarrow>
     rl_enabled config \<and> \<not> (rl_whitelist_private config \<and> is_private_or_loopback_ip ip)"

definition client_ok :: "rate_limit_config \<Rightarrow> instant \<Rightarrow> client_buckets \<Rightarrow> bool" where
  "client_ok config now cb \<longleftrightarrow>
     cb_last_seen cb \<le> now
     \<and> (\<forall>tier. bucket_ok (tier_rpm config tier) (bucket_of tier cb)
              \<and> tb_last_update (bucket_of tier cb) \<le> cb_last_seen cb)"

definition limiter_ok :: "rate_limit_config \<Rightarrow> instant \<Rightarrow> rate_limiter \<Rightarrow> bool" where
  "limiter_ok config now rl \<longleftrightarrow>
     distinct (hkeys (rl_clients rl))
     \<and> (\<forall>ip cb. hget (rl_clients rl) ip = Some cb \<longrightarrow> client_ok config now cb)"

lemma bucket_of_set [simp]:
  "bucket_of t (set_bucket t' b cb) = (if t = t' then b else bucket_of t cb)"
  by (cases t; cases t') simp_all

lemma set_bucket_last_seen [simp]: "cb_last_seen (set_bucket t b cb) = cb_last_seen cb"
  by (cases t) simp_all

lemma bucket_of_seen [simp]: "bucket_of t (cb\<lparr>cb_last_seen := s\<rparr>) = bucket_of t cb"
  by (cases t) simp_all

lemma bucket_of_new [simp]: "bucket_of t (new_client_buckets config now) = rpm_bucket (tier_rpm config t) now"
  by (cases t) (simp_all add: new_client_buckets_def)

lemma new_client_seen [simp]: "cb_last_seen (new_client_buckets config now) = now"
  by (simp add: new_client_buckets_def)

lemma rpm_bucket_update [simp]: "tb_last_update (rpm_bucket rpm now) = now"
  by (simp add: rpm_bucket_def new_bucket_def Let_def)

definition buckets_at :: "rate_limit_config \<Rightarrow> instant \<Rightarrow> ip_addr \<Rightarrow> rate_limiter \<Rightarrow> client_buckets" where
  "buckets_at config now ip rl =
     (case hget (rl_clients rl) ip of Some b \<Rightarrow> b | None \<Rightarrow> new_client_buckets config now)"

lemma check_limited:
  assumes "limited config ip" and "try_acquire now (bucket_of tier (buckets_at config now ip rl)) = (a, b)"
  shows "check now ip tier config rl =
    (let cb = set_bucket tier b ((buckets_at config now ip rl)\<lparr>cb_last_seen := now\<rparr>);
         rl' = rl\<lparr>rl_clients := hput ip cb (rl_clients rl)\<rparr>
     in if a then (Inr (), rl')
        else (Inl (max (retry_after_seconds b) 1), rl'\<lparr>rl_total_blocked := rl_total_blocked rl + 1\<rparr>))"
  using assms unfolding check_def limited_def buckets_at_def
  by (auto simp: Let_def split: option.splits)

lemma check_unlimited: "\<not> limited config ip \<Longrightarrow> check now ip tier config rl = (Inr (), rl)"
  by (auto simp: check_def limited_def)

lemma buckets_at_ok: "limiter_ok config now rl \<Longrightarrow> client_ok config now (buckets_at config now ip rl)"
  by (auto simp: buckets_at_def limiter_ok_def client_ok_def rpm_bucket_ok split: option.splits)

lemma limiter_ok_later: "limiter_ok config t rl \<Longrightarrow> t \<le> t' \<Longrightarrow> limiter_ok config t' rl"
  unfolding limiter_ok_def client_ok_def by (meson order_trans)

lemma limiter_ok_new [simp]: "limiter_ok config t new_rate_limiter"
  by (simp add: limiter_ok_def new_rate_limiter_def)

lemma rl_clients_check:
  assumes "limited config ip"
  shows "\<exists>a b. try_acquire now (bucket_of tier (buckets_at config now ip rl)) = (a, b)
     \<and> rl_clients (snd (check now ip tier config rl)) =
         hput ip (set_bucket tier b ((buckets_at config now ip rl)\<lparr>cb_last_seen := now\<rparr>)) (rl_clients rl)
     \<and> (fst (check now ip tier config rl) = Inr () \<longleftrightarrow> a)"
  by (cases "try_acquire now (bucket_of tier (buckets_at config now ip rl))")
    (simp add: check_limited[OF assms] Let_def)

lemma limiter_ok_check:
  assumes "limiter_ok config now rl"
  shows "limiter_ok config now (snd (check now ip tier config rl))"
proof (cases "limited config ip")
  case True
  then obtain a b where ab: "try_acquire now (bucket_of tier (buckets_at config now ip rl)) = (a, b)"
    and e: "rl_clients (snd (check now ip tier config rl)) =
      hput ip (set_bucket tier b ((buckets_at config now ip rl)\<lparr>cb_last_seen := now\<rparr>)) (rl_clients rl)"
    using rl_clients_check by blast
  have cb: "client_ok config now (buckets_at config now ip rl)" using assms by (rule buckets_at_ok)
  then have b: "bucket_ok (tier_rpm config tier) b" "tb_last_update b = now"
    using bucket_ok_acquire[of "tier_rpm config tier"] acquire_last_update ab
    by (metis client_ok_def snd_conv)+
  have "client_ok config now (set_bucket tier b ((buckets_at config now ip rl)\<lparr>cb_last_seen := now\<rparr>))"
    using cb b by (auto simp: client_ok_def intro: order_trans)
  then show ?thesis using assms unfolding limiter_ok_def e by (auto split: if_splits)
qed (use assms in \<open>simp add: check_unlimited\<close>)

lemma hget_filter:
  "distinct (hkeys m) \<Longrightarrow>
     hget (filter (\<lambda>(k, v). P v) m) k = (case hget m k of Some v \<Rightarrow> if P v then Some v else None | None \<Rightarrow> None)"
  by (induction m) (auto split: option.splits dest: map_of_SomeD intro: rev_image_eqI)

lemma distinct_hkeys_filter: "distinct (hkeys m) \<Longrightarrow> distinct (hkeys (filter P m))"
  by (simp add: distinct_map_filter)

lemma limiter_ok_prune: "limiter_ok config t rl \<Longrightarrow> limiter_ok config t (prune_worker now rl)"
  unfolding limiter_ok_def prune_worker_def prune_stale_def Let_def
  by (auto simp: hget_filter distinct_hkeys_filter split: option.splits if_splits)

lemma limiter_ok_step: "limiter_ok config (event_time e) rl \<Longrightarrow> limiter_ok config (event_time e) (rl_step config e rl)"
  by (cases e) (simp_all add: limiter_ok_check limiter_ok_prune)

text \<open>What a client could still get at an instant.\<close>

definition budget :: "rate_limit_config \<Rightarrow> ip_addr \<Rightarrow> rate_limit_tier \<Rightarrow> instant \<Rightarrow> rate_limiter \<Rightarrow> rat" where
  "budget config ip tier now rl =
     level (tier_rpm config tier) now (bucket_of tier (buckets_at config now ip rl))"

lemma val_full [simp]: "val (tb_tokens (rpm_bucket rpm now)) = capacity rpm"
proof -
  have "bucket_ok rpm (rpm_bucket rpm now)" by (rule rpm_bucket_ok)
  moreover have "tb_tokens (rpm_bucket rpm now) = tb_max_tokens (rpm_bucket rpm now)"
    by (simp add: rpm_bucket_def new_bucket_def Let_def)
  ultimately show ?thesis by (simp add: bucket_ok_def val_def)
qed

lemma level_new [simp]: "level rpm now (rpm_bucket rpm t) = capacity rpm"
  using gain_nonneg[of rpm "now - t"] by (simp add: level_def)

lemma budget_later:
  assumes "limiter_ok config t rl" and "t \<le> t'"
  shows "budget config ip tier t' rl \<le> budget config ip tier t rl + gain (tier_rpm config tier) (t' - t)"
proof (cases "hget (rl_clients rl) ip")
  case None
  then show ?thesis using gain_nonneg by (simp add: budget_def buckets_at_def)
next
  case (Some cb)
  then have "tb_last_update (bucket_of tier cb) \<le> t"
    using assms(1) unfolding limiter_ok_def client_ok_def by (meson order_trans)
  then have "t' - tb_last_update (bucket_of tier cb) = (t - tb_last_update (bucket_of tier cb)) + (t' - t)"
    using assms(2) by simp
  then have "gain (tier_rpm config tier) (t' - tb_last_update (bucket_of tier cb)) =
      gain (tier_rpm config tier) (t - tb_last_update (bucket_of tier cb)) + gain (tier_rpm config tier) (t' - t)"
    by (simp only: gain_add)
  then show ?thesis
    using Some gain_nonneg[of "tier_rpm config tier" "t' - t"]
    by (auto simp: budget_def buckets_at_def level_def min_def)
qed

lemma budget_asked:
  assumes ok: "limiter_ok config now rl" and lim: "limited config ip" and t: "now < 2 ^ 64"
  shows "budget config ip tier now (snd (check now ip tier config rl))
      + of_bool (fst (check now ip tier config rl) = Inr ())
    \<le> budget config ip tier now rl + 2 * eps * capacity (tier_rpm config tier)"
proof -
  obtain a b where ab: "try_acquire now (bucket_of tier (buckets_at config now ip rl)) = (a, b)"
    and e: "rl_clients (snd (check now ip tier config rl)) =
      hput ip (set_bucket tier b ((buckets_at config now ip rl)\<lparr>cb_last_seen := now\<rparr>)) (rl_clients rl)"
    and p: "fst (check now ip tier config rl) = Inr () \<longleftrightarrow> a"
    using rl_clients_check[OF lim] by blast
  have ok': "bucket_ok (tier_rpm config tier) (bucket_of tier (buckets_at config now ip rl))"
    using buckets_at_ok[OF ok] by (simp add: client_ok_def)
  have "level (tier_rpm config tier) now b \<le> val (tb_tokens b)"
    using acquire_last_update[of now] ab by (metis gain_0 level_def add.right_neutral diff_self_eq_0 min.cobounded2 snd_conv)
  moreover have "buckets_at config now ip (snd (check now ip tier config rl))
      = set_bucket tier b ((buckets_at config now ip rl)\<lparr>cb_last_seen := now\<rparr>)"
    by (simp add: buckets_at_def e)
  ultimately have "budget config ip tier now (snd (check now ip tier config rl)) \<le> val (tb_tokens b)"
    by (simp add: budget_def)
  then show ?thesis
    using acquire_level[OF ok' t ab] p by (simp add: budget_def)
qed

lemma budget_other:
  assumes "ip' \<noteq> ip \<or> tier' \<noteq> tier"
  shows "budget config ip tier now (snd (check now ip' tier' config rl)) = budget config ip tier now rl"
proof (cases "limited config ip'")
  case True
  then obtain b where "rl_clients (snd (check now ip' tier' config rl)) =
      hput ip' (set_bucket tier' b ((buckets_at config now ip' rl)\<lparr>cb_last_seen := now\<rparr>)) (rl_clients rl)"
    using rl_clients_check by blast
  then show ?thesis using assms by (auto simp: budget_def buckets_at_def)
qed (simp add: check_unlimited)

text \<open>A client who is forgotten has been silent for so long that the bucket was full.\<close>

lemma gain_minutes:
  assumes "60 * 10 ^ 9 \<le> d" and "rpm \<noteq> 0"
  shows "capacity rpm \<le> gain rpm d"
proof -
  have "1 \<le> uint rpm" using assms(2) uint_u32(1)[of rpm] by (metis int_one_le_iff_zero_less order_le_less uint_0_iff)
  then have c: "capacity rpm = of_int (uint rpm)" by (simp add: capacity_def)
  have "capacity rpm = of_nat (60 * 10 ^ 9) / 10 ^ 9 * (of_int (uint rpm) / 60) * 1"
    unfolding c by simp
  also have "\<dots> \<le> gain rpm (60 * 10 ^ 9)"
    unfolding gain_def using \<open>1 \<le> uint rpm\<close> by (intro mult_left_mono one_le_power) (simp_all add: eps_def)
  also have "\<dots> \<le> gain rpm d" using assms(1) by (rule gain_mono)
  finally show ?thesis .
qed

lemma budget_prune:
  assumes ok: "limiter_ok config now rl" and "tier_rpm config tier \<noteq> 0"
  shows "budget config ip tier now (prune_worker now rl) = budget config ip tier now rl"
proof (cases "hget (rl_clients rl) ip")
  case None
  then show ?thesis
    using ok by (simp add: budget_def buckets_at_def prune_worker_def prune_stale_def Let_def hget_filter limiter_ok_def)
next
  case (Some cb)
  show ?thesis
  proof (cases "now - cb_last_seen cb < 600 * 10 ^ 9")
    case True
    then show ?thesis
      using ok Some
      by (simp add: budget_def buckets_at_def prune_worker_def prune_stale_def Let_def hget_filter limiter_ok_def)
  next
    case False
    have "tb_last_update (bucket_of tier cb) \<le> cb_last_seen cb"
      and b: "bucket_ok (tier_rpm config tier) (bucket_of tier cb)"
      using ok Some by (auto simp: limiter_ok_def client_ok_def)
    then have "60 * 10 ^ 9 \<le> now - tb_last_update (bucket_of tier cb)" using False by simp
    from gain_minutes[OF this assms(2)] b
    have "level (tier_rpm config tier) now (bucket_of tier cb) = capacity (tier_rpm config tier)"
      by (auto simp: level_def bucket_ok_def between0_def val_def)
    then show ?thesis
      using ok Some False
      by (simp add: budget_def buckets_at_def prune_worker_def prune_stale_def Let_def hget_filter limiter_ok_def)
  qed
qed

lemma let_through_budget:
  assumes "limiter_ok config t rl" and "limited config ip" and "tier_rpm config tier \<noteq> 0"
    and "sorted (map event_time es)" and "\<forall>e \<in> set es. t \<le> event_time e \<and> event_time e \<le> u" and "t \<le> u"
    and "u < 2 ^ 64"
  shows "of_nat (let_through config ip tier es rl)
    \<le> budget config ip tier t rl + gain (tier_rpm config tier) (u - t)
      + of_nat (length (filter (asks ip tier) es)) * (2 * eps * capacity (tier_rpm config tier))"
  using assms
proof (induction es arbitrary: t rl)
  case Nil
  have "between0 (capacity (tier_rpm config tier)) (tb_tokens (bucket_of tier (buckets_at config t ip rl)))"
    using buckets_at_ok[OF Nil.prems(1), of ip] by (simp add: client_ok_def bucket_ok_def)
  then have "0 \<le> budget config ip tier t rl"
    using between0_val[of "capacity (tier_rpm config tier)"] gain_nonneg capacity_bounds(1)[of "tier_rpm config tier"]
    by (simp add: budget_def level_def)
  then show ?case using gain_nonneg by simp
next
  case (Cons e es)
  let ?rpm = "tier_rpm config tier" and ?now = "event_time e"
  define slack where "slack = 2 * eps * capacity ?rpm"
  have t: "t \<le> ?now" "?now \<le> u" "?now < 2 ^ 64" using Cons.prems by auto
  have now: "limiter_ok config ?now rl" using Cons.prems(1) t(1) by (rule limiter_ok_later)
  have IH: "of_nat (let_through config ip tier es (rl_step config e rl))
    \<le> budget config ip tier ?now (rl_step config e rl) + gain ?rpm (u - ?now)
      + of_nat (length (filter (asks ip tier) es)) * slack"
    unfolding slack_def
    by (rule Cons.IH[OF limiter_ok_step[OF now]]) (use Cons.prems t in auto)
  have later: "budget config ip tier ?now rl \<le> budget config ip tier t rl + gain ?rpm (?now - t)"
    using Cons.prems(1) t(1) by (rule budget_later)
  have "gain ?rpm (u - t) = gain ?rpm (?now - t) + gain ?rpm (u - ?now)"
    using t by (simp add: gain_add[symmetric])
  moreover have "budget config ip tier ?now (rl_step config e rl) + of_bool (asks ip tier e \<and> passes config e rl)
    \<le> budget config ip tier ?now rl + of_bool (asks ip tier e) * slack"
    using budget_asked[OF now Cons.prems(2) t(3), of tier] budget_other[of _ ip _ tier config _ rl]
      budget_prune[OF now Cons.prems(3), of ip]
    unfolding slack_def by (cases e) auto
  ultimately show ?case
    using IH later unfolding slack_def[symmetric]
    by (cases "asks ip tier e"; cases "passes config e rl") (simp_all add: distrib_right)
qed

subsection \<open>Waiting helps\<close>

lemma rate_positive:
  assumes "bucket_ok rpm b" and "rpm \<noteq> 0"
  obtains r where "tb_fill_rate_per_sec b = Fin r" "1 / 61 \<le> r"
proof -
  have one: "1 \<le> uint rpm" using assms(2) uint_u32(1)[of rpm] by (metis int_one_le_iff_zero_less order_le_less uint_0_iff)
  have e: "fp_of_int f64 (uint rpm) = Fin (of_int (uint rpm))"
    using uint_u32(2)[of rpm] one by (intro fp_of_int_exact) simp_all
  have big: "(1 / 60 :: rat) \<le> of_int (uint rpm) / 60" using one by simp
  have "\<bar>rounded f64 (1 / 60) - 1 / 60\<bar> \<le> eps * (1 / 60)" by (rule rounded_f64_error) (simp add: tiny_def)
  then have "1 / 60 * (1 - eps) \<le> rounded f64 (1 / 60 :: rat)" unfolding abs_le_iff by (simp add: algebra_simps)
  also have "\<dots> \<le> rounded f64 (of_int (uint rpm) / 60)"
    using big by (intro rounded_mono) (simp_all add: f64_def)
  finally have low: "1 / 61 \<le> rounded f64 (of_int (uint rpm) / 60)" by (simp add: eps_def)
  have "tb_fill_rate_per_sec b \<noteq> Inf False"
    using rate_upto[OF assms(1)] by (auto simp: between0_def)
  then have "tb_fill_rate_per_sec b = Fin (rounded f64 (of_int (uint rpm) / 60))"
    using assms(1) e low one fp_round_nonneg[of "of_int (uint rpm) / 60" f64]
    by (auto simp: bucket_ok_def split: if_splits)
  then show ?thesis using low that by blast
qed

lemma secs_at_least:
  assumes "0 < k" and "k < 2 ^ 53" and "k * 10 ^ 9 \<le> d"
  shows "at_least (of_nat k) (as_secs_f64 d)"
proof -
  have "k \<le> d div 10 ^ 9" using assms(3) by (simp add: less_eq_div_iff_mult_less_eq)
  then have "at_least (of_int (int k)) (fp_of_int f64 (int (d div 10 ^ 9)))"
    unfolding fp_of_int_def using assms by (intro at_least_int) simp_all
  moreover have "nonneg (fp_div f64 (fp_of_int f64 (int (d mod 10 ^ 9))) (fp_of_int f64 (10 ^ 9)))"
    by (intro nonneg_div nonneg_of_int) simp_all
  moreover have "fp_div f64 (fp_of_int f64 (int (d mod 10 ^ 9))) (fp_of_int f64 (10 ^ 9)) \<noteq> NaN"
  proof -
    have "d mod 10 ^ 9 < 10 ^ 9" by simp
    then have "between0 (of_nat (d mod 10 ^ 9)) (fp_of_int f64 (int (d mod 10 ^ 9)))"
      by (intro of_int_nat_upto) simp
    moreover have "fp_of_int f64 (10 ^ 9) = Fin (10 ^ 9)" using fp_of_int_exact[of "10 ^ 9"] by simp
    moreover have "fp_round F r \<noteq> NaN" for F r by (simp add: fp_round_def Let_def)
    ultimately show ?thesis by (auto simp: between0_def)
  qed
  ultimately have "at_least (of_int (int k)) (as_secs_f64 d)"
    unfolding as_secs_f64_def using assms by (intro at_least_add) simp_all
  then show ?thesis by simp
qed

text \<open>The announced wait covers what is missing, up to a rounding.\<close>

lemma retry_covers:
  assumes ok: "bucket_ok rpm b" and "rpm \<noteq> 0" and poor: "\<not> fp_le one_token (tb_tokens b)"
    and rate: "tb_fill_rate_per_sec b = Fin r" "1 / 61 \<le> r"
  defines "k \<equiv> uint (max (retry_after_seconds b) 1)"
  shows "1 \<le> k \<and> k \<le> 100 \<and> 1 - val (tb_tokens b) - 2 * eps - 100 * eps * r \<le> of_int k * r"
proof -
  let ?T = "val (tb_tokens b)" and ?needed = "fp_sub f64 one_token (tb_tokens b)"
  have T: "0 \<le> ?T" "?T < 1" "tb_tokens b = Zero False \<or> tb_tokens b = Fin ?T \<and> 0 < ?T"
    using ok poor by (auto simp: bucket_ok_def between0_def fp_le_def fp_less_def fp_eq_def fp_key_def one_token_def val_def)
  have m: "rounded f64 (1 - ?T) \<le> 1" "1 - ?T - eps * 1 \<le> rounded f64 (1 - ?T)" "0 \<le> rounded f64 (1 - ?T)"
    using T rounded_mono[of "1 - ?T" 1 f64] rounded_int[of 1] rounded_downto[of "1 - ?T" 1]
      rounded_nonneg[of "1 - ?T" f64] by (simp_all add: f64_def)
  define q where "q = rounded f64 (1 - ?T) / r"
  have "q \<le> 1 / r" unfolding q_def using m rate(2) by (intro divide_right_mono) auto
  also have "\<dots> \<le> 61" using rate(2) by (simp add: divide_le_eq)
  finally have q: "0 \<le> q" "q \<le> 61" "q * r = rounded f64 (1 - ?T)"
    using m rate(2) by (simp_all add: q_def)
  have needed: "?needed = (if rounded f64 (1 - ?T) = 0 then Zero False else Fin (rounded f64 (1 - ?T)))"
  proof (cases "tb_tokens b = Zero False")
    case True
    then have "?T = 0" by (simp add: val_def)
    then show ?thesis using True rounded_int[of 1] by (simp add: fp_sub_def fp_neg_def one_token_def)
  next
    case False
    then obtain v where v: "tb_tokens b = Fin v" "?T = v" using T(3) by auto
    then have "?needed = fp_round f64 (1 - ?T)" by (simp add: fp_sub_def fp_neg_def one_token_def)
    moreover have "\<not> max_finite f64 < rounded f64 (1 - ?T)"
      using m(1) huge_finite by (simp add: huge_def)
    ultimately show ?thesis using T fp_round_nonneg[of "1 - ?T" f64] by simp
  qed
  have "0 < r" using rate(2) by (rule less_le_trans[rotated]) simp
  then have pos: "\<not> fp_le (tb_fill_rate_per_sec b) (Zero False)"
    by (simp add: rate fp_le_def fp_less_def fp_eq_def fp_key_def)
  have low: "q - eps * 100 \<le> rounded f64 q" and up: "rounded f64 q \<le> 61"
    using q rounded_downto[of q 100] rounded_mono[of q 61 f64] rounded_int[of 61]
    by (cases "q = 0"; simp add: f64_def rounded_def round_half_even_def; fail)+
  have rq: "0 \<le> rounded f64 q" using q by (simp add: rounded_nonneg)
  have k: "1 \<le> k \<and> k \<le> 100 \<and> rounded f64 q \<le> of_int k"
  proof (cases "rounded f64 (1 - ?T) = 0")
    case True
    then have "retry_after_seconds b = 0"
      using pos by (simp add: retry_after_seconds_def needed fp_le_def fp_eq_def fp_key_def)
    then have "k = 1" by (simp add: k_def)
    moreover have "q = 0" unfolding q_def True by simp
    then have "rounded f64 q = 0" by (simp add: rounded_def round_half_even_def)
    ultimately show ?thesis by simp
  next
    case False
    have "fp_div f64 ?needed (tb_fill_rate_per_sec b) = fp_round f64 q" by (simp add: needed False rate q_def)
    also have "\<dots> = (if rounded f64 q = 0 then Zero False else Fin (rounded f64 q))"
      using up huge_finite by (simp add: fp_round_nonneg[OF q(1)] huge_def)
    finally have "fp_to_int 0 (2 ^ 64 - 1) (fp_ceil (fp_div f64 ?needed (tb_fill_rate_per_sec b))) = \<lceil>rounded f64 q\<rceil>"
      using up rq by (auto simp: fp_to_int_def fp_ceil_def)
    moreover have "\<not> fp_le ?needed (Zero False)"
      using False m(3) by (simp add: needed fp_le_def fp_less_def fp_eq_def fp_key_def)
    ultimately have r: "retry_after_seconds b = word_of_int \<lceil>rounded f64 q\<rceil>"
      using pos by (simp add: retry_after_seconds_def Let_def)
    have c: "0 \<le> \<lceil>rounded f64 q\<rceil>" "\<lceil>rounded f64 q\<rceil> \<le> 61" "rounded f64 q \<le> of_int \<lceil>rounded f64 q\<rceil>"
      using up rq by (simp_all add: ceiling_le_iff)
    then have "uint (retry_after_seconds b) = \<lceil>rounded f64 q\<rceil>"
      unfolding r by (simp add: uint_word_of_int_eq take_bit_int_eq_self)
    then have "k = max \<lceil>rounded f64 q\<rceil> 1" unfolding k_def by (simp add: max_def word_le_def)
    then show ?thesis using c by (auto simp: max_def)
  qed
  have "1 - ?T - eps - 100 * eps * r \<le> (q - eps * 100) * r"
    using m(2) q(3) by (simp add: left_diff_distrib)
  also have "\<dots> \<le> of_int k * r" using low k \<open>0 < r\<close> by (intro mult_right_mono) auto
  finally show ?thesis using k by (simp add: eps_def)
qed

lemma at_least_one: "at_least 1 x \<Longrightarrow> 1 \<le> c \<Longrightarrow> fp_le one_token (fp_min x (Fin c))"
  by (auto simp: at_least_def fp_min_def fp_le_def fp_less_def fp_eq_def fp_key_def one_token_def)

lemma full_bucket_serves:
  assumes "bucket_ok rpm b" and "tb_tokens b = Fin (capacity rpm)"
  shows "fst (try_acquire now b)"
proof -
  let ?p = "fp_mul f64 (as_secs_f64 (now - tb_last_update b)) (tb_fill_rate_per_sec b)"
  have p: "nonneg ?p" using assms(1) by (intro nonneg_mul nonneg_secs nonneg_rate)
  have "at_least 1 (fp_add f64 (Fin (capacity rpm)) ?p) \<or> fp_add f64 (Fin (capacity rpm)) ?p = NaN"
  proof (cases "?p = NaN")
    case False
    have "at_least (of_int (max 1 (uint rpm))) (fp_add f64 (Fin (capacity rpm)) ?p)"
      using uint_u32(2)[of rpm] p False capacity_bounds(1)[of rpm]
      by (intro at_least_add) (simp_all add: at_least_def capacity_int)
    then show ?thesis by (auto intro: at_least_mono)
  qed simp
  then have "fp_le one_token (fp_min (fp_add f64 (Fin (capacity rpm)) ?p) (Fin (capacity rpm)))"
    using capacity_bounds(1)[of rpm]
    by (auto intro: at_least_one) (auto simp: fp_min_def fp_le_def fp_less_def fp_eq_def fp_key_def one_token_def)
  then show ?thesis
    using assms by (simp add: try_acquire_def refill_def Let_def bucket_ok_def)
qed

lemma waiting_serves:
  assumes ok: "bucket_ok rpm b" and rpm: "rpm \<noteq> 0" and poor: "\<not> fp_le one_token (tb_tokens b)"
    and wait: "tb_last_update b + nat (uint (max (retry_after_seconds b) 1) + 1) * 10 ^ 9 \<le> now"
  shows "fst (try_acquire now b)"
proof -
  obtain r where rate: "tb_fill_rate_per_sec b = Fin r" "1 / 61 \<le> r" using rate_positive[OF ok rpm] .
  let ?T = "val (tb_tokens b)" and ?d = "now - tb_last_update b"
  define k where "k = uint (max (retry_after_seconds b) 1)"
  have k: "1 \<le> k" "k \<le> 100" "1 - ?T - 2 * eps - 100 * eps * r \<le> of_int k * r"
    using retry_covers[OF ok rpm poor rate] by (simp_all add: k_def)
  have T: "0 \<le> ?T" "?T < 1" "tb_tokens b = Zero False \<and> ?T = 0 \<or> tb_tokens b = Fin ?T \<and> 0 < ?T"
    using ok poor by (auto simp: bucket_ok_def between0_def fp_le_def fp_less_def fp_eq_def fp_key_def one_token_def val_def)
  have r0: "0 < r" using rate(2) by (rule less_le_trans[rotated]) simp
  have "nat (k + 1) * 10 ^ 9 \<le> ?d" using wait unfolding k_def[symmetric] by linarith
  then have "at_least (of_nat (nat (k + 1))) (as_secs_f64 ?d)" using k by (intro secs_at_least) simp_all
  then have secs: "at_least (of_int (k + 1)) (as_secs_f64 ?d)" using k by simp
  define q where "q = 1 - ?T + 1 / 200"
  have "100 * eps * r \<le> r / 2" using r0 by (simp add: eps_def)
  then have "1 - ?T - 2 * eps + r / 2 \<le> of_int (k + 1) * r" using k(3) by (simp add: distrib_right)
  moreover have "1 / 200 + 2 * eps \<le> r / 2" using rate(2) by (simp add: eps_def)
  ultimately have enough: "q \<le> of_int (k + 1) * r" by (simp add: q_def)
  have q: "0 < q" "tiny \<le> q" using T by (simp_all add: q_def tiny_def)
  have "1 - ?T \<le> q * (1 - eps)" and "1 - ?T \<le> q"
  proof -
    have "q * eps \<le> 2 * eps" using T by (intro mult_right_mono) (simp_all add: q_def eps_def)
    also have "\<dots> \<le> 1 / 200" by (simp add: eps_def)
    finally show "1 - ?T \<le> q * (1 - eps)" by (simp add: q_def right_diff_distrib)
    show "1 - ?T \<le> q" by (simp add: q_def)
  qed
  then have near: "1 - ?T \<le> (if q \<le> rounded f64 q then q else q * (1 - eps))" by simp
  have gained: "at_least (1 - ?T) (fp_mul f64 (as_secs_f64 ?d) (Fin r))"
  proof -
    from secs consider "as_secs_f64 ?d = Inf False" | v where "as_secs_f64 ?d = Fin v" "of_int (k + 1) \<le> v"
      by (auto simp: at_least_def)
    then show ?thesis
    proof cases
      case 1
      then show ?thesis using r0 by (simp add: at_least_def fp_neg_sign_def)
    next
      case (2 v)
      have "of_int (k + 1) * r \<le> v * r" using 2(2) r0 by (intro mult_right_mono) simp_all
      then have "q \<le> v * r" using enough by linarith
      then show ?thesis
        using fp_round_at_least[OF q(1) _ disjI2[OF q(2)]] near 2(1) by (auto intro: at_least_mono)
    qed
  qed
  have "at_least 1 (fp_add f64 (tb_tokens b) (fp_mul f64 (as_secs_f64 ?d) (Fin r)))"
  proof (cases "tb_tokens b = Zero False")
    case True
    then show ?thesis using gained T(3) by (auto simp: at_least_def)
  next
    case False
    then obtain v where v: "tb_tokens b = Fin v" "?T = v" using T(3) by auto
    from gained consider "fp_mul f64 (as_secs_f64 ?d) (Fin r) = Inf False"
      | w where "fp_mul f64 (as_secs_f64 ?d) (Fin r) = Fin w" "1 - v \<le> w"
      unfolding v(2) by (auto simp: at_least_def)
    then show ?thesis
    proof cases
      case 1
      then show ?thesis by (simp add: v(1) at_least_def)
    next
      case (2 w)
      then show ?thesis using at_least_int[of 1 "v + w"] by (simp add: v(1))
    qed
  qed
  then have "fp_le one_token (fp_min (fp_add f64 (tb_tokens b) (fp_mul f64 (as_secs_f64 ?d) (Fin r)))
      (Fin (capacity rpm)))"
    using capacity_bounds(1) by (rule at_least_one)
  then show ?thesis
    using ok by (simp add: try_acquire_def refill_def Let_def bucket_ok_def rate)
qed

text \<open>While a client does not ask in a tier, its bucket stays, is forgotten, or is full and new.\<close>

definition rested :: "rate_limit_config \<Rightarrow> ip_addr \<Rightarrow> rate_limit_tier \<Rightarrow> token_bucket \<Rightarrow> rate_limiter \<Rightarrow> bool" where
  "rested config ip tier b rl \<longleftrightarrow>
     (case hget (rl_clients rl) ip of
        None \<Rightarrow> True
      | Some cb \<Rightarrow> bucket_of tier cb = b \<or> tb_tokens (bucket_of tier cb) = Fin (capacity (tier_rpm config tier)))"

lemma full_tokens: "tb_tokens (rpm_bucket rpm now) = Fin (capacity rpm)"
proof -
  have "tb_tokens (rpm_bucket rpm now) = tb_max_tokens (rpm_bucket rpm now)"
    by (simp add: rpm_bucket_def new_bucket_def Let_def)
  then show ?thesis using rpm_bucket_ok[of rpm now] by (simp add: bucket_ok_def)
qed

lemma rested_step:
  assumes "limiter_ok config (event_time e) rl" and "rested config ip tier b rl" and "\<not> asks ip tier e"
  shows "rested config ip tier b (rl_step config e rl)"
proof (cases e)
  case (Request now ip' tier')
  show ?thesis
  proof (cases "limited config ip'")
    case True
    then obtain b' where "rl_clients (snd (check now ip' tier' config rl)) =
        hput ip' (set_bucket tier' b' ((buckets_at config now ip' rl)\<lparr>cb_last_seen := now\<rparr>)) (rl_clients rl)"
      using rl_clients_check by blast
    then show ?thesis
      using assms(2,3) Request by (auto simp: rested_def buckets_at_def full_tokens split: option.splits)
  qed (use assms(2) Request in \<open>simp add: check_unlimited\<close>)
next
  case (Prune now)
  have "distinct (hkeys (rl_clients rl))" using assms(1) by (simp add: limiter_ok_def)
  from hget_filter[OF this] show ?thesis
    using assms(2) Prune
    by (cases "hget (rl_clients rl) ip")
      (simp_all add: rested_def prune_worker_def prune_stale_def Let_def)
qed

lemma rested_run:
  assumes "limiter_ok config t rl" and "rested config ip tier b rl" and "\<forall>e \<in> set es. \<not> asks ip tier e"
    and "sorted (map event_time es)" and "\<forall>e \<in> set es. t \<le> event_time e \<and> event_time e \<le> u" and "t \<le> u"
  shows "rested config ip tier b (fold (rl_step config) es rl) \<and> limiter_ok config u (fold (rl_step config) es rl)"
  using assms
proof (induction es arbitrary: t rl)
  case Nil
  then show ?case by (auto intro: limiter_ok_later)
next
  case (Cons e es)
  have now: "limiter_ok config (event_time e) rl" using Cons.prems(1,5) by (auto intro: limiter_ok_later)
  show ?case
    unfolding fold_simps
    by (rule Cons.IH[OF limiter_ok_step[OF now] rested_step[OF now]]) (use Cons.prems in auto)
qed

lemma limiter_ok_run:
  assumes "limiter_ok config t rl" and "sorted (map event_time es)"
    and "\<forall>e \<in> set es. t \<le> event_time e \<and> event_time e \<le> u" and "t \<le> u"
  shows "limiter_ok config u (fold (rl_step config) es rl)"
  using assms
proof (induction es arbitrary: t rl)
  case Nil
  then show ?case by (auto intro: limiter_ok_later)
next
  case (Cons e es)
  have now: "limiter_ok config (event_time e) rl" using Cons.prems(1,3) by (auto intro: limiter_ok_later)
  show ?case
    unfolding fold_simps by (rule Cons.IH[OF limiter_ok_step[OF now]]) (use Cons.prems in auto)
qed

lemma limiter_ok_history:
  "sorted (map event_time es) \<Longrightarrow> \<forall>e \<in> set es. event_time e \<le> t \<Longrightarrow>
     limiter_ok config t (fold (rl_step config) es new_rate_limiter)"
  by (rule limiter_ok_run[of config 0]) simp_all

lemma gain_upto: "gain rpm d \<le> of_nat d / 10 ^ 9 * (of_int (uint rpm) / 60) * (1 + 1 / 2 ^ 50)"
  unfolding gain_def using uint_u32(1)[of rpm]
  by (intro mult_left_mono) (simp_all add: eps_def power_divide eval_nat_numeral)

lemma check_refused:
  assumes lim: "limited config ip" and ref: "check now ip tier config rl = (Inl wait, rl')"
    and ok: "limiter_ok config now rl"
  obtains b where "bucket_ok (tier_rpm config tier) b" "tb_last_update b = now"
    "\<not> fp_le one_token (tb_tokens b)" "wait = max (retry_after_seconds b) 1" "rested config ip tier b rl'"
    "limiter_ok config now rl'"
proof -
  obtain a b where ab: "try_acquire now (bucket_of tier (buckets_at config now ip rl)) = (a, b)" by fastforce
  note c = check_limited[OF lim ab]
  have a: "\<not> a" and w: "wait = max (retry_after_seconds b) 1"
    and cl: "rl_clients rl' = hput ip (set_bucket tier b ((buckets_at config now ip rl)\<lparr>cb_last_seen := now\<rparr>)) (rl_clients rl)"
    using ref unfolding c by (auto simp: Let_def split: if_splits)
  have "bucket_ok (tier_rpm config tier) b" "tb_last_update b = now"
    using bucket_ok_acquire[of "tier_rpm config tier"] acquire_last_update buckets_at_ok[OF ok, of ip] ab
    by (metis client_ok_def snd_conv)+
  moreover have "\<not> fp_le one_token (tb_tokens b)"
    using ab a by (auto simp: try_acquire_def Let_def split: if_splits)
  moreover have "rested config ip tier b rl'" by (simp add: rested_def cl)
  moreover have "limiter_ok config now rl'" using limiter_ok_check[OF ok, of ip tier] ref by simp
  ultimately show ?thesis using that w by blast
qed

lemma rested_serves:
  assumes lim: "limited config ip" and ok: "limiter_ok config later rl" and "rested config ip tier b rl"
    and b: "bucket_ok (tier_rpm config tier) b" "\<not> fp_le one_token (tb_tokens b)" "tier_rpm config tier \<noteq> 0"
    and wait: "tb_last_update b + nat (uint (max (retry_after_seconds b) 1) + 1) * 10 ^ 9 \<le> later"
  shows "fst (check later ip tier config rl) = Inr ()"
proof -
  obtain a b' where ab: "try_acquire later (bucket_of tier (buckets_at config later ip rl)) = (a, b')" by fastforce
  have "a"
  proof (cases "bucket_of tier (buckets_at config later ip rl) = b")
    case True
    then show ?thesis using waiting_serves[OF b(1,3,2) wait] ab by simp
  next
    case False
    then have "tb_tokens (bucket_of tier (buckets_at config later ip rl)) = Fin (capacity (tier_rpm config tier))"
      using assms(3) by (auto simp: rested_def buckets_at_def full_tokens split: option.splits)
    moreover have "bucket_ok (tier_rpm config tier) (bucket_of tier (buckets_at config later ip rl))"
      using buckets_at_ok[OF ok] by (simp add: client_ok_def)
    ultimately show ?thesis using full_bucket_serves ab by (metis fst_conv)
  qed
  then show ?thesis unfolding check_limited[OF lim ab] by (simp add: Let_def)
qed

text \<open>A client who comes for the first time is served; of two requests at one instant, one in a
  minute, the second is refused.\<close>

lemma newcomer_served:
  assumes "limited config ip" and "hget (rl_clients rl) ip = None"
  shows "fst (check now ip tier config rl) = Inr ()"
proof -
  obtain a b where ab: "try_acquire now (rpm_bucket (tier_rpm config tier) now) = (a, b)" by fastforce
  have "buckets_at config now ip rl = new_client_buckets config now" using assms(2) by (simp add: buckets_at_def)
  then have acquired: "try_acquire now (bucket_of tier (buckets_at config now ip rl)) = (a, b)"
    using ab by (simp only: bucket_of_new)
  have "a" using full_bucket_serves[OF rpm_bucket_ok full_tokens] ab by (metis fst_conv)
  then show ?thesis unfolding check_limited[OF assms(1) acquired] by (simp add: Let_def)
qed

lemma one_a_minute_refuses:
  assumes "limited config ip" and "tier_rpm config tier = 1" and "now < 2 ^ 64"
  shows "fst (check now ip tier config (snd (check now ip tier config new_rate_limiter))) \<noteq> Inr ()"
proof
  let ?es = "[Request now ip tier, Request now ip tier]"
  assume second: "fst (check now ip tier config (snd (check now ip tier config new_rate_limiter))) = Inr ()"
  have first: "fst (check now ip tier config new_rate_limiter) = Inr ()"
    using assms(1) by (intro newcomer_served) (simp_all add: new_rate_limiter_def)
  have cap: "capacity (tier_rpm config tier) = 1" by (simp add: assms(2) capacity_def)
  have "of_nat (let_through config ip tier ?es new_rate_limiter)
    \<le> budget config ip tier now new_rate_limiter + gain (tier_rpm config tier) (now - now)
      + of_nat (length (filter (asks ip tier) ?es)) * (2 * eps * capacity (tier_rpm config tier))"
    by (rule let_through_budget[OF limiter_ok_new assms(1)]) (use assms in simp_all)
  also have "let_through config ip tier ?es new_rate_limiter = 2" using first second by simp
  finally have "(2 :: rat) \<le> budget config ip tier now new_rate_limiter + 2 * (2 * eps)"
    unfolding cap by (simp add: gain_def)
  moreover have "budget config ip tier now new_rate_limiter \<le> 1" unfolding budget_def level_def cap by simp
  ultimately show False by (simp add: eps_def)
qed

end
