(* ===== verification/Http.thy ===== *)
theory Http
  imports Ip_Text Floats
begin

text \<open>
  Requests and responses as the handlers see them.  Header names are in lower case, as
  \<^verbatim>\<open>HeaderMap\<close> keeps them; a name may occur more than once, and \<^verbatim>\<open>get\<close> gives the first value.
  A JSON body stays a tree: \<^verbatim>\<open>serde_json\<close> writes it.
\<close>

type_synonym headers = "(rstr \<times> u8 list) list"

record request =
  rq_method :: rstr
  rq_path :: rstr
  rq_query :: rstr
  rq_headers :: headers
  rq_peer :: "ip_addr option"
  rq_body :: "u8 list"

datatype json = JNull | JBool bool | JInt int | JFloat fp | JStr rstr | JArr "json list" | JObj "(rstr \<times> json) list"

datatype body = NoBody | Bytes "u8 list" | Text rstr | Json json

record response =
  rs_status :: nat
  rs_headers :: headers
  rs_body :: body

text \<open>\<^verbatim>\<open>HeaderValue::to_str\<close>: visible ASCII and tabs only.\<close>

definition visible_ascii :: "u8 \<Rightarrow> bool" where
  "visible_ascii b \<longleftrightarrow> 32 \<le> b \<and> b < 127 \<or> b = 9"

definition header_text :: "headers \<Rightarrow> rstr \<Rightarrow> rstr option" where
  "header_text hs name =
     (case hget hs name of
        Some v \<Rightarrow> if list_all visible_ascii v then Some (map uint v) else None
      | None \<Rightarrow> None)"

definition header_value :: "rstr \<Rightarrow> u8 list" where
  "header_value s = map byte s"

definition respond :: "nat \<Rightarrow> headers \<Rightarrow> body \<Rightarrow> response" where
  "respond status hs b = \<lparr>rs_status = status, rs_headers = hs, rs_body = b\<rparr>"

text \<open>\<^verbatim>\<open>HeaderMap::insert\<close> replaces every value of the name.\<close>

definition set_header :: "rstr \<Rightarrow> rstr \<Rightarrow> response \<Rightarrow> response" where
  "set_header name v r = r\<lparr>rs_headers := hput name (header_value v) (rs_headers r)\<rparr>"

definition visible :: "rchar \<Rightarrow> bool" where
  "visible c \<longleftrightarrow> 32 \<le> c \<and> c < 127"

lemma uint_byte_visible: "visible c \<Longrightarrow> uint (byte c) = c \<and> visible_ascii (byte c)"
proof -
  assume "visible c"
  then have "uint (byte c) = c" "32 \<le> c" "c < 127" by (auto simp: visible_def)
  then show ?thesis by (simp add: visible_ascii_def word_le_def word_less_def)
qed

lemma header_text_put:
  "list_all visible s \<Longrightarrow> header_text (hput name (header_value s) hs) name = Some s"
proof -
  assume "list_all visible s"
  then have "list_all visible_ascii (header_value s) \<and> map uint (header_value s) = s"
    unfolding header_value_def by (induction s) (simp_all add: uint_byte_visible)
  then show ?thesis by (simp add: header_text_def)
qed

lemma header_text_other: "name' \<noteq> name \<Longrightarrow> header_text (hput name v hs) name' = header_text hs name'"
  by (simp add: header_text_def)

text \<open>An address is written without spaces and commas.\<close>

definition ip_char :: "rchar \<Rightarrow> bool" where
  "ip_char c \<longleftrightarrow> visible c \<and> c \<noteq> 32 \<and> c \<noteq> 44"

lemma show_ip_chars: "list_all ip_char (show_ip ip)"
proof -
  have dec: "list_all ip_char (show_int n)" if "0 \<le> n" for n
    using dec_digits_range[OF that] that by (fastforce simp: show_int_def list_all_iff ip_char_def visible_def)
  have hex: "list_all ip_char (show_hex n)" if n: "0 \<le> n" for n
  proof -
    obtain ds where "show_hex n = map hex_digit ds" "\<forall>d \<in> set ds. 0 \<le> d \<and> d < 16"
      using show_hex_digits[OF n] by blast
    then show ?thesis by (auto simp: list_all_iff hex_digit_def ip_char_def visible_def)
  qed
  have join: "\<forall>s \<in> set ss. list_all ip_char s \<Longrightarrow> ip_char c \<Longrightarrow> list_all ip_char (join_with c ss)" for c ss
    by (induction ss rule: induct_list012) auto
  have v4: "list_all ip_char (show_ipv4 v)" if "\<forall>n \<in> set v. 0 \<le> n" for v
    unfolding show_ipv4_def using that dec by (intro join) (auto simp: ip_char_def visible_def)
  have v6: "list_all ip_char (show_groups v)" if "\<forall>n \<in> set v. 0 \<le> n" for v
    unfolding show_groups_def using that hex by (intro join) (auto simp: ip_char_def visible_def)
  show ?thesis
  proof (cases ip)
    case (IPv4 a)
    have "\<forall>n \<in> set (groups_of 8 4 (uint a)). 0 \<le> n" using groups_of_range by blast
    then show ?thesis by (simp add: IPv4 v4)
  next
    case (IPv6 a)
    let ?g = "groups_of 16 8 (uint a)"
    have g: "\<forall>n \<in> set ?g. 0 \<le> n" using groups_of_range by blast
    then have "0 \<le> ?g ! 6" "0 \<le> ?g ! 7" by simp_all
    then have quad: "\<forall>n \<in> set [?g ! 6 div 256, ?g ! 6 mod 256, ?g ! 7 div 256, ?g ! 7 mod 256]. 0 \<le> n"
      by (simp add: pos_imp_zdiv_nonneg_iff)
    have "list_all ip_char (show_groups (take s ?g))" "list_all ip_char (show_groups (drop s ?g))" for s
      using g by (auto intro!: v6 dest: in_set_takeD in_set_dropD)
    then show ?thesis
      using v4[OF quad] v6[OF g]
      by (simp add: IPv6 show_ipv6_def lit_def ip_char_def visible_def split: prod.split)
  qed
qed

lemma show_ip_visible: "list_all visible (show_ip ip)"
  using show_ip_chars[of ip] by (auto simp: list_all_iff ip_char_def)

lemma ip_char_plain: "ip_char c \<Longrightarrow> c \<noteq> 44 \<and> \<not> is_whitespace c"
  by (simp add: ip_char_def visible_def is_whitespace_def)

end
