(* ===== verification/Sessions.thy ===== *)
theory Sessions
  imports Users_Db Http
begin

text \<open>
  \<^verbatim>\<open>src/utils/crypto.rs\<close> and \<^verbatim>\<open>src/server/auth.rs\<close>: signed session cookies and the user behind a
  request.  HMAC-SHA-256, MD5, bcrypt and Base64 come from libraries: the fields of \<open>crypto\<close>.
  \<open>epoch\<close> is the system time in seconds, \<open>None\<close> before 1970.
\<close>

record crypto =
  cy_hmac_sha256 :: "u8 list \<Rightarrow> u8 list \<Rightarrow> u8 list"
  cy_b64_encode :: "u8 list \<Rightarrow> rstr"
  cy_b64_decode :: "rstr \<Rightarrow> u8 list option"
  cy_md5_hex :: "u8 list \<Rightarrow> rstr"
  cy_bcrypt_hash :: "rstr \<Rightarrow> rstr option"
  cy_bcrypt_verify :: "rstr \<Rightarrow> rstr \<Rightarrow> bool option"

definition SESSION_VERSION :: rstr where
  "SESSION_VERSION = lit ''v1''"

definition SESSION_TTL_SECONDS :: u64 where
  "SESSION_TTL_SECONDS = 7 * 24 * 60 * 60"

definition SESSION_CLOCK_SKEW_SECONDS :: u64 where
  "SESSION_CLOCK_SKEW_SECONDS = 300"

definition mac_of :: "crypto \<Rightarrow> rstr \<Rightarrow> u8 list \<Rightarrow> u8 list" where
  "mac_of cy secret message = cy_hmac_sha256 cy (utf8_encode secret) message"

definition internal_auth_token :: "crypto \<Rightarrow> rstr \<Rightarrow> rstr" where
  "internal_auth_token cy secret =
     cy_b64_encode cy (mac_of cy secret (utf8_encode (lit ''ayanomi-internal-api-v1'')))"

definition verify_internal_auth_token :: "crypto \<Rightarrow> rstr \<Rightarrow> rstr \<Rightarrow> bool" where
  "verify_internal_auth_token cy secret token =
     (case cy_b64_decode cy token of
        None \<Rightarrow> False
      | Some signature \<Rightarrow> signature = mac_of cy secret (utf8_encode (lit ''ayanomi-internal-api-v1'')))"

definition privacy_fingerprint :: "crypto \<Rightarrow> rstr \<Rightarrow> rstr \<Rightarrow> rstr \<Rightarrow> rstr" where
  "privacy_fingerprint cy secret namespace v =
     (if v = [] then []
      else cy_b64_encode cy (mac_of cy secret (utf8_encode namespace @ [0] @ utf8_encode v)))"

definition md5_hex :: "crypto \<Rightarrow> rstr \<Rightarrow> rstr" where
  "md5_hex cy input = cy_md5_hex cy (utf8_encode input)"

definition hash_password :: "crypto \<Rightarrow> rstr \<Rightarrow> rstr option" where
  "hash_password cy password = cy_bcrypt_hash cy password"

definition verify_password :: "crypto \<Rightarrow> rstr \<Rightarrow> rstr \<Rightarrow> bool" where
  "verify_password cy password hash = (case cy_bcrypt_verify cy password hash of Some b \<Rightarrow> b | None \<Rightarrow> False)"

subsection \<open>Session cookies\<close>

definition session_payload :: "i32 \<Rightarrow> u64 \<Rightarrow> rstr \<Rightarrow> rstr" where
  "session_payload uid issued_at password_hash =
     SESSION_VERSION @ [58] @ show_int (sint uid) @ [58] @ show_int (uint issued_at) @ [58] @ password_hash"

definition session_mac :: "crypto \<Rightarrow> rstr \<Rightarrow> i32 \<Rightarrow> u64 \<Rightarrow> rstr \<Rightarrow> u8 list" where
  "session_mac cy secret uid issued_at password_hash =
     mac_of cy secret (utf8_encode (session_payload uid issued_at password_hash))"

definition sign_session :: "crypto \<Rightarrow> u64 option \<Rightarrow> i32 \<Rightarrow> rstr \<Rightarrow> rstr \<Rightarrow> rstr" where
  "sign_session cy epoch uid password_hash secret =
     (let issued_at = (case epoch of Some t \<Rightarrow> t | None \<Rightarrow> 0)
      in SESSION_VERSION @ [46] @ show_int (sint uid) @ [46] @ show_int (uint issued_at) @ [46]
           @ cy_b64_encode cy (session_mac cy secret uid issued_at password_hash))"

definition parse_i32 :: "rstr \<Rightarrow> i32 option" where
  "parse_i32 s = map_option word_of_int (parse_int (- (2 ^ 31)) (2 ^ 31 - 1) s)"

definition parse_u64 :: "rstr \<Rightarrow> u64 option" where
  "parse_u64 s = map_option word_of_int (parse_int 0 (2 ^ 64 - 1) s)"

definition session_user_id :: "rstr \<Rightarrow> i32 option" where
  "session_user_id cookie =
     (case split_on 46 cookie of
        version # uid # _ \<Rightarrow> if version \<noteq> SESSION_VERSION then None else parse_i32 uid
      | _ \<Rightarrow> None)"

definition session_expires_at :: "rstr \<Rightarrow> i64 option" where
  "session_expires_at cookie =
     (case split_on 46 cookie of
        [version, uid, iat, signature] \<Rightarrow>
          if version \<noteq> SESSION_VERSION \<or> parse_i32 uid = None then None
          else Option.bind (parse_u64 iat) (\<lambda>issued_at.
            let v = uint issued_at + uint SESSION_TTL_SECONDS
            in if 2 ^ 64 \<le> v \<or> 2 ^ 63 \<le> v then None else Some (word_of_int v))
      | _ \<Rightarrow> None)"

text \<open>\<^verbatim>\<open>saturating_add\<close> and \<^verbatim>\<open>saturating_sub\<close> on \<^verbatim>\<open>u64\<close>.\<close>

definition sat_add :: "u64 \<Rightarrow> u64 \<Rightarrow> u64" where
  "sat_add a b = word_of_int (min (2 ^ 64 - 1) (uint a + uint b))"

definition sat_sub :: "u64 \<Rightarrow> u64 \<Rightarrow> u64" where
  "sat_sub a b = (if b \<le> a then a - b else 0)"

definition session_fresh :: "u64 \<Rightarrow> u64 \<Rightarrow> bool" where
  "session_fresh now issued_at \<longleftrightarrow>
     \<not> (sat_add now SESSION_CLOCK_SKEW_SECONDS < issued_at \<or> SESSION_TTL_SECONDS < sat_sub now issued_at)"

definition verify_session :: "crypto \<Rightarrow> u64 option \<Rightarrow> rstr \<Rightarrow> rstr \<Rightarrow> rstr \<Rightarrow> i32 option" where
  "verify_session cy epoch cookie password_hash secret =
     Option.bind (session_user_id cookie) (\<lambda>uid.
       case split_on 46 cookie of
         [_, _, iat, sig] \<Rightarrow>
           Option.bind (parse_u64 iat) (\<lambda>issued_at.
           Option.bind (cy_b64_decode cy sig) (\<lambda>signature.
           Option.bind epoch (\<lambda>now.
             if \<not> session_fresh now issued_at then None
             else if signature = session_mac cy secret uid issued_at password_hash then Some uid
             else None)))
       | _ \<Rightarrow> None)"

subsection \<open>The user of a request\<close>

fun cookie_named :: "rstr \<Rightarrow> rstr list \<Rightarrow> rstr option" where
  "cookie_named name [] = None"
| "cookie_named name (cookie # cookies) =
     (case split_once 61 (trim cookie) of
        Some (n, v) \<Rightarrow> if n = name then Some v else cookie_named name cookies
      | None \<Rightarrow> cookie_named name cookies)"

definition session_cookie_value :: "headers \<Rightarrow> rstr option" where
  "session_cookie_value hs =
     Option.bind (header_text hs (lit ''cookie'')) (\<lambda>c. cookie_named (lit ''ayanomi_session'') (split_on 59 c))"

text \<open>\<open>now\<close> is the time of the database, in seconds.\<close>

definition get_authenticated_user ::
    "crypto \<Rightarrow> u64 option \<Rightarrow> i64 \<Rightarrow> rstr \<Rightarrow> users_db \<Rightarrow> headers \<Rightarrow> user option" where
  "get_authenticated_user cy epoch now secret db hs =
     Option.bind (session_cookie_value hs) (\<lambda>token.
       if is_session_revoked now db (privacy_fingerprint cy secret (lit ''revoked-session'') token) then None
       else
         Option.bind (session_user_id token) (\<lambda>uid.
         Option.bind (get_user_by_id db uid) (\<lambda>user.
         Option.bind (verify_session cy epoch token (us_password_hash user) secret) (\<lambda>_. Some user))))"

subsection \<open>What a cookie proves\<close>

text \<open>
  What the libraries document: decoding undoes encoding, and the URL-safe alphabet has no dot,
  no semicolon and no space.
\<close>

definition crypto_ok :: "crypto \<Rightarrow> bool" where
  "crypto_ok cy \<longleftrightarrow>
     (\<forall>bs. cy_b64_decode cy (cy_b64_encode cy bs) = Some bs
         \<and> list_all (\<lambda>c. visible c \<and> c \<notin> {32, 46, 59}) (cy_b64_encode cy bs))"

lemma split_by_append:
  "\<forall>c \<in> set w. \<not> p c \<Longrightarrow> p d \<Longrightarrow> split_by p (w @ d # s) = w # split_by p s"
  by (induction w) simp_all

lemma split_by_whole: "\<forall>c \<in> set w. \<not> p c \<Longrightarrow> split_by p w = [w]"
  by (induction w) simp_all

lemma parse_show_i32: "parse_i32 (show_int (sint uid)) = Some uid"
  using sint_range_size[of uid] by (simp add: parse_i32_def parse_show_int word_size)

lemma parse_show_u64: "parse_u64 (show_int (uint n)) = Some n"
  using uint_bounded[of n] by (simp add: parse_u64_def parse_show_int)

lemma show_int_chars: "c \<in> set (show_int k) \<Longrightarrow> c = 45 \<or> 48 \<le> c \<and> c \<le> 57"
  using dec_digits_range[of k c] dec_digits_range[of "- k" c] by (auto simp: show_int_def split: if_splits)

lemma version_chars: "\<forall>c \<in> set SESSION_VERSION. c \<noteq> 46"
  by (simp add: SESSION_VERSION_def lit_def)

lemma split_cookie:
  assumes "46 \<notin> set u" and "46 \<notin> set t" and "46 \<notin> set s"
  shows "split_on 46 (SESSION_VERSION @ [46] @ u @ [46] @ t @ [46] @ s) = [SESSION_VERSION, u, t, s]"
proof -
  have "\<forall>c \<in> set u. c \<noteq> 46" "\<forall>c \<in> set t. c \<noteq> 46" "\<forall>c \<in> set s. c \<noteq> 46" using assms by blast+
  then show ?thesis using version_chars by (simp add: split_by_append split_by_whole)
qed

lemma split_signed:
  assumes "crypto_ok cy"
  shows "split_on 46 (sign_session cy epoch uid password_hash secret) =
    [SESSION_VERSION, show_int (sint uid), show_int (uint (case epoch of Some t \<Rightarrow> t | None \<Rightarrow> 0)),
     cy_b64_encode cy (session_mac cy secret uid (case epoch of Some t \<Rightarrow> t | None \<Rightarrow> 0) password_hash)]"
  unfolding sign_session_def Let_def using assms
  by (intro split_cookie) (auto simp: crypto_ok_def list_all_iff dest: show_int_chars)

lemma session_user_id_signed:
  "crypto_ok cy \<Longrightarrow> session_user_id (sign_session cy epoch uid password_hash secret) = Some uid"
  by (simp add: session_user_id_def split_signed parse_show_i32)

text \<open>A cookie is good for its user and password hash, from its issue on and for a week.\<close>

lemma verify_signed:
  assumes "crypto_ok cy"
  shows "verify_session cy (Some now) (sign_session cy (Some t) uid password_hash secret) password_hash' secret' =
    (if session_fresh now t \<and> session_mac cy secret uid t password_hash = session_mac cy secret' uid t password_hash'
     then Some uid else None)"
  using assms
  by (simp add: verify_session_def session_user_id_signed split_signed parse_show_u64) (simp add: crypto_ok_def)

lemma session_fresh_iff:
  "session_fresh now t \<longleftrightarrow>
     uint t \<le> min (2 ^ 64 - 1) (uint now + 300) \<and> uint now \<le> uint t + 7 * 24 * 60 * 60"
proof -
  have add: "uint (sat_add now SESSION_CLOCK_SKEW_SECONDS) = min (2 ^ 64 - 1) (uint now + 300)"
    using uint_bounded[of now] by (simp add: sat_add_def SESSION_CLOCK_SKEW_SECONDS_def uint_word_of_int_eq take_bit_int_eq_self min_def)
  have sub: "uint (sat_sub now t) = (if uint t \<le> uint now then uint now - uint t else 0)"
    using uint_bounded[of now] by (simp add: sat_sub_def word_le_def uint_sub_if')
  have ttl: "uint SESSION_TTL_SECONDS = 7 * 24 * 60 * 60" by (simp add: SESSION_TTL_SECONDS_def)
  show ?thesis
    unfolding session_fresh_def word_less_def add sub ttl by auto
qed

text \<open>Whatever is accepted carries the code of the user, the time and the password hash.\<close>

lemma verify_sound:
  assumes "verify_session cy epoch cookie password_hash secret = Some uid"
  obtains v u iat sig t now where "split_on 46 cookie = [v, u, iat, sig]" "v = SESSION_VERSION" "parse_i32 u = Some uid"
    "parse_u64 iat = Some t" "epoch = Some now" "session_fresh now t"
    "cy_b64_decode cy sig = Some (session_mac cy secret uid t password_hash)"
  using assms unfolding verify_session_def session_user_id_def
  by (auto split: list.splits if_splits option.splits bind_splits)

lemma authenticated_sound:
  assumes "get_authenticated_user cy epoch now secret db hs = Some user"
  obtains token uid where "session_cookie_value hs = Some token"
    "\<not> is_session_revoked now db (privacy_fingerprint cy secret (lit ''revoked-session'') token)"
    "session_user_id token = Some uid" "get_user_by_id db uid = Some user"
    "verify_session cy epoch token (us_password_hash user) secret = Some uid"
proof -
  obtain token uid v where t: "session_cookie_value hs = Some token"
    "\<not> is_session_revoked now db (privacy_fingerprint cy secret (lit ''revoked-session'') token)"
    "session_user_id token = Some uid" "get_user_by_id db uid = Some user"
    "verify_session cy epoch token (us_password_hash user) secret = Some v"
    using assms unfolding get_authenticated_user_def by (auto split: bind_splits if_splits)
  moreover have "v = uid" using t(3,5) by (auto simp: verify_session_def split: bind_splits list.splits if_splits)
  ultimately show ?thesis using that by blast
qed

text \<open>Being logged in needs an account, a fresh code over its present password hash, and no revocation.\<close>

lemma authenticated_needs_code:
  assumes "get_authenticated_user cy epoch now secret db hs = Some user"
  shows "\<exists>token t clock sig uid. session_cookie_value hs = Some token
    \<and> \<not> is_session_revoked now db (privacy_fingerprint cy secret (lit ''revoked-session'') token)
    \<and> get_user_by_id db uid = Some user \<and> epoch = Some clock \<and> session_fresh clock t
    \<and> last (split_on 46 token) = sig
    \<and> cy_b64_decode cy sig = Some (session_mac cy secret uid t (us_password_hash user))"
proof -
  obtain token uid where a: "session_cookie_value hs = Some token"
    "\<not> is_session_revoked now db (privacy_fingerprint cy secret (lit ''revoked-session'') token)"
    "get_user_by_id db uid = Some user" "verify_session cy epoch token (us_password_hash user) secret = Some uid"
    using authenticated_sound[OF assms] by metis
  obtain v u iat sig t clock where "split_on 46 token = [v, u, iat, sig]" "epoch = Some clock"
    "session_fresh clock t" "cy_b64_decode cy sig = Some (session_mac cy secret uid t (us_password_hash user))"
    using verify_sound[OF a(4)] by metis
  then have "last (split_on 46 token) = sig" "epoch = Some clock" "session_fresh clock t"
    "cy_b64_decode cy sig = Some (session_mac cy secret uid t (us_password_hash user))" by simp_all
  with a(1-3) show ?thesis by blast
qed

lemma trim_plain: "\<forall>c \<in> set s. \<not> is_whitespace c \<Longrightarrow> trim s = s"
proof -
  have keep: "dropWhile is_whitespace w = w" if "\<forall>c \<in> set w. \<not> is_whitespace c" for w
    using that by (cases w) simp_all
  assume "\<forall>c \<in> set s. \<not> is_whitespace c"
  then show ?thesis by (simp add: trim_def trim_start_def keep)
qed

text \<open>The cookie a browser sends back.\<close>

definition session_cookie :: "rstr \<Rightarrow> headers" where
  "session_cookie token = [(lit ''cookie'', header_value (lit ''ayanomi_session='' @ token))]"

lemma session_cookie_read:
  assumes "list_all (\<lambda>c. visible c \<and> c \<notin> {32, 59}) token"
  shows "session_cookie_value (session_cookie token) = Some token"
proof -
  let ?c = "lit ''ayanomi_session='' @ token"
  have vis: "list_all visible ?c" using assms by (auto simp: lit_def list_all_iff visible_def)
  have "\<forall>c \<in> set ?c. c \<noteq> 59" using assms by (auto simp: lit_def list_all_iff)
  then have "split_on 59 ?c = [?c]" by (rule split_by_whole)
  moreover have "trim ?c = ?c"
  proof -
    have w: "\<not> is_whitespace c" if "visible c" "c \<noteq> 32" for c using that by (auto simp: is_whitespace_def visible_def)
    have "\<forall>c \<in> set ?c. \<not> is_whitespace c" using assms w by (auto simp: lit_def list_all_iff visible_def)
    then show ?thesis by (rule trim_plain)
  qed
  moreover have "split_once 61 ?c = Some (lit ''ayanomi_session'', token)" by (simp add: lit_def)
  ultimately show ?thesis
    using header_text_put[OF vis, of "lit ''cookie''" "[]"]
    by (simp add: session_cookie_value_def session_cookie_def hput_def)
qed

end
