(* ===== verification/Badges_Db.thy ===== *)
theory Badges_Db
  imports Chat_Db Sql
begin

text \<open>
  \<^verbatim>\<open>src/db/badges.rs\<close>: badges and who holds them.  The ids of the rows of \<^verbatim>\<open>user_badges\<close> only
  order them, so that table is the list of its rows in the order of insertion.  A date is its
  text, \<open>now\<close> what \<^verbatim>\<open>CURRENT_TIMESTAMP\<close> gives.
\<close>

record badge_row =
  bg_id :: int
  bg_name :: rstr
  bg_description :: rstr
  bg_icon_url :: rstr
  bg_tag :: rstr
  bg_created_at :: rstr

record award_row =
  aw_user_id :: i64
  aw_badge_id :: int
  aw_awarded_at :: rstr

record badges_db =
  bd_badges :: "badge_row list"
  bd_next :: int
  bd_awards :: "award_row list"

definition create_badge :: "rstr \<Rightarrow> rstr \<Rightarrow> rstr \<Rightarrow> rstr \<Rightarrow> rstr \<Rightarrow> badges_db \<Rightarrow> int \<times> badges_db" where
  "create_badge now name description icon_url tag db =
     (bd_next db,
      db\<lparr>bd_badges := bd_badges db
           @ [\<lparr>bg_id = bd_next db, bg_name = name, bg_description = description, bg_icon_url = icon_url,
               bg_tag = tag, bg_created_at = now\<rparr>],
         bd_next := bd_next db + 1\<rparr>)"

text \<open>The starter badges: name, description, icon and tag.\<close>

definition default_badges :: "(rstr \<times> rstr \<times> rstr \<times> rstr) list" where
  "default_badges =
     [(lit ''Server Admin'', lit ''Administrator and operator of AyanomiBancho'', [0x1F451], lit ''AM''),
      (lit ''Tournament Champion'', lit ''Multiplayer tournament winner'', [0x1F3C6], lit ''CHAMP''),
      (lit ''Early Pioneer'', lit ''Pioneer player who joined early in server history'', [0x1F680], lit ''OG''),
      (lit ''Supporter'', lit ''Generous supporter of the server'', [0x1F496], lit ''SUP''),
      (lit ''Pro Clicker'', lit ''Deadeye rhythm clicker with remarkable skills'', [0x1F3AF], lit ''PRO'')]"

definition empty_badges_db :: badges_db where
  "empty_badges_db = \<lparr>bd_badges = [], bd_next = 1, bd_awards = []\<rparr>"

definition init_badges_db :: "rstr \<Rightarrow> badges_db \<Rightarrow> badges_db" where
  "init_badges_db now db =
     (if bd_badges db = [] then
        fold (\<lambda>(name, desc, icon, tag) db. snd (create_badge now name desc icon tag db)) default_badges db
      else db)"

text \<open>
  \<^verbatim>\<open>INSERT OR IGNORE\<close>: a second award is ignored; an award of a badge that does not exist
  violates the foreign key, which \<^verbatim>\<open>OR IGNORE\<close> does not cover (\<open>None\<close>).
\<close>

definition holds :: "i32 \<Rightarrow> int \<Rightarrow> award_row \<Rightarrow> bool" where
  "holds uid badge_id a \<longleftrightarrow> aw_user_id a = scast uid \<and> aw_badge_id a = badge_id"

definition award_badge :: "rstr \<Rightarrow> i32 \<Rightarrow> int \<Rightarrow> badges_db \<Rightarrow> (bool \<times> badges_db) option" where
  "award_badge now uid badge_id db =
     (if \<exists>a \<in> set (bd_awards db). holds uid badge_id a then Some (False, db)
      else if \<forall>b \<in> set (bd_badges db). bg_id b \<noteq> badge_id then None
      else Some (True, db\<lparr>bd_awards := bd_awards db
        @ [\<lparr>aw_user_id = scast uid, aw_badge_id = badge_id, aw_awarded_at = now\<rparr>]\<rparr>))"

definition revoke_badge :: "i32 \<Rightarrow> int \<Rightarrow> badges_db \<Rightarrow> bool \<times> badges_db" where
  "revoke_badge uid badge_id db =
     (\<exists>a \<in> set (bd_awards db). holds uid badge_id a,
      db\<lparr>bd_awards := filter (\<lambda>a. \<not> holds uid badge_id a) (bd_awards db)\<rparr>)"

text \<open>\<^verbatim>\<open>created_at\<close> of the result is the date of the award.\<close>

definition get_user_badges :: "badges_db \<Rightarrow> i32 \<Rightarrow> badge_row list" where
  "get_user_badges db uid =
     [b\<lparr>bg_created_at := aw_awarded_at a\<rparr>.
        a \<leftarrow> bd_awards db, aw_user_id a = scast uid, b \<leftarrow> bd_badges db, bg_id b = aw_badge_id a]"

text \<open>\<^verbatim>\<open>UPPER\<close> of SQLite changes ASCII letters only.\<close>

definition user_has_badge_tag :: "badges_db \<Rightarrow> i32 \<Rightarrow> rstr \<Rightarrow> bool" where
  "user_has_badge_tag db uid tag \<longleftrightarrow>
     (\<exists>a \<in> set (bd_awards db). \<exists>b \<in> set (bd_badges db).
        bg_id b = aw_badge_id a \<and> aw_user_id a = scast uid \<and> eq_ignore_ascii_case (bg_tag b) tag)"

definition list_all_badges :: "badges_db \<Rightarrow> (badge_row \<times> int) list" where
  "list_all_badges db =
     map (\<lambda>b. (b, int (length (filter (\<lambda>a. aw_badge_id a = bg_id b) (bd_awards db))))) (bd_badges db)"

definition get_user_display_name :: "badges_db \<Rightarrow> i32 \<Rightarrow> rstr \<Rightarrow> rstr" where
  "get_user_display_name db uid base_username =
     user_display_name (Some (map bg_tag (get_user_badges db uid))) base_username"

subsection \<open>The constraints of the tables\<close>

definition badges_ok :: "badges_db \<Rightarrow> bool" where
  "badges_ok db \<longleftrightarrow>
     sorted_wrt (\<lambda>a b. bg_id a < bg_id b) (bd_badges db)
     \<and> (\<forall>b \<in> set (bd_badges db). bg_id b < bd_next db)
     \<and> distinct (map (\<lambda>a. (aw_user_id a, aw_badge_id a)) (bd_awards db))
     \<and> (\<forall>a \<in> set (bd_awards db). \<exists>b \<in> set (bd_badges db). bg_id b = aw_badge_id a)"

lemma badges_ok_create [keeps]: "badges_ok db \<Longrightarrow> badges_ok (snd (create_badge now name desc icon tag db))"
  by (fastforce simp: badges_ok_def create_badge_def sorted_wrt_append)

lemma badges_ok_init: "badges_ok (init_badges_db now empty_badges_db)"
  by (simp add: init_badges_db_def default_badges_def empty_badges_db_def create_badge_def badges_ok_def)

lemma badges_ok_award [keeps]: "badges_ok db \<Longrightarrow> award_badge now uid bid db = Some (new, db') \<Longrightarrow> badges_ok db'"
  unfolding badges_ok_def award_badge_def holds_def by (force split: if_splits)

lemma badges_ok_revoke [keeps]: "badges_ok db \<Longrightarrow> badges_ok (snd (revoke_badge uid bid db))"
  by (auto simp: badges_ok_def revoke_badge_def distinct_map_filter)

lemma scast_i64_inj [simp]: "(scast (a :: i32) :: i64) = scast b \<longleftrightarrow> a = b"
proof
  assume "(scast a :: i64) = scast b"
  then have "sint (scast a :: i64) = sint (scast b :: i64)" by simp
  then show "a = b" by (simp add: sint_up_scast is_up signed_word_eqI)
qed simp

text \<open>Whoever is given a badge has its tag, and loses it with the badge.\<close>

lemma awarded_tag:
  assumes "award_badge now uid bid db = Some (new, db')" and "b \<in> set (bd_badges db)" and "bg_id b = bid"
  shows "user_has_badge_tag db' uid (bg_tag b)"
proof -
  have "\<exists>a \<in> set (bd_awards db'). holds uid bid a" and "bd_badges db' = bd_badges db"
    using assms(1) by (auto simp: award_badge_def holds_def split: if_splits)
  then show ?thesis
    using assms(2,3) unfolding user_has_badge_tag_def holds_def by (metis eq_ignore_ascii_case_refl)
qed

lemma revoked_tag:
  assumes "badges_ok db" and "\<forall>b \<in> set (bd_badges db). eq_ignore_ascii_case (bg_tag b) tag \<longrightarrow> bg_id b = bid"
  shows "\<not> user_has_badge_tag (snd (revoke_badge uid bid db)) uid tag"
  using assms by (auto simp: revoke_badge_def user_has_badge_tag_def holds_def)

lemma others_keep_tags:
  assumes "uid' \<noteq> uid"
  shows "user_has_badge_tag (snd (revoke_badge uid bid db)) uid' tag = user_has_badge_tag db uid' tag"
    and "award_badge now uid bid db = Some (new, db') \<Longrightarrow> user_has_badge_tag db' uid' tag = user_has_badge_tag db uid' tag"
proof -
  show "user_has_badge_tag (snd (revoke_badge uid bid db)) uid' tag = user_has_badge_tag db uid' tag"
    using assms by (auto simp: revoke_badge_def user_has_badge_tag_def holds_def)
  assume "award_badge now uid bid db = Some (new, db')"
  then have "db' = db \<or> db' = db\<lparr>bd_awards := bd_awards db
      @ [\<lparr>aw_user_id = scast uid, aw_badge_id = bid, aw_awarded_at = now\<rparr>]\<rparr>"
    by (auto simp: award_badge_def split: if_splits)
  then show "user_has_badge_tag db' uid' tag = user_has_badge_tag db uid' tag"
    using assms by (elim disjE) (auto simp: user_has_badge_tag_def)
qed

end
