(* ===== verification/Guards.thy ===== *)
theory Guards
  imports Sessions Badges_Db Rate_Limit Scores_Db Chat_Db
begin

unbundle bit_operations_syntax

text \<open>
  \<^verbatim>\<open>src/server/ratelimit.rs\<close> and the layers of \<^verbatim>\<open>build_web_router\<close> (\<^verbatim>\<open>src/server/mod.rs\<close>): the
  address of a client, the rate limit, the guard of the admin routes, the guard against
  cross-site requests, and the headers every answer carries.  A layer gets the rest of the
  stack as the argument \<open>next\<close>; \<^verbatim>\<open>Url::parse\<close> is the parameter \<open>url_host\<close>.
\<close>

record web_config =
  wc_secret_key :: rstr
  wc_domain :: rstr
  wc_default_country :: u8
  wc_ratelimit :: rate_limit_config

text \<open>
  What the layers and the handlers behind them read and change (\<^verbatim>\<open>AppState\<close>): the main database
  with the match history, the databases of chat and badges, the state of the packet engine, the
  limiter, and the files by their paths.  \<open>si_notices\<close> are the statistics updates posted to the
  packet engine.
\<close>

record site =
  si_db :: score_db
  si_history :: history_db
  si_chat :: chat_table
  si_badges :: badges_db
  si_bancho :: bancho_state
  si_limiter :: rate_limiter
  si_files :: "(rstr, u8 list) hmap"
  si_notices :: "(i32 \<times> u8 \<times> bool) list"

abbreviation si_users :: "site \<Rightarrow> users_db" where
  "si_users si \<equiv> sd_users (si_db si)"

text \<open>The time, as an \<^verbatim>\<open>Instant\<close>, as the system time, and as the database sees it.\<close>

record clock =
  ck_instant :: instant
  ck_epoch :: "u64 option"
  ck_now :: i64
  ck_timestamp :: rstr

subsection \<open>The address of a client\<close>

definition is_loopback :: "ip_addr \<Rightarrow> bool" where
  "is_loopback ip = (case ip of IPv4 a \<Rightarrow> ipv4_loopback a | IPv6 a \<Rightarrow> a = 1)"

fun forwarded_ip :: "headers \<Rightarrow> rstr list \<Rightarrow> ip_addr option" where
  "forwarded_ip hs [] = None"
| "forwarded_ip hs (name # names) =
     (case Option.bind (header_text hs name) (\<lambda>raw. parse_ip (trim (hd (split_on 44 raw)))) of
        Some ip \<Rightarrow> Some ip
      | None \<Rightarrow> forwarded_ip hs names)"

definition trusted_client_ip :: "headers \<Rightarrow> ip_addr option \<Rightarrow> ip_addr" where
  "trusted_client_ip hs peer_ip =
     (let peer = (case peer_ip of Some ip \<Rightarrow> ip | None \<Rightarrow> IPv4 0)
      in if (case peer_ip of Some ip \<Rightarrow> is_loopback ip | None \<Rightarrow> False) then
           (case forwarded_ip hs [lit ''cf-connecting-ip'', lit ''x-forwarded-for'', lit ''x-real-ip''] of
              Some ip \<Rightarrow> ip
            | None \<Rightarrow> peer)
         else peer)"

definition extract_client_ip :: "request \<Rightarrow> ip_addr" where
  "extract_client_ip rq = trusted_client_ip (rq_headers rq) (rq_peer rq)"

definition octet :: "nat \<Rightarrow> u32 \<Rightarrow> u32" where
  "octet i a = drop_bit (24 - 8 * i) a AND 0xff"

definition is_local_ip :: "ip_addr \<Rightarrow> bool" where
  "is_local_ip ip =
     (case ip of
        IPv4 a \<Rightarrow>
          octet 0 a = 127 \<or> octet 0 a = 10
          \<or> octet 0 a = 172 \<and> 16 \<le> octet 1 a \<and> octet 1 a \<le> 31
          \<or> octet 0 a = 192 \<and> octet 1 a = 168
          \<or> octet 0 a = 169 \<and> octet 1 a = 254
      | IPv6 a \<Rightarrow>
          a = 1 \<or> drop_bit 112 a AND 0xfe00 = 0xfc00 \<or> drop_bit 112 a AND 0xffc0 = 0xfe80)"

subsection \<open>Rate limiting\<close>

definition show_tier :: "rate_limit_tier \<Rightarrow> rstr" where
  "show_tier t = (case t of General \<Rightarrow> lit ''General'' | Bancho \<Rightarrow> lit ''Bancho''
     | Direct \<Rightarrow> lit ''Direct'' | Sensitive \<Rightarrow> lit ''Sensitive'')"

definition too_many_requests :: "rstr \<Rightarrow> rate_limit_tier \<Rightarrow> u64 \<Rightarrow> response" where
  "too_many_requests message tier retry_after =
     set_header (lit ''content-type'') (lit ''application/json'')
       (set_header (lit ''retry-after'') (show_int (uint retry_after))
         (respond 429 []
           (Json (JObj [(lit ''error'', JStr message), (lit ''tier'', JStr (show_tier tier)),
              (lit ''retry_after_seconds'', JInt (uint retry_after))]))))"

text \<open>A handler that panics gives no answer: the connection is closed.\<close>

type_synonym handler = "request \<Rightarrow> site \<Rightarrow> response option \<times> site"

definition ratelimit_middleware :: "clock \<Rightarrow> web_config \<Rightarrow> handler \<Rightarrow> handler" where
  "ratelimit_middleware ck cfg next rq si =
     (let client_ip = extract_client_ip rq;
          tier = classify_tier (rq_method rq) (rq_path rq);
          (res, rl) = check (ck_instant ck) client_ip tier (wc_ratelimit cfg) (si_limiter si);
          si' = si\<lparr>si_limiter := rl\<rparr>
      in case res of
           Inr _ \<Rightarrow> next rq si'
         | Inl retry_after \<Rightarrow>
             (Some (too_many_requests (lit ''Too many requests. Please slow down (Anti-Raid Protection active).'')
                tier retry_after), si'))"

subsection \<open>Admin routes\<close>

definition is_admin_authorized :: "crypto \<Rightarrow> clock \<Rightarrow> web_config \<Rightarrow> site \<Rightarrow> headers \<Rightarrow> bool" where
  "is_admin_authorized cy ck cfg si hs =
     (case get_authenticated_user cy (ck_epoch ck) (ck_now ck) (wc_secret_key cfg) (si_users si) hs of
        Some user \<Rightarrow> user_has_badge_tag (si_badges si) (us_id user) (lit ''AM'')
      | None \<Rightarrow> False)"

definition is_admin_route :: "rstr \<Rightarrow> rstr \<Rightarrow> bool" where
  "is_admin_route meth path \<longleftrightarrow>
     path = lit ''/admin'' \<or> path = lit ''/api/status''
     \<or> starts_with path (lit ''/api/backgrounds/upload'')
     \<or> starts_with path (lit ''/api/backgrounds/delete'')
     \<or> meth = lit ''DELETE'' \<and> starts_with path (lit ''/api/backgrounds/'')
     \<or> starts_with path (lit ''/api/badges/create'')
     \<or> starts_with path (lit ''/api/badges/award'')
     \<or> starts_with path (lit ''/api/badges/revoke'')
     \<or> starts_with path (lit ''/api/chat/history'')"

definition forbidden_admin :: response where
  "forbidden_admin =
     set_header (lit ''cache-control'') (lit ''no-store'')
       (set_header (lit ''content-type'') (lit ''application/json'')
         (respond 403 []
           (Json (JObj [(lit ''error'', JStr (lit ''Forbidden: Requires an account with [AM] badge''))]))))"

text \<open>The admin page itself is let through: it renders the login gate.\<close>

definition admin_local_guard_middleware :: "crypto \<Rightarrow> clock \<Rightarrow> web_config \<Rightarrow> handler \<Rightarrow> handler" where
  "admin_local_guard_middleware cy ck cfg next rq si =
     (if is_admin_route (rq_method rq) (rq_path rq)
         \<and> \<not> is_admin_authorized cy ck cfg si (rq_headers rq)
         \<and> rq_path rq \<noteq> lit ''/admin'' then (Some forbidden_admin, si)
      else next rq si)"

subsection \<open>Cross-site requests\<close>

definition strip_prefix :: "rstr \<Rightarrow> rstr \<Rightarrow> rstr option" where
  "strip_prefix s p = (if starts_with s p then Some (drop (length p) s) else None)"

definition or_take :: "'a option \<Rightarrow> 'a option \<Rightarrow> 'a option" where
  "or_take x y = (case x of Some _ \<Rightarrow> x | None \<Rightarrow> y)"

definition configured_host :: "rstr \<Rightarrow> rstr" where
  "configured_host domain =
     (let without_scheme =
            (case or_take (strip_prefix (trim domain) (lit ''https://'')) (strip_prefix (trim domain) (lit ''http://'')) of
               Some s \<Rightarrow> s | None \<Rightarrow> trim domain)
      in hd (split_on 58 (hd (split_on 47 without_scheme))))"

definition is_trusted_origin_or_host :: "rstr \<Rightarrow> rstr option \<Rightarrow> rstr \<Rightarrow> bool" where
  "is_trusted_origin_or_host origin_host req_host configured_domain \<longleftrightarrow>
     (let conf_host = configured_host configured_domain
      in eq_ignore_ascii_case origin_host conf_host
         \<or> (case strip_prefix conf_host (lit ''www.'') of
              Some stripped \<Rightarrow> eq_ignore_ascii_case origin_host stripped
            | None \<Rightarrow>
                (case strip_prefix origin_host (lit ''www.'') of
                   Some stripped \<Rightarrow> eq_ignore_ascii_case stripped conf_host
                 | None \<Rightarrow> False))
         \<or> (case req_host of Some rh \<Rightarrow> eq_ignore_ascii_case origin_host (configured_host rh) | None \<Rightarrow> False)
         \<or> eq_ignore_ascii_case origin_host (lit ''localhost'')
         \<or> (case parse_ip origin_host of Some ip \<Rightarrow> is_local_ip ip | None \<Rightarrow> False))"

definition browser_mutation :: "rstr \<Rightarrow> rstr \<Rightarrow> bool" where
  "browser_mutation meth path \<longleftrightarrow>
     meth \<notin> {lit ''GET'', lit ''HEAD'', lit ''OPTIONS''}
     \<and> (path = lit ''/api/login'' \<or> path = lit ''/api/logout'' \<or> path = lit ''/api/register''
        \<or> starts_with path (lit ''/api/profile/'') \<or> starts_with path (lit ''/api/backgrounds/'')
        \<or> starts_with path (lit ''/api/badges/''))"

definition csrf_trusted :: "(rstr \<Rightarrow> rstr option) \<Rightarrow> rstr \<Rightarrow> headers \<Rightarrow> bool" where
  "csrf_trusted url_host domain hs =
     (let req_host = header_text hs (lit ''host'');
          origin_host = Option.bind (header_text hs (lit ''origin'')) url_host;
          referer_host = Option.bind (header_text hs (lit ''referer'')) url_host
      in case or_take origin_host referer_host of
           Some h \<Rightarrow> is_trusted_origin_or_host h req_host domain
         | None \<Rightarrow>
             (case header_text hs (lit ''sec-fetch-site'') of
                Some s \<Rightarrow> \<not> eq_ignore_ascii_case s (lit ''cross-site'')
              | None \<Rightarrow> True))"

definition forbidden_csrf :: response where
  "forbidden_csrf =
     set_header (lit ''cache-control'') (lit ''no-store'')
       (respond 403 []
         (Json (JObj [(lit ''success'', JBool False),
            (lit ''message'', JStr (lit ''Cross-site request rejected (CSRF protection active).''))])))"

definition csrf_guard_middleware :: "(rstr \<Rightarrow> rstr option) \<Rightarrow> web_config \<Rightarrow> handler \<Rightarrow> handler" where
  "csrf_guard_middleware url_host cfg next rq si =
     (if browser_mutation (rq_method rq) (rq_path rq) \<and> \<not> csrf_trusted url_host (wc_domain cfg) (rq_headers rq)
      then (Some forbidden_csrf, si)
      else next rq si)"

subsection \<open>Headers of every answer\<close>

definition private_path :: "rstr \<Rightarrow> bool" where
  "private_path path \<longleftrightarrow>
     path \<in> set (map lit [''/api/login'', ''/api/logout'', ''/api/register'', ''/users'', ''/users/'',
        ''/admin'', ''/api/status''])
     \<or> starts_with path (lit ''/api/profile/'')"

definition content_security_policy :: rstr where
  "content_security_policy = lit (''default-src 'self'; base-uri 'self'; object-src 'none'; frame-ancestors 'none'; form-action 'self'; '' @
     ''script-src 'self' 'unsafe-inline' https://challenges.cloudflare.com; style-src 'self' 'unsafe-inline' https://fonts.googleapis.com; '' @
     ''font-src 'self' https://fonts.gstatic.com; img-src 'self' data: https:; connect-src 'self' https://challenges.cloudflare.com; '' @
     ''frame-src https://challenges.cloudflare.com'')"

definition secure_headers :: "rstr \<Rightarrow> response \<Rightarrow> response" where
  "secure_headers path r =
     (let r = set_header (lit ''content-security-policy'') content_security_policy
                (set_header (lit ''permissions-policy'') (lit ''camera=(), microphone=(), geolocation=()'')
                  (set_header (lit ''referrer-policy'') (lit ''no-referrer'')
                    (set_header (lit ''x-frame-options'') (lit ''DENY'')
                      (set_header (lit ''x-content-type-options'') (lit ''nosniff'') r))))
      in if private_path path then
           set_header (lit ''pragma'') (lit ''no-cache'') (set_header (lit ''cache-control'') (lit ''no-store'') r)
         else r)"

definition security_headers_middleware :: "handler \<Rightarrow> handler" where
  "security_headers_middleware next rq si =
     (let (r, si') = next rq si in (map_option (secure_headers (rq_path rq)) r, si'))"

subsection \<open>The stack\<close>

text \<open>
  The layers of the web router, outermost first; the last one added is the outermost.  The
  limit on the size of a body acts when a handler reads it.
\<close>

definition web_stack ::
    "crypto \<Rightarrow> (rstr \<Rightarrow> rstr option) \<Rightarrow> clock \<Rightarrow> web_config \<Rightarrow> handler \<Rightarrow> handler" where
  "web_stack cy url_host ck cfg routes =
     security_headers_middleware
       (ratelimit_middleware ck cfg
         (admin_local_guard_middleware cy ck cfg
           (csrf_guard_middleware url_host cfg routes)))"

definition bancho_stack :: "clock \<Rightarrow> web_config \<Rightarrow> handler \<Rightarrow> handler" where
  "bancho_stack ck cfg routes = security_headers_middleware (ratelimit_middleware ck cfg routes)"

end
