(* ===== verification/Gateway.thy ===== *)
theory Gateway
  imports Guards
begin

text \<open>
  \<^verbatim>\<open>src/server/gateway.rs\<close>: the public entrance.  It refuses data-centre addresses and floods,
  picks the service, replaces the forwarding headers and hands the request on.  The services
  behind it are the parameter \<open>upstream\<close>: the answer of a port, \<open>None\<close> when it cannot be reached.
\<close>

record gateway_config =
  gc_block_vpn :: bool
  gc_ratelimit :: rate_limit_config
  gc_bancho_port :: u16
  gc_web_port :: u16
  gc_roseflower_port :: u16

datatype service = Bancho_Service | Web_Service | Roseflower_Service

definition service_port :: "gateway_config \<Rightarrow> service \<Rightarrow> u16" where
  "service_port cfg s = (case s of Bancho_Service \<Rightarrow> gc_bancho_port cfg
     | Web_Service \<Rightarrow> gc_web_port cfg | Roseflower_Service \<Rightarrow> gc_roseflower_port cfg)"

definition target_service :: "rstr \<Rightarrow> rstr \<Rightarrow> rstr \<Rightarrow> service" where
  "target_service meth path host =
     (if meth = lit ''POST'' \<and> (path = lit ''/'' \<or> path = lit ''/c'') then Bancho_Service
      else if starts_with host (lit ''roseflower.'') \<or> path = lit ''/multi'' \<or> starts_with path (lit ''/multi/'')
              \<or> path = lit ''/api/multi'' \<or> starts_with path (lit ''/api/multi/'') then Roseflower_Service
      else Web_Service)"

definition target_url :: "u16 \<Rightarrow> rstr \<Rightarrow> rstr \<Rightarrow> rstr" where
  "target_url port path query =
     lit ''http://127.0.0.1:'' @ show_int (uint port) @ path @ (if query = [] then [] else 63 # query)"

definition dropped_header :: "rstr \<Rightarrow> bool" where
  "dropped_header name \<longleftrightarrow>
     name \<in> set (map lit [''host'', ''connection'', ''forwarded'', ''x-forwarded-for'', ''x-real-ip'',
       ''cf-connecting-ip'', ''x-forwarded-host'', ''x-forwarded-proto''])"

text \<open>\<^verbatim>\<open>insert\<close> keeps the last value of a name that is repeated.\<close>

definition forward_headers :: "ip_addr \<Rightarrow> rstr \<Rightarrow> headers \<Rightarrow> headers" where
  "forward_headers client_ip host hs =
     (let kept = fold (\<lambda>(name, v) m. if dropped_header name then m else hput name v m) hs [];
          kept = hput (lit ''x-forwarded-for'') (header_value (show_ip client_ip)) kept
      in if host = [] then kept else hput (lit ''x-forwarded-host'') (header_value host) kept)"

definition request_host :: "headers \<Rightarrow> rstr" where
  "request_host hs =
     map ascii_lower (case header_text hs (lit ''host'') of Some h \<Rightarrow> h | None \<Rightarrow> [])"

text \<open>
  The answer keeps the first value of every header; the bytes of the body come with a type of
  their own until the service's replaces it.
\<close>

definition relay_response :: "response \<Rightarrow> response" where
  "relay_response resp =
     (let first = fold (\<lambda>(name, v) m. if hget m name = None then hput name v m else m) (rs_headers resp) []
      in resp\<lparr>rs_headers := fold (\<lambda>(name, v). hput name v) first
            [(lit ''content-type'', header_value (lit ''application/octet-stream''))]\<rparr>)"

definition vpn_refused :: response where
  "vpn_refused = respond 403 [] (Text (lit ''Access denied: VPN or Datacenter Proxy is not permitted.''))"

definition proxy_handler ::
    "instant \<Rightarrow> gateway_config \<Rightarrow> (u16 \<Rightarrow> rstr \<Rightarrow> request \<Rightarrow> response option) \<Rightarrow> ip_addr \<Rightarrow> request
       \<Rightarrow> rate_limiter \<Rightarrow> response \<times> rate_limiter" where
  "proxy_handler now cfg upstream client_ip rq rl =
     (if gc_block_vpn cfg \<and> is_known_vpn_or_datacenter client_ip then (vpn_refused, rl)
      else
        let tier = classify_tier (rq_method rq) (rq_path rq);
            (res, rl') = check now client_ip tier (gc_ratelimit cfg) rl
        in case res of
             Inl retry_after \<Rightarrow>
               (too_many_requests (lit ''Too many requests. Please slow down.'') tier retry_after, rl')
           | Inr _ \<Rightarrow>
               let host = request_host (rq_headers rq);
                   port = service_port cfg (target_service (rq_method rq) (rq_path rq) host);
                   rq' = rq\<lparr>rq_headers := forward_headers client_ip host (rq_headers rq),
                            rq_peer := Some (IPv4 (ipv4 127 0 0 1))\<rparr>
               in if 10 * 1024 * 1024 < length (rq_body rq) then (respond 400 [] NoBody, rl')
                  else
                    case upstream port (target_url port (rq_path rq) (rq_query rq)) rq' of
                      Some resp \<Rightarrow> (relay_response resp, rl')
                    | None \<Rightarrow>
                        (respond 502 [] (Text (lit ''Service temporarily unavailable (Fault Isolated)'')), rl'))"

subsection \<open>The services see the true address\<close>

lemma hget_put_fold:
  "dropped_header name \<Longrightarrow>
     hget (fold (\<lambda>(n, v) m. if dropped_header n then m else hput n v m) hs m) name = hget m name"
  by (induction hs arbitrary: m) auto

lemma forwarded_names:
  "lit ''cf-connecting-ip'' \<noteq> lit ''x-forwarded-for''" "lit ''x-forwarded-host'' \<noteq> lit ''x-forwarded-for''"
  "lit ''x-forwarded-host'' \<noteq> lit ''cf-connecting-ip''"
  "dropped_header (lit ''cf-connecting-ip'')" "dropped_header (lit ''x-forwarded-for'')"
  by (simp_all add: lit_def dropped_header_def)

lemma forward_headers_client:
  "header_text (forward_headers ip host hs) (lit ''x-forwarded-for'') = Some (show_ip ip)"
  "header_text (forward_headers ip host hs) (lit ''cf-connecting-ip'') = None"
  using forwarded_names show_ip_visible[of ip]
  by (simp_all add: forward_headers_def Let_def header_text_put header_text_other)
    (simp_all add: header_text_def hget_put_fold)


lemma trusted_behind_gateway:
  assumes "is_loopback peer"
  shows "trusted_client_ip (forward_headers ip host hs) (Some peer) = ip"
proof -
  let ?s = "show_ip ip"
  have chars: "\<forall>c \<in> set ?s. c \<noteq> 44" "\<forall>c \<in> set ?s. \<not> is_whitespace c"
    using show_ip_chars[of ip] ip_char_plain unfolding list_all_iff by blast+
  then have "parse_ip (trim (hd (split_on 44 ?s))) = Some ip"
    by (simp add: split_by_whole trim_plain parse_show_ip)
  then show ?thesis
    using assms by (simp add: trusted_client_ip_def forward_headers_client)
qed

text \<open>
  A request that comes from the gateway is counted under the address of the client's own
  connection, whatever forwarding headers the client sent.
\<close>

lemma gateway_loopback: "is_loopback (IPv4 (ipv4 127 0 0 1))"
  by (simp add: is_loopback_def ipv4_loopback_def in_net_interval ipv4_def)

lemma gateway_request_ip:
  "extract_client_ip (rq\<lparr>rq_headers := forward_headers ip host hs, rq_peer := Some (IPv4 (ipv4 127 0 0 1))\<rparr>) = ip"
  unfolding extract_client_ip_def using trusted_behind_gateway[OF gateway_loopback, of ip host hs] by simp

lemma direct_request_ip:
  assumes "rq_peer rq = Some peer" and "\<not> is_loopback peer"
  shows "extract_client_ip rq = peer"
  using assms by (simp add: extract_client_ip_def trusted_client_ip_def)

end
