(* ===== verification/Web_Properties.thy ===== *)
theory Web_Properties
  imports Rate_Bounds Gateway
begin

text \<open>Properties of the layers in front of the handlers: rate limits, sessions, guards, the gateway.\<close>

subsection \<open>Rate limits\<close>

text \<open>C15: In any window of time, of whatever requests and clean-ups, a client who is limited gets
  through at most the capacity of the tier, its rate times the length of the window, and a rounding
  of the binary floats that stays below one request up to \<open>2 ^ 52\<close> divided by the capacity requests.
  The clock does not run backwards and stays below \<open>2 ^ 64\<close> nanoseconds.
  The tier must be configured for at least one request a minute (\<open>tier_rpm config tier \<noteq> 0\<close>): one for
  0 starts each bucket with one token that never grows back, and a fresh bucket after each clean-up.\<close>

theorem rate_limit_holds_in_every_window:
  assumes "limited config ip" and "tier_rpm config tier \<noteq> 0"
    and "sorted (map event_time (before @ window))"
    and "\<forall>e \<in> set before. event_time e \<le> t" and "\<forall>e \<in> set window. t \<le> event_time e \<and> event_time e \<le> u"
    and "t \<le> u" and "u < 2 ^ 64"
  shows "of_nat (let_through config ip tier window (fold (rl_step config) before new_rate_limiter))
    \<le> of_int (uint (tier_rpm config tier))
      + of_nat (u - t) / 10 ^ 9 * (of_int (uint (tier_rpm config tier)) / 60) * (1 + 1 / 2 ^ 50)
      + of_nat (length (filter (asks ip tier) window)) * (of_int (uint (tier_rpm config tier)) / 2 ^ 52 :: rat)"
proof -
  let ?rpm = "tier_rpm config tier"
  let ?rl = "fold (rl_step config) before new_rate_limiter"
  have ok: "limiter_ok config t ?rl" using assms(3,4) by (intro limiter_ok_history) (simp_all add: sorted_append)
  have cap: "capacity ?rpm = of_int (uint ?rpm)"
  proof -
    have "1 \<le> uint ?rpm" using assms(2) uint_u32(1)[of ?rpm] by (metis int_one_le_iff_zero_less order_le_less uint_0_iff)
    then show ?thesis by (simp add: capacity_def del: of_int_uint)
  qed
  have rounding: "2 * eps * capacity ?rpm = of_int (uint ?rpm) / 2 ^ 52" by (simp add: cap eps_def del: of_int_uint)
  have "of_nat (let_through config ip tier window ?rl)
    \<le> budget config ip tier t ?rl + gain ?rpm (u - t)
      + of_nat (length (filter (asks ip tier) window)) * (2 * eps * capacity ?rpm)"
    by (rule let_through_budget[OF ok assms(1,2)]) (use assms(3,5-7) in \<open>simp_all add: sorted_append\<close>)
  moreover have "budget config ip tier t ?rl \<le> of_int (uint ?rpm)"
    unfolding cap[symmetric] by (simp add: budget_def level_def)
  ultimately show ?thesis
    unfolding rounding using add_right_mono[OF add_mono[OF _ gain_upto]] order_trans by blast
qed

definition sample_limits :: rate_limit_config where
  "sample_limits = \<lparr>rl_enabled = True, rl_general_rpm = 60, rl_bancho_rpm = 60, rl_direct_rpm = 60,
     rl_sensitive_rpm = 3, rl_whitelist_private = False\<rparr>"

definition sample_ip :: ip_addr where
  "sample_ip = IPv4 (ipv4 203 0 113 195)"

text \<open>Three requests a minute: of five at one instant at most three get through.\<close>

theorem rate_limit_holds_in_every_window_witness:
  "let_through sample_limits sample_ip Sensitive (replicate 5 (Request 7 sample_ip Sensitive)) new_rate_limiter \<le> 3"
proof -
  have "of_nat (let_through sample_limits sample_ip Sensitive (replicate 5 (Request 7 sample_ip Sensitive))
      (fold (rl_step sample_limits) [] new_rate_limiter)) \<le> (3 + 0 + 5 * (3 / 2 ^ 52) :: rat)"
    using rate_limit_holds_in_every_window[of sample_limits sample_ip Sensitive "[]"
        "replicate 5 (Request 7 sample_ip Sensitive)" 7 7]
    by (simp add: limited_def sample_limits_def)
  also have "\<dots> < of_nat 4" by simp
  finally show ?thesis by (simp only: fold_simps of_nat_less_iff id_apply)
qed

text \<open>C16: In a tier configured for at least one request a minute (\<open>tier_rpm config tier \<noteq> 0\<close>), a client
  who is refused and asks again one second after the announced wait, in the same tier and whatever
  other clients and the clean-up do meanwhile, is served.  In a tier for 0 requests the announced
  minute is no promise: its bucket never grows.\<close>

theorem waiting_client_is_served:
  assumes "limited config ip" and "tier_rpm config tier \<noteq> 0"
    and "sorted (map event_time before)" and "\<forall>e \<in> set before. event_time e \<le> now"
    and "check now ip tier config (fold (rl_step config) before new_rate_limiter) = (Inl wait, rl)"
    and "sorted (map event_time meanwhile)"
    and "\<forall>e \<in> set meanwhile. \<not> asks ip tier e \<and> now \<le> event_time e \<and> event_time e \<le> later"
    and "now + (unat wait + 1) * 10 ^ 9 \<le> later"
  shows "fst (check later ip tier config (fold (rl_step config) meanwhile rl)) = Inr ()"
proof -
  have ok: "limiter_ok config now (fold (rl_step config) before new_rate_limiter)"
    using assms(3,4) by (rule limiter_ok_history)
  obtain b where b: "bucket_ok (tier_rpm config tier) b" "tb_last_update b = now"
    "\<not> fp_le one_token (tb_tokens b)" "wait = max (retry_after_seconds b) 1"
    and rested: "rested config ip tier b rl" "limiter_ok config now rl"
    using check_refused[OF assms(1,5) ok] .
  have "now \<le> later" using assms(8) by linarith
  moreover have "\<forall>e \<in> set meanwhile. \<not> asks ip tier e"
    "\<forall>e \<in> set meanwhile. now \<le> event_time e \<and> event_time e \<le> later" using assms(7) by blast+
  ultimately have "rested config ip tier b (fold (rl_step config) meanwhile rl)
      \<and> limiter_ok config later (fold (rl_step config) meanwhile rl)"
    using rested_run[OF rested(2,1) _ assms(6)] by blast
  moreover have "tb_last_update b + nat (uint (max (retry_after_seconds b) 1) + 1) * 10 ^ 9 \<le> later"
  proof -
    have "nat (uint wait + 1) = unat wait + 1"
      unfolding unat_eq_nat_uint using uint_ge_0[of wait] by arith
    then show ?thesis using assms(8) unfolding b(2) b(4)[symmetric] by (simp only:)
  qed
  ultimately show ?thesis using rested_serves[OF assms(1)] b(1,3) assms(2) by blast
qed

definition one_a_minute :: rate_limit_config where
  "one_a_minute = sample_limits\<lparr>rl_sensitive_rpm := 1\<rparr>"

text \<open>With one request a minute the second one is refused; it is served after the wait.\<close>

theorem waiting_client_is_served_witness:
  "\<exists>wait rl. check 7 sample_ip Sensitive one_a_minute
      (rl_step one_a_minute (Request 7 sample_ip Sensitive) new_rate_limiter) = (Inl wait, rl)
    \<and> fst (check (7 + (unat wait + 1) * 10 ^ 9) sample_ip Sensitive one_a_minute rl) = Inr ()"
proof -
  let ?first = "Request 7 sample_ip Sensitive"
  let ?rl = "rl_step one_a_minute ?first new_rate_limiter"
  have l: "limited one_a_minute sample_ip" "tier_rpm one_a_minute Sensitive \<noteq> 0"
    by (simp_all add: limited_def one_a_minute_def sample_limits_def)
  have "fst (check 7 sample_ip Sensitive one_a_minute ?rl) \<noteq> Inr ()"
    unfolding rl_step.simps
    by (rule one_a_minute_refuses[OF l(1)]) (simp_all add: one_a_minute_def)
  then obtain wait where "fst (check 7 sample_ip Sensitive one_a_minute ?rl) = Inl wait"
    by (cases "fst (check 7 sample_ip Sensitive one_a_minute ?rl)") simp_all
  then obtain rl where refused: "check 7 sample_ip Sensitive one_a_minute ?rl = (Inl wait, rl)"
    by (metis prod.collapse)
  have "fst (check (7 + (unat wait + 1) * 10 ^ 9) sample_ip Sensitive one_a_minute
      (fold (rl_step one_a_minute) [] rl)) = Inr ()"
    by (rule waiting_client_is_served[OF l, of "[?first]" 7 wait rl]) (use refused in simp_all)
  with refused show ?thesis by auto
qed

subsection \<open>Sessions\<close>

lemma session_cookie_of_signed:
  assumes "crypto_ok cy"
  shows "session_cookie_value (session_cookie (sign_session cy epoch uid h secret))
    = Some (sign_session cy epoch uid h secret)"
proof (rule session_cookie_read)
  have num: "list_all (\<lambda>c. visible c \<and> c \<notin> {32, 59}) (show_int k)" for k
    by (auto simp: list_all_iff visible_def dest: show_int_chars)
  show "list_all (\<lambda>c. visible c \<and> c \<notin> {32, 59}) (sign_session cy epoch uid h secret)"
    using num assms
    by (auto simp: sign_session_def Let_def SESSION_VERSION_def lit_def visible_def list_all_iff crypto_ok_def)
qed

text \<open>C17: A cookie issued to a user authenticates exactly that user, from five minutes before its
  issue (the clock skew) until a week after, unless it has been revoked.\<close>

theorem issued_cookie_authenticates:
  assumes "crypto_ok cy" and "get_user_by_id db uid = Some user"
  shows "(let token = sign_session cy (Some t) uid (us_password_hash user) secret in
    get_authenticated_user cy (Some now) db_now secret db (session_cookie token) =
      (if \<not> is_session_revoked db_now db (privacy_fingerprint cy secret (lit ''revoked-session'') token)
          \<and> uint t \<le> min (2 ^ 64 - 1) (uint now + 300) \<and> uint now \<le> uint t + 7 * 24 * 60 * 60
       then Some user else None))"
  unfolding Let_def get_authenticated_user_def session_cookie_of_signed[OF assms(1)]
  using assms by (simp add: session_user_id_signed verify_signed session_fresh_iff del: of_int_uint)

text \<open>A code that copies its message stands for the libraries, and letters for the bytes.\<close>

fun sample_decode :: "rstr \<Rightarrow> u8 list option" where
  "sample_decode [] = Some []"
| "sample_decode (a # b # s) = map_option ((#) (byte ((a - 97) * 16 + (b - 97)))) (sample_decode s)"
| "sample_decode [a] = None"

definition sample_crypto :: crypto where
  "sample_crypto = \<lparr>cy_hmac_sha256 = (\<lambda>k m. k @ 0 # m),
     cy_b64_encode = (\<lambda>bs. concat (map (\<lambda>b. [97 + uint b div 16, 97 + uint b mod 16]) bs)),
     cy_b64_decode = sample_decode,
     cy_md5_hex = map uint, cy_bcrypt_hash = Some, cy_bcrypt_verify = (\<lambda>p h. Some (p = h))\<rparr>"

lemma sample_crypto_ok: "crypto_ok sample_crypto"
proof -
  have "sample_decode (cy_b64_encode sample_crypto bs) = Some bs" for bs
    by (induction bs) (simp_all add: sample_crypto_def byte_def)
  moreover have "visible (97 + uint b div 16) \<and> 97 + uint b div 16 \<notin> {32, 46, 59}"
    "visible (97 + uint b mod 16) \<and> 97 + uint b mod 16 \<notin> {32, 46, 59}" for b :: u8
    using uint_bounded[of b] pos_imp_zdiv_nonneg_iff[of 16 "uint b"] pos_mod_bound[of 16 "uint b"]
      pos_mod_sign[of 16 "uint b"] by (auto simp: visible_def)
  ultimately have "sample_decode (cy_b64_encode sample_crypto bs) = Some bs
      \<and> list_all (\<lambda>c. visible c \<and> c \<notin> {32, 46, 59}) (cy_b64_encode sample_crypto bs)" for bs
    by (auto simp: list_all_iff sample_crypto_def)
  then show ?thesis by (simp add: crypto_ok_def sample_crypto_def)
qed

definition sample_site_user :: user_row where
  "sample_site_user = \<lparr>ur_id = 7, ur_username = lit ''Cookiezi'', ur_password_hash = lit ''hash'', ur_email = [],
     ur_privileges = 0, ur_country = 0, ur_bio = [], ur_created_at = 0\<rparr>"

definition sample_users :: users_db where
  "sample_users = empty_users_db\<lparr>ud_users := [sample_site_user], ud_next_user := 8\<rparr>"

lemma sample_user_found: "get_user_by_id sample_users 7 = Some (user_of_row sample_site_user)"
  by (simp add: get_user_by_id_def sample_users_def sample_site_user_def)

text \<open>Good for a week, and not one second more.\<close>

theorem issued_cookie_authenticates_witness:
  "(let token = sign_session sample_crypto (Some 1000) 7 (lit ''hash'') (lit ''secret'') in
     get_authenticated_user sample_crypto (Some 605800) 605800 (lit ''secret'') sample_users (session_cookie token)
       = Some (user_of_row sample_site_user)
     \<and> get_authenticated_user sample_crypto (Some 605801) 605801 (lit ''secret'') sample_users (session_cookie token) = None)"
  using issued_cookie_authenticates[OF sample_crypto_ok sample_user_found, of 1000 "lit ''secret''" 605800 605800]
    issued_cookie_authenticates[OF sample_crypto_ok sample_user_found, of 1000 "lit ''secret''" 605801 605801]
  by (simp add: Let_def user_of_row_def sample_site_user_def is_session_revoked_def sample_users_def empty_users_db_def)

lemma session_payload_inj:
  assumes "session_payload uid t h = session_payload uid' t' h'"
  shows "uid = uid' \<and> t = t' \<and> h = h'"
proof -
  have plain: "\<forall>c \<in> set (show_int k). c \<noteq> 58" if "0 \<le> k \<or> k < 0" for k
    using show_int_chars[of _ k] by fastforce
  have split: "split_once 58 (show_int k @ 58 # s) = Some (show_int k, s)" for k s
  proof -
    have "split_once 58 (w @ 58 # s) = Some (w, s)" if "\<forall>c \<in> set w. c \<noteq> 58" for w
      using that by (induction w) simp_all
    then show ?thesis using plain by fastforce
  qed
  have "show_int (sint uid) @ 58 # show_int (uint t) @ 58 # h = show_int (sint uid') @ 58 # show_int (uint t') @ 58 # h'"
    using assms by (simp add: session_payload_def)
  then have "show_int (sint uid) = show_int (sint uid')" and rest: "show_int (uint t) @ 58 # h = show_int (uint t') @ 58 # h'"
    using split by (metis option.inject prod.inject)+
  moreover have "show_int (uint t) = show_int (uint t') \<and> h = h'"
    using rest split by (metis option.inject prod.inject)
  ultimately show ?thesis using parse_show_i32 parse_show_u64 by (metis option.inject)
qed

text \<open>C18: A change of the password ends every session signed before: the cookie signs a message that
  holds the old hash, the check computes the code of the message of the same user and time with the
  new hash, these two messages differ, and the cookie is refused unless exactly these two have the
  same code under the server's secret.  Of Base64 this needs the round trip and the alphabet.\<close>

theorem password_change_ends_sessions:
  assumes "crypto_ok cy" and "valid_str old" and "valid_str new" and "old \<noteq> new"
  shows "utf8_encode (session_payload uid t old) \<noteq> utf8_encode (session_payload uid t new)
    \<and> (verify_session cy epoch (sign_session cy (Some t) uid old secret) new secret = None
       \<or> mac_of cy secret (utf8_encode (session_payload uid t old))
           = mac_of cy secret (utf8_encode (session_payload uid t new)))"
proof -
  have num: "is_scalar c" if "c \<in> set (show_int k)" for c k
    using show_int_chars[OF that] by (auto simp: is_scalar_def is_surrogate_def)
  have "valid_str (session_payload uid t h)" if "valid_str h" for h
    using that num
    by (auto simp: session_payload_def valid_str_def SESSION_VERSION_def lit_def is_scalar_def is_surrogate_def)
  then have "utf8_encode (session_payload uid t old) \<noteq> utf8_encode (session_payload uid t new)"
    using session_payload_inj utf8_encode_inj assms(2-4) by metis
  moreover have "session_mac cy secret uid t old = session_mac cy secret uid t new"
    if v: "verify_session cy epoch (sign_session cy (Some t) uid old secret) new secret = Some v" for v
  proof -
    obtain now where "epoch = Some now" using verify_sound v by metis
    with v show ?thesis using assms(1) by (simp add: verify_signed split: if_splits)
  qed
  ultimately show ?thesis
    by (cases "verify_session cy epoch (sign_session cy (Some t) uid old secret) new secret")
      (auto simp: session_mac_def)
qed

text \<open>With a code that never collides the old cookie is refused.\<close>

theorem password_change_ends_sessions_witness:
  "verify_session sample_crypto (Some 1000) (sign_session sample_crypto (Some 1000) 7 (lit ''old'') (lit ''secret''))
     (lit ''new'') (lit ''secret'') = None"
proof -
  have "mac_of sample_crypto secret m = mac_of sample_crypto secret m' \<longleftrightarrow> m = m'" for secret m m'
    by (simp add: mac_of_def sample_crypto_def)
  moreover have "valid_str (lit ''old'')" "valid_str (lit ''new'')" "lit ''old'' \<noteq> lit ''new''"
    by (simp_all add: valid_str_def is_scalar_def is_surrogate_def lit_def)
  ultimately show ?thesis
    using password_change_ends_sessions[OF sample_crypto_ok, of "lit ''old''" "lit ''new''" 7 1000 "Some 1000"
        "lit ''secret''"] by blast
qed

text \<open>The same session written with a sign.\<close>

definition respelled :: "crypto \<Rightarrow> u64 \<Rightarrow> i32 \<Rightarrow> rstr \<Rightarrow> rstr \<Rightarrow> rstr" where
  "respelled cy t uid password_hash secret =
     SESSION_VERSION @ [46] @ (43 # show_int (sint uid)) @ [46] @ show_int (uint t) @ [46]
       @ cy_b64_encode cy (session_mac cy secret uid t password_hash)"

lemma parse_i32_plus:
  assumes "0 \<le> sint (uid :: i32)"
  shows "parse_i32 (43 # show_int (sint uid)) = Some uid"
proof -
  have "hd (show_int (sint uid)) \<noteq> 43 \<and> hd (show_int (sint uid)) \<noteq> 45"
    using dec_digits_range[OF assms, of "hd (dec_digits (sint uid))"] assms by (auto simp: show_int_def)
  moreover have "show_int (sint uid) \<noteq> []" using assms by (simp add: show_int_def)
  ultimately show ?thesis
    using parse_show_i32[of uid] by (cases "show_int (sint uid)") (auto simp: parse_i32_def parse_int_def)
qed

text \<open>C24: Revoking a cookie does not end its session: revocation looks at the text of the cookie, and
  the number in it can be written in another way under the same signature.\<close>

theorem revoked_session_respelled:
  assumes "crypto_ok cy" and "get_user_by_id db uid = Some user" and "0 \<le> sint uid"
    and "uint t \<le> uint now" and "uint now \<le> uint t + 7 * 24 * 60 * 60"
    and "privacy_fingerprint cy secret (lit ''revoked-session'') (sign_session cy (Some t) uid (us_password_hash user) secret)
      \<noteq> privacy_fingerprint cy secret (lit ''revoked-session'') (respelled cy t uid (us_password_hash user) secret)"
    and "\<not> is_session_revoked db_now db
          (privacy_fingerprint cy secret (lit ''revoked-session'') (respelled cy t uid (us_password_hash user) secret))"
    and "sint db_now < sint expires"
  shows "(let token = sign_session cy (Some t) uid (us_password_hash user) secret;
      db' = revoke_session db_now (privacy_fingerprint cy secret (lit ''revoked-session'') token) expires db in
    get_authenticated_user cy (Some now) db_now secret db' (session_cookie token) = None
    \<and> get_authenticated_user cy (Some now) db_now secret db'
        (session_cookie (respelled cy t uid (us_password_hash user) secret)) = Some user)"
proof -
  let ?h = "us_password_hash user"
  let ?token = "sign_session cy (Some t) uid ?h secret"
  let ?other = "respelled cy t uid ?h secret"
  let ?fp = "privacy_fingerprint cy secret (lit ''revoked-session'')"
  let ?db = "revoke_session db_now (?fp ?token) expires db"
  have revoked: "is_session_revoked db_now ?db (?fp ?token)" "\<not> is_session_revoked db_now ?db (?fp ?other)"
    using assms(6-8) by (auto simp: is_session_revoked_def revoke_session_def Let_def)
  have user: "get_user_by_id ?db uid = Some user"
    using assms(2) by (simp add: get_user_by_id_def revoke_session_def Let_def)
  have num: "list_all (\<lambda>c. visible c \<and> c \<notin> {32, 59}) (show_int k)" for k
    by (auto simp: list_all_iff visible_def dest: show_int_chars)
  have "list_all (\<lambda>c. visible c \<and> c \<notin> {32, 59}) ?other"
    using num assms(1)
    by (auto simp: respelled_def Let_def SESSION_VERSION_def lit_def visible_def list_all_iff crypto_ok_def)
  then have cookie: "session_cookie_value (session_cookie ?other) = Some ?other" by (rule session_cookie_read)
  have parts: "split_on 46 ?other = [SESSION_VERSION, 43 # show_int (sint uid), show_int (uint t),
      cy_b64_encode cy (session_mac cy secret uid t ?h)]"
    unfolding respelled_def using assms(1)
    by (intro split_cookie) (auto simp: crypto_ok_def list_all_iff dest: show_int_chars)
  have fresh: "session_fresh now t" using assms(4,5) uint_bounded[of t] by (simp add: session_fresh_iff del: of_int_uint)
  have "session_user_id ?other = Some uid"
    by (simp add: session_user_id_def parts parse_i32_plus[OF assms(3)])
  moreover from this have "verify_session cy (Some now) ?other ?h secret = Some uid"
    using assms(1) fresh by (simp add: verify_session_def parts parse_show_u64) (simp add: crypto_ok_def)
  ultimately show ?thesis
    unfolding Let_def get_authenticated_user_def session_cookie_of_signed[OF assms(1)] cookie
    using revoked user by simp
qed

text \<open>User 7 logs out and is still logged in.\<close>

theorem revoked_session_respelled_witness:
  "(let token = sign_session sample_crypto (Some 1000) 7 (lit ''hash'') (lit ''k'');
      db' = revoke_session 1000 (privacy_fingerprint sample_crypto (lit ''k'') (lit ''revoked-session'') token) 605800 sample_users in
    get_authenticated_user sample_crypto (Some 1000) 1000 (lit ''k'') db' (session_cookie token) = None
    \<and> get_authenticated_user sample_crypto (Some 1000) 1000 (lit ''k'') db'
        (session_cookie (respelled sample_crypto 1000 7 (lit ''hash'') (lit ''k''))) = Some (user_of_row sample_site_user))"
proof -
  let ?a = "sign_session sample_crypto (Some 1000) 7 (lit ''hash'') (lit ''k'')"
  let ?b = "respelled sample_crypto 1000 7 (lit ''hash'') (lit ''k'')"
  let ?fp = "privacy_fingerprint sample_crypto (lit ''k'') (lit ''revoked-session'')"
  have valid: "valid_str ?a" "valid_str ?b"
    by (simp_all add: sign_session_def respelled_def session_mac_def mac_of_def sample_crypto_def session_payload_def
        SESSION_VERSION_def valid_str_def is_scalar_def is_surrogate_def lit_def show_int_def dec_digits.simps
        utf8_encode_def utf8_char_def byte_def)
  have "?a \<noteq> ?b" by (simp add: sign_session_def respelled_def SESSION_VERSION_def show_int_def dec_digits.simps)
  then have "utf8_encode ?a \<noteq> utf8_encode ?b" using utf8_encode_inj valid by blast
  moreover have "utf8_encode x = utf8_encode y" if eq: "?fp x = ?fp y" and "x \<noteq> []" "y \<noteq> []" for x y
  proof -
    have "cy_b64_decode sample_crypto (?fp x) = cy_b64_decode sample_crypto (?fp y)" using eq by simp
    then have "mac_of sample_crypto (lit ''k'') (utf8_encode (lit ''revoked-session'') @ [0] @ utf8_encode x)
        = mac_of sample_crypto (lit ''k'') (utf8_encode (lit ''revoked-session'') @ [0] @ utf8_encode y)"
      using that(2,3) sample_crypto_ok unfolding crypto_ok_def privacy_fingerprint_def by (simp only: if_False option.inject)
    then show ?thesis by (simp add: mac_of_def sample_crypto_def)
  qed
  moreover have "?a \<noteq> []" "?b \<noteq> []" by (simp_all add: sign_session_def respelled_def)
  ultimately have "?fp ?a \<noteq> ?fp ?b" by blast
  then show ?thesis
    using revoked_session_respelled[OF sample_crypto_ok sample_user_found, of 1000 1000 "lit ''k''" 1000 605800]
    by (simp add: Let_def user_of_row_def sample_site_user_def is_session_revoked_def sample_users_def empty_users_db_def)
qed

subsection \<open>Guards\<close>

lemma secure_headers_status [simp]: "rs_status (secure_headers path r) = rs_status r"
  by (simp add: secure_headers_def set_header_def Let_def)

lemma set_header_status [simp]: "rs_status (set_header n v r) = rs_status r"
  by (simp add: set_header_def)

lemma refusal_status [simp]:
  "rs_status forbidden_admin = 403" "rs_status forbidden_csrf = 403" "rs_status (too_many_requests m tier w) = 429"
  by (simp_all add: forbidden_admin_def forbidden_csrf_def too_many_requests_def respond_def)

text \<open>An admin route other than the page itself needs a session of an account with the AM badge:
  without one the answer is 403 or 429, the same whatever the handlers are, and nothing but the
  limiter changes.\<close>

theorem admin_routes_need_badge:
  assumes "is_admin_route (rq_method rq) (rq_path rq)" and "rq_path rq \<noteq> lit ''/admin''"
    and "\<not> (\<exists>user. get_authenticated_user cy (ck_epoch ck) (ck_now ck) (wc_secret_key cfg) (si_users si) (rq_headers rq) = Some user
          \<and> user_has_badge_tag (si_badges si) (us_id user) (lit ''AM''))"
  shows "\<exists>answer limiter. rs_status answer \<in> {403, 429}
    \<and> (\<forall>routes. web_stack cy url_host ck cfg routes rq si = (Some answer, si\<lparr>si_limiter := limiter\<rparr>))"
proof -
  have no: "\<not> is_admin_authorized cy ck cfg (si\<lparr>si_limiter := rl\<rparr>) (rq_headers rq)" for rl
    using assms(3) by (auto simp: is_admin_authorized_def split: option.splits)
  obtain res rl where c: "check (ck_instant ck) (extract_client_ip rq) (classify_tier (rq_method rq) (rq_path rq))
      (wc_ratelimit cfg) (si_limiter si) = (res, rl)" by fastforce
  show ?thesis
    unfolding web_stack_def security_headers_middleware_def ratelimit_middleware_def admin_local_guard_middleware_def
    using assms(1,2) no by (cases res) (auto simp: c Let_def)
qed

text \<open>The badge list is asked to award a badge without a session.\<close>

definition sample_site :: site where
  "sample_site = \<lparr>si_db = \<lparr>sd_users = sample_users, sd_beatmaps = [], sd_scores = [], sd_next = 1\<rparr>,
     si_history = \<lparr>hd_matches = [], hd_scores = [], hd_next_match = 1, hd_next_score = 1\<rparr>,
     si_chat = \<lparr>ct_rows = [], ct_next_id = 1\<rparr>, si_badges = init_badges_db [] empty_badges_db,
     si_bancho = new_bancho_state 0 [], si_limiter = new_rate_limiter, si_files = [], si_notices = []\<rparr>"

definition sample_web_config :: web_config where
  "sample_web_config = \<lparr>wc_secret_key = lit ''secret'', wc_domain = lit ''https://osu.example'', wc_default_country = 233,
     wc_ratelimit = sample_limits\<rparr>"

definition sample_clock :: clock where
  "sample_clock = \<lparr>ck_instant = 0, ck_epoch = Some 1000, ck_now = 1000, ck_timestamp = lit ''1970-01-01 00:16:40''\<rparr>"

definition sample_request :: "rstr \<Rightarrow> rstr \<Rightarrow> headers \<Rightarrow> request" where
  "sample_request meth path hs =
     \<lparr>rq_method = meth, rq_path = path, rq_query = [], rq_headers = hs, rq_peer = Some sample_ip, rq_body = []\<rparr>"

theorem admin_routes_need_badge_witness:
  "\<exists>answer limiter. rs_status answer \<in> {403, 429}
    \<and> web_stack sample_crypto (\<lambda>_. None) sample_clock sample_web_config (\<lambda>rq si. (Some (respond 200 [] NoBody), si))
        (sample_request (lit ''POST'') (lit ''/api/badges/award'') []) sample_site
      = (Some answer, sample_site\<lparr>si_limiter := limiter\<rparr>)"
proof -
  have "is_admin_route (lit ''POST'') (lit ''/api/badges/award'')" by (simp add: is_admin_route_def lit_def)
  moreover have "get_authenticated_user sample_crypto e n k db [] = None" for e n k db
    by (simp add: get_authenticated_user_def session_cookie_value_def header_text_def)
  ultimately show ?thesis
    using admin_routes_need_badge[of "sample_request (lit ''POST'') (lit ''/api/badges/award'') []" sample_crypto
        sample_clock sample_web_config sample_site "\<lambda>_. None"]
    by (simp add: sample_request_def lit_def) blast
qed

text \<open>C19: On the guarded routes a browser on a foreign site changes nothing: a request (by another
  method than GET, HEAD or OPTIONS) to log in, to log out, to register, or below \<open>/api/profile/\<close>,
  \<open>/api/backgrounds/\<close> and \<open>/api/badges/\<close>, whose \<open>Origin\<close> names neither the configured host (with or without \<open>www.\<close>), nor the host asked, nor
  this machine or its network, is answered 403 or 429, and only the limiter changes.  Other routes that change something, such
  as the registration form of the client (\<open>POST /users\<close>) and the submission of scores, have no such
  guard, and nothing is claimed of them here.\<close>

theorem cross_site_requests_refused:
  assumes "browser_mutation (rq_method rq) (rq_path rq)"
    and "header_text (rq_headers rq) (lit ''origin'') = Some origin" and "url_host origin = Some h"
    and "map ascii_lower h \<notin> {map ascii_lower (configured_host (wc_domain cfg)), lit ''localhost''}"
    and "\<not> eq_ignore_ascii_case (lit ''www.'' @ h) (configured_host (wc_domain cfg))"
    and "\<not> eq_ignore_ascii_case h (lit ''www.'' @ configured_host (wc_domain cfg))"
    and "\<forall>host. header_text (rq_headers rq) (lit ''host'') = Some host \<longrightarrow> \<not> eq_ignore_ascii_case h (configured_host host)"
    and "\<forall>ip. parse_ip h = Some ip \<longrightarrow> \<not> is_local_ip ip"
  shows "\<exists>answer limiter. rs_status answer \<in> {403, 429}
    \<and> (\<forall>routes. web_stack cy url_host ck cfg routes rq si = (Some answer, si\<lparr>si_limiter := limiter\<rparr>))"
proof -
  have strip: "strip_prefix s p = Some r \<longleftrightarrow> s = p @ r" for s p r
    by (auto simp: strip_prefix_def starts_with_append)
  have "\<not> csrf_trusted url_host (wc_domain cfg) (rq_headers rq)"
    using assms(2-8)
    by (auto simp: csrf_trusted_def or_take_def is_trusted_origin_or_host_def eq_ignore_ascii_case_def lit_def
        ascii_lower_def strip Let_def split: option.splits)
  moreover obtain res rl where "check (ck_instant ck) (extract_client_ip rq) (classify_tier (rq_method rq) (rq_path rq))
      (wc_ratelimit cfg) (si_limiter si) = (res, rl)" by fastforce
  ultimately show ?thesis
    using assms(1)
    unfolding web_stack_def security_headers_middleware_def ratelimit_middleware_def
      admin_local_guard_middleware_def csrf_guard_middleware_def
    by (cases res; cases "is_admin_route (rq_method rq) (rq_path rq)
          \<and> \<not> is_admin_authorized cy ck cfg (si\<lparr>si_limiter := rl\<rparr>) (rq_headers rq) \<and> rq_path rq \<noteq> lit ''/admin''")
      (auto simp: Let_def)
qed

definition sample_url_host :: "rstr \<Rightarrow> rstr option" where
  "sample_url_host url = strip_prefix url (lit ''https://'')"

text \<open>A page on evil.example changes the avatar.\<close>

theorem cross_site_requests_refused_witness:
  "\<exists>answer limiter. rs_status answer \<in> {403, 429}
    \<and> web_stack sample_crypto sample_url_host sample_clock sample_web_config (\<lambda>rq si. (Some (respond 200 [] NoBody), si))
        (sample_request (lit ''POST'') (lit ''/api/profile/avatar'')
           [(lit ''origin'', header_value (lit ''https://evil.example''))]) sample_site
      = (Some answer, sample_site\<lparr>si_limiter := limiter\<rparr>)"
proof -
  let ?rq = "sample_request (lit ''POST'') (lit ''/api/profile/avatar'') [(lit ''origin'', header_value (lit ''https://evil.example''))]"
  have "browser_mutation (rq_method ?rq) (rq_path ?rq)"
    by (simp add: browser_mutation_def sample_request_def lit_def)
  moreover have "header_text (rq_headers ?rq) (lit ''origin'') = Some (lit ''https://evil.example'')"
    "header_text (rq_headers ?rq) (lit ''host'') = None"
    by (simp_all add: sample_request_def header_text_def header_value_def visible_ascii_def lit_def byte_def)
  moreover have "sample_url_host (lit ''https://evil.example'') = Some (lit ''evil.example'')"
    by (simp add: sample_url_host_def strip_prefix_def lit_def)
  moreover have "configured_host (wc_domain sample_web_config) = lit ''osu.example''"
    by (simp add: configured_host_def sample_web_config_def or_take_def strip_prefix_def lit_def trim_def
        trim_start_def is_whitespace_def)
  moreover have "parse_ip (lit ''evil.example'') = None" by code_simp
  ultimately show ?thesis
    using cross_site_requests_refused[of ?rq "lit ''https://evil.example''" sample_url_host "lit ''evil.example''"
        sample_web_config sample_crypto sample_clock sample_site]
    by (simp add: eq_ignore_ascii_case_def lit_def ascii_lower_def) blast
qed

subsection \<open>The gateway\<close>

text \<open>C20: A service behind the gateway sees the address of the client's connection: services that
  answer alike the requests counted under that address answer alike whatever the client forges.\<close>

theorem services_see_the_client:
  assumes "\<And>port url rq. extract_client_ip rq = client_ip \<Longrightarrow> up port url rq = up' port url rq"
  shows "proxy_handler now cfg up client_ip rq rl = proxy_handler now cfg up' client_ip rq rl"
  unfolding proxy_handler_def Let_def using assms[OF gateway_request_ip]
  by (auto split: prod.splits sum.splits)

definition echo_address :: "u16 \<Rightarrow> rstr \<Rightarrow> request \<Rightarrow> response option" where
  "echo_address port url rq = Some (respond 200 [] (Text (show_ip (extract_client_ip rq))))"

definition answer_address :: "ip_addr \<Rightarrow> u16 \<Rightarrow> rstr \<Rightarrow> request \<Rightarrow> response option" where
  "answer_address ip port url rq = Some (respond 200 [] (Text (show_ip ip)))"

text \<open>A forged address does not reach the service.\<close>

theorem services_see_the_client_witness:
  "\<forall>now cfg rl. proxy_handler now cfg echo_address sample_ip
      (sample_request (lit ''GET'') (lit ''/health'') [(lit ''x-forwarded-for'', header_value (lit ''10.0.0.1''))]) rl
    = proxy_handler now cfg (answer_address sample_ip) sample_ip
      (sample_request (lit ''GET'') (lit ''/health'') [(lit ''x-forwarded-for'', header_value (lit ''10.0.0.1''))]) rl"
  by (intro allI services_see_the_client) (simp add: echo_address_def answer_address_def)

text \<open>Behind a TLS proxy on the same machine, the documented setup, the gateway takes every client
  for this machine: no request is limited or refused for its network, and the services see the
  address 127.0.0.1 whatever the proxy forwards.\<close>

theorem local_proxy_hides_clients:
  assumes "rl_whitelist_private (gc_ratelimit cfg)" and "length (rq_body rq) \<le> 10 * 1024 * 1024"
  shows "proxy_handler now cfg echo_address (IPv4 (ipv4 127 0 0 1)) rq rl
    = (relay_response (respond 200 [] (Text (lit ''127.0.0.1''))), rl)"
proof -
  let ?ip = "IPv4 (ipv4 127 0 0 1)"
  have "is_private_or_loopback_ip ?ip"
    by (simp add: is_private_or_loopback_ip_def ipv4_loopback_def in_net_interval ipv4_def)
  moreover from this have "\<not> is_known_vpn_or_datacenter ?ip" by (simp add: is_known_vpn_or_datacenter_def)
  moreover have "show_ip ?ip = lit ''127.0.0.1''"
  proof -
    have "groups_of 8 (Suc (Suc (Suc (Suc 0)))) 2130706433 = [127, 0, 0, 1]" by simp
    moreover have "Suc (Suc (Suc (Suc 0))) = 4" by simp
    moreover have "uint (ipv4 127 0 0 1) = 2130706433" by (simp add: ipv4_def)
    moreover have "show_ipv4 [127, 0, 0, 1] = lit ''127.0.0.1''"
      by (simp add: show_ipv4_def lit_def show_int_def dec_digits.simps)
    ultimately show ?thesis by (simp only: show_ip.simps)
  qed
  ultimately show ?thesis
    using assms unfolding proxy_handler_def Let_def check_def echo_address_def gateway_request_ip by simp
qed

text \<open>Two clients of the proxy, one of them in a data centre.\<close>

theorem local_proxy_hides_clients_witness:
  "proxy_handler now \<lparr>gc_block_vpn = True, gc_ratelimit = sample_limits\<lparr>rl_whitelist_private := True\<rparr>,
       gc_bancho_port = 5001, gc_web_port = 5002, gc_roseflower_port = 5003\<rparr> echo_address (IPv4 (ipv4 127 0 0 1))
      (sample_request (lit ''GET'') (lit ''/health'') [(lit ''x-forwarded-for'', header_value (lit ''203.0.113.7''))]) rl
    = (relay_response (respond 200 [] (Text (lit ''127.0.0.1''))), rl)"
  by (rule local_proxy_hides_clients) (simp_all add: sample_request_def)

end
