(* ===== verification/Forms.thy ===== *)
theory Forms
  imports Http Beatmaps_Db
begin

text \<open>
  The form bodies of \<^verbatim>\<open>src/server/web.rs\<close>: percent decoding, the multipart parser that keeps the
  bytes of its fields, and the parser of the registration form.
\<close>

subsection \<open>Lossy UTF-8\<close>

text \<open>
  \<^verbatim>\<open>String::from_utf8_lossy\<close>: every maximal prefix of a character that breaks off becomes one
  replacement character.
\<close>

definition second_byte_ok :: "u8 \<Rightarrow> u8 \<Rightarrow> bool" where
  "second_byte_ok b0 b1 \<longleftrightarrow>
     (if b0 = 0xE0 then 0xA0 \<le> b1 \<and> b1 \<le> 0xBF
      else if b0 = 0xED then 0x80 \<le> b1 \<and> b1 \<le> 0x9F
      else if b0 = 0xF0 then 0x90 \<le> b1 \<and> b1 \<le> 0xBF
      else if b0 = 0xF4 then 0x80 \<le> b1 \<and> b1 \<le> 0x8F
      else is_cont b1)"

definition broken_prefix :: "u8 list \<Rightarrow> nat" where
  "broken_prefix bs =
     (case bs of
        b0 # b1 # r \<Rightarrow>
          if b0 < 0xE0 \<or> 0xF5 \<le> b0 \<or> \<not> second_byte_ok b0 b1 then 1
          else if b0 < 0xF0 then 2
          else (case r of b2 # _ \<Rightarrow> if is_cont b2 then 3 else 2 | [] \<Rightarrow> 2)
      | _ \<Rightarrow> 1)"

function from_utf8_lossy :: "u8 list \<Rightarrow> rstr" where
  "from_utf8_lossy bs =
     (if bs = [] then []
      else case utf8_step bs of
             Some (c, r) \<Rightarrow> c # from_utf8_lossy r
           | None \<Rightarrow> 0xFFFD # from_utf8_lossy (drop (broken_prefix bs) bs))"
  by pat_completeness auto
termination
proof (relation "measure length")
  fix bs :: "u8 list"
  assume "bs \<noteq> []"
  moreover have "0 < broken_prefix bs" by (auto simp: broken_prefix_def split: list.splits)
  ultimately show "(drop (broken_prefix bs) bs, bs) \<in> measure length" by (cases bs) auto
qed (auto dest: utf8_step_shrinks)

declare from_utf8_lossy.simps [simp del]

lemma from_utf8_lossy_Nil [simp]: "from_utf8_lossy [] = []"
  by (simp add: from_utf8_lossy.simps)

lemma from_utf8_lossy_valid: "utf8_decode bs = Some s \<Longrightarrow> from_utf8_lossy bs = s"
proof (induction bs arbitrary: s rule: utf8_decode.induct)
  case (1 bs)
  from 1(2) show ?case
    by (subst from_utf8_lossy.simps) (auto simp: utf8_decode.simps[of bs] split: if_splits option.splits intro: 1(1))
qed

lemma from_utf8_lossy_encode: "valid_str s \<Longrightarrow> from_utf8_lossy (utf8_encode s) = s"
  by (simp add: from_utf8_lossy_valid utf8_decode_encode)

subsection \<open>Percent decoding\<close>

definition hex_val :: "u8 \<Rightarrow> int option" where
  "hex_val b =
     (if 48 \<le> b \<and> b \<le> 57 then Some (uint b - 48)
      else if 97 \<le> b \<and> b \<le> 102 then Some (uint b - 87)
      else if 65 \<le> b \<and> b \<le> 70 then Some (uint b - 55)
      else None)"

text \<open>\<^verbatim>\<open>u8::from_str_radix\<close> takes a plus sign before the digit, too.\<close>

definition hex_pair :: "u8 \<Rightarrow> u8 \<Rightarrow> int option" where
  "hex_pair a b =
     (if a = 43 then hex_val b
      else case (hex_val a, hex_val b) of (Some x, Some y) \<Rightarrow> Some (16 * x + y) | _ \<Rightarrow> None)"

text \<open>Every byte becomes a character of its own.\<close>

fun url_decode_bytes :: "u8 list \<Rightarrow> rstr" where
  "url_decode_bytes [] = []"
| "url_decode_bytes (c # r) =
     (if c = 43 then 32 # url_decode_bytes r
      else if c = 37 then
        (case r of
           a # b # r' \<Rightarrow>
             (case hex_pair a b of
                Some v \<Rightarrow> v # url_decode_bytes r'
              | None \<Rightarrow> 37 # url_decode_bytes r)
         | _ \<Rightarrow> 37 # url_decode_bytes r)
      else uint c # url_decode_bytes r)"

definition url_decode :: "rstr \<Rightarrow> rstr" where
  "url_decode input = url_decode_bytes (utf8_encode input)"

subsection \<open>Searching\<close>

fun find_window :: "'a list \<Rightarrow> 'a list \<Rightarrow> nat option" where
  "find_window needle [] = None"
| "find_window needle (x # xs) =
     (if take (length needle) (x # xs) = needle then Some 0
      else map_option Suc (find_window needle xs))"

definition find_bytes :: "u8 list \<Rightarrow> u8 list \<Rightarrow> nat option" where
  "find_bytes haystack needle =
     (if needle = [] \<or> length haystack < length needle then None else find_window needle haystack)"

definition str_contains :: "rstr \<Rightarrow> rstr \<Rightarrow> bool" where
  "str_contains s p \<longleftrightarrow> find_str p s \<noteq> None"

text \<open>\<^verbatim>\<open>split(p).next()\<close>: the text before the first \<open>p\<close>.\<close>

definition before_str :: "rstr \<Rightarrow> rstr \<Rightarrow> rstr" where
  "before_str p s = (case find_str p s of Some i \<Rightarrow> take i s | None \<Rightarrow> s)"

lemma find_str_bound: "find_str p s = Some i \<Longrightarrow> i + length p \<le> length s"
proof (induction s arbitrary: i)
  case Nil
  then show ?case by (auto split: if_splits)
next
  case (Cons c s)
  show ?case
  proof (cases "starts_with (c # s) p")
    case True
    then have "length p \<le> length (c # s)" by (metis starts_with_append length_append le_add1)
    with True Cons.prems show ?thesis by simp
  next
    case False
    with Cons show ?thesis by auto
  qed
qed

function split_str :: "rstr \<Rightarrow> rstr \<Rightarrow> rstr list" where
  "split_str p s =
     (case find_str p s of
        Some i \<Rightarrow> if p = [] then [s] else take i s # split_str p (drop (i + length p) s)
      | None \<Rightarrow> [s])"
  by pat_completeness auto
termination
proof (relation "measure (length \<circ> snd)")
  fix p s :: rstr and i
  assume "find_str p s = Some i" and "p \<noteq> []"
  then have "0 < length p \<and> i + length p \<le> length s" using find_str_bound by blast
  then show "((p, drop (i + length p) s), p, s) \<in> measure (length \<circ> snd)"
    by (cases p) auto
qed simp

declare split_str.simps [simp del]

definition trim_matches :: "(rchar \<Rightarrow> bool) \<Rightarrow> rstr \<Rightarrow> rstr" where
  "trim_matches p s = rev (dropWhile p (rev (dropWhile p s)))"

subsection \<open>Bodies of a score submission\<close>

type_synonym form = "(rstr, u8 list) hmap"

definition crlf :: "u8 list" where
  "crlf = [13, 10]"

definition form_delimiter :: "rstr \<Rightarrow> u8 list" where
  "form_delimiter raw_boundary =
     utf8_encode (lit ''--'' @ trim (trim_matches (\<lambda>c. c = 34) (hd (split_on 59 raw_boundary))))"

definition skip_crlf :: "u8 list \<Rightarrow> u8 list" where
  "skip_crlf bs = (if take 2 bs = crlf then drop 2 bs else bs)"

lemma find_window_bound: "find_window needle xs = Some i \<Longrightarrow> i + length needle \<le> length xs"
proof (induction xs arbitrary: i)
  case (Cons x xs)
  show ?case
  proof (cases "take (length needle) (x # xs) = needle")
    case True
    then have "length needle \<le> length (x # xs)" by (metis length_take min.cobounded1)
    with True Cons.prems show ?thesis by simp
  next
    case False
    with Cons show ?thesis by auto
  qed
qed simp

lemma find_bytes_bound: "find_bytes xs needle = Some i \<Longrightarrow> needle \<noteq> [] \<and> i + length needle \<le> length xs"
  using find_window_bound by (auto simp: find_bytes_def split: if_splits)

lemma skip_crlf_length: "length (skip_crlf bs) \<le> length bs"
  by (simp add: skip_crlf_def)

text \<open>What stands between the delimiters.\<close>

function form_parts :: "u8 list \<Rightarrow> u8 list \<Rightarrow> u8 list list" where
  "form_parts delim body =
     (case find_bytes body delim of
        None \<Rightarrow> []
      | Some pos \<Rightarrow>
          let rest = skip_crlf (drop (pos + length delim) body)
          in (case find_bytes rest delim of
                Some p \<Rightarrow> take p rest # form_parts delim (drop p rest)
              | None \<Rightarrow> [rest]))"
  by pat_completeness auto
termination
proof (relation "measure (length \<circ> snd)")
  fix delim body :: "u8 list" and pos rest p
  assume a: "find_bytes body delim = Some pos" "rest = skip_crlf (drop (pos + length delim) body)"
  have "length rest \<le> length body - (pos + length delim)"
    using skip_crlf_length[of "drop (pos + length delim) body"] a(2) by simp
  moreover have "0 < length delim \<and> pos + length delim \<le> length body" using find_bytes_bound[OF a(1)] by simp
  ultimately show "((delim, drop p rest), delim, body) \<in> measure (length \<circ> snd)" by (cases delim) auto
qed simp

declare form_parts.simps [simp del]

definition drop_final_crlf :: "u8 list \<Rightarrow> u8 list" where
  "drop_final_crlf bs =
     (if 2 \<le> length bs \<and> drop (length bs - 2) bs = crlf then take (length bs - 2) bs else bs)"

definition lzma_head :: "u8 list" where
  "lzma_head = [0x5d, 0, 0, 0x20, 0]"

text \<open>The field \<open>score\<close> comes twice: the encrypted score, and the replay as a file.\<close>

definition field_key :: "rstr \<Rightarrow> rstr \<Rightarrow> u8 list \<Rightarrow> rstr" where
  "field_key headers_str name content =
     (if name = lit ''score''
         \<and> (str_contains headers_str (lit ''filename='') \<or> take 5 content = lzma_head)
      then lit ''score_replay'' else name)"

definition part_field :: "u8 list \<Rightarrow> (rstr \<times> u8 list) option" where
  "part_field part =
     Option.bind (find_bytes part (crlf @ crlf)) (\<lambda>sep.
       let headers_str = from_utf8_lossy (take sep part);
           content = drop_final_crlf (drop (sep + 4) part)
       in Option.bind (find_str (lit ''name='' @ [34]) headers_str) (\<lambda>name_idx.
          let after = drop (name_idx + 6) headers_str
          in Option.bind (find_str [34] after) (\<lambda>end_quote.
             let name = take end_quote after
             in Some (field_key headers_str name content, content))))"

definition add_field :: "(rstr \<times> u8 list) option \<Rightarrow> form \<Rightarrow> form" where
  "add_field f m = (case f of Some (k, v) \<Rightarrow> hput k v m | None \<Rightarrow> m)"

definition urlencoded_field :: "rstr \<Rightarrow> (rstr \<times> u8 list) option" where
  "urlencoded_field pair =
     map_option (\<lambda>(k, v). (url_decode k, utf8_encode (url_decode v))) (split_once 61 pair)"

definition parse_post_params_raw :: "rstr \<Rightarrow> u8 list \<Rightarrow> form" where
  "parse_post_params_raw content_type body =
     (if str_contains content_type (lit ''multipart/form-data'') then
        (case find_str (lit ''boundary='') content_type of
           Some idx \<Rightarrow>
             fold (add_field \<circ> part_field)
               (form_parts (form_delimiter (drop (idx + 9) content_type)) body) []
         | None \<Rightarrow> [])
      else fold (add_field \<circ> urlencoded_field) (split_on 38 (from_utf8_lossy body)) [])"

definition parse_post_params :: "rstr \<Rightarrow> u8 list \<Rightarrow> (rstr, rstr) hmap" where
  "parse_post_params content_type body =
     map (\<lambda>(k, v). (k, from_utf8_lossy v)) (parse_post_params_raw content_type body)"

subsection \<open>The registration form\<close>

definition multipart_pair :: "rstr \<Rightarrow> (rstr \<times> rstr) option" where
  "multipart_pair part =
     Option.bind (find_str (lit ''name='' @ [34]) part) (\<lambda>name_start.
       let rest = drop (name_start + 6) part
       in Option.bind (find_str [34] rest) (\<lambda>name_end.
          let field_name = take name_end rest
          in case find_str [13, 10, 13, 10] rest of
               Some val_start \<Rightarrow> Some (field_name, trim (before_str [13, 10] (drop (val_start + 4) rest)))
             | None \<Rightarrow>
                 (case find_str [10, 10] rest of
                    Some val_start \<Rightarrow> Some (field_name, trim (hd (split_on 10 (drop (val_start + 2) rest))))
                  | None \<Rightarrow> None)))"

definition urlencoded_pair :: "rstr \<Rightarrow> (rstr \<times> rstr) option" where
  "urlencoded_pair part =
     (if part = [] then None
      else case split_once 61 part of
             Some (k, v) \<Rightarrow> Some (url_decode k, url_decode v)
           | None \<Rightarrow> Some (url_decode part, []))"

definition parse_form_pairs :: "rstr \<Rightarrow> (rstr \<times> rstr) list" where
  "parse_form_pairs input =
     (let multipart =
            (if str_contains input (lit ''Content-Disposition:'') \<or> str_contains input (lit ''form-data;'')
             then List.map_filter multipart_pair (split_str (lit ''Content-Disposition:'') input) else [])
      in if multipart \<noteq> [] then multipart
         else List.map_filter urlencoded_pair (split_on 38 input))"

subsection \<open>What a client writes is read back\<close>

lemma find_window_here: "needle \<noteq> [] \<Longrightarrow> find_window needle (needle @ r) = Some 0"
  by (cases needle) simp_all

lemma find_window_fresh: "d \<notin> set h \<Longrightarrow> find_window (d # n) (h @ d # n @ r) = Some (length h)"
  by (induction h) auto

text \<open>The next delimiter ends a part that does not hold it and ends in a byte the delimiter has not.\<close>

lemma find_window_after:
  "find_window needle part = None \<Longrightarrow> needle \<noteq> [] \<Longrightarrow> part \<noteq> [] \<Longrightarrow> last part \<notin> set needle \<Longrightarrow>
     find_window needle (part @ needle @ r) = Some (length part)"
proof (induction part)
  case (Cons x xs)
  have "take (length needle) ((x # xs) @ needle @ r) \<noteq> needle"
  proof (cases "length needle \<le> length (x # xs)")
    case True
    then have "take (length needle) ((x # xs) @ needle @ r) = take (length needle) (x # xs)"
      unfolding take_append by simp
    then show ?thesis using Cons.prems(1) by (auto split: if_splits)
  next
    case False
    show ?thesis
    proof
      assume "take (length needle) ((x # xs) @ needle @ r) = needle"
      then have "\<exists>t. needle = (x # xs) @ t" using False by (metis nat_le_linear take_all take_append)
      then have "set (x # xs) \<subseteq> set needle" by auto
      then show False using Cons.prems(4) last_in_set[of "x # xs"] by blast
    qed
  qed
  moreover have "find_window needle (xs @ needle @ r) = Some (length xs)"
    using Cons find_window_here[of needle r] by (cases "xs = []") (auto split: if_splits)
  ultimately show ?case by simp
qed simp

lemma find_str_char: "c \<notin> set s \<Longrightarrow> find_str [c] (s @ c # r) = Some (length s)"
  by (induction s) auto

text \<open>The part a client writes for a field, and the body it sends.\<close>

definition field_header :: "rstr \<Rightarrow> rstr" where
  "field_header name = lit ''Content-Disposition: form-data; name='' @ [34] @ name @ [34]"

definition field_part :: "rstr \<times> u8 list \<Rightarrow> u8 list" where
  "field_part f = utf8_encode (field_header (fst f)) @ crlf @ crlf @ snd f @ crlf"

definition form_end :: "u8 list" where
  "form_end = [45, 45] @ crlf"

definition multipart_body :: "u8 list \<Rightarrow> (rstr \<times> u8 list) list \<Rightarrow> u8 list" where
  "multipart_body delim entries = concat (map (\<lambda>f. delim @ crlf @ field_part f) entries) @ delim @ form_end"

lemma form_parts_body:
  assumes "delim \<noteq> []" and "10 \<notin> set delim" and "find_window delim form_end = None"
    and "\<forall>f \<in> set entries. find_window delim (field_part f) = None"
  shows "form_parts delim (multipart_body delim entries) = map field_part entries @ [form_end]"
  using assms(4)
proof (induction entries)
  case Nil
  have "skip_crlf form_end = form_end" by (simp add: skip_crlf_def form_end_def crlf_def)
  then show ?case
    using assms(1,3) find_window_here[OF assms(1)]
    by (subst form_parts.simps) (simp add: multipart_body_def find_bytes_def Let_def)
next
  case (Cons f fs)
  obtain r where r: "multipart_body delim fs = delim @ r"
    by (cases fs) (auto simp: multipart_body_def)
  have body: "multipart_body delim (f # fs) = delim @ crlf @ field_part f @ multipart_body delim fs"
    by (simp add: multipart_body_def)
  have "find_bytes (delim @ crlf @ field_part f @ multipart_body delim fs) delim = Some 0"
    using assms(1) find_window_here[OF assms(1)] by (simp add: find_bytes_def)
  moreover have "skip_crlf (crlf @ field_part f @ multipart_body delim fs) = field_part f @ multipart_body delim fs"
    by (simp add: skip_crlf_def crlf_def)
  moreover have "last (field_part f) = 10" "field_part f \<noteq> []" by (simp_all add: field_part_def crlf_def)
  then have "find_bytes (field_part f @ multipart_body delim fs) delim = Some (length (field_part f))"
    using Cons.prems assms(1,2) find_window_after[of delim "field_part f" r] by (simp add: find_bytes_def r)
  ultimately show ?case
    using Cons unfolding body by (subst form_parts.simps) (simp add: Let_def)
qed

lemma lit_valid: "list_all (\<lambda>c. 0 \<le> c \<and> c < 0xD800) s \<Longrightarrow> valid_str s"
  by (auto simp: valid_str_def is_scalar_def is_surrogate_def list_all_iff)

lemma field_name_found: "find_str (lit ''name='' @ [34]) (field_header name) = Some 32"
  by (simp add: field_header_def lit_def)

lemma utf8_char_ascii:
  assumes "b \<in> set (utf8_char c)" and "is_scalar c" and "uint b < 128"
  shows "c = uint b"
proof (cases "c < 0x80")
  case True
  with assms show ?thesis by (auto simp: utf8_char_def is_scalar_def)
next
  case False
  have "128 \<le> uint x" if "x \<in> set (utf8_char c)" for x
  proof -
    have bounds: "c div 64 < 32" if "c < 0x800"
      using that by simp
    have bounds3: "c div 4096 < 16" if "c < 0x10000" using that by simp
    have "c < 1114112" using assms(2) by (simp add: is_scalar_def)
    then have bounds4: "c div 262144 < 5" by presburger
    have pos: "0 \<le> c div 64" "0 \<le> c div 4096" "0 \<le> c div 262144"
      using assms(2) by (simp_all add: is_scalar_def pos_imp_zdiv_nonneg_iff)
    show ?thesis
      using that False bounds bounds3 bounds4 pos base64_bounds[of c] unfolding utf8_char_def
      by (auto split: if_splits)
  qed
  with assms show ?thesis by force
qed

lemma utf8_encode_ascii:
  "b \<in> set (utf8_encode s) \<Longrightarrow> valid_str s \<Longrightarrow> uint b < 128 \<Longrightarrow> uint b \<in> set s"
  unfolding utf8_encode_def valid_str_def using utf8_char_ascii by fastforce

lemma field_header_valid: "valid_str name \<Longrightarrow> valid_str (field_header name)"
  by (auto simp: field_header_def valid_str_def is_scalar_def is_surrogate_def lit_def)

lemma part_field_written:
  assumes "valid_str name" and "34 \<notin> set name" and "13 \<notin> set name"
    and "name = lit ''score'' \<longrightarrow> take 5 content \<noteq> lzma_head"
  shows "part_field (field_part (name, content)) = Some (name, content)"
proof -
  let ?h = "utf8_encode (field_header name)"
  have "13 \<notin> set ?h"
  proof
    assume "13 \<in> set ?h"
    then have "13 \<in> set (field_header name)"
      using utf8_encode_ascii[OF _ field_header_valid[OF assms(1)]] by force
    then show False using assms(3) by (simp add: field_header_def lit_def)
  qed
  then have "find_window (crlf @ crlf) (?h @ (crlf @ crlf) @ content @ crlf) = Some (length ?h)"
    unfolding crlf_def using find_window_fresh[of 13 ?h "[10, 13, 10]"] by simp
  then have "find_bytes (field_part (name, content)) (crlf @ crlf) = Some (length ?h)"
    by (simp add: find_bytes_def field_part_def crlf_def)
  moreover have "from_utf8_lossy ?h = field_header name"
    by (rule from_utf8_lossy_encode[OF field_header_valid[OF assms(1)]])
  moreover have "drop_final_crlf (content @ crlf) = content" by (simp add: drop_final_crlf_def crlf_def)
  moreover have "drop 38 (field_header name) = name @ [34]" by (simp add: field_header_def lit_def)
  moreover have "find_str [34] (name @ [34]) = Some (length name)" using find_str_char[OF assms(2), of "[]"] by simp
  moreover have "field_key (field_header name) name content = name"
    using assms(4) by (auto simp: field_key_def str_contains_def field_header_def lit_def)
  ultimately show ?thesis
    using field_name_found[of name]
    by (simp add: part_field_def field_part_def Let_def) (simp add: crlf_def)
qed

lemma form_end_no_field: "part_field form_end = None"
  by (simp add: part_field_def form_end_def crlf_def find_bytes_def)

end
