(* ===== verification/Score_Crypto.thy ===== *)
theory Score_Crypto
  imports Forms
begin

text \<open>
  The decryption of a submitted score (\<^verbatim>\<open>src/server/web.rs\<close>).  The Base64 engines and
  Rijndael-256 in CBC mode come from libraries: the fields of \<open>score_crypto\<close>.  The ciphers take
  the key, the initial vector and the text; \<open>None\<close> is an error of the library.
\<close>

record score_crypto =
  sx_base64_standard :: "rstr \<Rightarrow> u8 list option"
  sx_base64_url_safe :: "rstr \<Rightarrow> u8 list option"
  sx_rijndael_zero :: "u8 list \<Rightarrow> u8 list \<Rightarrow> u8 list \<Rightarrow> u8 list option"
  sx_rijndael_pkcs7 :: "u8 list \<Rightarrow> u8 list \<Rightarrow> u8 list \<Rightarrow> u8 list option"

subsection \<open>Base64 of any kind\<close>

text \<open>\<^verbatim>\<open>str::replace\<close> of a pattern that is not empty\<close>

definition replace_str :: "rstr \<Rightarrow> rstr \<Rightarrow> rstr \<Rightarrow> rstr" where
  "replace_str p r s =
     (case split_str p s of w # ws \<Rightarrow> w @ concat (map (\<lambda>v. r @ v) ws) | [] \<Rightarrow> [])"

definition pad_base64 :: "rstr \<Rightarrow> rstr" where
  "pad_base64 s = s @ replicate ((4 - length (utf8_encode s) mod 4) mod 4) 61"

definition unquote_base64 :: "rstr \<Rightarrow> rstr" where
  "unquote_base64 raw =
     replace_str (lit ''%3d'') (lit ''='') (replace_str (lit ''%3D'') (lit ''='')
       (replace_str (lit ''%2f'') (lit ''/'') (replace_str (lit ''%2F'') (lit ''/'')
         (replace_str (lit ''%2b'') (lit ''+'') (replace_str (lit ''%2B'') (lit ''+'') raw)))))"

fun first_some :: "'a option list \<Rightarrow> 'a option" where
  "first_some [] = None"
| "first_some (x # xs) = (case x of Some _ \<Rightarrow> x | None \<Rightarrow> first_some xs)"

definition decode_b64_flexible :: "score_crypto \<Rightarrow> rstr \<Rightarrow> u8 list option" where
  "decode_b64_flexible sx s =
     (let raw = trim s
      in if raw = [] then None
         else first_some
           [sx_base64_standard sx raw, sx_base64_url_safe sx raw,
            sx_base64_standard sx (pad_base64 raw), sx_base64_url_safe sx (pad_base64 raw),
            if 37 \<in> set raw then sx_base64_standard sx (pad_base64 (trim (unquote_base64 raw))) else None])"

subsection \<open>Keys\<close>

definition key_prefix :: rstr where
  "key_prefix = lit ''osu!-scoreburgr---------''"

definition fallback_key :: "u8 list" where
  "fallback_key = utf8_encode (lit ''h89f2-890h2h89b34g-h80g134n90133'')"

definition is_digit :: "rchar \<Rightarrow> bool" where
  "is_digit c \<longleftrightarrow> 48 \<le> c \<and> c \<le> 57"

text \<open>\<^verbatim>\<open>truncate(32)\<close> panics inside a character (\<open>None\<close>); a short key is filled with dashes.\<close>

definition version_key :: "rstr \<Rightarrow> rstr option" where
  "version_key ver_str =
     (let k = key_prefix @ ver_str; n = length (utf8_encode k)
      in if 32 < n then str_prefix_bytes 32 k else Some (k @ replicate (32 - n) 45))"

definition add_key :: "u8 list \<Rightarrow> u8 list list \<Rightarrow> u8 list list" where
  "add_key k ks = (if k \<in> set ks then ks else ks @ [k])"

definition candidate_keys :: "rstr \<Rightarrow> u8 list list option" where
  "candidate_keys osuver =
     (let ver_str = trim osuver;
          digits = filter is_digit ver_str;
          dated = (if 8 \<le> length digits
                   then let k = utf8_encode (key_prefix @ take 8 digits)
                        in if length k = 32 then [k] else []
                   else [])
      in map_option (add_key fallback_key)
           (if ver_str = [] then Some dated
            else map_option (\<lambda>k. add_key (utf8_encode k) dated) (version_key ver_str)))"

subsection \<open>Decryption\<close>

definition is_control :: "rchar \<Rightarrow> bool" where
  "is_control c \<longleftrightarrow> 0 \<le> c \<and> c < 32 \<or> 127 \<le> c \<and> c < 160"

definition count_char :: "rchar \<Rightarrow> rstr \<Rightarrow> nat" where
  "count_char c s = length (filter (\<lambda>x. x = c) s)"

text \<open>The texts of a cipher, in the order they are tried.\<close>

definition plain_texts :: "score_crypto \<Rightarrow> u8 list list \<Rightarrow> u8 list \<Rightarrow> u8 list \<Rightarrow> rstr list" where
  "plain_texts sx keys iv cipher =
     concat (map (\<lambda>key. map from_utf8_lossy (List.map_filter (\<lambda>f. f key iv cipher)
        [sx_rijndael_zero sx, sx_rijndael_pkcs7 sx])) keys)"

definition clean_end :: "rstr \<Rightarrow> rstr" where
  "clean_end s = rev (dropWhile (\<lambda>c. c = 0 \<or> is_control c) (rev s))"

definition pad_cipher :: "u8 list \<Rightarrow> u8 list" where
  "pad_cipher raw =
     (if length raw mod 32 = 0 then raw
      else raw @ replicate ((length raw div 32 + 1) * 32 - length raw) 0)"

text \<open>The outer \<open>None\<close> is a panic.\<close>

definition decrypt_osu_score_bytes :: "score_crypto \<Rightarrow> u8 list \<Rightarrow> rstr \<Rightarrow> rstr \<Rightarrow> rstr option option" where
  "decrypt_osu_score_bytes sx cipher_raw iv_b64 osuver =
     (if cipher_raw = [] then Some None
      else case decode_b64_flexible sx iv_b64 of
             None \<Rightarrow> Some None
           | Some iv \<Rightarrow>
               if length iv \<noteq> 32 then Some None
               else map_option (\<lambda>keys.
                 find (\<lambda>s. 10 \<le> count_char 58 s) (map clean_end (plain_texts sx keys iv (pad_cipher cipher_raw))))
                 (candidate_keys osuver))"

text \<open>The variant for a text in Base64, which takes a plain score as it is.\<close>

definition decrypt_osu_score :: "score_crypto \<Rightarrow> rstr \<Rightarrow> rstr \<Rightarrow> rstr \<Rightarrow> rstr option option" where
  "decrypt_osu_score sx raw_score iv_b64 osuver =
     (let trimmed = trim raw_score
      in if trimmed = [] then Some None
         else if 58 \<in> set trimmed \<and> 10 \<le> length (split_on 58 trimmed) then Some (Some trimmed)
         else case (decode_b64_flexible sx iv_b64, decode_b64_flexible sx trimmed) of
                (Some iv, Some cipher) \<Rightarrow>
                  if length iv \<noteq> 32 \<or> cipher = [] \<or> length cipher mod 32 \<noteq> 0 then Some None
                  else map_option (\<lambda>keys.
                    find (\<lambda>s. 58 \<in> set s \<and> 10 \<le> length (split_on 58 s))
                      (map (trim_matches (\<lambda>c. is_control c \<or> c = 0 \<or> c < 32)) (plain_texts sx keys iv cipher)))
                    (candidate_keys osuver)
              | _ \<Rightarrow> Some None)"

end
