(* ===== verification/Web_Scores.thy ===== *)
theory Web_Scores
  imports Guards Score_Crypto Bot
begin

unbundle bit_operations_syntax

text \<open>
  The endpoints of \<^verbatim>\<open>src/server/web.rs\<close> for scores: the submission of a play and the
  leaderboard of a beatmap.  Their errors are texts with status 200; no query fails.
\<close>

record externals =
  ex_crypto :: crypto
  ex_scores :: score_crypto
  ex_floats :: float_fns
  ex_mirror :: "rstr \<Rightarrow> mirror_beatmap option"

definition plain :: "rstr \<Rightarrow> response" where
  "plain s = respond 200 [] (Text s)"

subsection \<open>The public address\<close>

fun strip_first :: "rstr list \<Rightarrow> rstr \<Rightarrow> rstr" where
  "strip_first [] s = s"
| "strip_first (p # ps) s = (case strip_prefix s p of Some r \<Rightarrow> r | None \<Rightarrow> strip_first ps s)"

definition get_public_base_url :: "rstr \<Rightarrow> rstr" where
  "get_public_base_url fallback_domain =
     (let configured = rev (dropWhile (\<lambda>c. c = 47) (rev (trim fallback_domain)))
      in if starts_with configured (lit ''http://'') \<or> starts_with configured (lit ''https://'') then configured
         else
           let clean_host = strip_first (map lit [''osu.'', ''c.'', ''assets.'', ''a.'']) configured;
               is_local = list_ex (starts_with clean_host) (map lit [''127.0.0.1'', ''localhost'', ''192.168.''])
           in (if is_local then lit ''http'' else lit ''https'') @ lit ''://'' @ clean_host)"

subsection \<open>The session of a player\<close>

definition same_player :: "rstr \<Rightarrow> rstr \<Rightarrow> bool" where
  "same_player username name \<longleftrightarrow>
     eq_ignore_ascii_case name username
     \<or> eq_ignore_ascii_case (clean_username name) (clean_username username)"

definition session_of_player :: "bancho_state \<Rightarrow> rstr \<Rightarrow> session option" where
  "session_of_player st username = find (\<lambda>s. same_player username (ss_username s)) (map snd (sessions st))"

definition plays_relax :: "bancho_state \<Rightarrow> rstr \<Rightarrow> bool" where
  "plays_relax st username = (case session_of_player st username of Some s \<Rightarrow> ss_is_relax s | None \<Rightarrow> False)"

subsection \<open>The text of a score\<close>

definition parse_u32 :: "rstr \<Rightarrow> u32 option" where
  "parse_u32 s = map_option word_of_int (parse_int 0 (2 ^ 32 - 1) s)"

definition parse_u8 :: "rstr \<Rightarrow> u8 option" where
  "parse_u8 s = map_option word_of_int (parse_int 0 255 s)"

definition parse_i64 :: "rstr \<Rightarrow> i64 option" where
  "parse_i64 s = map_option word_of_int (parse_int (- (2 ^ 63)) (2 ^ 63 - 1) s)"

definition is_true :: "rstr \<Rightarrow> bool" where
  "is_true s \<longleftrightarrow> eq_ignore_ascii_case (trim s) (lit ''true'') \<or> trim s = lit ''1''"

definition part_i32 :: "rstr list \<Rightarrow> nat \<Rightarrow> i32" where
  "part_i32 parts i = unwrap_or 0 (parse_i32 (trim (parts ! i)))"

text \<open>The arguments of \<^verbatim>\<open>save_score\<close>, before the player and the relax bit of the session.\<close>

definition score_of_parts :: "rstr list \<Rightarrow> submission" where
  "score_of_parts parts =
     \<lparr>sb_map_md5 = trim (parts ! 0), sb_checksum = trim (parts ! 2), sb_user_id = 0,
      sb_score = unwrap_or 0 (parse_i64 (trim (parts ! 9))), sb_max_combo = part_i32 parts 10,
      sb_c300 = part_i32 parts 3, sb_c100 = part_i32 parts 4, sb_c50 = part_i32 parts 5,
      sb_c_geki = part_i32 parts 6, sb_c_katu = part_i32 parts 7, sb_c_miss = part_i32 parts 8,
      sb_perfect = (if is_true (parts ! 11) then 1 else 0),
      sb_mods = unwrap_or 0 (parse_u32 (trim (parts ! 13))),
      sb_mode = unwrap_or 0 (parse_u8 (trim (parts ! 15)))\<rparr>"

definition numeric_fields_are_valid :: "rstr list \<Rightarrow> bool" where
  "numeric_fields_are_valid parts \<longleftrightarrow>
     list_all (\<lambda>i. parse_i32 (trim (parts ! i)) \<noteq> None) [3, 4, 5, 6, 7, 8]
     \<and> parse_i64 (trim (parts ! 9)) \<noteq> None \<and> parse_i32 (trim (parts ! 10)) \<noteq> None
     \<and> parse_u32 (trim (parts ! 13)) \<noteq> None \<and> parse_u8 (trim (parts ! 15)) \<noteq> None"

definition md5_is_valid :: "rstr \<Rightarrow> bool" where
  "md5_is_valid s \<longleftrightarrow> length (utf8_encode s) = 32 \<and> list_all ascii_hexdigit s"

definition score_is_valid :: "rstr \<Rightarrow> submission \<Rightarrow> bool" where
  "score_is_valid username sb \<longleftrightarrow>
     md5_is_valid (sb_map_md5 sb) \<and> md5_is_valid (sb_checksum sb) \<and> username \<noteq> []
     \<and> sb_mode sb \<le> 3 \<and> 0 < sint (sb_score sb) \<and> sint (sb_score sb) \<le> 10000000000000
     \<and> 0 \<le> sint (sb_max_combo sb) \<and> sint (sb_max_combo sb) \<le> 1000000
     \<and> list_all (\<lambda>c. 0 \<le> sint c \<and> sint c \<le> 1000000)
         [sb_c300 sb, sb_c100 sb, sb_c50 sb, sb_c_geki sb, sb_c_katu sb, sb_c_miss sb]"

definition name_of_part :: "rstr \<Rightarrow> rstr" where
  "name_of_part = trim_matches (\<lambda>c. is_whitespace c \<or> is_control c \<or> c = 0)"

subsection \<open>The owner of a score\<close>

definition score_owner :: "site \<Rightarrow> rstr \<Rightarrow> user option" where
  "score_owner si username =
     (case get_user_by_username (si_users si) (clean_username username) of
        Some u \<Rightarrow> Some u
      | None \<Rightarrow> Option.bind (session_of_player (si_bancho si) username)
                  (\<lambda>s. get_user_by_id (si_users si) (ss_user_id s)))"

subsection \<open>Recording\<close>

definition positive_or_one :: "i64 \<Rightarrow> i64" where
  "positive_or_one x = (if positive x then x else 1)"

definition charts :: "web_config \<Rightarrow> beatmap_meta \<Rightarrow> i32 \<Rightarrow> submission \<Rightarrow> score_save_result \<Rightarrow> rstr" where
  "charts cfg meta uid sb res =
     (let beatmap_id = show_int (sint (positive_or_one (bm_beatmap_id meta)));
          beatmapset_id = show_int (sint (positive_or_one (bm_beatmapset_id meta)));
          base_url = get_public_base_url (wc_domain cfg);
          combo = show_int (sint (sb_max_combo sb));
          score = show_int (sint (sb_score sb));
          pp = show_int (fp_to_int (- (2 ^ 31)) (2 ^ 31 - 1) (fp_round_away (sv_score_pp res)));
          score_id = show_int (sv_score_id res)
      in lit ''beatmapId:'' @ beatmap_id @ lit ''|beatmapSetId:'' @ beatmapset_id
         @ lit ''|beatmapPlaycount:1|beatmapPasscount:1|approvedDate:0'' @ [10]
         @ lit ''chartId:beatmap|chartUrl:'' @ base_url @ lit ''/b/'' @ beatmap_id
         @ lit ''|chartName:Beatmap Ranking|rankBefore:1|rankAfter:1|maxComboBefore:0|maxComboAfter:'' @ combo
         @ lit ''|accuracyBefore:0|accuracyAfter:'' @ show_fixed 2 (sv_score_acc res)
         @ lit ''|rankedScoreBefore:0|rankedScoreAfter:'' @ score @ lit ''|ppBefore:'' @ pp @ lit ''|ppAfter:'' @ pp
         @ lit ''|onlineScoreId:'' @ score_id @ [10]
         @ lit ''chartId:overall|chartUrl:'' @ base_url @ lit ''/u/'' @ show_int (sint uid)
         @ lit ''|chartName:Overall Ranking|rankBefore:1|rankAfter:1|rankedScoreBefore:0|rankedScoreAfter:'' @ score
         @ lit ''|totalScoreBefore:0|totalScoreAfter:'' @ score @ lit ''|maxComboBefore:0|maxComboAfter:'' @ combo
         @ lit ''|accuracyBefore:'' @ show_fixed 2 (sv_acc_before res)
         @ lit ''|accuracyAfter:'' @ show_fixed 2 (sv_acc_after res)
         @ lit ''|ppBefore:'' @ show_int (sint (sv_total_pp_before res))
         @ lit ''|ppAfter:'' @ show_int (sint (sv_total_pp_after res))
         @ lit ''|achievements-new:|onlineScoreId:'' @ score_id @ [10])"

definition not_recorded :: response where
  "not_recorded = plain (lit ''beatmapId:0|beatmapSetId:0|beatmapPlaycount:1|beatmapPasscount:1'' @ [10])"

definition record_score :: "externals \<Rightarrow> clock \<Rightarrow> web_config \<Rightarrow> submission \<Rightarrow> site \<Rightarrow> response \<times> site" where
  "record_score ex ck cfg sb si =
     (case save_score (ck_now ck) (ex_floats ex) sb (si_db si) of
        (None, db) \<Rightarrow> (not_recorded, si\<lparr>si_db := db\<rparr>)
      | (Some res, db) \<Rightarrow>
          let (meta, bs) = resolve_beatmap_meta (ck_now ck) (ex_mirror ex) (si_history si) (sb_map_md5 sb) (sd_beatmaps db);
              notice = (sb_user_id sb, sb_mode sb, is_relax (sb_mods sb))
          in (plain (charts cfg meta (sb_user_id sb) sb res),
              si\<lparr>si_db := db\<lparr>sd_beatmaps := bs\<rparr>, si_notices := si_notices si @ [notice]\<rparr>))"

text \<open>
  A score whose text has been decrypted: the checks, the owner, the password, and the
  recording of a play that was finished and passed.
\<close>

definition accept_score ::
    "externals \<Rightarrow> clock \<Rightarrow> web_config \<Rightarrow> rstr \<Rightarrow> bool \<Rightarrow> rstr list \<Rightarrow> site \<Rightarrow> response \<times> site" where
  "accept_score ex ck cfg password finished parts si =
     (if length parts < 16 then (not_recorded, si)
      else
        let username = name_of_part (parts ! 1);
            sb = score_of_parts parts
        in if \<not> numeric_fields_are_valid parts \<or> \<not> score_is_valid username sb
           then (plain (lit ''error: invalid score''), si)
           else
             let mods = (if plays_relax (si_bancho si) username then sb_mods sb OR 128 else sb_mods sb);
                 is_passed = (is_true (parts ! 14) \<and> finished)
             in case score_owner si username of
                  None \<Rightarrow> (not_recorded, si)
                | Some user \<Rightarrow>
                    if \<not> verify_password (ex_crypto ex) password (us_password_hash user)
                    then (plain (lit ''error: auth''), si)
                    else if is_passed
                    then record_score ex ck cfg (sb\<lparr>sb_user_id := us_id user, sb_mods := mods\<rparr>) si
                    else (not_recorded, si))"

definition form_text :: "form \<Rightarrow> rstr \<Rightarrow> rstr option" where
  "form_text form key = map_option from_utf8_lossy (hget form key)"

definition score_field :: "form \<Rightarrow> rstr" where
  "score_field form =
     (case form_text form (lit ''score'') of
        Some s \<Rightarrow> if trim s \<noteq> [] then trim s else trim (unwrap_or [] (form_text form (lit ''s'')))
      | None \<Rightarrow> trim (unwrap_or [] (form_text form (lit ''s''))))"

text \<open>\<^verbatim>\<open>x\<close> says that the play was quit, \<^verbatim>\<open>ft\<close> when it failed.\<close>

definition play_finished :: "form \<Rightarrow> bool" where
  "play_finished form \<longleftrightarrow>
     unwrap_or [] (form_text form (lit ''x'')) \<noteq> lit ''1''
     \<and> unwrap_or (lit ''0'') (form_text form (lit ''ft'')) \<in> {lit ''0'', []}"

definition submit_score :: "externals \<Rightarrow> clock \<Rightarrow> web_config \<Rightarrow> handler" where
  "submit_score ex ck cfg rq si =
     (let content_type = unwrap_or [] (header_text (rq_headers rq) (lit ''content-type''));
          form = parse_post_params_raw content_type (rq_body rq);
          score_b64 = score_field form;
          iv_b64 = unwrap_or [] (form_text form (lit ''iv''));
          osuver = unwrap_or [] (form_text form (lit ''osuver''));
          password = trim (unwrap_or [] (form_text form (lit ''pass'')))
      in if password = [] then (Some (plain (lit ''error: auth'')), si)
         else if 58 \<in> set score_b64 then (Some (plain (lit ''error: invalid score payload'')), si)
         else
           let raw_score = unwrap_or [] (decode_b64_flexible (ex_scores ex) score_b64)
           in if raw_score = [] then (Some not_recorded, si)
              else case decrypt_osu_score_bytes (ex_scores ex) raw_score iv_b64 osuver of
                     None \<Rightarrow> (None, si)
                   | Some None \<Rightarrow> (Some (plain (lit ''error'')), si)
                   | Some (Some score_str) \<Rightarrow>
                       (\<lambda>(r, si'). (Some r, si'))
                         (accept_score ex ck cfg password (play_finished form) (split_on 58 score_str) si))"

subsection \<open>The leaderboard of a beatmap\<close>

text \<open>The query string is read by the framework; \<open>gq_us\<close> is the name of the player.\<close>

record get_scores_query =
  gq_c :: "rstr option"
  gq_f :: "rstr option"
  gq_m :: "u8 option"
  gq_i :: "i32 option"
  gq_mods :: "u32 option"
  gq_us :: "rstr option"

definition score_line :: "badges_db \<Rightarrow> int \<Rightarrow> score_record \<Rightarrow> rstr" where
  "score_line badges rank sc =
     join_with 124
       ([show_int (sc_id sc), get_user_display_name badges (sc_user_id sc) (sc_username sc),
         show_int (sint (sc_score sc))]
        @ map (\<lambda>f. show_int (sint (f sc)))
            [sc_max_combo, sc_c50, sc_c100, sc_c300, sc_c_miss, sc_c_katu, sc_c_geki, sc_perfect]
        @ [show_int (uint (sc_mods sc)), show_int (sint (sc_user_id sc)), show_int rank,
           show_int (sint (sc_submitted_at sc)), lit ''0''])"

definition ranked_lines :: "badges_db \<Rightarrow> score_record list \<Rightarrow> rstr list" where
  "ranked_lines badges scores =
     map (\<lambda>(i, sc). score_line badges (int i + 1) sc) (enumerate 0 scores)"

definition query_relax :: "bancho_state \<Rightarrow> get_scores_query \<Rightarrow> bool" where
  "query_relax st q \<longleftrightarrow>
     is_relax (unwrap_or 0 (gq_mods q))
     \<or> (case gq_us q of Some username \<Rightarrow> plays_relax st username | None \<Rightarrow> False)"

definition best_of_player :: "score_db \<Rightarrow> rstr \<Rightarrow> u8 \<Rightarrow> bool \<Rightarrow> rstr option \<Rightarrow> score_record option" where
  "best_of_player db md5 mode relax us =
     Option.bind us (\<lambda>username.
       Option.bind (get_user_by_username (sd_users db) (clean_username username))
         (\<lambda>u. get_personal_best db md5 (us_id u) mode relax))"

text \<open>\<open>None\<close> where the short name of a beatmap without a title panics, which is not reached.\<close>

definition song_title :: "beatmap_meta \<Rightarrow> rstr option \<Rightarrow> rstr option" where
  "song_title meta f = (if bm_title meta \<noteq> [] then display_name meta else Some (unwrap_or (lit ''Beatmap'') f))"

definition leaderboard_text ::
    "badges_db \<Rightarrow> beatmap_meta \<Rightarrow> i32 option \<Rightarrow> rstr \<Rightarrow> score_record option \<Rightarrow> score_record list \<Rightarrow> rstr" where
  "leaderboard_text badges meta i title pb scores =
     (let bid = positive_or_one (bm_beatmap_id meta);
          bsid = (if positive (bm_beatmapset_id meta) then bm_beatmapset_id meta else scast (unwrap_or 1 i));
          lines = [lit ''2|false|'' @ show_int (sint bid) @ [124] @ show_int (sint bsid) @ [124]
                     @ show_int (int (length scores)) @ lit ''|0|'',
                   lit ''0'', title, lit ''10.0'',
                   (case pb of Some sc \<Rightarrow> score_line badges 1 sc | None \<Rightarrow> [])]
                  @ ranked_lines badges scores
      in join_with 10 lines @ (if scores = [] then [10, 10] else []))"

definition get_scores :: "externals \<Rightarrow> clock \<Rightarrow> get_scores_query \<Rightarrow> site \<Rightarrow> response option \<times> site" where
  "get_scores ex ck q si =
     (case gq_c q of
        None \<Rightarrow> (Some (plain (lit ''-1'' @ [10])), si)
      | Some map_md5 \<Rightarrow>
          if map_md5 = [] then (Some (plain (lit ''-1'' @ [10])), si)
          else
            let mode = unwrap_or 0 (gq_m q);
                relax = query_relax (si_bancho si) q;
                scores = get_top_scores_for_map (si_db si) map_md5 mode relax 50;
                pb = best_of_player (si_db si) map_md5 mode relax (gq_us q);
                (meta, bs) = resolve_beatmap_meta (ck_now ck) (ex_mirror ex) (si_history si) map_md5
                               (sd_beatmaps (si_db si));
                si' = si\<lparr>si_db := (si_db si)\<lparr>sd_beatmaps := bs\<rparr>\<rparr>
            in case song_title meta (gq_f q) of
                 None \<Rightarrow> (None, si')
               | Some title \<Rightarrow>
                   let bs' = (case gq_f q of
                         Some filename \<Rightarrow> save_raw_beatmap_name (ck_now ck) map_md5 filename
                                            (positive_or_one (bm_beatmap_id meta)) bs
                       | None \<Rightarrow> bs)
                   in (Some (plain (leaderboard_text (si_badges si) meta (gq_i q) title pb scores)),
                       si\<lparr>si_db := (si_db si)\<lparr>sd_beatmaps := bs'\<rparr>\<rparr>))"

end
