(* ===== verification/Web_Accounts.thy ===== *)
theory Web_Accounts
  imports Web_Scores
begin

text \<open>
  The endpoints of \<^verbatim>\<open>src/server/web.rs\<close> for accounts, badges, the chat history and the match
  history.  A JSON payload has been read by the framework; no query fails except where a
  constraint is violated.
\<close>

definition json_answer :: "nat \<Rightarrow> json \<Rightarrow> response" where
  "json_answer status j = respond status [] (Json j)"

definition json_error :: "nat \<Rightarrow> string \<Rightarrow> response" where
  "json_error status message = json_answer status (JObj [(lit ''error'', JStr (lit message))])"

subsection \<open>Registration in the game\<close>

record register_form =
  rf_check :: "rstr option"
  rf_username :: "rstr option"
  rf_email :: "rstr option"
  rf_password :: "rstr option"

definition empty_form :: register_form where
  "empty_form = \<lparr>rf_check = None, rf_username = None, rf_email = None, rf_password = None\<rparr>"

definition set_field :: "rstr \<times> rstr \<Rightarrow> register_form \<Rightarrow> register_form" where
  "set_field = (\<lambda>(k, v) f.
     if k = lit ''check'' then f\<lparr>rf_check := Some v\<rparr>
     else if k \<in> {lit ''user[username]'', lit ''username''} then f\<lparr>rf_username := Some v\<rparr>
     else if k \<in> {lit ''user[user_email]'', lit ''user[email]'', lit ''email''} then f\<lparr>rf_email := Some v\<rparr>
     else if k \<in> {lit ''user[password]'', lit ''password''} then f\<lparr>rf_password := Some v\<rparr>
     else f)"

type_synonym error_lists = "(rstr, rstr list) hmap"

definition add_err :: "string \<Rightarrow> string \<Rightarrow> string \<Rightarrow> error_lists \<Rightarrow> error_lists" where
  "add_err field1 field2 msg = push_under (lit field2) (lit msg) \<circ> push_under (lit field1) (lit msg)"

definition username_char :: "(rchar \<Rightarrow> bool) \<Rightarrow> rchar \<Rightarrow> bool" where
  "username_char alphanumeric c \<longleftrightarrow> alphanumeric c \<or> c \<in> {95, 91, 93, 45, 32}"

text \<open>\<open>alphanumeric\<close> is \<^verbatim>\<open>char::is_alphanumeric\<close>; lengths are counted in bytes.\<close>

definition username_error :: "(rchar \<Rightarrow> bool) \<Rightarrow> users_db \<Rightarrow> bool \<Rightarrow> rstr \<Rightarrow> string option" where
  "username_error alphanumeric db is_live_check u_name =
     (let n = length (utf8_encode u_name)
      in if u_name = [] then (if is_live_check then None else Some ''Please enter a username.'')
         else if n < 3 then Some ''Username must be at least 3 characters long.''
         else if 20 < n then Some ''Username must not exceed 20 characters.''
         else if 32 \<in> set u_name \<and> 95 \<in> set u_name
         then Some ''Username cannot contain both spaces and underscores.''
         else if \<not> list_all (username_char alphanumeric) u_name then Some ''Username contains invalid characters.''
         else if get_user_by_username db u_name \<noteq> None then Some ''Username is already taken.''
         else None)"

definition email_error :: "bool \<Rightarrow> rstr \<Rightarrow> string option" where
  "email_error is_live_check u_email =
     (if u_email \<noteq> [] then
        (if 64 \<notin> set u_email \<or> 46 \<notin> set u_email \<or> length (utf8_encode u_email) < 5
         then Some ''Please enter a valid email address.'' else None)
      else if is_live_check then None else Some ''Please enter an email address.'')"

definition password_error :: "bool \<Rightarrow> rstr \<Rightarrow> string option" where
  "password_error is_live_check u_pass =
     (if u_pass \<noteq> [] then
        (if length (utf8_encode u_pass) < 8 then Some ''Password must be at least 8 characters long.'' else None)
      else if is_live_check then None else Some ''Please enter a password.'')"

definition note_error :: "string \<Rightarrow> string \<Rightarrow> string option \<Rightarrow> error_lists \<Rightarrow> error_lists" where
  "note_error field1 field2 e errs = (case e of Some msg \<Rightarrow> add_err field1 field2 msg errs | None \<Rightarrow> errs)"

definition form_errors :: "(rchar \<Rightarrow> bool) \<Rightarrow> users_db \<Rightarrow> bool \<Rightarrow> rstr \<Rightarrow> rstr \<Rightarrow> rstr \<Rightarrow> error_lists" where
  "form_errors alphanumeric db live u_name u_email u_pass =
     note_error ''password'' ''user[password]'' (password_error live u_pass)
       (note_error ''user_email'' ''user[user_email]'' (email_error live u_email)
         (note_error ''username'' ''user[username]'' (username_error alphanumeric db live u_name) []))"

text \<open>The errors as \<^verbatim>\<open>serde_json\<close> writes the map; the order of its keys does not matter.\<close>

definition errors_answer :: "error_lists \<Rightarrow> response" where
  "errors_answer errs =
     respond 200 [(lit ''content-type'', header_value (lit ''application/json''))]
       (Json (JObj [(lit ''errors'', JObj (map (\<lambda>(k, ms). (k, JArr (map JStr ms))) errs))]))"

definition osu_register_user ::
    "externals \<Rightarrow> (rchar \<Rightarrow> bool) \<Rightarrow> clock \<Rightarrow> web_config \<Rightarrow> handler" where
  "osu_register_user ex alphanumeric ck cfg rq si =
     (let f = fold set_field (parse_form_pairs (from_utf8_lossy (rq_body rq))) empty_form;
          u_name = trim (unwrap_or [] (rf_username f));
          u_email = trim (unwrap_or [] (rf_email f));
          u_pass = trim (unwrap_or [] (rf_password f));
          is_live_check = (rf_check f \<in> {Some (lit ''1''), Some (lit ''2'')} \<or> u_pass = [] \<or> u_email = []);
          errs = form_errors alphanumeric (si_users si) is_live_check u_name u_email u_pass
      in if is_live_check then (Some (errors_answer errs), si)
         else if errs \<noteq> [] then (Some (errors_answer errs), si)
         else
           case hash_password (ex_crypto ex) (md5_hex (ex_crypto ex) u_pass) of
             None \<Rightarrow> (Some (respond 500 [] (Text (lit ''Unable to process password.''))), si)
           | Some pwd_hash \<Rightarrow>
               let user_email = (if u_email = [] then u_name @ lit ''@ayanomi.local'' else u_email);
                   (created, users) = create_user (ck_now ck) u_name pwd_hash user_email
                                        (wc_default_country cfg) (si_users si);
                   si' = si\<lparr>si_db := (si_db si)\<lparr>sd_users := users\<rparr>\<rparr>
               in case created of
                    Some user \<Rightarrow>
                      (Some (respond 200 [(lit ''content-type'', header_value (lit ''text/plain''))] (Text (lit ''ok''))), si')
                  | None \<Rightarrow> (Some (errors_answer [(lit ''username'', [lit ''Registration failed.''])]), si'))"

subsection \<open>Badges\<close>

definition badge_json :: "badge_row \<Rightarrow> (rstr \<times> json) list" where
  "badge_json b =
     [(lit ''id'', JInt (bg_id b)), (lit ''name'', JStr (bg_name b)), (lit ''description'', JStr (bg_description b)),
      (lit ''icon_url'', JStr (bg_icon_url b)), (lit ''tag'', JStr (bg_tag b)),
      (lit ''created_at'', JStr (bg_created_at b))]"

definition list_badges_api :: "site \<Rightarrow> response" where
  "list_badges_api si =
     json_answer 200 (JArr (map (\<lambda>(b, n). JObj (badge_json b @ [(lit ''holders_count'', JInt n)]))
       (list_all_badges (si_badges si))))"

definition get_user_badges_api :: "i32 \<Rightarrow> site \<Rightarrow> response" where
  "get_user_badges_api uid si = json_answer 200 (JArr (map (JObj \<circ> badge_json) (get_user_badges (si_badges si) uid)))"

record create_badge_payload =
  cb_name :: rstr
  cb_description :: rstr
  cb_icon :: rstr
  cb_tag :: "rstr option"

definition create_badge_api :: "clock \<Rightarrow> create_badge_payload \<Rightarrow> site \<Rightarrow> response \<times> site" where
  "create_badge_api ck p si =
     (if trim (cb_name p) = [] then (json_error 400 ''Badge name cannot be empty'', si)
      else
        let tag = trim (unwrap_or [] (cb_tag p));
            (i, badges) = create_badge (ck_timestamp ck) (cb_name p) (cb_description p) (cb_icon p) tag (si_badges si)
        in (json_answer 200 (JObj [(lit ''id'', JInt i), (lit ''name'', JStr (cb_name p)),
              (lit ''description'', JStr (cb_description p)), (lit ''icon_url'', JStr (cb_icon p)),
              (lit ''tag'', JStr tag)]),
            si\<lparr>si_badges := badges\<rparr>))"

definition award_badge_api :: "clock \<Rightarrow> i32 \<Rightarrow> int \<Rightarrow> site \<Rightarrow> response \<times> site" where
  "award_badge_api ck uid badge_id si =
     (case award_badge (ck_timestamp ck) uid badge_id (si_badges si) of
        Some (awarded, badges) \<Rightarrow>
          (json_answer 200 (JObj [(lit ''success'', JBool True), (lit ''awarded'', JBool awarded)]),
           si\<lparr>si_badges := badges\<rparr>)
      | None \<Rightarrow> (json_error 500 ''Unable to award badge'', si))"

definition revoke_badge_api :: "i32 \<Rightarrow> int \<Rightarrow> site \<Rightarrow> response \<times> site" where
  "revoke_badge_api uid badge_id si =
     (let (revoked, badges) = revoke_badge uid badge_id (si_badges si)
      in (json_answer 200 (JObj [(lit ''success'', JBool True), (lit ''revoked'', JBool revoked)]),
          si\<lparr>si_badges := badges\<rparr>))"

subsection \<open>Histories\<close>

definition chat_json :: "chat_row \<Rightarrow> json" where
  "chat_json m =
     JObj [(lit ''id'', JInt (cr_id m)), (lit ''sender_id'', JInt (sint (cr_sender_id m))),
       (lit ''sender_name'', JStr (cr_sender_name m)), (lit ''target'', JStr (cr_target m)),
       (lit ''message'', JStr (cr_message m)), (lit ''is_private'', JInt (if cr_is_private m then 1 else 0)),
       (lit ''sent_at'', JStr (cr_sent_at m))]"

definition get_chat_history_api :: "rstr option \<Rightarrow> i64 option \<Rightarrow> site \<Rightarrow> response" where
  "get_chat_history_api target limit si =
     (let n = max 1 (min 200 (sint (unwrap_or 50 limit)))
      in case target of
           None \<Rightarrow> json_answer 200 (JArr (map chat_json (get_recent_chats (si_chat si) n)))
         | Some t \<Rightarrow>
             if \<not> starts_with t [35] \<or> 64 < length (utf8_encode t)
             then json_error 403 ''Only public channel history is available''
             else json_answer 200 (JArr (map chat_json (get_channel_history (si_chat si) t n))))"

definition match_json :: "match_history \<Rightarrow> json" where
  "match_json m =
     JObj ([(lit ''id'', JInt (mh_id m)), (lit ''name'', JStr (mh_name m)),
        (lit ''beatmap_id'', JInt (sint (mh_beatmap_id m))), (lit ''beatmap_name'', JStr (mh_beatmap_name m)),
        (lit ''beatmap_md5'', JStr (mh_beatmap_md5 m))]
       @ map (\<lambda>(k, v). (lit k, JInt (sint (v m))))
          [(''mode'', mh_mode), (''scoring_type'', mh_scoring_type), (''team_type'', mh_team_type),
           (''mods'', mh_mods), (''played_at'', mh_played_at), (''duration_seconds'', mh_duration),
           (''winner_id'', mh_winner_id)]
       @ [(lit ''winner_name'', JStr (mh_winner_name m))])"

definition match_score_json :: "match_score \<Rightarrow> json" where
  "match_score_json s =
     JObj ([(lit ''id'', JInt (hs_id s)), (lit ''match_id'', JInt (hs_match_id s)),
        (lit ''username'', JStr (hs_username s)), (lit ''accuracy'', JFloat (hs_accuracy s))]
       @ map (\<lambda>(k, v). (lit k, JInt (sint (v s))))
          [(''user_id'', hs_user_id), (''slot_id'', hs_slot_id), (''team'', hs_team), (''score'', hs_score),
           (''max_combo'', hs_max_combo), (''c300'', hs_c300), (''c100'', hs_c100), (''c50'', hs_c50),
           (''c_miss'', hs_c_miss), (''c_geki'', hs_c_geki), (''c_katu'', hs_c_katu),
           (''passed'', hs_passed), (''won'', hs_won)])"

definition get_matches_api :: "site \<Rightarrow> response" where
  "get_matches_api si = json_answer 200 (JArr (map match_json (get_recent_matches (si_history si) 50)))"

definition get_match_detail_api :: "int \<Rightarrow> site \<Rightarrow> response" where
  "get_match_detail_api match_id si =
     (case get_match_detail (si_history si) match_id of
        Some d \<Rightarrow> json_answer 200 (JObj [(lit ''match_info'', match_json (mw_match_info d)),
                     (lit ''scores'', JArr (map match_score_json (mw_scores d)))])
      | None \<Rightarrow> json_error 404 ''Match not found'')"

end
