(* ===== verification/Avatars.thy ===== *)
theory Avatars
  imports Web_Accounts Images
begin

text \<open>
  \<^verbatim>\<open>src/server/avatars.rs\<close>: the avatars and banners of the players.  Files are the map \<open>si_files\<close>,
  and writing one does not fail.  The framework has split the form into its fields; \<open>str_lower\<close>
  is \<^verbatim>\<open>str::to_lowercase\<close>, and the pictures built into the program are parameters.
\<close>

record upload_field =
  uf_name :: "rstr option"
  uf_file_name :: "rstr option"
  uf_bytes :: "u8 list option"

definition ends_with :: "rstr \<Rightarrow> rstr \<Rightarrow> bool" where
  "ends_with s p \<longleftrightarrow> length p \<le> length s \<and> drop (length s - length p) s = p"

definition strip_suffix :: "rstr \<Rightarrow> rstr \<Rightarrow> rstr option" where
  "strip_suffix s p = (if ends_with s p then Some (take (length s - length p) s) else None)"

definition api_response :: "nat \<Rightarrow> bool \<Rightarrow> string \<Rightarrow> response" where
  "api_response status success message =
     json_answer status (JObj [(lit ''success'', JBool success), (lit ''message'', JStr (lit message))])"

subsection \<open>Files of a player\<close>

definition image_extensions :: "rstr list" where
  "image_extensions = map lit [''png'', ''jpg'', ''jpeg'', ''webp'']"

definition user_file :: "string \<Rightarrow> i32 \<Rightarrow> rstr \<Rightarrow> rstr" where
  "user_file dir uid ext = lit dir @ [47] @ show_int (sint uid) @ [46] @ ext"

definition remove_user_files :: "string \<Rightarrow> i32 \<Rightarrow> site \<Rightarrow> site" where
  "remove_user_files dir uid si =
     si\<lparr>si_files := fold (\<lambda>ext. hdel (user_file dir uid ext)) image_extensions (si_files si)\<rparr>"

text \<open>\<open>local_appdata\<close> is the environment variable, \<open>dir_exists\<close> whether a directory is there.\<close>

definition cache_paths :: "rstr \<Rightarrow> (rstr \<Rightarrow> bool) \<Rightarrow> i32 \<Rightarrow> rstr list" where
  "cache_paths local_appdata dir_exists uid =
     (if local_appdata = [] then []
      else map (\<lambda>dir. dir @ [47] @ show_int (sint uid))
             (filter dir_exists (map (\<lambda>d. local_appdata @ lit d) [''/osu!test/Data/a'', ''/osu!/Data/a''])))"

definition sync_to_local_osu_cache :: "rstr \<Rightarrow> (rstr \<Rightarrow> bool) \<Rightarrow> i32 \<Rightarrow> u8 list option \<Rightarrow> site \<Rightarrow> site" where
  "sync_to_local_osu_cache local_appdata dir_exists uid bytes si =
     si\<lparr>si_files := fold (\<lambda>p. case bytes of Some b \<Rightarrow> hput p b | None \<Rightarrow> hdel p)
         (cache_paths local_appdata dir_exists uid) (si_files si)\<rparr>"

subsection \<open>Serving\<close>

definition image_number :: "rstr \<Rightarrow> rstr" where
  "image_number raw_id =
     (let clean = trim raw_id
      in unwrap_or clean (first_some (map (\<lambda>e. strip_suffix clean (46 # e)) image_extensions)))"

definition image_content_type :: "u8 list \<Rightarrow> rstr" where
  "image_content_type bytes =
     (if take 4 bytes = [0x89, 0x50, 0x4E, 0x47] then lit ''image/png''
      else if take 3 bytes = [0xFF, 0xD8, 0xFF] then lit ''image/jpeg''
      else if take 4 bytes = [0x52, 0x49, 0x46, 0x46] \<and> 12 < length bytes
              \<and> take 4 (drop 8 bytes) = [0x57, 0x45, 0x42, 0x50] then lit ''image/webp''
      else lit ''image/png'')"

definition uncached :: "rstr \<Rightarrow> u8 list \<Rightarrow> response" where
  "uncached content_type bytes =
     respond 200
       [(lit ''content-type'', header_value content_type),
        (lit ''cache-control'', header_value (lit ''no-cache, no-store, must-revalidate'')),
        (lit ''pragma'', header_value (lit ''no-cache'')), (lit ''expires'', header_value (lit ''0''))]
       (Bytes bytes)"

definition custom_image :: "string \<Rightarrow> i32 \<Rightarrow> site \<Rightarrow> u8 list option" where
  "custom_image dir uid si = first_some (map (\<lambda>ext. hget (si_files si) (user_file dir uid ext)) image_extensions)"

definition get_avatar :: "u8 list \<Rightarrow> rstr \<Rightarrow> site \<Rightarrow> response" where
  "get_avatar default_avatar raw_id si =
     (case parse_i32 (image_number raw_id) of
        None \<Rightarrow> respond 404 [] (Text (lit ''Avatar not found''))
      | Some uid \<Rightarrow>
          (case custom_image ''data/avatars'' uid si of
             Some bytes \<Rightarrow> uncached (image_content_type bytes) bytes
           | None \<Rightarrow> uncached (lit ''image/jpeg'')
                       (unwrap_or default_avatar (hget (si_files si) (lit ''default/marisa2.jpg'')))))"

definition get_root_avatar_or_404 :: "u8 list \<Rightarrow> rstr \<Rightarrow> site \<Rightarrow> response" where
  "get_root_avatar_or_404 default_avatar raw_id si =
     (if parse_i32 (image_number raw_id) \<noteq> None then get_avatar default_avatar raw_id si
      else respond 404 [] (Text (lit ''Page not found'')))"

definition get_banner :: "u8 list \<Rightarrow> rstr \<Rightarrow> site \<Rightarrow> response" where
  "get_banner default_banner_svg raw_id si =
     (case parse_i32 (image_number raw_id) of
        None \<Rightarrow> respond 404 [] (Text (lit ''Banner not found''))
      | Some uid \<Rightarrow>
          (case custom_image ''data/banners'' uid si of
             Some bytes \<Rightarrow> uncached (image_content_type bytes) bytes
           | None \<Rightarrow> uncached (lit ''image/svg+xml'') default_banner_svg))"

subsection \<open>Changing\<close>

definition site_user :: "crypto \<Rightarrow> clock \<Rightarrow> web_config \<Rightarrow> headers \<Rightarrow> site \<Rightarrow> user option" where
  "site_user cy ck cfg hs si = get_authenticated_user cy (ck_epoch ck) (ck_now ck) (wc_secret_key cfg) (si_users si) hs"

definition reset_avatar_api ::
    "crypto \<Rightarrow> clock \<Rightarrow> web_config \<Rightarrow> rstr \<Rightarrow> (rstr \<Rightarrow> bool) \<Rightarrow> headers \<Rightarrow> site \<Rightarrow> response \<times> site" where
  "reset_avatar_api cy ck cfg local_appdata dir_exists hs si =
     (case site_user cy ck cfg hs si of
        None \<Rightarrow> (api_response 401 False ''Please log in to manage your avatar.'', si)
      | Some user \<Rightarrow>
          (api_response 200 True ''Avatar reset to default successfully!'',
           sync_to_local_osu_cache local_appdata dir_exists (us_id user) None
             (remove_user_files ''data/avatars'' (us_id user) si)))"

definition reset_banner_api :: "crypto \<Rightarrow> clock \<Rightarrow> web_config \<Rightarrow> headers \<Rightarrow> site \<Rightarrow> response \<times> site" where
  "reset_banner_api cy ck cfg hs si =
     (case site_user cy ck cfg hs si of
        None \<Rightarrow> (api_response 401 False ''Please log in to manage your banner.'', si)
      | Some user \<Rightarrow>
          (api_response 200 True ''Banner reset to default successfully!'',
           remove_user_files ''data/banners'' (us_id user) si))"

definition image_file_name :: "(rstr \<Rightarrow> rstr) \<Rightarrow> string \<Rightarrow> upload_field \<Rightarrow> bool" where
  "image_file_name str_lower fallback f \<longleftrightarrow>
     list_ex (\<lambda>e. ends_with (str_lower (unwrap_or (lit fallback) (uf_file_name f))) (46 # e)) image_extensions"

text \<open>The first field that holds the picture decides.\<close>

definition picture_field :: "string \<Rightarrow> upload_field list \<Rightarrow> upload_field option" where
  "picture_field name fs = find (\<lambda>f. unwrap_or [] (uf_name f) \<in> {lit name, lit ''file''}) fs"

definition upload_avatar_api ::
    "crypto \<Rightarrow> clock \<Rightarrow> web_config \<Rightarrow> rstr \<Rightarrow> (rstr \<Rightarrow> bool) \<Rightarrow> (rstr \<Rightarrow> rstr) \<Rightarrow> headers \<Rightarrow> upload_field list
       \<Rightarrow> site \<Rightarrow> response \<times> site" where
  "upload_avatar_api cy ck cfg local_appdata dir_exists str_lower hs fs si =
     (case site_user cy ck cfg hs si of
        None \<Rightarrow> (api_response 401 False ''Please log in to change your avatar.'', si)
      | Some user \<Rightarrow>
          (case picture_field ''avatar'' fs of
             None \<Rightarrow> (api_response 400 False ''No avatar image file found in the request.'', si)
           | Some f \<Rightarrow>
               if \<not> image_file_name str_lower ''avatar.png'' f then
                 (api_response 400 False ''Invalid image format. Only PNG, JPG, JPEG, and WebP are supported.'', si)
               else
                 (case uf_bytes f of
                    None \<Rightarrow> (api_response 400 False ''Failed to read uploaded avatar file.'', si)
                  | Some bytes \<Rightarrow>
                      if 5 * 1024 * 1024 < length bytes then
                        (api_response 413 False ''Avatar file size exceeds the 5MB limit.'', si)
                      else if bytes = [] then (api_response 400 False ''Uploaded file is empty.'', si)
                      else
                        (case sanitize_uploaded_image bytes of
                           None \<Rightarrow> (api_response 400 False
                             ''The uploaded file is not a valid PNG, JPEG, or WebP image.'', si)
                         | Some picture \<Rightarrow>
                             (api_response 200 True ''Avatar updated successfully!'',
                              sync_to_local_osu_cache local_appdata dir_exists (us_id user) (Some picture)
                                (si\<lparr>si_files := hput (user_file ''data/avatars'' (us_id user) (lit ''png'')) picture
                                     (si_files si)\<rparr>))))))"

text \<open>The old banner is removed before the new one is looked at.\<close>

definition upload_banner_api ::
    "crypto \<Rightarrow> clock \<Rightarrow> web_config \<Rightarrow> (rstr \<Rightarrow> rstr) \<Rightarrow> headers \<Rightarrow> upload_field list \<Rightarrow> site \<Rightarrow> response \<times> site" where
  "upload_banner_api cy ck cfg str_lower hs fs si =
     (case site_user cy ck cfg hs si of
        None \<Rightarrow> (api_response 401 False ''Please log in to change your banner.'', si)
      | Some user \<Rightarrow>
          (case picture_field ''banner'' fs of
             None \<Rightarrow> (api_response 400 False ''No banner image file found in the request.'', si)
           | Some f \<Rightarrow>
               if \<not> image_file_name str_lower ''banner.png'' f then
                 (api_response 400 False ''Invalid image format. Only PNG, JPG, JPEG, and WebP are supported.'', si)
               else
                 (case uf_bytes f of
                    None \<Rightarrow> (api_response 400 False ''Failed to read uploaded banner file.'', si)
                  | Some bytes \<Rightarrow>
                      if 10 * 1024 * 1024 < length bytes then
                        (api_response 413 False ''Banner file size exceeds the 10MB limit.'', si)
                      else if bytes = [] then (api_response 400 False ''Uploaded file is empty.'', si)
                      else
                        let si' = remove_user_files ''data/banners'' (us_id user) si
                        in (case sanitize_uploaded_image bytes of
                              None \<Rightarrow> (api_response 400 False
                                ''The uploaded file is not a valid PNG, JPEG, or WebP image.'', si')
                            | Some picture \<Rightarrow>
                                (api_response 200 True ''Banner updated successfully!'',
                                 si'\<lparr>si_files := hput (user_file ''data/banners'' (us_id user) (lit ''png'')) picture
                                      (si_files si')\<rparr>)))))"

end
