(* ===== verification/Direct.thy ===== *)
theory Direct
  imports Avatars
begin

unbundle bit_operations_syntax

text \<open>
  \<^verbatim>\<open>src/server/direct.rs\<close>: searching and downloading beatmaps through mirrors.  The mirrors are
  parameters: what a request to a URL answers, with the JSON already read.  Integers wrap as
  in a release build.
\<close>

record direct_child =
  dc_diff_name :: "rstr option"
  dc_mode :: "i32 option"

record direct_set =
  ds_set_id :: "i32 option"
  ds_artist :: "rstr option"
  ds_title :: "rstr option"
  ds_creator :: "rstr option"
  ds_ranked_status :: "i32 option"
  ds_last_update :: "rstr option"
  ds_has_video :: "bool option"
  ds_children :: "direct_child list option"

text \<open>\<^verbatim>\<open>deserialize_has_video\<close>, on the kinds of JSON a mirror sends.\<close>

fun has_video_of :: "json \<Rightarrow> bool option" where
  "has_video_of (JBool b) = Some b"
| "has_video_of (JInt n) = Some (- (2 ^ 63) \<le> n \<and> n < 2 ^ 63 \<and> n \<noteq> 0)"
| "has_video_of (JFloat _) = Some False"
| "has_video_of (JStr s) = Some (s = lit ''1'' \<or> eq_ignore_ascii_case s (lit ''true''))"
| "has_video_of _ = None"

definition get_api_base :: "rstr \<Rightarrow> rstr" where
  "get_api_base configured =
     (let s = rev (dropWhile (\<lambda>c. c = 47) (rev configured))
      in unwrap_or s (strip_suffix s (lit ''/search'')))"

subsection \<open>The format of the client\<close>

definition replace_char :: "rchar \<Rightarrow> rstr \<Rightarrow> rstr \<Rightarrow> rstr" where
  "replace_char c r s = concat (map (\<lambda>x. if x = c then r else [x]) s)"

definition no_bars :: "rstr option \<Rightarrow> rstr" where
  "no_bars s = replace_char 124 [45] (unwrap_or (lit ''Unknown'') s)"

definition direct_status :: "i32 option \<Rightarrow> int" where
  "direct_status s = (let n = sint (unwrap_or 0 s) in if n \<in> {1, 2, 3, 4} then n else 0)"

definition direct_update :: "rstr option \<Rightarrow> rstr" where
  "direct_update u =
     rev (dropWhile (\<lambda>c. c = 90) (rev (replace_char 84 [32] (unwrap_or (lit ''2026-01-01 00:00:00'') u))))"

definition direct_diff :: "direct_child \<Rightarrow> rstr" where
  "direct_diff c =
     replace_char 44 [32] (replace_char 124 [45] (replace_char 64 [] (unwrap_or (lit ''Normal'') (dc_diff_name c))))
       @ [64] @ show_int (sint (unwrap_or 0 (dc_mode c)))"

definition direct_fields :: "direct_set \<Rightarrow> rstr list" where
  "direct_fields s =
     (let set_id = show_int (sint (unwrap_or 0 (ds_set_id s)));
          video = unwrap_or False (ds_has_video s)
      in [set_id @ lit ''.osz'', no_bars (ds_artist s), no_bars (ds_title s), no_bars (ds_creator s),
          show_int (direct_status (ds_ranked_status s)), lit ''10.00'', direct_update (ds_last_update s),
          set_id, set_id, if video then lit ''1'' else lit ''0'', lit ''0'', lit ''1337'',
          if video then lit ''7331'' else []])"

definition format_direct_set :: "direct_set \<Rightarrow> rstr" where
  "format_direct_set s =
     join_with 124 (direct_fields s @ [join_with 44 (map direct_diff (unwrap_or [] (ds_children s))), []])"

definition format_direct_np :: "direct_set \<Rightarrow> rstr" where
  "format_direct_np s = join_with 124 (direct_fields s)"

subsection \<open>Download\<close>

text \<open>What a mirror answers: the status, and the body unless reading it fails; \<open>None\<close> is no answer.\<close>

type_synonym mirror_reply = "(nat \<times> u8 list option) option"

definition success :: "mirror_reply \<Rightarrow> bool" where
  "success r = (case r of Some (status, _) \<Rightarrow> 200 \<le> status \<and> status < 300 | None \<Rightarrow> False)"

definition only_success :: "mirror_reply \<Rightarrow> mirror_reply" where
  "only_success r = (if success r then r else None)"

definition clean_set_id :: "rstr \<Rightarrow> rstr" where
  "clean_set_id raw = trim (trim_end_matches (lit ''.osz2'') (trim_end_matches (lit ''.osz'') raw))"

definition is_no_video :: "rstr \<Rightarrow> bool" where
  "is_no_video clean \<longleftrightarrow> ends_with clean (lit ''n'') \<and> list_all is_digit (butlast clean)"

definition drop_n :: "rstr \<Rightarrow> rstr" where
  "drop_n s = rev (dropWhile (\<lambda>c. c = 110) (rev s))"

definition mirror_url :: "rstr \<Rightarrow> rstr \<Rightarrow> rstr" where
  "mirror_url template set_id = replace_str (lit ''{}'') set_id template"

definition primary_reply :: "(rstr \<Rightarrow> mirror_reply) \<Rightarrow> rstr \<Rightarrow> rstr \<Rightarrow> mirror_reply" where
  "primary_reply fetch template clean =
     (let r = fetch (mirror_url template clean)
      in if success r then r
         else if is_no_video clean \<and> map_option fst r = Some 404
         then only_success (fetch (mirror_url template (drop_n clean)))
         else None)"

definition download_beatmap :: "(rstr \<Rightarrow> mirror_reply) \<Rightarrow> rstr \<Rightarrow> rstr \<Rightarrow> response" where
  "download_beatmap fetch template raw_set_id =
     (let clean = clean_set_id raw_set_id
      in if \<not> list_all is_digit clean \<and> \<not> is_no_video clean
         then respond 400 [] (Text (lit ''Invalid Beatmap Set ID''))
         else
           let primary = primary_reply fetch template clean;
               reply = (if primary = None
                        then only_success (fetch (lit ''https://api.nerinyan.moe/d/'' @ drop_n clean))
                        else primary)
           in case reply of
                None \<Rightarrow> respond 404 [] (Text (lit ''Beatmap set not found on mirrors''))
              | Some (_, None) \<Rightarrow> respond 502 [] (Text (lit ''Failed to read beatmap payload from mirror''))
              | Some (_, Some bytes) \<Rightarrow>
                  respond 200
                    [(lit ''content-type'', header_value (lit ''application/octet-stream'')),
                     (lit ''content-length'', header_value (show_int (int (length bytes)))),
                     (lit ''content-disposition'',
                      header_value (lit ''attachment; filename='' @ [34] @ drop_n clean @ lit ''.osz'' @ [34]))]
                    (Bytes bytes))"

subsection \<open>Search\<close>

definition html :: "rstr \<Rightarrow> response" where
  "html s = respond 200 [(lit ''content-type'', header_value (lit ''text/html; charset=utf-8''))] (Text s)"

definition search_offset :: "i32 \<Rightarrow> i32" where
  "search_offset p = (if sint p < 0 then 0 else p) * 100"

definition status_pair :: "(rstr, rstr) hmap \<Rightarrow> (rstr \<times> rstr) list" where
  "status_pair params =
     (let st = (\<lambda>s. [(lit ''status'', lit s)])
      in case hget params (lit ''r'') of
           None \<Rightarrow> st ''1''
         | Some r_str \<Rightarrow>
             (case parse_i32 r_str of
                None \<Rightarrow> []
              | Some r \<Rightarrow>
                  if r = 2 then st ''0'' else if r = 3 then st ''3'' else if r = 5 then st ''-2''
                  else if r = 8 then st ''4'' else if r = 4 then [] else st ''1''))"

text \<open>The parameters sent to the mirror.\<close>

definition search_pairs :: "(rstr \<Rightarrow> rstr) \<Rightarrow> (rstr, rstr) hmap \<Rightarrow> (rstr \<times> rstr) list" where
  "search_pairs str_lower params =
     (let p = unwrap_or 0 (Option.bind (hget params (lit ''p'')) parse_i32);
          query = (case hget params (lit ''q'') of
              None \<Rightarrow> []
            | Some q \<Rightarrow>
                if str_lower (trim q) \<in> set (map lit ['''', ''top rated'', ''most played'', ''newest'', ''newest maps''])
                then [] else [(lit ''q'', trim q)]);
          mode = (case Option.bind (hget params (lit ''m'')) parse_i32 of
              Some m \<Rightarrow> if 0 \<le> sint m \<and> sint m \<le> 3 then [(lit ''mode'', show_int (sint m))] else []
            | None \<Rightarrow> [])
      in [(lit ''amount'', lit ''100''), (lit ''offset'', show_int (sint (search_offset p)))]
           @ query @ mode @ status_pair params)"

text \<open>\<open>fetch_set\<close> reads one set; \<open>parent_of\<close> finds the set of a beatmap.\<close>

definition search_beatmap_set ::
    "(rstr \<Rightarrow> direct_set option) \<Rightarrow> (rstr \<Rightarrow> i32 option) \<Rightarrow> rstr \<Rightarrow> (rstr, rstr) hmap \<Rightarrow> response" where
  "search_beatmap_set fetch_set parent_of search_api params =
     (let api_base = get_api_base search_api;
          set_url = (\<lambda>s. api_base @ lit ''/s/'' @ s);
          found =
            (case hget params (lit ''b'') of
               Some b_id \<Rightarrow>
                 Option.bind (parent_of (api_base @ lit ''/b/'' @ trim b_id))
                   (\<lambda>parent. fetch_set (set_url (show_int (sint parent))))
             | None \<Rightarrow>
                 (case hget params (lit ''s'') of
                    Some s_id \<Rightarrow> fetch_set (set_url (trim s_id))
                  | None \<Rightarrow> None))
      in case found of
           Some s \<Rightarrow> html (format_direct_np s @ [13, 10])
         | None \<Rightarrow> html [])"

text \<open>\<open>search\<close> is the mirror: the sets it answers for the parameters.\<close>

definition search_beatmaps ::
    "((rstr \<times> rstr) list \<Rightarrow> direct_set list option) \<Rightarrow> (rstr \<Rightarrow> direct_set option) \<Rightarrow> (rstr \<Rightarrow> i32 option)
       \<Rightarrow> (rstr \<Rightarrow> rstr) \<Rightarrow> rstr \<Rightarrow> (rstr, rstr) hmap \<Rightarrow> response" where
  "search_beatmaps search fetch_set parent_of str_lower search_api params =
     (if hget params (lit ''b'') \<noteq> None \<or> hget params (lit ''s'') \<noteq> None
      then search_beatmap_set fetch_set parent_of search_api params
      else case search (search_pairs str_lower params) of
             Some sets \<Rightarrow>
               html ((if 100 \<le> length sets then lit ''101'' else show_int (int (length sets))) @ [13, 10]
                     @ concat (map (\<lambda>s. format_direct_set s @ [13, 10]) sets))
           | None \<Rightarrow> html (lit ''0'' @ [13, 10]))"

end
