(* ===== verification/Config.thy ===== *)
theory Config
  imports Gateway Login Direct
begin

text \<open>
  \<^verbatim>\<open>src/config.rs\<close>: the configuration with its defaults, the environment variables, and what
  \<^verbatim>\<open>load\<close> refuses.  The TOML text has been read: a field with a default is an option in the
  raw records, a section with a default an option of its record.
\<close>

subsection \<open>Sections\<close>

record server_config =
  sv_host :: rstr
  sv_port :: u16
  sv_bancho_port :: u16
  sv_web_port :: u16
  sv_roseflower_port :: u16
  sv_domain :: rstr
  sv_name :: rstr
  sv_welcome_message :: rstr
  sv_secret_key :: rstr

record raw_server =
  rw_host :: rstr
  rw_port :: u16
  rw_bancho_port :: "u16 option"
  rw_web_port :: "u16 option"
  rw_roseflower_port :: "u16 option"
  rw_domain :: rstr
  rw_name :: rstr
  rw_welcome_message :: rstr
  rw_secret_key :: "rstr option"

definition server_of :: "raw_server \<Rightarrow> server_config" where
  "server_of r =
     \<lparr>sv_host = rw_host r, sv_port = rw_port r, sv_bancho_port = unwrap_or 5001 (rw_bancho_port r),
      sv_web_port = unwrap_or 5002 (rw_web_port r), sv_roseflower_port = unwrap_or 5003 (rw_roseflower_port r),
      sv_domain = rw_domain r, sv_name = rw_name r, sv_welcome_message = rw_welcome_message r,
      sv_secret_key = unwrap_or [] (rw_secret_key r)\<rparr>"

record gameplay_config =
  gp_auto_register :: bool
  gp_default_country :: u8
  gp_bot_name :: rstr
  gp_bot_id :: i32
  gp_chat_history_limit :: i64

record raw_gameplay =
  rg_auto_register :: bool
  rg_default_country :: u8
  rg_bot_name :: rstr
  rg_bot_id :: i32
  rg_chat_history_limit :: "i64 option"

definition gameplay_of :: "raw_gameplay \<Rightarrow> gameplay_config" where
  "gameplay_of r =
     \<lparr>gp_auto_register = rg_auto_register r, gp_default_country = rg_default_country r,
      gp_bot_name = rg_bot_name r, gp_bot_id = rg_bot_id r,
      gp_chat_history_limit = unwrap_or 25 (rg_chat_history_limit r)\<rparr>"

record security_config =
  sy_anti_multiaccount :: bool
  sy_max_accounts_per_hwid :: u32
  sy_block_vpn :: bool

record raw_security =
  ry_anti_multiaccount :: "bool option"
  ry_max_accounts_per_hwid :: "u32 option"
  ry_block_vpn :: "bool option"

definition security_of :: "raw_security \<Rightarrow> security_config" where
  "security_of r =
     \<lparr>sy_anti_multiaccount = unwrap_or True (ry_anti_multiaccount r),
      sy_max_accounts_per_hwid = unwrap_or 1 (ry_max_accounts_per_hwid r),
      sy_block_vpn = unwrap_or False (ry_block_vpn r)\<rparr>"

text \<open>The derived default of the struct, used when the section is missing.\<close>

definition derived_security :: security_config where
  "derived_security = \<lparr>sy_anti_multiaccount = False, sy_max_accounts_per_hwid = 0, sy_block_vpn = False\<rparr>"

record database_config =
  db_path :: rstr
  db_chat_path :: rstr
  db_badges_path :: rstr
  db_multi_path :: rstr
  db_friends_path :: rstr
  db_auto_backup :: bool
  db_backup_interval_minutes :: u64
  db_max_backups_kept :: u64

record raw_database =
  rd_path :: rstr
  rd_chat_path :: "rstr option"
  rd_badges_path :: "rstr option"
  rd_multi_path :: "rstr option"
  rd_friends_path :: "rstr option"
  rd_auto_backup :: "bool option"
  rd_backup_interval_minutes :: "u64 option"
  rd_max_backups_kept :: "u64 option"

text \<open>\<open>path_exists\<close> is \<^verbatim>\<open>Path::exists\<close>.\<close>

definition default_multi_db_path :: "(rstr \<Rightarrow> bool) \<Rightarrow> rstr" where
  "default_multi_db_path path_exists =
     (if path_exists (lit ''data/roseflower.db'') then lit ''data/roseflower.db''
      else if path_exists (lit ''data/ayanomi_multi.db'') then lit ''data/ayanomi_multi.db''
      else lit ''data/roseflower.db'')"

definition database_of :: "(rstr \<Rightarrow> bool) \<Rightarrow> raw_database \<Rightarrow> database_config" where
  "database_of path_exists r =
     \<lparr>db_path = rd_path r, db_chat_path = unwrap_or (lit ''data/ayanomi_chat.db'') (rd_chat_path r),
      db_badges_path = unwrap_or (lit ''data/ayanomi_badges.db'') (rd_badges_path r),
      db_multi_path = unwrap_or (default_multi_db_path path_exists) (rd_multi_path r),
      db_friends_path = unwrap_or (lit ''data/ayanomi_friends.db'') (rd_friends_path r),
      db_auto_backup = unwrap_or True (rd_auto_backup r),
      db_backup_interval_minutes = unwrap_or 60 (rd_backup_interval_minutes r),
      db_max_backups_kept = unwrap_or 5 (rd_max_backups_kept r)\<rparr>"

record mirror_config =
  mi_direct_search_api :: rstr
  mi_download_url :: rstr
  mi_beatmap_md5_api :: rstr

record raw_mirrors =
  rm_direct_search_api :: rstr
  rm_download_url :: rstr
  rm_beatmap_md5_api :: "rstr option"

definition default_beatmap_md5_api :: rstr where
  "default_beatmap_md5_api = lit ''https://mirror.hinamizawa.ai/v3/osu/beatmaps/md5/{}''"

definition mirrors_of :: "raw_mirrors \<Rightarrow> mirror_config" where
  "mirrors_of r =
     \<lparr>mi_direct_search_api = rm_direct_search_api r, mi_download_url = rm_download_url r,
      mi_beatmap_md5_api = unwrap_or default_beatmap_md5_api (rm_beatmap_md5_api r)\<rparr>"

record backgrounds_config =
  bk_enabled :: bool
  bk_directory :: rstr
  bk_artist_name :: rstr

record raw_backgrounds =
  rb_enabled :: "bool option"
  rb_directory :: "rstr option"
  rb_artist_name :: "rstr option"

definition default_backgrounds :: backgrounds_config where
  "default_backgrounds =
     \<lparr>bk_enabled = True, bk_directory = lit ''data/backgrounds'', bk_artist_name = lit ''AyanomiBancho''\<rparr>"

definition backgrounds_of :: "raw_backgrounds \<Rightarrow> backgrounds_config" where
  "backgrounds_of r =
     \<lparr>bk_enabled = unwrap_or (bk_enabled default_backgrounds) (rb_enabled r),
      bk_directory = unwrap_or (bk_directory default_backgrounds) (rb_directory r),
      bk_artist_name = unwrap_or (bk_artist_name default_backgrounds) (rb_artist_name r)\<rparr>"

record raw_ratelimit =
  rr_enabled :: "bool option"
  rr_general_rpm :: "u32 option"
  rr_bancho_rpm :: "u32 option"
  rr_direct_rpm :: "u32 option"
  rr_sensitive_rpm :: "u32 option"
  rr_whitelist_private :: "bool option"

definition default_ratelimit :: rate_limit_config where
  "default_ratelimit =
     \<lparr>rl_enabled = True, rl_general_rpm = 15000, rl_bancho_rpm = 15000, rl_direct_rpm = 9000,
      rl_sensitive_rpm = 1200, rl_whitelist_private = True\<rparr>"

definition ratelimit_of :: "raw_ratelimit \<Rightarrow> rate_limit_config" where
  "ratelimit_of r =
     \<lparr>rl_enabled = unwrap_or True (rr_enabled r), rl_general_rpm = unwrap_or 15000 (rr_general_rpm r),
      rl_bancho_rpm = unwrap_or 15000 (rr_bancho_rpm r), rl_direct_rpm = unwrap_or 9000 (rr_direct_rpm r),
      rl_sensitive_rpm = unwrap_or 1200 (rr_sensitive_rpm r),
      rl_whitelist_private = unwrap_or True (rr_whitelist_private r)\<rparr>"

record turnstile_config =
  tn_enabled :: bool
  tn_site_key :: rstr
  tn_secret_key :: rstr
  tn_expected_action :: "rstr option"
  tn_expected_hostnames :: "rstr list"

record raw_turnstile =
  rt_enabled :: "bool option"
  rt_site_key :: "rstr option"
  rt_secret_key :: "rstr option"
  rt_expected_action :: "rstr option"
  rt_expected_hostnames :: "rstr list option"

definition turnstile_of :: "raw_turnstile \<Rightarrow> turnstile_config" where
  "turnstile_of r =
     \<lparr>tn_enabled = unwrap_or False (rt_enabled r),
      tn_site_key = unwrap_or (lit ''0x4AAAAAAEtvk0dbaHJLPHIb'') (rt_site_key r),
      tn_secret_key = unwrap_or [] (rt_secret_key r),
      tn_expected_action = (case rt_expected_action r of Some a \<Rightarrow> Some a | None \<Rightarrow> Some (lit ''login'')),
      tn_expected_hostnames = unwrap_or [] (rt_expected_hostnames r)\<rparr>"

definition derived_turnstile :: turnstile_config where
  "derived_turnstile =
     \<lparr>tn_enabled = False, tn_site_key = [], tn_secret_key = [], tn_expected_action = None,
      tn_expected_hostnames = []\<rparr>"

subsection \<open>The configuration\<close>

record config =
  cf_server :: server_config
  cf_gameplay :: gameplay_config
  cf_security :: security_config
  cf_database :: database_config
  cf_mirrors :: mirror_config
  cf_backgrounds :: backgrounds_config
  cf_ratelimit :: rate_limit_config
  cf_turnstile :: turnstile_config

record raw_config =
  rc_server :: raw_server
  rc_gameplay :: raw_gameplay
  rc_security :: "raw_security option"
  rc_database :: raw_database
  rc_mirrors :: raw_mirrors
  rc_backgrounds :: "raw_backgrounds option"
  rc_ratelimit :: "raw_ratelimit option"
  rc_turnstile :: "raw_turnstile option"

definition section_or :: "'b \<Rightarrow> ('a \<Rightarrow> 'b) \<Rightarrow> 'a option \<Rightarrow> 'b" where
  "section_or d f s = (case s of Some r \<Rightarrow> f r | None \<Rightarrow> d)"

definition config_of :: "(rstr \<Rightarrow> bool) \<Rightarrow> raw_config \<Rightarrow> config" where
  "config_of path_exists r =
     \<lparr>cf_server = server_of (rc_server r), cf_gameplay = gameplay_of (rc_gameplay r),
      cf_security = section_or derived_security security_of (rc_security r),
      cf_database = database_of path_exists (rc_database r), cf_mirrors = mirrors_of (rc_mirrors r),
      cf_backgrounds = section_or default_backgrounds backgrounds_of (rc_backgrounds r),
      cf_ratelimit = section_or default_ratelimit ratelimit_of (rc_ratelimit r),
      cf_turnstile = section_or derived_turnstile turnstile_of (rc_turnstile r)\<rparr>"

text \<open>The configuration of the tests.\<close>

definition default_config :: config where
  "default_config =
     \<lparr>cf_server = \<lparr>sv_host = lit ''127.0.0.1'', sv_port = 5000, sv_bancho_port = 5001, sv_web_port = 5002,
        sv_roseflower_port = 5003, sv_domain = lit ''127.0.0.1:5000'', sv_name = lit ''AyanomiBancho'',
        sv_welcome_message = lit ''Welcome to AyanomiBancho!'',
        sv_secret_key = lit ''test-only-session-secret-at-least-32-bytes''\<rparr>,
      cf_gameplay = \<lparr>gp_auto_register = True, gp_default_country = 233, gp_bot_name = lit ''Miku'', gp_bot_id = 3,
        gp_chat_history_limit = 25\<rparr>,
      cf_security = \<lparr>sy_anti_multiaccount = True, sy_max_accounts_per_hwid = 1, sy_block_vpn = False\<rparr>,
      cf_database = \<lparr>db_path = lit ''data/ayanomi.db'', db_chat_path = lit ''data/ayanomi_chat.db'',
        db_badges_path = lit ''data/ayanomi_badges.db'', db_multi_path = lit ''data/ayanomi_multi.db'',
        db_friends_path = lit ''data/ayanomi_friends.db'', db_auto_backup = True, db_backup_interval_minutes = 60,
        db_max_backups_kept = 5\<rparr>,
      cf_mirrors = \<lparr>mi_direct_search_api = lit ''https://mirror.hinamizawa.ai/api/v1/hinai/search'',
        mi_download_url = lit ''https://mirror.hinamizawa.ai/api/v1/hinai/d/{}'',
        mi_beatmap_md5_api = default_beatmap_md5_api\<rparr>,
      cf_backgrounds = default_backgrounds, cf_ratelimit = default_ratelimit, cf_turnstile = derived_turnstile\<rparr>"

definition env_over :: "(string \<Rightarrow> rstr option) \<Rightarrow> string \<Rightarrow> rstr \<Rightarrow> rstr" where
  "env_over env var x = (case env var of Some v \<Rightarrow> if trim v \<noteq> [] then v else x | None \<Rightarrow> x)"

text \<open>On Unix a path with a colon, a Windows drive, is replaced.\<close>

definition unix_path :: "string \<Rightarrow> rstr \<Rightarrow> rstr" where
  "unix_path d p = (if 58 \<in> set p then lit d else p)"

definition unix_paths :: "database_config \<Rightarrow> database_config" where
  "unix_paths d =
     d\<lparr>db_path := unix_path ''data/ayanomi.db'' (db_path d),
       db_chat_path := unix_path ''data/ayanomi_chat.db'' (db_chat_path d),
       db_badges_path := unix_path ''data/ayanomi_badges.db'' (db_badges_path d),
       db_multi_path := unix_path ''data/ayanomi_multi.db'' (db_multi_path d)\<rparr>"

text \<open>\<open>raw\<close> is the file, \<open>None\<close> when it cannot be read or parsed; the result \<open>None\<close> stops the program.\<close>

definition load :: "(rstr \<Rightarrow> bool) \<Rightarrow> (string \<Rightarrow> rstr option) \<Rightarrow> raw_config option \<Rightarrow> config option" where
  "load path_exists env raw =
     Option.bind raw (\<lambda>r.
       let c = config_of path_exists r;
           secret = env_over env ''AYANOMI_SESSION_SECRET'' (sv_secret_key (cf_server c))
       in if length (utf8_encode (trim secret)) < 32 then None
          else Some (c\<lparr>
            cf_server := (cf_server c)\<lparr>sv_secret_key := secret,
              sv_host := env_over env ''AYANOMI_BIND_HOST'' (sv_host (cf_server c))\<rparr>,
            cf_turnstile := (cf_turnstile c)\<lparr>tn_secret_key :=
              env_over env ''TURNSTILE_SECRET'' (tn_secret_key (cf_turnstile c))\<rparr>,
            cf_database := unix_paths (cf_database c)\<rparr>))"

subsection \<open>What the parts of the program get\<close>

definition gateway_config_of :: "config \<Rightarrow> gateway_config" where
  "gateway_config_of c =
     \<lparr>gc_block_vpn = sy_block_vpn (cf_security c), gc_ratelimit = cf_ratelimit c,
      gc_bancho_port = sv_bancho_port (cf_server c), gc_web_port = sv_web_port (cf_server c),
      gc_roseflower_port = sv_roseflower_port (cf_server c)\<rparr>"

definition web_config_of :: "config \<Rightarrow> web_config" where
  "web_config_of c =
     \<lparr>wc_secret_key = sv_secret_key (cf_server c), wc_domain = sv_domain (cf_server c),
      wc_default_country = gp_default_country (cf_gameplay c), wc_ratelimit = cf_ratelimit c\<rparr>"

end
