(* ===== verification/Backgrounds.thy ===== *)
theory Backgrounds
  imports Avatars "HOL-Library.List_Lexorder"
begin

text \<open>
  \<^verbatim>\<open>src/server/backgrounds.rs\<close>: the menu backgrounds, files of one directory.  Paths are Unix
  paths; \<open>alphanumeric\<close> is \<^verbatim>\<open>char::is_alphanumeric\<close>.
\<close>

subsection \<open>Names\<close>

definition ascii_alphanumeric :: "rchar \<Rightarrow> bool" where
  "ascii_alphanumeric c \<longleftrightarrow> 48 \<le> c \<and> c \<le> 57 \<or> 65 \<le> c \<and> c \<le> 90 \<or> 97 \<le> c \<and> c \<le> 122"

text \<open>Only ASCII is left where the name is turned to lower case.\<close>

definition is_valid_image_filename :: "rstr \<Rightarrow> bool" where
  "is_valid_image_filename filename \<longleftrightarrow>
     filename \<noteq> [] \<and> \<not> str_contains filename (lit ''..'')
     \<and> list_all (\<lambda>c. ascii_alphanumeric c \<or> c \<in> {46, 95, 45}) filename
     \<and> list_ex (\<lambda>e. ends_with (map ascii_lower filename) (lit e)) [''.jpg'', ''.jpeg'', ''.png'', ''.webp'']"

definition get_image_mime :: "rstr \<Rightarrow> rstr" where
  "get_image_mime filename =
     (let lower = map ascii_lower filename
      in if ends_with lower (lit ''.png'') then lit ''image/png''
         else if ends_with lower (lit ''.webp'') then lit ''image/webp''
         else lit ''image/jpeg'')"

definition path_join :: "rstr \<Rightarrow> rstr \<Rightarrow> rstr" where
  "path_join dir name = (if dir = [] \<or> last dir = 47 then dir @ name else dir @ [47] @ name)"

text \<open>\<^verbatim>\<open>Path::file_name\<close>\<close>

definition path_file_name :: "rstr \<Rightarrow> rstr option" where
  "path_file_name p =
     (let cs = filter (\<lambda>c. c \<noteq> [] \<and> c \<noteq> lit ''.'') (split_on 47 p)
      in if cs = [] \<or> last cs = lit ''..'' then None else Some (last cs))"

subsection \<open>The directory\<close>

text \<open>\<open>read_dir\<close>: the files right below the directory.\<close>

definition file_in :: "rstr \<Rightarrow> rstr \<Rightarrow> rstr option" where
  "file_in dir path = option_filter (\<lambda>n. 47 \<notin> set n) (strip_prefix path (path_join dir []))"

definition scan_backgrounds :: "rstr \<Rightarrow> site \<Rightarrow> (rstr \<times> nat) list" where
  "scan_backgrounds dir si =
     List.map_filter (\<lambda>(path, bytes).
       map_option (\<lambda>name. (name, length bytes)) (option_filter is_valid_image_filename (file_in dir path)))
       (si_files si)"

definition background_urls :: "web_config \<Rightarrow> rstr \<Rightarrow> site \<Rightarrow> rstr list" where
  "background_urls cfg dir si =
     map (\<lambda>(name, _). get_public_base_url (wc_domain cfg) @ lit ''/backgrounds/'' @ name)
       (sort_key fst (scan_backgrounds dir si))"

text \<open>The artist stands for the user of every background; the dates are written by the library.\<close>

definition seasonal_user :: "rstr \<Rightarrow> rstr \<Rightarrow> rstr \<Rightarrow> json" where
  "seasonal_user base_url artist last_visit =
     JObj [(lit ''id'', JInt 1), (lit ''username'', JStr artist), (lit ''country_code'', JStr (lit ''VN'')),
       (lit ''avatar_url'', JStr (base_url @ lit ''/a/1'')), (lit ''default_group'', JStr (lit ''default'')),
       (lit ''is_active'', JBool True), (lit ''is_bot'', JBool False), (lit ''is_deleted'', JBool False),
       (lit ''is_online'', JBool True), (lit ''is_supporter'', JBool True),
       (lit ''last_visit'', JStr last_visit), (lit ''pm_friends_only'', JBool False),
       (lit ''profile_colour'', JNull)]"

definition get_seasonal_backgrounds :: "web_config \<Rightarrow> rstr \<Rightarrow> rstr \<Rightarrow> rstr \<Rightarrow> rstr \<Rightarrow> site \<Rightarrow> response" where
  "get_seasonal_backgrounds cfg dir artist ends_at last_visit si =
     json_answer 200 (JObj [(lit ''ends_at'', JStr ends_at),
       (lit ''backgrounds'', JArr (map (\<lambda>url. JObj [(lit ''url'', JStr url),
          (lit ''user'', seasonal_user (get_public_base_url (wc_domain cfg)) artist last_visit)])
          (background_urls cfg dir si)))])"

definition get_seasonal_backgrounds_stable :: "web_config \<Rightarrow> rstr \<Rightarrow> site \<Rightarrow> response" where
  "get_seasonal_backgrounds_stable cfg dir si = json_answer 200 (JArr (map JStr (background_urls cfg dir si)))"

definition get_menu_content_json :: response where
  "get_menu_content_json = json_answer 200 (JObj [(lit ''images'', JArr [])])"

definition serve_background_file :: "rstr \<Rightarrow> rstr \<Rightarrow> site \<Rightarrow> response" where
  "serve_background_file dir filename si =
     (if \<not> is_valid_image_filename filename then respond 400 [] (Text (lit ''Invalid or unsafe filename''))
      else case hget (si_files si) (path_join dir filename) of
             None \<Rightarrow> respond 404 [] (Text (lit ''Background image not found''))
           | Some bytes \<Rightarrow>
               respond 200 [(lit ''content-type'', header_value (get_image_mime filename)),
                 (lit ''cache-control'', header_value (lit ''public, max-age=86400''))] (Bytes bytes))"

definition list_backgrounds_api :: "rstr \<Rightarrow> site \<Rightarrow> response" where
  "list_backgrounds_api dir si =
     json_answer 200 (JArr (map (\<lambda>(name, size).
       JObj [(lit ''filename'', JStr name), (lit ''url'', JStr (lit ''/backgrounds/'' @ name)),
         (lit ''size_bytes'', JInt (int size))]) (scan_backgrounds dir si)))"

subsection \<open>Upload and deletion\<close>

definition is_browser :: "headers \<Rightarrow> bool" where
  "is_browser hs = (case header_text hs (lit ''accept'') of Some a \<Rightarrow> str_contains a (lit ''text/html'') | None \<Rightarrow> False)"

definition redirect_home :: response where
  "redirect_home = respond 303 [(lit ''location'', header_value (lit ''/''))] NoBody"

definition safe_name :: "(rchar \<Rightarrow> bool) \<Rightarrow> upload_field \<Rightarrow> rstr" where
  "safe_name alphanumeric f =
     (let raw = unwrap_or (lit ''uploaded_bg.jpg'') (uf_file_name f);
          base = unwrap_or (lit ''bg.jpg'') (path_file_name raw)
      in filter (\<lambda>c. alphanumeric c \<or> c \<in> {46, 95, 45}) base)"

definition format_matches_extension :: "rstr \<Rightarrow> u8 list \<Rightarrow> bool" where
  "format_matches_extension name bytes =
     (let lower = map ascii_lower name
      in if ends_with lower (lit ''.png'')
         then take 8 bytes = [0x89, 0x50, 0x4E, 0x47, 0x0D, 0x0A, 0x1A, 0x0A]
         else if ends_with lower (lit ''.jpg'') \<or> ends_with lower (lit ''.jpeg'') then take 3 bytes = [0xff, 0xd8, 0xff]
         else 12 \<le> length bytes \<and> take 4 bytes = [0x52, 0x49, 0x46, 0x46]
              \<and> take 4 (drop 8 bytes) = [0x57, 0x45, 0x42, 0x50])"

text \<open>The fields in their order: \<open>Inl\<close> ends the request; files written before stay.\<close>

fun save_backgrounds ::
    "(rchar \<Rightarrow> bool) \<Rightarrow> rstr \<Rightarrow> upload_field list \<Rightarrow> rstr option \<Rightarrow> site \<Rightarrow> (response + rstr option) \<times> site" where
  "save_backgrounds alphanumeric dir [] saved si = (Inr saved, si)"
| "save_backgrounds alphanumeric dir (f # fs) saved si =
     (if unwrap_or [] (uf_name f) \<notin> {lit ''file'', lit ''background''}
      then save_backgrounds alphanumeric dir fs saved si
      else
        let name = safe_name alphanumeric f
        in if \<not> is_valid_image_filename name then
             (Inl (respond 400 [] (Text (lit ''Invalid file extension. Only .jpg, .jpeg, .png, and .webp are supported.''))), si)
           else
             (case uf_bytes f of
                None \<Rightarrow> (Inl (respond 400 [] (Text (lit ''Failed to read upload data''))), si)
              | Some bytes \<Rightarrow>
                  if 15 * 1024 * 1024 < length bytes then
                    (Inl (respond 413 [] (Text (lit ''File exceeds 15MB limit''))), si)
                  else if \<not> format_matches_extension name bytes then
                    (Inl (respond 400 [] (Text (lit ''Image content does not match its extension''))), si)
                  else
                    (case sanitize_uploaded_image bytes of
                       None \<Rightarrow> (Inl (respond 400 [] (Text (lit ''Invalid image file''))), si)
                     | Some picture \<Rightarrow>
                         save_backgrounds alphanumeric dir fs (Some name)
                           (si\<lparr>si_files := hput (path_join dir name) picture (si_files si)\<rparr>))))"

definition upload_background_api ::
    "(rchar \<Rightarrow> bool) \<Rightarrow> rstr \<Rightarrow> headers \<Rightarrow> upload_field list \<Rightarrow> site \<Rightarrow> response \<times> site" where
  "upload_background_api alphanumeric dir hs fs si =
     (case save_backgrounds alphanumeric dir fs None si of
        (Inl r, si') \<Rightarrow> (r, si')
      | (Inr None, si') \<Rightarrow> (respond 400 [] (Text (lit ''No file uploaded in form'')), si')
      | (Inr (Some name), si') \<Rightarrow>
          (if is_browser hs then redirect_home
           else json_answer 200 (JObj [(lit ''status'', JStr (lit ''success'')), (lit ''filename'', JStr name),
                  (lit ''message'', JStr (lit ''Background uploaded successfully''))]), si'))"

definition delete_background_api :: "rstr \<Rightarrow> rstr \<Rightarrow> headers \<Rightarrow> site \<Rightarrow> response \<times> site" where
  "delete_background_api dir filename hs si =
     (if \<not> is_valid_image_filename filename then (respond 400 [] (Text (lit ''Invalid filename'')), si)
      else
        (if is_browser hs then redirect_home
         else json_answer 200 (JObj [(lit ''status'', JStr (lit ''success'')),
                (lit ''message'', JStr (lit ''Background '' @ [39] @ filename @ [39] @ lit '' removed''))]),
         si\<lparr>si_files := hdel (path_join dir filename) (si_files si)\<rparr>))"

end
