(* ===== verification/Client_Pages.thy ===== *)
theory Client_Pages
  imports Web_Scores
begin

text \<open>
  \<^verbatim>\<open>src/server/osufx.rs\<close> and the fixed answers of \<^verbatim>\<open>src/server/web.rs\<close>: what the clients ask for on
  connecting, and the links to beatmaps.  \<open>redirect\<close> is \<^verbatim>\<open>Redirect::temporary\<close>.
\<close>

text \<open>What \<^verbatim>\<open>HeaderValue::from_str\<close> accepts.\<close>

definition header_str :: "rstr \<Rightarrow> bool" where
  "header_str s \<longleftrightarrow> list_all (\<lambda>c. visible c \<or> c = 9) s"

record osufx_query =
  fx_v :: "rstr option"
  fx_fx :: "rstr option"
  fx_ch :: "rstr option"
  fx_fail :: "rstr option"

definition is_osufx_request :: "osufx_query \<Rightarrow> headers \<Rightarrow> bool" where
  "is_osufx_request q hs \<longleftrightarrow>
     fx_fx q \<noteq> None \<or> fx_ch q \<noteq> None \<or> fx_fail q \<noteq> None
     \<or> (case fx_v q of Some v \<Rightarrow> str_contains v (lit ''cuttingedge'') | None \<Rightarrow> False)
     \<or> (case header_text hs (lit ''user-agent'') of
          Some ua \<Rightarrow> str_contains ua (lit ''osufx'') \<or> str_contains ua (lit ''cuttingedge'')
        | None \<Rightarrow> False)"

definition html_page :: "rstr \<Rightarrow> response" where
  "html_page s = respond 200 [(lit ''content-type'', header_value (lit ''text/html; charset=UTF-8''))] (Text s)"

definition osufx_bancho_connect :: response where
  "osufx_bancho_connect = set_header (lit ''x-client-flavor'') (lit ''osu!fx'') (html_page (lit ''vn'' @ [10]))"

definition bancho_connect :: "osufx_query \<Rightarrow> headers \<Rightarrow> response" where
  "bancho_connect q hs = (if is_osufx_request q hs then osufx_bancho_connect else html_page (lit ''vn'' @ [10]))"

definition osufx_checktweets :: response where
  "osufx_checktweets = html_page []"

definition osufx_error_report :: response where
  "osufx_error_report = plain []"

definition osufx_bancho_ping :: response where
  "osufx_bancho_ping =
     set_header (lit ''content-type'') (lit ''text/plain; charset=UTF-8'')
       (set_header (lit ''cho-protocol'') (lit ''19'') (plain (lit ''AyanomiBancho online'' @ [10])))"

definition osu_comment :: response where
  "osu_comment = plain []"

definition osu_rate :: response where
  "osu_rate = plain (lit ''ok'')"

definition check_updates :: response where
  "check_updates = plain (lit ''[]'')"

definition lastfm :: response where
  "lastfm = plain (lit ''-3'' @ [10])"

definition get_friends :: response where
  "get_friends = plain []"

definition osu_markasread :: response where
  "osu_markasread = plain (lit ''ok'')"

definition osu_getbeatmapinfo :: response where
  "osu_getbeatmapinfo = plain []"

definition web_health :: response where
  "web_health = respond 200 []
     (Json (JObj [(lit ''status'', JStr (lit ''healthy'')), (lit ''service'', JStr (lit ''web''))]))"

definition page_id :: "rstr \<Rightarrow> rstr" where
  "page_id raw_id =
     (let clean = trim raw_id
      in if 5 \<le> length clean \<and> drop (length clean - 5) clean = lit ''.html''
         then take (length clean - 5) clean else clean)"

definition osu_beatmap_redirect :: "(rstr \<Rightarrow> response) \<Rightarrow> rstr \<Rightarrow> response" where
  "osu_beatmap_redirect redirect raw_id = redirect (lit ''https://osu.ppy.sh/b/'' @ page_id raw_id)"

definition osu_beatmapset_redirect :: "(rstr \<Rightarrow> response) \<Rightarrow> rstr \<Rightarrow> response" where
  "osu_beatmapset_redirect redirect raw_id = redirect (lit ''https://osu.ppy.sh/s/'' @ page_id raw_id)"

end
