(* ===== verification/Map_Pages.thy ===== *)
theory Map_Pages
  imports Direct Client_Pages
begin

text \<open>
  \<^verbatim>\<open>osu_update_map\<close> of \<^verbatim>\<open>src/server/web.rs\<close>: one difficulty from the official server.  The address
  \<^verbatim>\<open>https://osu.ppy.sh/web/maps/\<close> always parses; \<open>official\<close> answers for a file name below it.
  A name that no header may hold is answered with the framework's \<open>bad_header\<close>.
\<close>

definition osu_update_map :: "response \<Rightarrow> (rstr \<Rightarrow> mirror_reply) \<Rightarrow> rstr \<Rightarrow> response" where
  "osu_update_map bad_header official filename =
     (let clean = trim filename
      in if \<not> ends_with clean (lit ''.osu'') then respond 400 [] (Text (lit ''Invalid beatmap file''))
         else let reply = official clean
           in case reply of
                None \<Rightarrow> respond 502 [] (Text (lit ''Map update mirror unreachable''))
              | Some (status, payload) \<Rightarrow>
                  if \<not> success reply then respond status [] (Text (lit ''Beatmap difficulty not found on official server''))
                  else case payload of
                         None \<Rightarrow> respond 502 [] (Text (lit ''Failed to read map data''))
                       | Some bytes \<Rightarrow>
                           if \<not> header_str clean then bad_header else respond 200
                             [(lit ''content-type'', header_value (lit ''text/plain; charset=utf-8'')),
                              (lit ''content-disposition'',
                               header_value (lit ''attachment; filename='' @ [34] @ clean @ [34]))]
                             (Bytes bytes))"

end
