(* ===== verification/Web_Site.thy ===== *)
theory Web_Site
  imports Config Backgrounds Map_Pages
begin

text \<open>
  \<^verbatim>\<open>build_web_router\<close> of \<^verbatim>\<open>src/server/mod.rs\<close>: the routes of the web service behind its layers.
  What the framework reads out of a request (a path segment, a query, JSON, the fields of a
  form) is in the record \<open>framework\<close>; \<open>None\<close> is a rejection, answered with \<open>fw_reject\<close>.
  What no route takes, or only with another method, is answered with \<open>fw_unrouted\<close>.
\<close>

record framework =
  fw_segment :: "rstr \<Rightarrow> rstr option"
  fw_multipart :: "request \<Rightarrow> upload_field list option"
  fw_create_badge :: "request \<Rightarrow> create_badge_payload option"
  fw_badge_of_user :: "request \<Rightarrow> (i32 \<times> int) option"
  fw_scores_query :: "request \<Rightarrow> get_scores_query option"
  fw_osufx_query :: "request \<Rightarrow> osufx_query option"
  fw_chat_query :: "request \<Rightarrow> (rstr option \<times> i64 option) option"
  fw_params :: "request \<Rightarrow> (rstr, rstr) hmap option"
  fw_reject :: "request \<Rightarrow> response"
  fw_unrouted :: "request \<Rightarrow> response"
  fw_bad_header :: response
  fw_redirect :: "rstr \<Rightarrow> response"

text \<open>The rest of the outside world.\<close>

record surroundings =
  sr_externals :: externals
  sr_url_host :: "rstr \<Rightarrow> rstr option"
  sr_alphanumeric :: "rchar \<Rightarrow> bool"
  sr_str_lower :: "rstr \<Rightarrow> rstr"
  sr_local_appdata :: rstr
  sr_dir_exists :: "rstr \<Rightarrow> bool"
  sr_default_avatar :: "u8 list"
  sr_default_banner :: "u8 list"
  sr_favicons :: "u8 list \<times> u8 list"
  sr_rfc3339 :: "i64 \<Rightarrow> nat \<Rightarrow> rstr"
  sr_mirror :: "rstr \<Rightarrow> mirror_reply"
  sr_official_map :: "rstr \<Rightarrow> mirror_reply"
  sr_direct_search :: "(rstr \<times> rstr) list \<Rightarrow> direct_set list option"
  sr_direct_set :: "rstr \<Rightarrow> direct_set option"
  sr_direct_parent :: "rstr \<Rightarrow> i32 option"

subsection \<open>Routes\<close>

text \<open>\<^verbatim>\<open>{arg}\<close> stands for one segment that is not empty.\<close>

definition route_arg :: "framework \<Rightarrow> string \<Rightarrow> rstr \<Rightarrow> rstr option" where
  "route_arg fw start path =
     Option.bind (option_filter (\<lambda>a. a \<noteq> [] \<and> 47 \<notin> set a) (strip_prefix path (lit start))) (fw_segment fw)"

definition with_arg :: "framework \<Rightarrow> request \<Rightarrow> 'a option \<Rightarrow> ('a \<Rightarrow> site \<Rightarrow> response \<times> site) \<Rightarrow> site \<Rightarrow> response option \<times> site" where
  "with_arg fw rq arg f si =
     (case arg of
        None \<Rightarrow> (Some (fw_reject fw rq), si)
      | Some a \<Rightarrow> let (r, si') = f a si in (Some r, si'))"

text \<open>Handlers that only look at the state.\<close>

definition page :: "response \<Rightarrow> site \<Rightarrow> response option \<times> site" where
  "page r si = (Some r, si)"

definition picture :: "string \<Rightarrow> u8 list \<Rightarrow> response" where
  "picture content_type bytes =
     respond 200 [(lit ''content-type'', header_value (lit content_type)),
       (lit ''cache-control'', header_value (lit ''public, max-age=86400''))] (Bytes bytes)"

definition is_get :: "request \<Rightarrow> bool" where
  "is_get rq \<longleftrightarrow> rq_method rq \<in> {lit ''GET'', lit ''HEAD''}"

definition is_post :: "request \<Rightarrow> bool" where
  "is_post rq \<longleftrightarrow> rq_method rq = lit ''POST''"

definition post_routes :: "framework \<Rightarrow> surroundings \<Rightarrow> clock \<Rightarrow> config \<Rightarrow> handler" where
  "post_routes fw sr ck cf rq si =
     (let path = rq_path rq;
          cfg = web_config_of cf;
          cy = ex_crypto (sr_externals sr);
          dir = bk_directory (cf_backgrounds cf);
          upload = fw_multipart fw rq
      in if path = lit ''/users'' \<or> path = lit ''/users/''
         then osu_register_user (sr_externals sr) (sr_alphanumeric sr) ck cfg rq si
         else if path = lit ''/web/osu-submit-modular-selector.php'' \<or> path = lit ''/web/osu-submit-modular.php''
         then submit_score (sr_externals sr) ck cfg rq si
         else if path = lit ''/api/profile/avatar''
         then with_arg fw rq upload (upload_avatar_api cy ck cfg (sr_local_appdata sr) (sr_dir_exists sr)
                (sr_str_lower sr) (rq_headers rq)) si
         else if path = lit ''/api/profile/avatar/reset''
         then with_arg fw rq (Some ()) (\<lambda>_. reset_avatar_api cy ck cfg (sr_local_appdata sr) (sr_dir_exists sr)
                (rq_headers rq)) si
         else if path = lit ''/api/profile/banner''
         then with_arg fw rq upload (upload_banner_api cy ck cfg (sr_str_lower sr) (rq_headers rq)) si
         else if path = lit ''/api/profile/banner/reset''
         then with_arg fw rq (Some ()) (\<lambda>_. reset_banner_api cy ck cfg (rq_headers rq)) si
         else if path = lit ''/api/backgrounds/upload''
         then with_arg fw rq upload (upload_background_api (sr_alphanumeric sr) dir (rq_headers rq)) si
         else if path = lit ''/api/badges/create''
         then with_arg fw rq (fw_create_badge fw rq) (create_badge_api ck) si
         else if path = lit ''/api/badges/award''
         then with_arg fw rq (fw_badge_of_user fw rq) (\<lambda>(uid, bid). award_badge_api ck uid bid) si
         else if path = lit ''/api/badges/revoke''
         then with_arg fw rq (fw_badge_of_user fw rq) (\<lambda>(uid, bid). revoke_badge_api uid bid) si
         else if path = lit ''/web/osu-error.php'' then page osufx_error_report si
         else if path = lit ''/web/osu-comment.php'' then page osu_comment si
         else case strip_prefix path (lit ''/api/backgrounds/delete/'') of
                Some _ \<Rightarrow> with_arg fw rq (route_arg fw ''/api/backgrounds/delete/'' path)
                            (\<lambda>name. delete_background_api dir name (rq_headers rq)) si
              | None \<Rightarrow> page (fw_unrouted fw rq) si)"

text \<open>The pages the clients may get or post.\<close>

definition client_routes :: "framework \<Rightarrow> surroundings \<Rightarrow> clock \<Rightarrow> config \<Rightarrow> request \<Rightarrow> (site \<Rightarrow> response option \<times> site) option" where
  "client_routes fw sr ck cf rq =
     (let path = rq_path rq
      in if path = lit ''/web/bancho_connect.php''
         then Some (with_arg fw rq (fw_osufx_query fw rq) (\<lambda>q si. (bancho_connect q (rq_headers rq), si)))
         else if path = lit ''/web/check-updates.php'' then Some (page check_updates)
         else if path = lit ''/web/lastfm.php'' then Some (page lastfm)
         else if path = lit ''/web/osu-getfriends.php'' then Some (page get_friends)
         else if path = lit ''/web/osu-markasread.php'' then Some (page osu_markasread)
         else if path = lit ''/web/osu-getbeatmapinfo.php'' then Some (page osu_getbeatmapinfo)
         else if path = lit ''/web/osu-checktweets.php'' then Some (page osufx_checktweets)
         else if path = lit ''/web/osu-rate.php'' then Some (page osu_rate)
         else if path = lit ''/web/osu-osz2-getscores.php''
         then Some (case fw_scores_query fw rq of
                      Some q \<Rightarrow> get_scores (sr_externals sr) ck q
                    | None \<Rightarrow> page (fw_reject fw rq))
         else None)"

text \<open>Pages whose address ends in an argument: the prefix and the answer.\<close>

definition argument_pages ::
    "framework \<Rightarrow> surroundings \<Rightarrow> config \<Rightarrow> request \<Rightarrow> site \<Rightarrow> (string \<times> (rstr \<Rightarrow> response)) list" where
  "argument_pages fw sr cf rq si =
     [(''/web/maps/'', osu_update_map (fw_bad_header fw) (sr_official_map sr)),
      (''/d/'', download_beatmap (sr_mirror sr) (mi_download_url (cf_mirrors cf))),
      (''/a/'', \<lambda>a. get_avatar (sr_default_avatar sr) a si),
      (''/avatar/'', \<lambda>a. get_avatar (sr_default_avatar sr) a si),
      (''/banner/'', \<lambda>a. get_banner (sr_default_banner sr) a si),
      (''/banners/'', \<lambda>a. get_banner (sr_default_banner sr) a si),
      (''/b/'', osu_beatmap_redirect (fw_redirect fw)),
      (''/beatmaps/'', osu_beatmap_redirect (fw_redirect fw)),
      (''/s/'', osu_beatmapset_redirect (fw_redirect fw)),
      (''/beatmapsets/'', osu_beatmapset_redirect (fw_redirect fw)),
      (''/backgrounds/'', \<lambda>a. serve_background_file (bk_directory (cf_backgrounds cf)) a si),
      (''/api/matches/'', \<lambda>a. case parse_i64 a of
          Some i \<Rightarrow> get_match_detail_api (sint i) si
        | None \<Rightarrow> (fw_unrouted fw rq)),
      (''/'', \<lambda>a. get_root_avatar_or_404 (sr_default_avatar sr) a si)]"

definition argument_page :: "framework \<Rightarrow> surroundings \<Rightarrow> config \<Rightarrow> request \<Rightarrow> site \<Rightarrow> response" where
  "argument_page fw sr cf rq si =
     unwrap_or (fw_unrouted fw rq) (first_some (map (\<lambda>(start, f). map_option f (route_arg fw start (rq_path rq)))
       (argument_pages fw sr cf rq si)))"

definition get_routes :: "framework \<Rightarrow> surroundings \<Rightarrow> clock \<Rightarrow> config \<Rightarrow> handler" where
  "get_routes fw sr ck cf rq si =
     (let path = rq_path rq;
          cfg = web_config_of cf;
          dir = bk_directory (cf_backgrounds cf);
          search_api = mi_direct_search_api (cf_mirrors cf)
      in if path = lit ''/health'' \<or> path = lit ''/health/web'' then page web_health si
         else if path = lit ''/favicon.ico'' then page (picture ''image/x-icon'' (fst (sr_favicons sr))) si
         else if path = lit ''/favicon.png'' \<or> path = lit ''/static/favicon.png''
         then page (picture ''image/png'' (snd (sr_favicons sr))) si
         else if path = lit ''/web/osu-search.php''
         then with_arg fw rq (fw_params fw rq) (\<lambda>ps si. (search_beatmaps (sr_direct_search sr) (sr_direct_set sr)
                (sr_direct_parent sr) (sr_str_lower sr) search_api ps, si)) si
         else if path = lit ''/web/osu-search-set.php''
         then with_arg fw rq (fw_params fw rq)
                (\<lambda>ps si. (search_beatmap_set (sr_direct_set sr) (sr_direct_parent sr) search_api ps, si)) si
         else if path = lit ''/api/matches'' then page (get_matches_api si) si
         else if path = lit ''/api/v2/seasonal-backgrounds'' \<or> path = lit ''/seasonal-backgrounds''
              \<or> path = lit ''/web/osu-seasonal.php''
         then page (get_seasonal_backgrounds cfg dir (bk_artist_name (cf_backgrounds cf))
                (sr_rfc3339 sr (ck_now ck) 365) (sr_rfc3339 sr (ck_now ck) 0) si) si
         else if path = lit ''/web/osu-getseasonal.php'' then page (get_seasonal_backgrounds_stable cfg dir si) si
         else if path = lit ''/menu-content.json'' then page get_menu_content_json si
         else if path = lit ''/api/backgrounds'' then page (list_backgrounds_api dir si) si
         else if path = lit ''/api/chat/history''
         then with_arg fw rq (fw_chat_query fw rq) (\<lambda>(t, n) si. (get_chat_history_api t n si, si)) si
         else if path = lit ''/api/badges'' then page (list_badges_api si) si
         else case Option.bind (strip_prefix path (lit ''/api/users/'')) (\<lambda>r. strip_suffix r (lit ''/badges'')) of
                Some uid \<Rightarrow>
                  page (case parse_i32 uid of Some u \<Rightarrow> get_user_badges_api u si | None \<Rightarrow> (fw_unrouted fw rq)) si
              | None \<Rightarrow> page (argument_page fw sr cf rq si) si)"

definition web_routes :: "framework \<Rightarrow> surroundings \<Rightarrow> clock \<Rightarrow> config \<Rightarrow> handler" where
  "web_routes fw sr ck cf rq si =
     (case client_routes fw sr ck cf rq of
        Some f \<Rightarrow> if is_get rq \<or> is_post rq then f si else page (fw_unrouted fw rq) si
      | None \<Rightarrow>
          if is_post rq then post_routes fw sr ck cf rq si
          else if is_get rq then get_routes fw sr ck cf rq si
          else if rq_method rq = lit ''DELETE''
          then with_arg fw rq (route_arg fw ''/api/backgrounds/'' (rq_path rq))
                 (\<lambda>name. delete_background_api (bk_directory (cf_backgrounds cf)) name (rq_headers rq)) si
          else page (fw_unrouted fw rq) si)"

text \<open>The web service: its routes behind its layers.\<close>

definition web_service :: "framework \<Rightarrow> surroundings \<Rightarrow> clock \<Rightarrow> config \<Rightarrow> handler" where
  "web_service fw sr ck cf =
     web_stack (ex_crypto (sr_externals sr)) (sr_url_host sr) ck (web_config_of cf) (web_routes fw sr ck cf)"

end
