(* ===== verification/Site_Effects.thy ===== *)
theory Site_Effects
  imports Web_Site
begin

unbundle bit_operations_syntax

text \<open>
  What a request to the web service can change.  \<open>web_routes_effect\<close> names, once, the handlers
  that change the state at all and those of them behind the admin guard; the lemmas after it say
  which part of the state each of them touches.
\<close>

subsection \<open>The handlers that change something\<close>

definition guarded :: "request \<Rightarrow> bool" where
  "guarded rq \<longleftrightarrow> is_admin_route (rq_method rq) (rq_path rq) \<and> rq_path rq \<noteq> lit ''/admin''"

inductive effect :: "surroundings \<Rightarrow> clock \<Rightarrow> config \<Rightarrow> request \<Rightarrow> site \<Rightarrow> site \<Rightarrow> bool"
  for sr :: surroundings and ck :: clock and cf :: config and rq :: request and si :: site where
  nothing: "effect sr ck cf rq si si"
| registering: "effect sr ck cf rq si (snd (osu_register_user (sr_externals sr) (sr_alphanumeric sr) ck (web_config_of cf) rq si))"
| submitting: "effect sr ck cf rq si (snd (submit_score (sr_externals sr) ck (web_config_of cf) rq si))"
| asking_scores: "effect sr ck cf rq si (snd (get_scores (sr_externals sr) ck q si))"
| own_avatar: "effect sr ck cf rq si (snd (upload_avatar_api (ex_crypto (sr_externals sr)) ck (web_config_of cf)
    (sr_local_appdata sr) (sr_dir_exists sr) (sr_str_lower sr) (rq_headers rq) fs si))"
| no_avatar: "effect sr ck cf rq si (snd (reset_avatar_api (ex_crypto (sr_externals sr)) ck (web_config_of cf)
    (sr_local_appdata sr) (sr_dir_exists sr) (rq_headers rq) si))"
| own_banner: "effect sr ck cf rq si (snd (upload_banner_api (ex_crypto (sr_externals sr)) ck (web_config_of cf)
    (sr_str_lower sr) (rq_headers rq) fs si))"
| no_banner: "effect sr ck cf rq si (snd (reset_banner_api (ex_crypto (sr_externals sr)) ck (web_config_of cf)
    (rq_headers rq) si))"
| new_background: "guarded rq \<Longrightarrow>
    effect sr ck cf rq si (snd (upload_background_api (sr_alphanumeric sr) (bk_directory (cf_backgrounds cf)) (rq_headers rq) fs si))"
| no_background: "guarded rq \<Longrightarrow>
    effect sr ck cf rq si (snd (delete_background_api (bk_directory (cf_backgrounds cf)) name (rq_headers rq) si))"
| new_badge: "guarded rq \<Longrightarrow> effect sr ck cf rq si (snd (create_badge_api ck p si))"
| awarding: "guarded rq \<Longrightarrow> effect sr ck cf rq si (snd (award_badge_api ck uid bid si))"
| revoking: "guarded rq \<Longrightarrow> effect sr ck cf rq si (snd (revoke_badge_api uid bid si))"

lemma snd_page [simp]: "snd (page r si) = si"
  by (simp add: page_def)

lemma snd_with_arg: "snd (with_arg fw rq arg f si) = (case arg of Some a \<Rightarrow> snd (f a si) | None \<Rightarrow> si)"
  by (simp add: with_arg_def Let_def split: option.split prod.split)

lemma strip_prefix_iff: "strip_prefix s p = Some r \<longleftrightarrow> s = p @ r"
  by (auto simp: strip_prefix_def starts_with_append)

lemma guardedI:
  "starts_with (rq_path rq) (lit ''/api/backgrounds/upload'') \<or> starts_with (rq_path rq) (lit ''/api/backgrounds/delete'')
   \<or> rq_method rq = lit ''DELETE'' \<and> starts_with (rq_path rq) (lit ''/api/backgrounds/'')
   \<or> starts_with (rq_path rq) (lit ''/api/badges/create'') \<or> starts_with (rq_path rq) (lit ''/api/badges/award'')
   \<or> starts_with (rq_path rq) (lit ''/api/badges/revoke'') \<Longrightarrow> guarded rq"
  by (auto simp: guarded_def is_admin_route_def starts_with_append lit_def)

lemma starts_with_refl [simp]: "starts_with p p"
  by (auto simp: starts_with_append)

lemma route_arg_path: "route_arg fw start path = Some a \<Longrightarrow> starts_with path (lit start)"
  by (auto simp: route_arg_def strip_prefix_def option_filter_def bind_eq_Some_conv split: option.splits if_splits)

lemma effect_with_arg:
  "(\<And>a. arg = Some a \<Longrightarrow> effect sr ck cf rq si (snd (f a si))) \<Longrightarrow>
     effect sr ck cf rq si (snd (with_arg fw rq' arg f si))"
  by (auto simp: snd_with_arg intro: effect.nothing split: option.split)

lemma effect_if:
  "(c \<Longrightarrow> effect sr ck cf rq si (snd a)) \<Longrightarrow> (\<not> c \<Longrightarrow> effect sr ck cf rq si (snd b)) \<Longrightarrow>
     effect sr ck cf rq si (snd (if c then a else b))"
  by simp

lemma effect_page: "effect sr ck cf rq si (snd (page r si))"
  by (simp add: effect.nothing)

lemmas effect_steps = effect_if effect_page effect_with_arg effect.intros guardedI

lemma delete_path: "strip_prefix path (lit ''/api/backgrounds/delete/'') = Some r \<Longrightarrow>
    starts_with path (lit ''/api/backgrounds/delete'')"
  by (auto simp: strip_prefix_iff starts_with_append lit_def)

lemma post_routes_effect: "effect sr ck cf rq si (snd (post_routes fw sr ck cf rq si))"
  unfolding post_routes_def Let_def
  by (intro effect_if effect_page effect_with_arg effect.registering effect.submitting effect.own_avatar effect.no_avatar effect.own_banner
      effect.no_banner effect.new_background guardedI)
    (auto intro!: effect_steps dest: delete_path split: option.split)

text \<open>Reading routes change nothing, except that a leaderboard may fill the cache of beatmaps.\<close>

lemma keep_if: "(c \<Longrightarrow> snd a = si) \<Longrightarrow> (\<not> c \<Longrightarrow> snd b = si) \<Longrightarrow> snd (if c then a else b) = si"
  by simp

lemma keep_with_arg: "(\<And>a. snd (f a si) = si) \<Longrightarrow> snd (with_arg fw rq arg f si) = si"
  by (simp add: snd_with_arg split: option.split)

lemma keep_case: "snd r = si \<Longrightarrow> (\<And>u. snd (g u) = si) \<Longrightarrow> snd (case x of None \<Rightarrow> r | Some u \<Rightarrow> g u) = si"
  by (simp split: option.split)

lemma get_routes_keep: "snd (get_routes fw sr ck cf rq si) = si"
  unfolding get_routes_def Let_def
  by (intro keep_if keep_with_arg keep_case snd_page) (simp_all add: split_beta)

lemma client_routes_effect:
  "client_routes fw sr ck cf rq = Some f \<Longrightarrow> effect sr ck cf rq si (snd (f si))"
  unfolding client_routes_def Let_def
  by (simp only: option.inject option.distinct(1) split: if_split_asm)
    (auto simp: snd_with_arg intro: effect.intros split: option.split)

lemma web_routes_effect: "effect sr ck cf rq si (snd (web_routes fw sr ck cf rq si))"
proof (cases "client_routes fw sr ck cf rq")
  case None
  have "guarded rq" if "rq_method rq = lit ''DELETE''" "route_arg fw ''/api/backgrounds/'' (rq_path rq) = Some a" for a
    using that by (intro guardedI) (auto dest: route_arg_path)
  then show ?thesis
    using None post_routes_effect
    by (auto simp: web_routes_def get_routes_keep intro!: effect_if effect_page effect_with_arg effect.intros)
next
  case (Some f)
  then show ?thesis using client_routes_effect by (simp add: web_routes_def effect.nothing)
qed

lemma web_service_effect:
  obtains rl where "snd (web_service fw sr ck cf rq si) = si\<lparr>si_limiter := rl\<rparr>"
  | rl where "effect sr ck cf rq (si\<lparr>si_limiter := rl\<rparr>) (snd (web_service fw sr ck cf rq si))"
      and "guarded rq \<Longrightarrow> is_admin_authorized (ex_crypto (sr_externals sr)) ck (web_config_of cf) si (rq_headers rq)"
proof -
  obtain res rl where c: "check (ck_instant ck) (extract_client_ip rq) (classify_tier (rq_method rq) (rq_path rq))
      (wc_ratelimit (web_config_of cf)) (si_limiter si) = (res, rl)" by fastforce
  let ?si = "si\<lparr>si_limiter := rl\<rparr>"
  have auth: "is_admin_authorized cy ck cfg ?si hs = is_admin_authorized cy ck cfg si hs" for cy cfg hs
    by (simp add: is_admin_authorized_def split: option.split)
  have snd_let: "snd (let (r, s) = p in (g r, s)) = snd p" for p :: "response option \<times> site" and g
    by (simp add: split_beta)
  have "snd (web_service fw sr ck cf rq si) = ?si
      \<or> snd (web_service fw sr ck cf rq si) = snd (web_routes fw sr ck cf rq ?si)
        \<and> (guarded rq \<longrightarrow> is_admin_authorized (ex_crypto (sr_externals sr)) ck (web_config_of cf) si (rq_headers rq))"
    unfolding web_service_def web_stack_def security_headers_middleware_def snd_let ratelimit_middleware_def
      admin_local_guard_middleware_def csrf_guard_middleware_def
    by (cases res) (auto simp: c Let_def guarded_def auth)
  then show ?thesis using that web_routes_effect[of sr ck cf rq ?si fw] by metis
qed

subsection \<open>Which part of the state each handler touches\<close>

lemma record_score_keeps:
  "si_badges (snd (record_score ex ck cfg sb si)) = si_badges si"
  "si_chat (snd (record_score ex ck cfg sb si)) = si_chat si"
  "si_history (snd (record_score ex ck cfg sb si)) = si_history si"
  "si_files (snd (record_score ex ck cfg sb si)) = si_files si"
  "si_bancho (snd (record_score ex ck cfg sb si)) = si_bancho si"
  by (auto simp: record_score_def Let_def split: prod.split option.split)

lemma accept_score_cases:
  obtains "snd (accept_score ex ck cfg password finished parts si) = si"
  | user where "score_owner si (name_of_part (parts ! 1)) = Some user"
      and "verify_password (ex_crypto ex) password (us_password_hash user)"
      and "16 \<le> length parts" and "numeric_fields_are_valid parts"
      and "score_is_valid (name_of_part (parts ! 1)) (score_of_parts parts)"
      and "is_true (parts ! 14)" and "finished"
      and "accept_score ex ck cfg password finished parts si =
        record_score ex ck cfg ((score_of_parts parts)\<lparr>sb_user_id := us_id user,
          sb_mods := (if plays_relax (si_bancho si) (name_of_part (parts ! 1)) then sb_mods (score_of_parts parts) OR 128
                      else sb_mods (score_of_parts parts))\<rparr>) si"
proof (cases "length parts < 16 \<or> \<not> numeric_fields_are_valid parts
    \<or> \<not> score_is_valid (name_of_part (parts ! 1)) (score_of_parts parts)")
  case True
  then have "snd (accept_score ex ck cfg password finished parts si) = si"
    unfolding accept_score_def Let_def by auto
  then show ?thesis by (rule that(1))
next
  case checked: False
  show ?thesis
  proof (cases "score_owner si (name_of_part (parts ! 1))")
    case None
    with checked have "snd (accept_score ex ck cfg password finished parts si) = si"
      unfolding accept_score_def Let_def by simp
    then show ?thesis by (rule that(1))
  next
    case (Some user)
    show ?thesis
    proof (cases "verify_password (ex_crypto ex) password (us_password_hash user) \<and> is_true (parts ! 14) \<and> finished")
      case True
      then show ?thesis
        using checked Some by (intro that(2)[of user]) (simp_all add: accept_score_def Let_def)
    next
      case False
      with checked Some have "snd (accept_score ex ck cfg password finished parts si) = si"
        unfolding accept_score_def Let_def by auto
      then show ?thesis by (rule that(1))
    qed
  qed
qed

lemma accept_score_keeps:
  "si_badges (snd (accept_score ex ck cfg password finished parts si)) = si_badges si"
  "si_chat (snd (accept_score ex ck cfg password finished parts si)) = si_chat si"
  "si_history (snd (accept_score ex ck cfg password finished parts si)) = si_history si"
  "si_files (snd (accept_score ex ck cfg password finished parts si)) = si_files si"
  by (cases rule: accept_score_cases[of ex ck cfg password finished parts si];
      simp add: record_score_keeps)+

text \<open>What a submission holds: the fields of its form, and the text of the score once decrypted.\<close>

definition submitted_form :: "request \<Rightarrow> form" where
  "submitted_form rq = parse_post_params_raw (unwrap_or [] (header_text (rq_headers rq) (lit ''content-type''))) (rq_body rq)"

definition submitted_password :: "request \<Rightarrow> rstr" where
  "submitted_password rq = trim (unwrap_or [] (form_text (submitted_form rq) (lit ''pass'')))"

definition submitted_text :: "score_crypto \<Rightarrow> request \<Rightarrow> rstr option" where
  "submitted_text sx rq =
     (case decrypt_osu_score_bytes sx (unwrap_or [] (decode_b64_flexible sx (score_field (submitted_form rq))))
             (unwrap_or [] (form_text (submitted_form rq) (lit ''iv'')))
             (unwrap_or [] (form_text (submitted_form rq) (lit ''osuver''))) of
        Some (Some s) \<Rightarrow> Some s
      | _ \<Rightarrow> None)"

lemma submit_score_cases:
  obtains "snd (submit_score ex ck cfg rq si) = si"
  | score_str where "submitted_text (ex_scores ex) rq = Some score_str"
      and "snd (submit_score ex ck cfg rq si) = snd (accept_score ex ck cfg (submitted_password rq)
        (play_finished (submitted_form rq)) (split_on 58 score_str) si)"
proof -
  let ?d = "decrypt_osu_score_bytes (ex_scores ex)
      (unwrap_or [] (decode_b64_flexible (ex_scores ex) (score_field (submitted_form rq))))
      (unwrap_or [] (form_text (submitted_form rq) (lit ''iv'')))
      (unwrap_or [] (form_text (submitted_form rq) (lit ''osuver'')))"
  show ?thesis
  proof (cases "submitted_text (ex_scores ex) rq")
    case None
    then have "?d = None \<or> ?d = Some None" unfolding submitted_text_def by (auto split: option.splits)
    then have "snd (submit_score ex ck cfg rq si) = si"
      unfolding submit_score_def Let_def submitted_form_def[symmetric] by auto
    then show ?thesis by (rule that(1))
  next
    case (Some s)
    then have "?d = Some (Some s)" unfolding submitted_text_def by (auto split: option.splits)
    then have "snd (submit_score ex ck cfg rq si) = si
        \<or> snd (submit_score ex ck cfg rq si) = snd (accept_score ex ck cfg (submitted_password rq)
             (play_finished (submitted_form rq)) (split_on 58 s) si)"
      unfolding submit_score_def Let_def submitted_form_def[symmetric] submitted_password_def[symmetric]
      by (simp add: split_beta)
    then show ?thesis using that Some by blast
  qed
qed

lemma submit_score_keeps:
  "si_badges (snd (submit_score ex ck cfg rq si)) = si_badges si"
  "si_chat (snd (submit_score ex ck cfg rq si)) = si_chat si"
  "si_history (snd (submit_score ex ck cfg rq si)) = si_history si"
  "si_files (snd (submit_score ex ck cfg rq si)) = si_files si"
  by (cases rule: submit_score_cases[of ex ck cfg rq si]; simp add: accept_score_keeps)+

lemma register_keeps:
  "si_badges (snd (osu_register_user ex an ck cfg rq si)) = si_badges si"
  "si_chat (snd (osu_register_user ex an ck cfg rq si)) = si_chat si"
  "si_history (snd (osu_register_user ex an ck cfg rq si)) = si_history si"
  "si_files (snd (osu_register_user ex an ck cfg rq si)) = si_files si"
  by (simp_all add: osu_register_user_def Let_def split_beta split: option.split)

lemma get_scores_keeps:
  "si_badges (snd (get_scores ex ck q si)) = si_badges si"
  "si_chat (snd (get_scores ex ck q si)) = si_chat si"
  "si_history (snd (get_scores ex ck q si)) = si_history si"
  "si_files (snd (get_scores ex ck q si)) = si_files si"
  by (simp_all add: get_scores_def Let_def split_beta split: option.split)

lemma images_keep_rest:
  "si_badges (snd (upload_avatar_api cy ck cfg la de sl hs fs si)) = si_badges si"
  "si_chat (snd (upload_avatar_api cy ck cfg la de sl hs fs si)) = si_chat si"
  "si_history (snd (upload_avatar_api cy ck cfg la de sl hs fs si)) = si_history si"
  "si_badges (snd (reset_avatar_api cy ck cfg la de hs si)) = si_badges si"
  "si_chat (snd (reset_avatar_api cy ck cfg la de hs si)) = si_chat si"
  "si_history (snd (reset_avatar_api cy ck cfg la de hs si)) = si_history si"
  "si_badges (snd (upload_banner_api cy ck cfg sl hs fs si)) = si_badges si"
  "si_chat (snd (upload_banner_api cy ck cfg sl hs fs si)) = si_chat si"
  "si_history (snd (upload_banner_api cy ck cfg sl hs fs si)) = si_history si"
  "si_badges (snd (reset_banner_api cy ck cfg hs si)) = si_badges si"
  "si_chat (snd (reset_banner_api cy ck cfg hs si)) = si_chat si"
  "si_history (snd (reset_banner_api cy ck cfg hs si)) = si_history si"
  by (simp_all add: upload_avatar_api_def reset_avatar_api_def upload_banner_api_def reset_banner_api_def
      remove_user_files_def sync_to_local_osu_cache_def Let_def split: option.split)

lemma badge_apis_keep_files:
  "si_files (snd (create_badge_api ck p si)) = si_files si"
  "si_files (snd (award_badge_api ck uid bid si)) = si_files si"
  "si_files (snd (revoke_badge_api uid bid si)) = si_files si"
  by (simp_all add: create_badge_api_def award_badge_api_def revoke_badge_api_def Let_def split_beta split: option.split)

subsection \<open>Parts of the state that only administrators change\<close>

text \<open>
  The contract of a part of the state with the open handlers: none of them touches it.  Then it
  changes through the web service only behind the admin guard.
\<close>

locale admin_part =
  fixes part :: "site \<Rightarrow> 'a"
  assumes limiting: "part (si\<lparr>si_limiter := rl\<rparr>) = part si"
    and registering: "part (snd (osu_register_user ex an ck cfg rq si)) = part si"
    and submitting: "part (snd (submit_score ex ck cfg rq si)) = part si"
    and asking_scores: "part (snd (get_scores ex ck q si)) = part si"
    and setting_avatar: "part (snd (upload_avatar_api cy ck cfg la de sl hs fs si)) = part si"
    and resetting_avatar: "part (snd (reset_avatar_api cy ck cfg la de hs si)) = part si"
    and setting_banner: "part (snd (upload_banner_api cy ck cfg sl hs fs si)) = part si"
    and resetting_banner: "part (snd (reset_banner_api cy ck cfg hs si)) = part si"
begin

lemma unguarded_keeps:
  assumes "effect sr ck cf rq si si'" and "\<not> guarded rq"
  shows "part si' = part si"
  using assms by (cases rule: effect.cases)
    (simp_all add: registering submitting asking_scores setting_avatar resetting_avatar setting_banner resetting_banner)

lemma only_admins:
  "part (snd (web_service fw sr ck cf rq si)) = part si
   \<or> is_admin_authorized (ex_crypto (sr_externals sr)) ck (web_config_of cf) si (rq_headers rq)"
proof (cases rule: web_service_effect[of fw sr ck cf rq si])
  case (1 rl)
  then show ?thesis by (simp add: limiting)
next
  case (2 rl)
  then show ?thesis using unguarded_keeps limiting by metis
qed

end

lemmas open_handlers_keep = submit_score_keeps register_keeps get_scores_keeps images_keep_rest

interpretation badges: admin_part si_badges
  by unfold_locales (simp_all add: open_handlers_keep)

interpretation chats: admin_part si_chat
  by unfold_locales (simp_all add: open_handlers_keep)

interpretation histories: admin_part si_history
  by unfold_locales (simp_all add: open_handlers_keep)

end
