(* ===== verification/Site_Properties.thy ===== *)
theory Site_Properties
  imports Site_Effects
begin

unbundle bit_operations_syntax

text \<open>Properties of the whole web service: who can change what through it.\<close>

subsection \<open>Badges\<close>

text \<open>C12: Badges, and with them the right to administer, change only through a request with the
  session of a player who holds an admin badge, whatever request reaches the web service.\<close>

theorem badges_change_by_admins:
  "si_badges (snd (web_service fw sr ck cf rq si)) = si_badges si
   \<or> is_admin_authorized (ex_crypto (sr_externals sr)) ck (web_config_of cf) si (rq_headers rq)"
  by (rule badges.only_admins)

subsection \<open>Pictures\<close>

lemma show_int_end: "last (show_int k) \<noteq> 103 \<and> last (show_int k) \<noteq> 112" and show_int_no_dot: "46 \<notin> set (show_int k)"
proof -
  have "show_int k \<noteq> []" by (simp add: show_int_def)
  then have "last (show_int k) \<in> set (show_int k)" by simp
  from show_int_chars[OF this] show "last (show_int k) \<noteq> 103 \<and> last (show_int k) \<noteq> 112" by linarith
  show "46 \<notin> set (show_int k)" using show_int_chars[of 46 k] by auto
qed

lemma takeWhile_here: "c \<notin> set w \<Longrightarrow> takeWhile (\<lambda>x. x \<noteq> c) (w @ c # r) = w"
  by (induction w) auto

lemma user_file_owner:
  assumes "user_file dir u ext = user_file dir' u' ext'"
    and "lit dir \<in> {lit ''data/avatars'', lit ''data/banners''}" and "lit dir' \<in> {lit ''data/avatars'', lit ''data/banners''}"
  shows "u = u'"
proof -
  have one: "show_int (sint u) @ 46 # ext = show_int (sint u') @ 46 # ext' \<Longrightarrow> u = u'"
  proof -
    assume a: "show_int (sint u) @ 46 # ext = show_int (sint u') @ 46 # ext'"
    then have "show_int (sint u) = show_int (sint u')" using takeWhile_here[OF show_int_no_dot] by metis
    then show "u = u'" using parse_show_i32 by (metis option.inject)
  qed
  show ?thesis using assms by (auto simp: user_file_def lit_def intro: one)
qed

text \<open>The pictures of one player, by name.\<close>

definition picture_files :: "i32 \<Rightarrow> rstr set" where
  "picture_files uid =
     (\<lambda>(dir, ext). user_file dir uid ext) ` ({''data/avatars'', ''data/banners''} \<times> set image_extensions)"

lemma user_file_picture:
  "ext \<in> set image_extensions \<Longrightarrow> user_file ''data/avatars'' uid ext \<in> picture_files uid"
  "ext \<in> set image_extensions \<Longrightarrow> user_file ''data/banners'' uid ext \<in> picture_files uid"
  by (auto simp: picture_files_def)

lemma png_extension [simp]: "lit ''png'' \<in> set image_extensions"
  by (simp add: image_extensions_def)

lemma picture_files_apart: "p \<in> picture_files u \<Longrightarrow> p \<in> picture_files uid \<Longrightarrow> u = uid"
  unfolding picture_files_def by (auto dest: user_file_owner)

lemma picture_files_end: "p \<in> picture_files uid \<Longrightarrow> last p = 103 \<or> last p = 112"
  unfolding picture_files_def by (auto simp: user_file_def image_extensions_def lit_def)

lemma cache_path_apart: "p \<in> set (cache_paths la de u) \<Longrightarrow> p \<notin> picture_files uid"
proof -
  assume "p \<in> set (cache_paths la de u)"
  then have "last p = last (show_int (sint u))"
    by (auto simp: cache_paths_def show_int_def split: if_splits)
  then show ?thesis using show_int_end[of "sint u"] picture_files_end[of p uid] by metis
qed

text \<open>Two states with the same pictures of a player.\<close>

definition same_pictures :: "i32 \<Rightarrow> site \<Rightarrow> site \<Rightarrow> bool" where
  "same_pictures uid si si' \<longleftrightarrow> (\<forall>p \<in> picture_files uid. hget (si_files si') p = hget (si_files si) p)"

lemma same_pictures_refl [simp]: "same_pictures uid si si"
  by (simp add: same_pictures_def)

lemma same_pictures_trans: "same_pictures uid a b \<Longrightarrow> same_pictures uid b c \<Longrightarrow> same_pictures uid a c"
  by (simp add: same_pictures_def)

lemma fold_other: "p \<notin> set ks \<Longrightarrow> (\<And>k m. k \<noteq> p \<Longrightarrow> hget (f k m) p = hget m p) \<Longrightarrow> hget (fold f ks m) p = hget m p"
  by (induction ks arbitrary: m) auto

lemma remove_others_pictures:
  assumes "u \<noteq> uid"
  shows "same_pictures uid si (remove_user_files ''data/avatars'' u si)"
    and "same_pictures uid si (remove_user_files ''data/banners'' u si)"
proof -
  have step: "hget (fold (\<lambda>ext. hdel (user_file dir u ext)) exts m) p = hget m p"
    if "p \<in> picture_files uid" "set exts \<subseteq> set image_extensions" "dir \<in> {''data/avatars'', ''data/banners''}" for p exts dir m
    using that
  proof (induction exts arbitrary: m)
    case (Cons e es)
    then have "user_file dir u e \<noteq> p" using user_file_picture[of e u] picture_files_apart assms by auto
    with Cons show ?case by simp
  qed simp
  show "same_pictures uid si (remove_user_files ''data/avatars'' u si)"
    "same_pictures uid si (remove_user_files ''data/banners'' u si)"
    by (simp_all add: same_pictures_def remove_user_files_def step[of _ image_extensions "''data/avatars''"]
        step[of _ image_extensions "''data/banners''"])
qed

lemma put_others_picture:
  assumes "same_pictures uid si si'" and "u \<noteq> uid" and "ext \<in> set image_extensions"
  shows "same_pictures uid si (si'\<lparr>si_files := hput (user_file ''data/avatars'' u ext) b (si_files si')\<rparr>)"
    and "same_pictures uid si (si'\<lparr>si_files := hput (user_file ''data/banners'' u ext) b (si_files si')\<rparr>)"
  using user_file_picture[OF assms(3), of u] picture_files_apart assms(1,2) by (auto simp: same_pictures_def)

lemma sync_keeps_pictures:
  assumes "same_pictures uid si si'"
  shows "same_pictures uid si (sync_to_local_osu_cache la de u b si')"
proof -
  have "hget (fold (\<lambda>p. case b of Some b \<Rightarrow> hput p b | None \<Rightarrow> hdel p) (cache_paths la de u) m) q = hget m q"
    if "q \<in> picture_files uid" for q m
    using cache_path_apart[of q la de u uid] that by (intro fold_other) (auto split: option.split)
  then show ?thesis using assms by (simp add: same_pictures_def sync_to_local_osu_cache_def)
qed

lemmas keep_pictures = same_pictures_refl sync_keeps_pictures put_others_picture[OF _ _ png_extension]
  remove_others_pictures

lemma own_pictures_only:
  assumes "\<And>user. site_user cy ck cfg hs si = Some user \<Longrightarrow> us_id user \<noteq> uid"
  shows "same_pictures uid si (snd (upload_avatar_api cy ck cfg la de sl hs fs si))"
    and "same_pictures uid si (snd (reset_avatar_api cy ck cfg la de hs si))"
    and "same_pictures uid si (snd (upload_banner_api cy ck cfg sl hs fs si))"
    and "same_pictures uid si (snd (reset_banner_api cy ck cfg hs si))"
proof -
  consider "site_user cy ck cfg hs si = None" | u where "site_user cy ck cfg hs si = Some u" "us_id u \<noteq> uid"
    using assms by (cases "site_user cy ck cfg hs si") auto
  note cases = this
  show "same_pictures uid si (snd (upload_avatar_api cy ck cfg la de sl hs fs si))"
    by (cases rule: cases) (auto simp: upload_avatar_api_def intro!: keep_pictures split: option.split)
  show "same_pictures uid si (snd (reset_avatar_api cy ck cfg la de hs si))"
    by (cases rule: cases) (auto simp: reset_avatar_api_def intro!: keep_pictures)
  show "same_pictures uid si (snd (upload_banner_api cy ck cfg sl hs fs si))"
    by (cases rule: cases) (auto simp: upload_banner_api_def Let_def intro!: keep_pictures split: option.split)
  show "same_pictures uid si (snd (reset_banner_api cy ck cfg hs si))"
    by (cases rule: cases) (auto simp: reset_banner_api_def intro!: keep_pictures)
qed

lemma effect_pictures:
  assumes "effect sr ck cf rq si si'" and "\<not> guarded rq"
    and "\<And>user. site_user (ex_crypto (sr_externals sr)) ck (web_config_of cf) (rq_headers rq) si = Some user \<Longrightarrow> us_id user \<noteq> uid"
  shows "same_pictures uid si si'"
  using assms(1,2) own_pictures_only[of "ex_crypto (sr_externals sr)" ck "web_config_of cf" "rq_headers rq" si uid, OF assms(3)]
  by (cases rule: effect.cases)
    (simp_all add: same_pictures_def submit_score_keeps register_keeps get_scores_keeps)

lemma same_pictures_shown:
  "same_pictures uid si si' \<Longrightarrow> custom_image ''data/avatars'' uid si' = custom_image ''data/avatars'' uid si
    \<and> custom_image ''data/banners'' uid si' = custom_image ''data/banners'' uid si"
  using user_file_picture[of _ uid] by (simp add: same_pictures_def custom_image_def image_extensions_def)

text \<open>C14: The avatar and the banner of a player change only through a request with that player's own
  session, or with one that holds an admin badge.\<close>

theorem pictures_belong_to_players:
  "(custom_image ''data/avatars'' uid (snd (web_service fw sr ck cf rq si)) = custom_image ''data/avatars'' uid si
    \<and> custom_image ''data/banners'' uid (snd (web_service fw sr ck cf rq si)) = custom_image ''data/banners'' uid si)
   \<or> (\<exists>user. site_user (ex_crypto (sr_externals sr)) ck (web_config_of cf) (rq_headers rq) si = Some user \<and> us_id user = uid)
   \<or> is_admin_authorized (ex_crypto (sr_externals sr)) ck (web_config_of cf) si (rq_headers rq)"
proof (cases rule: web_service_effect[of fw sr ck cf rq si])
  case (1 rl)
  then show ?thesis by (simp add: custom_image_def)
next
  case (2 rl)
  have user: "site_user cy ck cfg hs (si\<lparr>si_limiter := rl\<rparr>) = site_user cy ck cfg hs si" for cy cfg hs
    by (simp add: site_user_def)
  have shown: "custom_image dir uid (si\<lparr>si_limiter := rl\<rparr>) = custom_image dir uid si" for dir
    by (simp add: custom_image_def)
  show ?thesis
    using 2(2) same_pictures_shown[OF effect_pictures[OF 2(1), of uid]] unfolding user shown by blast
qed

subsection \<open>Scores\<close>

text \<open>C13: A submission changes nothing unless its text decrypts, names a player, and comes with the
  password of that player; then it was a valid play, passed and finished, and all it does is to record
  that play for this player.\<close>

theorem score_needs_owner_password:
  "snd (submit_score ex ck cfg rq si) = si
   \<or> (\<exists>score_str user. submitted_text (ex_scores ex) rq = Some score_str
       \<and> score_owner si (name_of_part (split_on 58 score_str ! 1)) = Some user
       \<and> verify_password (ex_crypto ex) (submitted_password rq) (us_password_hash user)
       \<and> numeric_fields_are_valid (split_on 58 score_str)
       \<and> score_is_valid (name_of_part (split_on 58 score_str ! 1)) (score_of_parts (split_on 58 score_str))
       \<and> is_true (split_on 58 score_str ! 14) \<and> play_finished (submitted_form rq)
       \<and> snd (submit_score ex ck cfg rq si) = snd (record_score ex ck cfg
           ((score_of_parts (split_on 58 score_str))\<lparr>sb_user_id := us_id user,
              sb_mods := (if plays_relax (si_bancho si) (name_of_part (split_on 58 score_str ! 1))
                          then sb_mods (score_of_parts (split_on 58 score_str)) OR 128
                          else sb_mods (score_of_parts (split_on 58 score_str)))\<rparr>) si))"
proof (cases rule: submit_score_cases[of ex ck cfg rq si])
  case submitted: (2 score_str)
  show ?thesis
  proof (cases rule: accept_score_cases[of ex ck cfg "submitted_password rq" "play_finished (submitted_form rq)"
        "split_on 58 score_str" si])
    case 1
    with submitted show ?thesis by simp
  next
    case (2 user)
    then show ?thesis
      unfolding submitted(2) by (intro disjI2 exI[of _ score_str] exI[of _ user] conjI submitted(1)) simp_all
  qed
qed simp

end
