(* ===== verification/Upkeep.thy ===== *)
theory Upkeep
  imports Score_Crypto Avatars
begin

text \<open>
  \<^verbatim>\<open>src/db/backup.rs\<close>, \<^verbatim>\<open>src/utils/turnstile.rs\<close> and \<^verbatim>\<open>src/utils/telemetry.rs\<close>: the rotation of the
  backups, the check of a Turnstile token, and the health of the mirror.  The directory of the
  backups is a list of files in the order it is read; removing a file does not fail.
\<close>

subsection \<open>Backups\<close>

record backup_file =
  bf_name :: rstr
  bf_modified :: nat

text \<open>\<^verbatim>\<open>Path::extension\<close> is what follows the last dot, unless the name starts with it.\<close>

definition is_db_file :: "backup_file \<Rightarrow> bool" where
  "is_db_file f \<longleftrightarrow>
     (case rfind_char 46 (bf_name f) of Some i \<Rightarrow> 0 < i \<and> drop (i + 1) (bf_name f) = lit ''db'' | None \<Rightarrow> False)"

definition newest_backups :: "backup_file list \<Rightarrow> backup_file list" where
  "newest_backups dir = sort_key (\<lambda>f. - int (bf_modified f)) (filter is_db_file dir)"

definition rotate_backups :: "nat \<Rightarrow> backup_file list \<Rightarrow> backup_file list" where
  "rotate_backups max_kept dir =
     (let old = drop max_kept (newest_backups dir)
      in filter (\<lambda>f. bf_name f \<notin> bf_name ` set old) dir)"

text \<open>\<open>VACUUM INTO\<close> refuses a file that is there already (\<open>None\<close>).\<close>

definition perform_backup :: "rstr \<Rightarrow> nat \<Rightarrow> nat \<Rightarrow> backup_file list \<Rightarrow> (rstr \<times> backup_file list) option" where
  "perform_backup timestamp now max_kept dir =
     (let name = lit ''ayanomi_backup_'' @ timestamp @ lit ''.db''
      in if name \<in> bf_name ` set dir then None
         else Some (name, rotate_backups max_kept (dir @ [\<lparr>bf_name = name, bf_modified = now\<rparr>])))"

text \<open>The worker makes a backup at every tick but the first; a failed one changes nothing.\<close>

definition backup_interval_seconds :: "u64 \<Rightarrow> u64" where
  "backup_interval_seconds interval_minutes = max interval_minutes 1 * 60"

definition backup_tick :: "nat \<Rightarrow> rstr \<times> nat \<Rightarrow> backup_file list \<Rightarrow> backup_file list" where
  "backup_tick max_kept = (\<lambda>(timestamp, now) dir.
     case perform_backup timestamp now max_kept dir of Some (_, dir') \<Rightarrow> dir' | None \<Rightarrow> dir)"

definition backup_worker :: "nat \<Rightarrow> (rstr \<times> nat) list \<Rightarrow> backup_file list \<Rightarrow> backup_file list" where
  "backup_worker max_kept ticks dir = fold (backup_tick max_kept) (drop 1 ticks) dir"

subsection \<open>Turnstile\<close>

record siteverify_response =
  tv_success :: bool
  tv_error_codes :: "rstr list"
  tv_hostname :: "rstr option"
  tv_action :: "rstr option"

datatype turnstile_error =
    Missing_Token | Token_Too_Long | Unreachable | Bad_Status nat | Bad_Json | Rejected rstr
  | Action_Mismatch | Hostname_Mismatch

definition siteverify_params :: "rstr \<Rightarrow> rstr \<Rightarrow> rstr option \<Rightarrow> (rstr \<times> rstr) list" where
  "siteverify_params secret token remote_ip =
     [(lit ''secret'', secret), (lit ''response'', token)]
       @ (case remote_ip of Some ip \<Rightarrow> if trim ip \<noteq> [] then [(lit ''remoteip'', trim ip)] else [] | None \<Rightarrow> [])"

fun join_str :: "rstr \<Rightarrow> rstr list \<Rightarrow> rstr" where
  "join_str sep [] = []"
| "join_str sep [s] = s"
| "join_str sep (s # ss) = s @ sep @ join_str sep ss"

definition hostname_allowed :: "rstr list \<Rightarrow> rstr \<Rightarrow> bool" where
  "hostname_allowed expected actual \<longleftrightarrow>
     list_ex (\<lambda>allowed. eq_ignore_ascii_case allowed actual
       \<or> eq_ignore_ascii_case (hd (split_on 58 allowed)) actual) expected"

definition judge_siteverify ::
    "rstr option \<Rightarrow> rstr list \<Rightarrow> siteverify_response \<Rightarrow> turnstile_error + bool" where
  "judge_siteverify expected_action expected_hostnames r =
     (if \<not> tv_success r then
        Inl (Rejected (if tv_error_codes r = [] then lit ''token invalid or expired''
                       else join_str (lit '', '') (tv_error_codes r)))
      else if (case expected_action of Some e \<Rightarrow> unwrap_or [] (tv_action r) \<noteq> e | None \<Rightarrow> False)
      then Inl Action_Mismatch
      else if expected_hostnames \<noteq> [] \<and> \<not> hostname_allowed expected_hostnames (unwrap_or [] (tv_hostname r))
      then Inl Hostname_Mismatch
      else Inr True)"

text \<open>\<open>post\<close> is the answer of Cloudflare to the form: the status, and the JSON where it can be read.\<close>

definition verify_turnstile_token ::
    "((rstr \<times> rstr) list \<Rightarrow> (nat \<times> siteverify_response option) option) \<Rightarrow> rstr \<Rightarrow> rstr \<Rightarrow> rstr option
       \<Rightarrow> rstr option \<Rightarrow> rstr list \<Rightarrow> turnstile_error + bool" where
  "verify_turnstile_token post secret raw_token remote_ip expected_action expected_hostnames =
     (let token = trim raw_token
      in if token = [] then Inl Missing_Token
         else if 2048 < length (utf8_encode token) then Inl Token_Too_Long
         else case post (siteverify_params secret token remote_ip) of
                None \<Rightarrow> Inl Unreachable
              | Some (status, r) \<Rightarrow>
                  if status < 200 \<or> 300 \<le> status then Inl (Bad_Status status)
                  else (case r of
                          None \<Rightarrow> Inl Bad_Json
                        | Some r \<Rightarrow> judge_siteverify expected_action expected_hostnames r))"

subsection \<open>Health of the mirror\<close>

definition mirror_healthcheck_url :: "rstr \<Rightarrow> rstr" where
  "mirror_healthcheck_url url =
     (if str_contains url (lit ''{}'') then replace_str (lit ''{}'') (lit ''1'') url
      else rev (dropWhile (\<lambda>c. c = 47) (rev url)) @ lit ''/d/1'')"

text \<open>\<open>head\<close> says whether a request is answered in time, and after how many milliseconds.\<close>

definition probe_mirror_health :: "(rstr \<Rightarrow> nat option) \<Rightarrow> rstr \<Rightarrow> rstr" where
  "probe_mirror_health head url =
     (case head (mirror_healthcheck_url url) of
        Some elapsed \<Rightarrow> if 1500 < elapsed then lit ''slow'' else lit ''reachable''
      | None \<Rightarrow> lit ''unreachable'')"

text \<open>The figures of the operating system: bytes in all and in use, and the size of a file.\<close>

definition get_memory_metrics :: "u64 \<Rightarrow> u64 \<Rightarrow> u64 \<times> u64 \<times> fp" where
  "get_memory_metrics total_bytes used_bytes =
     (let total = total_bytes div (1024 * 1024); used = used_bytes div (1024 * 1024)
      in (used, total,
          if 0 < total
          then fp_mul f32 (fp_div f32 (fp_of_int f32 (uint used)) (fp_of_int f32 (uint total))) (fp_of_int f32 100)
          else fp_of_int f32 0))"

definition get_file_size_kb :: "u64 option \<Rightarrow> u64" where
  "get_file_size_kb len = (case len of Some n \<Rightarrow> n div 1024 | None \<Rightarrow> 0)"

subsection \<open>What rotation keeps\<close>

lemma rotated_subset: "set (rotate_backups n dir) \<subseteq> set dir"
  by (auto simp: rotate_backups_def Let_def)

lemma newest_backups_set: "set (newest_backups dir) = {f \<in> set dir. is_db_file f}"
  by (auto simp: newest_backups_def)

lemma distinct_newest: "distinct (map bf_name dir) \<Longrightarrow> distinct (map bf_name (newest_backups dir))"
proof -
  assume d: "distinct (map bf_name dir)"
  then have "distinct (map bf_name (filter is_db_file dir))" by (simp add: distinct_map_filter)
  then show ?thesis by (simp add: newest_backups_def distinct_map)
qed

lemma rotated_iff:
  assumes "distinct (map bf_name dir)" and "f \<in> set dir"
  shows "f \<in> set (rotate_backups n dir) \<longleftrightarrow> \<not> is_db_file f \<or> f \<in> set (take n (newest_backups dir))"
proof -
  let ?b = "newest_backups dir"
  have inj: "inj_on bf_name (set dir)" using assms(1) by (simp add: distinct_map)
  have "bf_name f \<in> bf_name ` set (drop n ?b) \<longleftrightarrow> f \<in> set (drop n ?b)"
  proof
    assume "bf_name f \<in> bf_name ` set (drop n ?b)"
    then obtain g where "g \<in> set (drop n ?b)" "bf_name f = bf_name g" by auto
    moreover from this have "g \<in> set dir" using newest_backups_set by (metis (no_types, lifting) in_set_dropD mem_Collect_eq)
    ultimately show "f \<in> set (drop n ?b)" using inj assms(2) by (metis inj_onD)
  qed auto
  moreover have "set ?b = set (take n ?b) \<union> set (drop n ?b)" by (metis append_take_drop_id set_append)
  moreover have "set (take n ?b) \<inter> set (drop n ?b) = {}"
    using distinct_newest[OF assms(1)] by (metis append_take_drop_id distinct_append distinct_map)
  ultimately show ?thesis
    using assms(2) newest_backups_set[of dir] by (auto simp: rotate_backups_def Let_def)
qed

text \<open>Of the databases exactly \<open>max_kept\<close> stay, or all when there are fewer, none of them older than
  one that goes.\<close>

lemma rotated_count:
  assumes "distinct (map bf_name dir)"
  shows "length (filter is_db_file (rotate_backups n dir)) = min n (length (filter is_db_file dir))"
proof -
  have "distinct (filter is_db_file (rotate_backups n dir))"
    using assms by (simp add: rotate_backups_def Let_def distinct_map)
  moreover have "set (take n (newest_backups dir)) \<subseteq> {f \<in> set dir. is_db_file f}"
    using newest_backups_set[of dir] set_take_subset by fastforce
  then have "set (filter is_db_file (rotate_backups n dir)) = set (take n (newest_backups dir))"
    using rotated_iff[OF assms] rotated_subset[of n dir] by auto
  moreover have "distinct (take n (newest_backups dir))"
    using distinct_newest[OF assms] by (simp add: distinct_map)
  ultimately have "length (filter is_db_file (rotate_backups n dir)) = length (take n (newest_backups dir))"
    by (metis distinct_card)
  then show ?thesis by (simp add: newest_backups_def min.commute)
qed

lemma backup_name_is_db: "is_db_file \<lparr>bf_name = lit ''ayanomi_backup_'' @ timestamp @ lit ''.db'', bf_modified = now\<rparr>"
proof -
  have "rfind_char 46 (lit ''.db'') = Some 0" "length (lit ''ayanomi_backup_'') = 15"
    by (simp_all add: lit_def)
  then have "rfind_char 46 (lit ''ayanomi_backup_'' @ timestamp @ lit ''.db'') = Some (15 + length timestamp)"
    by (simp add: rfind_char_append)
  moreover have "drop (Suc (15 + length timestamp)) (lit ''ayanomi_backup_'' @ timestamp @ lit ''.db'') = lit ''db''"
    by (simp only: drop_append \<open>length (lit ''ayanomi_backup_'') = 15\<close>) (simp add: lit_def)
  ultimately show ?thesis by (simp add: is_db_file_def)
qed

lemma rotated_newest:
  assumes "distinct (map bf_name dir)" and "f \<in> set dir" and "g \<in> set dir"
    and "is_db_file f" and "f \<in> set (rotate_backups n dir)" and "g \<notin> set (rotate_backups n dir)"
  shows "bf_modified g \<le> bf_modified f"
proof -
  let ?b = "newest_backups dir"
  have "f \<in> set (take n ?b)" using rotated_iff[OF assms(1,2)] assms(4,5) by blast
  moreover have "g \<in> set (drop n ?b)"
  proof -
    have "g \<notin> set (take n ?b)" "is_db_file g" using rotated_iff[OF assms(1,3)] assms(6) by blast+
    then show ?thesis
      using assms(3) newest_backups_set[of dir] by (metis (mono_tags, lifting) Un_iff append_take_drop_id mem_Collect_eq set_append)
  qed
  moreover have "sorted_wrt (\<lambda>a b. bf_modified b \<le> bf_modified a) (take n ?b @ drop n ?b)"
    using sorted_sort_key[of "\<lambda>f. - int (bf_modified f)" "filter is_db_file dir"]
    by (simp add: newest_backups_def sorted_map)
  ultimately show ?thesis unfolding sorted_wrt_append by blast
qed

end
