(* ===== verification/Bancho_Site.thy ===== *)
theory Bancho_Site
  imports Server Guards Client_Pages
begin

text \<open>
  The HTTP side of \<^verbatim>\<open>src/server/bancho.rs\<close> and \<^verbatim>\<open>build_bancho_router\<close> of \<^verbatim>\<open>src/server/mod.rs\<close>:
  how a request reaches the login and the packet loop, and what the client is sent back.
  \<open>bf_stats\<close> reads the JSON of an update, \<open>bf_other\<close> answers what no route takes; both are
  the framework's.
\<close>

record bancho_framework =
  bf_stats :: "request \<Rightarrow> (i32 \<times> u8 \<times> bool option) option"
  bf_reject :: "request \<Rightarrow> response"
  bf_other :: "request \<Rightarrow> response"

definition octets :: "u8 list \<Rightarrow> response" where
  "octets packets = respond 200 [(lit ''content-type'', header_value (lit ''application/octet-stream''))] (Bytes packets)"

definition bancho_reply :: "u8 list \<Rightarrow> response" where
  "bancho_reply packets =
     set_header (lit ''content-type'') (lit ''application/octet-stream'')
       (set_header (lit ''cho-protocol'') (lit ''19'') (octets packets))"

definition bancho_token_reply :: "rstr \<Rightarrow> u8 list \<Rightarrow> response" where
  "bancho_token_reply token packets =
     set_header (lit ''content-type'') (lit ''application/octet-stream'')
       (set_header (lit ''cho-protocol'') (lit ''19'')
         (set_header (lit ''cho-token'') (if header_str token then token else []) (octets packets)))"

definition login_answer :: "login_reply \<Rightarrow> response" where
  "login_answer reply =
     (case reply of
        BadRequest \<Rightarrow> respond 400 [] (Text (lit ''Invalid UTF-8 in login payload''))
      | LoginReply token packets \<Rightarrow> bancho_token_reply token packets)"

text \<open>A poll of an unknown session is answered with the token \<^verbatim>\<open>None\<close>, any other without one.\<close>

definition poll_answer :: "rstr \<Rightarrow> sys \<Rightarrow> u8 list \<Rightarrow> response" where
  "poll_answer token st packets =
     (if get_session token st = None then bancho_token_reply no_token packets else bancho_reply packets)"

definition osu_token :: "headers \<Rightarrow> rstr option" where
  "osu_token hs = option_filter (\<lambda>s. s \<noteq> []) (header_text hs (lit ''osu-token''))"

definition bancho_post_handler ::
    "services \<Rightarrow> login_config \<Rightarrow> accounts \<Rightarrow> (nat \<Rightarrow> env) \<Rightarrow> rstr \<Rightarrow> request \<Rightarrow> sys \<Rightarrow> response option \<times> sys" where
  "bancho_post_handler sv cfg ac envs new_token rq st =
     (let hs = rq_headers rq;
          version = header_text hs (lit ''osu-version'')
      in case osu_token hs of
           None \<Rightarrow>
             (let (reply, st') = handle_login sv cfg ac (envs 0) new_token version (extract_client_ip rq) (rq_body rq) st
              in (Some (login_answer reply), st'))
         | Some token \<Rightarrow>
             (let (packets, st') = handle_packet_poll sv envs version token (rq_body rq) st
              in (map_option (poll_answer token st) packets, st')))"

definition stats_update_handler ::
    "crypto \<Rightarrow> rstr \<Rightarrow> services \<Rightarrow> request \<Rightarrow> i32 \<times> u8 \<times> bool option \<Rightarrow> sys \<Rightarrow> response \<times> sys" where
  "stats_update_handler cy secret sv rq payload st =
     (case payload of (uid, md, rx) \<Rightarrow>
        (let authorized =
               (case header_text (rq_headers rq) (lit ''x-ayanomi-internal-token'') of
                  Some v \<Rightarrow> verify_internal_auth_token cy secret v
                | None \<Rightarrow> False);
             (ok, st') = internal_stats_update sv authorized uid md rx st
         in (respond (if ok then 200 else 404) [] NoBody, st')))"

definition bancho_health :: "instant \<Rightarrow> sys \<Rightarrow> response" where
  "bancho_health now st =
     respond 200 [(lit ''content-type'', header_value (lit ''application/json''))]
       (Json (JObj [(lit ''status'', JStr (lit ''healthy'')), (lit ''service'', JStr (lit ''bancho'')),
          (lit ''online_players'', JInt (int (online_count st))),
          (lit ''uptime_seconds'', JInt (max 0 (now - start_time st) div 1000000000))]))"

definition bancho_routes ::
    "bancho_framework \<Rightarrow> crypto \<Rightarrow> rstr \<Rightarrow> services \<Rightarrow> login_config \<Rightarrow> accounts \<Rightarrow> (nat \<Rightarrow> env) \<Rightarrow> rstr \<Rightarrow>
     request \<Rightarrow> sys \<Rightarrow> response option \<times> sys" where
  "bancho_routes fw cy secret sv cfg ac envs new_token rq st =
     (let path = rq_path rq; gets = rq_method rq \<in> {lit ''GET'', lit ''HEAD''}; posts = rq_method rq = lit ''POST''
      in if (path = lit ''/'' \<or> path = lit ''/c'') \<and> posts then bancho_post_handler sv cfg ac envs new_token rq st
         else if path = lit ''/c'' \<and> gets then (Some osufx_bancho_ping, st)
         else if path = lit ''/health/bancho'' \<and> gets then (Some (bancho_health (e_now (envs 0)) st), st)
         else if path = lit ''/internal/stats_update'' \<and> posts then
           (case bf_stats fw rq of
              Some payload \<Rightarrow> (let (r, st') = stats_update_handler cy secret sv rq payload st in (Some r, st'))
            | None \<Rightarrow> (Some (bf_reject fw rq), st))
         else (Some (bf_other fw rq), st))"

subsection \<open>What every request keeps\<close>

text \<open>
  Whatever arrives, a request that is not for the login, the polling or an update leaves the
  server as it was, and an update without the internal token does too.
\<close>

lemma stats_update_unauthorized:
  "(\<And>v. header_text (rq_headers rq) (lit ''x-ayanomi-internal-token'') = Some v \<Longrightarrow>
      \<not> verify_internal_auth_token cy secret v) \<Longrightarrow>
   stats_update_handler cy secret sv rq p st = (respond 404 [] NoBody, st)"
  by (cases p) (auto simp: stats_update_handler_def internal_stats_update_def split: option.split)

end
