(* ===== verification/Service_Properties.thy ===== *)
theory Service_Properties
  imports Upkeep Config Bancho_Site Backgrounds
begin

text \<open>Properties of the form parser, the configuration, the backups, Turnstile and the pictures.\<close>

subsection \<open>Forms\<close>

lemma boundary_clean:
  assumes "list_all (\<lambda>c. visible c \<and> c \<notin> {32, 34, 59}) b" and "b \<noteq> []"
  shows "form_delimiter b = utf8_encode (lit ''--'' @ b)"
proof -
  have space: "visible c \<Longrightarrow> c \<noteq> 32 \<Longrightarrow> \<not> is_whitespace c" for c
    by (simp add: visible_def is_whitespace_def)
  have plain: "c \<noteq> 59 \<and> c \<noteq> 34 \<and> \<not> is_whitespace c" if "c \<in> set b" for c
    using assms(1) that space unfolding list_all_iff by blast
  have drop: "dropWhile p xs = xs" if "\<forall>c \<in> set xs. \<not> p c" for p and xs :: rstr
    using that by (cases xs) auto
  have "dropWhile (\<lambda>c. c = 34) b = b" "dropWhile (\<lambda>c. c = 34) (rev b) = rev b"
    "dropWhile is_whitespace b = b" "dropWhile is_whitespace (rev b) = rev b"
    using plain by (intro drop; force)+
  then have "trim_matches (\<lambda>c. c = 34) b = b" and "trim b = b"
    by (simp_all add: trim_matches_def trim_def trim_start_def)
  moreover have "split_on 59 xs = [xs]" if "59 \<notin> set xs" for xs :: rstr
    using that by (induction xs) auto
  then have "split_on 59 b = [b]" using plain by blast
  ultimately show ?thesis by (simp add: form_delimiter_def)
qed

lemma content_type_boundary:
  "find_str (lit ''boundary='') (lit ''multipart/form-data; boundary='' @ b) = Some 21"
  "str_contains (lit ''multipart/form-data; boundary='' @ b) (lit ''multipart/form-data'')"
  by (simp_all add: str_contains_def lit_def)

lemma delimiter_bytes:
  assumes "list_all (\<lambda>c. visible c \<and> c \<notin> {32, 34, 59}) b" and "b \<noteq> []"
  shows "10 \<notin> set (utf8_encode (lit ''--'' @ b))" and "find_window (utf8_encode (lit ''--'' @ b)) form_end = None"
proof -
  have ascii: "utf8_encode b = map byte b"
  proof -
    have "utf8_encode s = map byte s" if "set s \<subseteq> set b" for s
      using that assms(1) by (induction s) (auto simp: utf8_encode_def utf8_char_def list_all_iff visible_def)
    then show ?thesis by blast
  qed
  have delim: "utf8_encode (lit ''--'' @ b) = 45 # 45 # map byte b"
    using ascii by (simp add: utf8_encode_def utf8_char_def lit_def byte_def)
  have byte: "byte c \<noteq> 10 \<and> byte c \<noteq> 13" if "c \<in> set b" for c
  proof -
    have "visible c" using assms(1) that unfolding list_all_iff by blast
    then have "uint (byte c) = c" "32 \<le> c" using uint_byte_visible by (auto simp: visible_def)
    then show ?thesis by auto
  qed
  show "10 \<notin> set (utf8_encode (lit ''--'' @ b))" unfolding delim using byte by fastforce
  obtain c r where b: "b = c # r" using assms(2) by (cases b) auto
  show "find_window (utf8_encode (lit ''--'' @ b)) form_end = None"
    unfolding delim form_end_def crlf_def using byte[of c] by (simp add: b)
qed

lemma fold_fields:
  assumes "\<forall>f \<in> set entries. part_field (field_part f) = Some f"
  shows "hget (fold (add_field \<circ> part_field) (map field_part entries) m) k
    = (case map_of (rev entries) k of Some v \<Rightarrow> Some v | None \<Rightarrow> hget m k)"
  using assms
proof (induction entries arbitrary: m)
  case (Cons f fs)
  then show ?case
    by (cases f) (auto simp: add_field_def map_add_def split: option.split)
qed simp

text \<open>C21: A multipart form is read back: whatever bytes its fields hold, the parser finds each name
  with the content written last under it, as long as no part holds the delimiter, the names are plain,
  and a field \<open>score\<close> does not start like a replay.\<close>

theorem multipart_roundtrip:
  assumes "list_all (\<lambda>c. visible c \<and> c \<notin> {32, 34, 59}) b" and "b \<noteq> []"
    and "\<forall>f \<in> set entries. find_window (utf8_encode (lit ''--'' @ b)) (field_part f) = None"
    and "\<forall>f \<in> set entries. valid_str (fst f) \<and> 34 \<notin> set (fst f) \<and> 13 \<notin> set (fst f)"
    and "\<forall>f \<in> set entries. fst f = lit ''score'' \<longrightarrow> take 5 (snd f) \<noteq> lzma_head"
  shows "hget (parse_post_params_raw (lit ''multipart/form-data; boundary='' @ b)
      (multipart_body (utf8_encode (lit ''--'' @ b)) entries)) name = map_of (rev entries) name"
proof -
  let ?d = "utf8_encode (lit ''--'' @ b)"
  have "drop (21 + 9) (lit ''multipart/form-data; boundary='' @ b) = b" by (simp add: lit_def)
  then have "parse_post_params_raw (lit ''multipart/form-data; boundary='' @ b) (multipart_body ?d entries)
      = fold (add_field \<circ> part_field) (form_parts ?d (multipart_body ?d entries)) []"
    using boundary_clean[OF assms(1,2)]
    unfolding parse_post_params_raw_def content_type_boundary(1) by (simp add: content_type_boundary(2))
  moreover have "?d \<noteq> []" by (simp add: utf8_encode_def utf8_char_def lit_def)
  then have "form_parts ?d (multipart_body ?d entries) = map field_part entries @ [form_end]"
    using form_parts_body delimiter_bytes[OF assms(1,2)] assms(3) by blast
  moreover have "\<forall>f \<in> set entries. part_field (field_part f) = Some f"
    using part_field_written assms(4,5) by (metis prod.collapse)
  ultimately show ?thesis
    using fold_fields[of entries "[]" name] by (simp add: form_end_no_field add_field_def split: option.splits)
qed

text \<open>A score submission with a password of two bytes and a binary score.\<close>

theorem multipart_roundtrip_witness:
  "hget (parse_post_params_raw (lit ''multipart/form-data; boundary=xyz'')
     (multipart_body (utf8_encode (lit ''--xyz'')) [(lit ''pass'', [112, 119]), (lit ''score'', [0, 45, 45, 10, 255])]))
     (lit ''score'') = Some [0, 45, 45, 10, 255]"
proof -
  let ?e = "[(lit ''pass'', [112, 119]), (lit ''score'', [0, 45, 45, 10, 255])] :: (rstr \<times> u8 list) list"
  have "list_all (\<lambda>c. visible c \<and> c \<notin> {32, 34, 59}) (lit ''xyz'')" "lit ''xyz'' \<noteq> []"
    by (simp_all add: lit_def visible_def)
  moreover have "\<forall>f \<in> set ?e. find_window (utf8_encode (lit ''--'' @ lit ''xyz'')) (field_part f) = None"
    by code_simp
  moreover have "\<forall>f \<in> set ?e. valid_str (fst f) \<and> 34 \<notin> set (fst f) \<and> 13 \<notin> set (fst f)"
    by (simp add: lit_def valid_str_def is_scalar_def is_surrogate_def)
  moreover have "\<forall>f \<in> set ?e. fst f = lit ''score'' \<longrightarrow> take 5 (snd f) \<noteq> lzma_head"
    by (simp add: lit_def lzma_head_def)
  ultimately show ?thesis
    using multipart_roundtrip[of "lit ''xyz''" ?e "lit ''score''"] by (simp add: lit_def)
qed

subsection \<open>Backups\<close>

text \<open>C23: A backup adds its file to the directory and then keeps exactly \<open>max_kept\<close> databases, or all
  when there are not more: the newest, none of them older than one that is removed.  The new one is
  kept when it is newer than every database that was there and \<open>max_kept\<close> is not 0; files of other
  kinds stay.\<close>

theorem backup_keeps_newest:
  assumes "perform_backup timestamp now max_kept dir = Some (name, dir')" and "distinct (map bf_name dir)"
  shows "let new = \<lparr>bf_name = name, bf_modified = now\<rparr> in
    set dir' \<subseteq> insert new (set dir)
    \<and> length (filter is_db_file dir') = min max_kept (length (filter is_db_file dir) + 1)
    \<and> (\<forall>f \<in> set dir. is_db_file f \<or> f \<in> set dir')
    \<and> (\<forall>f \<in> set dir'. \<forall>g \<in> insert new (set dir). is_db_file f \<longrightarrow> g \<in> set dir' \<or> bf_modified g \<le> bf_modified f)
    \<and> (0 < max_kept \<and> (\<forall>f \<in> set dir. is_db_file f \<longrightarrow> bf_modified f < now) \<longrightarrow> new \<in> set dir')"
proof -
  define new where "new = \<lparr>bf_name = name, bf_modified = now\<rparr>"
  have d: "distinct (map bf_name (dir @ [new]))" and dir': "dir' = rotate_backups max_kept (dir @ [new])"
    and db: "is_db_file new"
    using assms backup_name_is_db by (auto simp: perform_backup_def Let_def new_def split: if_splits)
  have sub: "set dir' \<subseteq> insert new (set dir)"
    using rotated_subset[of max_kept "dir @ [new]"] by (simp add: dir')
  have n: "length (filter is_db_file dir') = min max_kept (length (filter is_db_file dir) + 1)"
    using rotated_count[OF d, of max_kept] db by (simp add: dir')
  have other: "f \<in> set dir'" if "f \<in> set dir" "\<not> is_db_file f" for f
    using rotated_iff[OF d, of f max_kept] that unfolding dir' by auto
  have newest: "bf_modified g \<le> bf_modified f"
    if "f \<in> set dir'" "g \<in> insert new (set dir)" "is_db_file f" "g \<notin> set dir'" for f g
    by (rule rotated_newest[OF d _ _ that(3)]) (use that sub in \<open>auto simp: dir'\<close>)
  have "new \<in> set dir'" if "0 < max_kept" "\<forall>f \<in> set dir. is_db_file f \<longrightarrow> bf_modified f < now"
  proof (rule ccontr)
    assume gone: "new \<notin> set dir'"
    have "filter is_db_file dir' \<noteq> []" using n that(1) by fastforce
    then obtain f where f: "f \<in> set dir'" "is_db_file f" by (auto simp: filter_empty_conv)
    then have "now \<le> bf_modified f" using newest[of f new] gone by (simp add: new_def)
    moreover have "f \<in> set dir" using f(1) sub gone by auto
    ultimately show False using that(2) f(2) by fastforce
  qed
  then show ?thesis
    unfolding Let_def new_def[symmetric] using sub n other newest by blast
qed

definition sample_backups :: "backup_file list" where
  "sample_backups = [\<lparr>bf_name = lit ''a.db'', bf_modified = 5\<rparr>, \<lparr>bf_name = lit ''notes.txt'', bf_modified = 1\<rparr>,
     \<lparr>bf_name = lit ''b.db'', bf_modified = 9\<rparr>]"

text \<open>Two are kept of three.\<close>

theorem backup_keeps_newest_witness:
  "\<exists>name dir'. perform_backup (lit ''now'') 12 2 sample_backups = Some (name, dir')
    \<and> length (filter is_db_file dir') = 2 \<and> \<lparr>bf_name = lit ''notes.txt'', bf_modified = 1\<rparr> \<in> set dir'
    \<and> \<lparr>bf_name = name, bf_modified = 12\<rparr> \<in> set dir'"
proof -
  let ?notes = "\<lparr>bf_name = lit ''notes.txt'', bf_modified = 1\<rparr>"
  have "perform_backup (lit ''now'') 12 2 sample_backups \<noteq> None" by code_simp
  then obtain name dir' where p: "perform_backup (lit ''now'') 12 2 sample_backups = Some (name, dir')" by auto
  have "distinct (map bf_name sample_backups)" by code_simp
  note kept = backup_keeps_newest[OF p this, unfolded Let_def]
  have "length (filter is_db_file sample_backups) = 2" by code_simp
  then have "length (filter is_db_file dir') = 2" using kept by simp
  moreover have "\<not> is_db_file ?notes" by code_simp
  then have "?notes \<in> set dir'" using kept by (auto simp: sample_backups_def)
  moreover have "\<forall>f \<in> set sample_backups. is_db_file f \<longrightarrow> bf_modified f < 12"
    by (simp add: sample_backups_def)
  then have "\<lparr>bf_name = name, bf_modified = 12\<rparr> \<in> set dir'" using kept by simp
  ultimately show ?thesis using p by blast
qed

subsection \<open>Turnstile\<close>

text \<open>A token is accepted exactly when it is there, is not longer than 2048 bytes, and the service,
  asked with the secret and this token, answers that it is valid, for the expected action and for an
  expected host where these are configured.\<close>

theorem turnstile_accepts_only_verified:
  "verify_turnstile_token post secret raw_token remote_ip expected_action expected_hostnames = Inr ok
   \<longleftrightarrow> ok \<and> trim raw_token \<noteq> [] \<and> length (utf8_encode (trim raw_token)) \<le> 2048
     \<and> (\<exists>status r. post (siteverify_params secret (trim raw_token) remote_ip) = Some (status, Some r)
          \<and> 200 \<le> status \<and> status < 300 \<and> tv_success r
          \<and> expected_action \<in> {None, Some (unwrap_or [] (tv_action r))}
          \<and> (expected_hostnames = [] \<or> hostname_allowed expected_hostnames (unwrap_or [] (tv_hostname r))))"
  unfolding verify_turnstile_token_def judge_siteverify_def Let_def
  by (auto split: option.split prod.split)

subsection \<open>Configuration\<close>

lemma unix_path_drive: "58 \<notin> set (lit d) \<Longrightarrow> 58 \<notin> set (unix_path d p)"
  by (simp add: unix_path_def)

text \<open>A configuration that loads is fit for use: the secret that signs the sessions has 32 bytes or
  more, the paths of four of the databases name no Windows drive, and the gateway and the services count
  with the same limits.\<close>

theorem loaded_config_fit:
  assumes "load path_exists env raw = Some cf"
  shows "32 \<le> length (utf8_encode (trim (wc_secret_key (web_config_of cf))))
    \<and> (\<forall>p \<in> {db_path, db_chat_path, db_badges_path, db_multi_path}. 58 \<notin> set (p (cf_database cf)))
    \<and> gc_ratelimit (gateway_config_of cf) = wc_ratelimit (web_config_of cf)"
proof -
  have "58 \<notin> set (lit ''data/ayanomi.db'')" "58 \<notin> set (lit ''data/ayanomi_chat.db'')"
    "58 \<notin> set (lit ''data/ayanomi_badges.db'')" "58 \<notin> set (lit ''data/ayanomi_multi.db'')"
    by (simp_all add: lit_def)
  then show ?thesis
    using assms
    by (auto simp: load_def Let_def web_config_of_def gateway_config_of_def unix_paths_def unix_path_drive
        bind_eq_Some_conv split: if_splits)
qed

text \<open>A file with a short secret and a Windows path; the environment has a secret that is long enough.\<close>

definition sample_raw_config :: raw_config where
  "sample_raw_config =
     \<lparr>rc_server = \<lparr>rw_host = lit ''0.0.0.0'', rw_port = 5000, rw_bancho_port = None, rw_web_port = None,
        rw_roseflower_port = None, rw_domain = lit ''osu.example'', rw_name = lit ''Ayanomi'',
        rw_welcome_message = [], rw_secret_key = Some (lit ''short'')\<rparr>,
      rc_gameplay = \<lparr>rg_auto_register = True, rg_default_country = 233, rg_bot_name = lit ''Bot'', rg_bot_id = 1,
        rg_chat_history_limit = None\<rparr>,
      rc_security = None,
      rc_database = \<lparr>rd_path = lit ''C:/ayanomi.db'', rd_chat_path = None, rd_badges_path = None, rd_multi_path = None,
        rd_friends_path = Some (lit ''C:/friends.db''), rd_auto_backup = None, rd_backup_interval_minutes = None,
        rd_max_backups_kept = None\<rparr>,
      rc_mirrors = \<lparr>rm_direct_search_api = [], rm_download_url = [], rm_beatmap_md5_api = None\<rparr>,
      rc_backgrounds = None, rc_ratelimit = None, rc_turnstile = None\<rparr>"

definition sample_environment :: "string \<Rightarrow> rstr option" where
  "sample_environment var =
     (if var = ''AYANOMI_SESSION_SECRET'' then Some (lit ''0123456789abcdef0123456789abcdef'') else None)"

theorem loaded_config_fit_witness:
  "\<exists>cf. load (\<lambda>_. False) sample_environment (Some sample_raw_config) = Some cf
    \<and> 32 \<le> length (utf8_encode (trim (wc_secret_key (web_config_of cf)))) \<and> 58 \<notin> set (db_path (cf_database cf))"
proof -
  have "load (\<lambda>_. False) sample_environment (Some sample_raw_config) \<noteq> None" by code_simp
  then obtain cf where cf: "load (\<lambda>_. False) sample_environment (Some sample_raw_config) = Some cf" by blast
  with loaded_config_fit[OF this] show ?thesis by blast
qed

text \<open>The path of the friends database is left as it is.\<close>

lemma friends_path_keeps_drive:
  "load path_exists env (Some r) = Some cf \<Longrightarrow> rd_friends_path (rc_database r) = Some p \<Longrightarrow> db_friends_path (cf_database cf) = p"
  by (auto simp: load_def Let_def config_of_def database_of_def unix_paths_def unwrap_or_def
      split: if_splits)

text \<open>Leaving a section out and leaving it empty are not the same.\<close>

lemma missing_sections_differ:
  "sy_anti_multiaccount derived_security = False"
  "sy_anti_multiaccount (security_of \<lparr>ry_anti_multiaccount = None, ry_max_accounts_per_hwid = None, ry_block_vpn = None\<rparr>) = True"
  "tn_expected_action derived_turnstile = None"
  "tn_expected_action (turnstile_of \<lparr>rt_enabled = None, rt_site_key = None, rt_secret_key = None,
     rt_expected_action = None, rt_expected_hostnames = None\<rparr>) = Some (lit ''login'')"
  by (simp_all add: derived_security_def security_of_def derived_turnstile_def turnstile_of_def unwrap_or_def)

subsection \<open>Pictures\<close>

text \<open>An upload that is refused as a picture has already removed the banner it was to replace.\<close>

lemma refused_banner_removes_old:
  assumes "site_user cy ck cfg hs si = Some user" and "picture_field ''banner'' fs = Some f"
    and "image_file_name str_lower ''banner.png'' f" and "uf_bytes f = Some bytes"
    and "bytes \<noteq> []" and "length bytes \<le> 10 * 1024 * 1024" and "sanitize_uploaded_image bytes = None"
  shows "rs_status (fst (upload_banner_api cy ck cfg str_lower hs fs si)) = 400"
    and "custom_image ''data/banners'' (us_id user) (snd (upload_banner_api cy ck cfg str_lower hs fs si)) = None"
proof -
  have r: "upload_banner_api cy ck cfg str_lower hs fs si =
      (api_response 400 False ''The uploaded file is not a valid PNG, JPEG, or WebP image.'',
       remove_user_files ''data/banners'' (us_id user) si)"
    using assms by (simp add: upload_banner_api_def Let_def)
  have gone: "hget (fold (\<lambda>ext. hdel (user_file d u ext)) exts m) (user_file d u e) = None"
    if "e \<in> set exts \<or> hget m (user_file d u e) = None" for d u exts m e
    using that by (induction exts arbitrary: m) auto
  show "rs_status (fst (upload_banner_api cy ck cfg str_lower hs fs si)) = 400"
    unfolding r by (simp add: api_response_def json_answer_def respond_def)
  show "custom_image ''data/banners'' (us_id user) (snd (upload_banner_api cy ck cfg str_lower hs fs si)) = None"
    unfolding r custom_image_def remove_user_files_def using gone by (simp add: image_extensions_def)
qed

text \<open>The endpoints for backgrounds touch no file outside their directory.\<close>

lemma background_name_inside: "is_valid_image_filename name \<Longrightarrow> 47 \<notin> set name \<and> \<not> str_contains name (lit ''..'')"
  by (auto simp: is_valid_image_filename_def ascii_alphanumeric_def list_all_iff)

lemma save_backgrounds_inside:
  "(\<And>name. 47 \<notin> set name \<Longrightarrow> p \<noteq> path_join dir name) \<Longrightarrow>
     hget (si_files (snd (save_backgrounds an dir fs saved si))) p = hget (si_files si) p"
  by (induction fs arbitrary: saved si)
    (auto simp: Let_def background_name_inside split: option.split)

lemma backgrounds_stay_inside:
  assumes "\<And>name. 47 \<notin> set name \<Longrightarrow> p \<noteq> path_join dir name"
  shows "hget (si_files (snd (upload_background_api an dir hs fs si))) p = hget (si_files si) p"
    and "hget (si_files (snd (delete_background_api dir name hs si))) p = hget (si_files si) p"
  using save_backgrounds_inside[of p dir an fs None si] assms background_name_inside[of name]
  by (auto simp: upload_background_api_def delete_background_api_def split: prod.split sum.split option.split)

end
