(* ===== verification/Country.thy ===== *)
theory Country
  imports Rust_Strings
begin

text \<open>
  \<^verbatim>\<open>src/utils/country.rs\<close>: the countries with the numbers the client knows them by.  \<open>upper\<close> is
  \<^verbatim>\<open>str::to_uppercase\<close>.
\<close>

record country_info =
  ci_code :: rstr
  ci_name :: rstr
  ci_bancho_id :: u8
  ci_flag :: rstr

definition country :: "string \<Rightarrow> string \<Rightarrow> u8 \<Rightarrow> rstr \<Rightarrow> country_info" where
  "country code name bancho_id flag =
     \<lparr>ci_code = lit code, ci_name = lit name, ci_bancho_id = bancho_id, ci_flag = flag\<rparr>"

definition globe :: rstr where
  "globe = [0x1F310]"

definition DEFAULT_COUNTRY_INFO :: country_info where
  "DEFAULT_COUNTRY_INFO = country ''VN'' ''Vietnam'' 233 [0x1F1FB, 0x1F1F3]"

definition COUNTRIES :: "country_info list" where
  "COUNTRIES =
     [country ''OC'' ''OC'' 1 globe, country ''EU'' ''EU'' 2 globe, country ''AD'' ''AD'' 3 globe,
      country ''AE'' ''AE'' 4 globe, country ''AF'' ''AF'' 5 globe, country ''AG'' ''AG'' 6 globe,
      country ''AI'' ''AI'' 7 globe, country ''AL'' ''AL'' 8 globe, country ''AM'' ''AM'' 9 globe,
      country ''AN'' ''AN'' 10 globe, country ''AO'' ''AO'' 11 globe, country ''AQ'' ''AQ'' 12 globe,
      country ''AR'' ''AR'' 13 globe, country ''AS'' ''AS'' 14 globe, country ''AT'' ''AT'' 15 globe,
      country ''AU'' ''Australia'' 16 [0x1F1E6, 0x1F1FA], country ''AW'' ''AW'' 17 globe,
      country ''AZ'' ''AZ'' 18 globe, country ''BA'' ''BA'' 19 globe, country ''BB'' ''BB'' 20 globe,
      country ''BD'' ''BD'' 21 globe, country ''BE'' ''BE'' 22 globe, country ''BF'' ''BF'' 23 globe,
      country ''BG'' ''BG'' 24 globe, country ''BH'' ''BH'' 25 globe, country ''BI'' ''BI'' 26 globe,
      country ''BJ'' ''BJ'' 27 globe, country ''BM'' ''BM'' 28 globe, country ''BN'' ''BN'' 29 globe,
      country ''BO'' ''BO'' 30 globe, country ''BR'' ''Brazil'' 31 [0x1F1E7, 0x1F1F7],
      country ''BS'' ''BS'' 32 globe, country ''BT'' ''BT'' 33 globe, country ''BV'' ''BV'' 34 globe,
      country ''BW'' ''BW'' 35 globe, country ''BY'' ''BY'' 36 globe, country ''BZ'' ''BZ'' 37 globe,
      country ''CA'' ''Canada'' 38 [0x1F1E8, 0x1F1E6], country ''CC'' ''CC'' 39 globe,
      country ''CD'' ''CD'' 40 globe, country ''CF'' ''CF'' 41 globe, country ''CG'' ''CG'' 42 globe,
      country ''CH'' ''CH'' 43 globe, country ''CI'' ''CI'' 44 globe, country ''CK'' ''CK'' 45 globe,
      country ''CL'' ''CL'' 46 globe, country ''CM'' ''CM'' 47 globe,
      country ''CN'' ''China'' 48 [0x1F1E8, 0x1F1F3], country ''CO'' ''CO'' 49 globe,
      country ''CR'' ''CR'' 50 globe, country ''CU'' ''CU'' 51 globe, country ''CV'' ''CV'' 52 globe,
      country ''CX'' ''CX'' 53 globe, country ''CY'' ''CY'' 54 globe, country ''CZ'' ''CZ'' 55 globe,
      country ''DE'' ''Germany'' 56 [0x1F1E9, 0x1F1EA], country ''DJ'' ''DJ'' 57 globe,
      country ''DK'' ''DK'' 58 globe, country ''DM'' ''DM'' 59 globe, country ''DO'' ''DO'' 60 globe,
      country ''DZ'' ''DZ'' 61 globe, country ''EC'' ''EC'' 62 globe, country ''EE'' ''EE'' 63 globe,
      country ''EG'' ''EG'' 64 globe, country ''EH'' ''EH'' 65 globe, country ''ER'' ''ER'' 66 globe,
      country ''ES'' ''ES'' 67 globe, country ''ET'' ''ET'' 68 globe, country ''FI'' ''FI'' 69 globe,
      country ''FJ'' ''FJ'' 70 globe, country ''FK'' ''FK'' 71 globe, country ''FM'' ''FM'' 72 globe,
      country ''FO'' ''FO'' 73 globe, country ''FR'' ''France'' 74 [0x1F1EB, 0x1F1F7],
      country ''FX'' ''FX'' 75 globe, country ''GA'' ''GA'' 76 globe,
      country ''GB'' ''United Kingdom'' 77 [0x1F1EC, 0x1F1E7], country ''GD'' ''GD'' 78 globe,
      country ''GE'' ''GE'' 79 globe, country ''GF'' ''GF'' 80 globe, country ''GH'' ''GH'' 81 globe,
      country ''GI'' ''GI'' 82 globe, country ''GL'' ''GL'' 83 globe, country ''GM'' ''GM'' 84 globe,
      country ''GN'' ''GN'' 85 globe, country ''GP'' ''GP'' 86 globe, country ''GQ'' ''GQ'' 87 globe,
      country ''GR'' ''GR'' 88 globe, country ''GS'' ''GS'' 89 globe, country ''GT'' ''GT'' 90 globe,
      country ''GU'' ''GU'' 91 globe, country ''GW'' ''GW'' 92 globe, country ''GY'' ''GY'' 93 globe,
      country ''HK'' ''HK'' 94 globe, country ''HM'' ''HM'' 95 globe, country ''HN'' ''HN'' 96 globe,
      country ''HR'' ''HR'' 97 globe, country ''HT'' ''HT'' 98 globe, country ''HU'' ''HU'' 99 globe,
      country ''ID'' ''Indonesia'' 100 [0x1F1EE, 0x1F1E9], country ''IE'' ''IE'' 101 globe,
      country ''IL'' ''IL'' 102 globe, country ''IN'' ''IN'' 103 globe, country ''IO'' ''IO'' 104 globe,
      country ''IQ'' ''IQ'' 105 globe, country ''IR'' ''IR'' 106 globe, country ''IS'' ''IS'' 107 globe,
      country ''IT'' ''IT'' 108 globe, country ''JM'' ''JM'' 109 globe, country ''JO'' ''JO'' 110 globe,
      country ''JP'' ''Japan'' 111 [0x1F1EF, 0x1F1F5], country ''KE'' ''KE'' 112 globe,
      country ''KG'' ''KG'' 113 globe, country ''KH'' ''KH'' 114 globe, country ''KI'' ''KI'' 115 globe,
      country ''KM'' ''KM'' 116 globe, country ''KN'' ''KN'' 117 globe, country ''KP'' ''KP'' 118 globe,
      country ''KR'' ''South Korea'' 119 [0x1F1F0, 0x1F1F7], country ''KW'' ''KW'' 120 globe,
      country ''KY'' ''KY'' 121 globe, country ''KZ'' ''KZ'' 122 globe, country ''LA'' ''LA'' 123 globe,
      country ''LB'' ''LB'' 124 globe, country ''LC'' ''LC'' 125 globe, country ''LI'' ''LI'' 126 globe,
      country ''LK'' ''LK'' 127 globe, country ''LR'' ''LR'' 128 globe, country ''LS'' ''LS'' 129 globe,
      country ''LT'' ''LT'' 130 globe, country ''LU'' ''LU'' 131 globe, country ''LV'' ''LV'' 132 globe,
      country ''LY'' ''LY'' 133 globe, country ''MA'' ''MA'' 134 globe, country ''MC'' ''MC'' 135 globe,
      country ''MD'' ''MD'' 136 globe, country ''MG'' ''MG'' 137 globe, country ''MH'' ''MH'' 138 globe,
      country ''MK'' ''MK'' 139 globe, country ''ML'' ''ML'' 140 globe, country ''MM'' ''MM'' 141 globe,
      country ''MN'' ''MN'' 142 globe, country ''MO'' ''MO'' 143 globe, country ''MP'' ''MP'' 144 globe,
      country ''MQ'' ''MQ'' 145 globe, country ''MR'' ''MR'' 146 globe, country ''MS'' ''MS'' 147 globe,
      country ''MT'' ''MT'' 148 globe, country ''MU'' ''MU'' 149 globe, country ''MV'' ''MV'' 150 globe,
      country ''MW'' ''MW'' 151 globe, country ''MX'' ''MX'' 152 globe,
      country ''MY'' ''Malaysia'' 153 [0x1F1F2, 0x1F1FE], country ''MZ'' ''MZ'' 154 globe,
      country ''NA'' ''NA'' 155 globe, country ''NC'' ''NC'' 156 globe, country ''NE'' ''NE'' 157 globe,
      country ''NF'' ''NF'' 158 globe, country ''NG'' ''NG'' 159 globe, country ''NI'' ''NI'' 160 globe,
      country ''NL'' ''NL'' 161 globe, country ''NO'' ''NO'' 162 globe, country ''NP'' ''NP'' 163 globe,
      country ''NR'' ''NR'' 164 globe, country ''NU'' ''NU'' 165 globe, country ''NZ'' ''NZ'' 166 globe,
      country ''OM'' ''OM'' 167 globe, country ''PA'' ''PA'' 168 globe, country ''PE'' ''PE'' 169 globe,
      country ''PF'' ''PF'' 170 globe, country ''PG'' ''PG'' 171 globe,
      country ''PH'' ''Philippines'' 172 [0x1F1F5, 0x1F1ED], country ''PK'' ''PK'' 173 globe,
      country ''PL'' ''Poland'' 174 [0x1F1F5, 0x1F1F1], country ''PM'' ''PM'' 175 globe,
      country ''PN'' ''PN'' 176 globe, country ''PR'' ''PR'' 177 globe, country ''PS'' ''PS'' 178 globe,
      country ''PT'' ''PT'' 179 globe, country ''PW'' ''PW'' 180 globe, country ''PY'' ''PY'' 181 globe,
      country ''QA'' ''QA'' 182 globe, country ''RE'' ''RE'' 183 globe, country ''RO'' ''RO'' 184 globe,
      country ''RU'' ''Russia'' 185 [0x1F1F7, 0x1F1FA], country ''RW'' ''RW'' 186 globe,
      country ''SA'' ''SA'' 187 globe, country ''SB'' ''SB'' 188 globe, country ''SC'' ''SC'' 189 globe,
      country ''SD'' ''SD'' 190 globe, country ''SE'' ''SE'' 191 globe,
      country ''SG'' ''Singapore'' 192 [0x1F1F8, 0x1F1EC], country ''SH'' ''SH'' 193 globe,
      country ''SI'' ''SI'' 194 globe, country ''SJ'' ''SJ'' 195 globe, country ''SK'' ''SK'' 196 globe,
      country ''SL'' ''SL'' 197 globe, country ''SM'' ''SM'' 198 globe, country ''SN'' ''SN'' 199 globe,
      country ''SO'' ''SO'' 200 globe, country ''SR'' ''SR'' 201 globe, country ''ST'' ''ST'' 202 globe,
      country ''SV'' ''SV'' 203 globe, country ''SY'' ''SY'' 204 globe, country ''SZ'' ''SZ'' 205 globe,
      country ''TC'' ''TC'' 206 globe, country ''TD'' ''TD'' 207 globe, country ''TF'' ''TF'' 208 globe,
      country ''TG'' ''TG'' 209 globe, country ''TH'' ''Thailand'' 210 [0x1F1F9, 0x1F1ED],
      country ''TJ'' ''TJ'' 211 globe, country ''TK'' ''TK'' 212 globe, country ''TM'' ''TM'' 213 globe,
      country ''TN'' ''TN'' 214 globe, country ''TO'' ''TO'' 215 globe, country ''TL'' ''TL'' 216 globe,
      country ''TR'' ''TR'' 217 globe, country ''TT'' ''TT'' 218 globe, country ''TV'' ''TV'' 219 globe,
      country ''TW'' ''Taiwan'' 220 [0x1F1F9, 0x1F1FC], country ''TZ'' ''TZ'' 221 globe,
      country ''UA'' ''UA'' 222 globe, country ''UG'' ''UG'' 223 globe, country ''UM'' ''UM'' 224 globe,
      country ''US'' ''United States'' 225 [0x1F1FA, 0x1F1F8], country ''UY'' ''UY'' 226 globe,
      country ''UZ'' ''UZ'' 227 globe, country ''VA'' ''VA'' 228 globe, country ''VC'' ''VC'' 229 globe,
      country ''VE'' ''VE'' 230 globe, country ''VG'' ''VG'' 231 globe, country ''VI'' ''VI'' 232 globe,
      country ''VN'' ''Vietnam'' 233 [0x1F1FB, 0x1F1F3], country ''VU'' ''VU'' 234 globe,
      country ''WF'' ''Wallis and Futuna'' 235 [0x1F1FC, 0x1F1EB], country ''WS'' ''WS'' 236 globe,
      country ''YE'' ''YE'' 237 globe, country ''YT'' ''YT'' 238 globe, country ''RS'' ''RS'' 239 globe,
      country ''ZA'' ''ZA'' 240 globe, country ''ZM'' ''ZM'' 241 globe, country ''ME'' ''ME'' 242 globe,
      country ''ZW'' ''ZW'' 243 globe, country ''XX'' ''Unknown'' 244 globe,
      country ''A2'' ''A2'' 245 globe, country ''O1'' ''O1'' 246 globe, country ''AX'' ''AX'' 247 globe,
      country ''GG'' ''GG'' 248 globe, country ''IM'' ''IM'' 249 globe, country ''JE'' ''JE'' 250 globe,
      country ''BL'' ''BL'' 251 globe, country ''MF'' ''MF'' 252 globe]"

definition iso_to_bancho_id :: "(rstr \<Rightarrow> rstr) \<Rightarrow> rstr \<Rightarrow> u8" where
  "iso_to_bancho_id upper code =
     (case find (\<lambda>c. ci_code c = upper (trim code)) COUNTRIES of Some c \<Rightarrow> ci_bancho_id c | None \<Rightarrow> 233)"

definition bancho_id_to_iso :: "u8 \<Rightarrow> rstr" where
  "bancho_id_to_iso k =
     (case find (\<lambda>c. ci_bancho_id c = k) COUNTRIES of Some c \<Rightarrow> ci_code c | None \<Rightarrow> lit ''VN'')"

definition bancho_id_to_country :: "u8 \<Rightarrow> country_info" where
  "bancho_id_to_country k =
     (case find (\<lambda>c. ci_bancho_id c = k) COUNTRIES of Some c \<Rightarrow> c | None \<Rightarrow> DEFAULT_COUNTRY_INFO)"

subsection \<open>Codes and numbers\<close>

lemma find_key: "distinct (map f xs) \<Longrightarrow> c \<in> set xs \<Longrightarrow> find (\<lambda>x. f x = f c) xs = Some c"
  by (induction xs) auto

text \<open>The numbers are 1 to 252 in the order of the list.\<close>

lemma country_numbers: "map (uint \<circ> ci_bancho_id) COUNTRIES = [1..252]"
  by code_simp

lemma distinct_country_numbers: "distinct (map ci_bancho_id COUNTRIES)"
proof -
  have "distinct (map (uint \<circ> ci_bancho_id) COUNTRIES)" unfolding country_numbers by simp
  then show ?thesis by (metis distinct_map map_map)
qed

definition code_key :: "rstr \<Rightarrow> int" where
  "code_key code = hd code * 256 + last code"

lemma country_codes_ordered: "successively (<) (sort (map (code_key \<circ> ci_code) COUNTRIES))"
  by code_simp

lemma distinct_country_codes: "distinct (map ci_code COUNTRIES)"
proof -
  have "distinct (sort (map (code_key \<circ> ci_code) COUNTRIES))"
    using country_codes_ordered by (simp add: successively_iff_sorted_wrt_strong strict_sorted_iff)
  then have "distinct (map (code_key \<circ> ci_code) COUNTRIES)" by simp
  then show ?thesis by (metis distinct_map map_map)
qed

end
