(* ===== verification/Friends_Db.thy ===== *)
theory Friends_Db
  imports Users_Db Country
begin

text \<open>
  \<^verbatim>\<open>src/db/friends.rs\<close>: who added whom as a friend, with the primary key on both columns.  The
  list of a player joins the database of users; no statement fails.
\<close>

record friend_row =
  fr_user_id :: i32
  fr_friend_id :: i32
  fr_created_at :: i64

definition is_friend_row :: "i32 \<Rightarrow> i32 \<Rightarrow> friend_row \<Rightarrow> bool" where
  "is_friend_row uid fid r \<longleftrightarrow> fr_user_id r = uid \<and> fr_friend_id r = fid"

definition is_friend :: "i32 \<Rightarrow> i32 \<Rightarrow> friend_row list \<Rightarrow> bool" where
  "is_friend uid fid db \<longleftrightarrow> list_ex (is_friend_row uid fid) db"

definition add_friend :: "i64 \<Rightarrow> i32 \<Rightarrow> i32 \<Rightarrow> friend_row list \<Rightarrow> bool \<times> friend_row list" where
  "add_friend now uid fid db =
     (if uid = fid then (False, db)
      else if is_friend uid fid db then (False, db)
      else (True, db @ [\<lparr>fr_user_id = uid, fr_friend_id = fid, fr_created_at = now\<rparr>]))"

definition remove_friend :: "i32 \<Rightarrow> i32 \<Rightarrow> friend_row list \<Rightarrow> bool \<times> friend_row list" where
  "remove_friend uid fid db = (is_friend uid fid db, filter (\<lambda>r. \<not> is_friend_row uid fid r) db)"

text \<open>The join of the table with itself.\<close>

definition is_mutual_friend :: "i32 \<Rightarrow> i32 \<Rightarrow> friend_row list \<Rightarrow> bool" where
  "is_mutual_friend uid other db \<longleftrightarrow>
     list_ex (\<lambda>f1. is_friend_row uid other f1
       \<and> list_ex (\<lambda>f2. fr_user_id f1 = fr_friend_id f2 \<and> fr_friend_id f1 = fr_user_id f2) db) db"

definition friend_rows :: "i32 \<Rightarrow> friend_row list \<Rightarrow> friend_row list" where
  "friend_rows uid db = order_desc (sint \<circ> fr_created_at) (filter (\<lambda>r. fr_user_id r = uid) db)"

definition get_friend_ids :: "i32 \<Rightarrow> friend_row list \<Rightarrow> i32 list" where
  "get_friend_ids uid db = map fr_friend_id (friend_rows uid db)"

record friend_user_info =
  fi_user_id :: i32
  fi_username :: rstr
  fi_country :: u8
  fi_country_code :: rstr
  fi_country_name :: rstr
  fi_rank_std :: i32
  fi_pp_std :: i64
  fi_is_mutual :: bool
  fi_added_at :: i64

text \<open>
  Reading the statistics of a friend creates them where they are missing; one that cannot be read
  panics the whole list (\<open>None\<close>).
\<close>

definition friend_info ::
    "i32 \<Rightarrow> friend_row list \<Rightarrow> friend_row \<Rightarrow> users_db \<Rightarrow> friend_user_info option option \<times> users_db" where
  "friend_info uid db r users =
     (case get_user_by_id users (fr_friend_id r) of
        None \<Rightarrow> (Some None, users)
      | Some u \<Rightarrow>
          let (stats, users') = get_or_create_stats (us_id u) 0 users;
              c = bancho_id_to_country (us_country u)
          in (if stats = Panicked then None else Some (Some \<lparr>fi_user_id = us_id u, fi_username = us_username u, fi_country = us_country u,
                fi_country_code = ci_code c, fi_country_name = ci_name c,
                fi_rank_std = get_user_rank users (us_id u) 0,
                fi_pp_std = (case stats of Answered st \<Rightarrow> scast (du_pp st) | _ \<Rightarrow> 0),
                fi_is_mutual = is_mutual_friend uid (us_id u) db, fi_added_at = fr_created_at r\<rparr>),
              users'))"

fun friend_infos ::
    "i32 \<Rightarrow> friend_row list \<Rightarrow> friend_row list \<Rightarrow> users_db \<Rightarrow> friend_user_info list option \<times> users_db" where
  "friend_infos uid db [] users = (Some [], users)"
| "friend_infos uid db (r # rs) users =
     (case friend_info uid db r users of
        (None, users1) \<Rightarrow> (None, users1)
      | (Some info, users1) \<Rightarrow>
          let (infos, users2) = friend_infos uid db rs users1
          in (case info of Some i \<Rightarrow> map_option ((#) i) infos | None \<Rightarrow> infos, users2))"

definition get_friends_list :: "i32 \<Rightarrow> friend_row list \<Rightarrow> users_db \<Rightarrow> friend_user_info list option \<times> users_db" where
  "get_friends_list uid db users = friend_infos uid db (friend_rows uid db) users"

subsection \<open>The graph of friends\<close>

definition friends_ok :: "friend_row list \<Rightarrow> bool" where
  "friends_ok db \<longleftrightarrow>
     distinct (map (\<lambda>r. (fr_user_id r, fr_friend_id r)) db) \<and> (\<forall>r \<in> set db. fr_user_id r \<noteq> fr_friend_id r)"

lemma friends_ok_empty: "friends_ok []"
  by (simp add: friends_ok_def)

lemma friends_ok_add [keeps]: "friends_ok db \<Longrightarrow> friends_ok (snd (add_friend now uid fid db))"
  by (auto simp: friends_ok_def add_friend_def is_friend_def is_friend_row_def list_ex_iff)

lemma friends_ok_remove [keeps]: "friends_ok db \<Longrightarrow> friends_ok (snd (remove_friend uid fid db))"
  by (auto simp: friends_ok_def remove_friend_def distinct_map_filter)

text \<open>The table is a set of pairs: adding and removing change one pair.\<close>

lemma is_friend_add:
  "is_friend a b (snd (add_friend now uid fid db)) \<longleftrightarrow> is_friend a b db \<or> (a, b) = (uid, fid) \<and> uid \<noteq> fid"
  by (auto simp: add_friend_def is_friend_def is_friend_row_def list_ex_iff)

lemma is_friend_remove:
  "is_friend a b (snd (remove_friend uid fid db)) \<longleftrightarrow> is_friend a b db \<and> (a, b) \<noteq> (uid, fid)"
  by (auto simp: remove_friend_def is_friend_def is_friend_row_def list_ex_iff)

lemma mutual_iff: "is_mutual_friend a b db \<longleftrightarrow> is_friend a b db \<and> is_friend b a db"
  unfolding is_mutual_friend_def is_friend_def is_friend_row_def list_ex_iff by metis

lemma set_friend_ids: "set (get_friend_ids uid db) = {f. is_friend uid f db}"
  by (auto simp: get_friend_ids_def friend_rows_def is_friend_def is_friend_row_def list_ex_iff)

lemma distinct_friend_ids: "friends_ok db \<Longrightarrow> distinct (get_friend_ids uid db)"
proof -
  assume ok: "friends_ok db"
  have "distinct (map fr_friend_id (filter (\<lambda>r. fr_user_id r = uid) db))"
    using ok unfolding friends_ok_def distinct_map inj_on_def by auto
  then show ?thesis by (simp add: get_friend_ids_def friend_rows_def distinct_map)
qed

end
