(* ===== verification/Spec2Isabelle.thy ===== *)
theory Spec2Isabelle
  imports Room_Properties Result_Properties Protocol_Properties Server_Properties Chat_Properties
    Database_Properties Account_Properties Score_Properties Web_Properties Site_Properties
    Service_Properties Country Friends_Db
begin

text \<open>
  A model of the AyanomiBancho server, a private server for the osu! client, with the theorems
  that make it correct.

  \<^bold>\<open>The program.\<close>  A client logs in over HTTP and polls: each request carries a body of binary
  packets, each answer the packets queued for its session.  The packets read and change one
  shared state (sessions, channels, matches, spectators) behind a lock; chat, finished matches
  and the list of live rooms are written to SQLite by tasks that run on their own.  A background
  task removes sessions that stay silent.  A second service is the web site, which is a
  library here that a front end serves: score submission, leaderboards, registration, pictures and the administration of badges and backgrounds, behind
  layers that limit rates, guard the administration and refuse cross-site requests.  A gateway
  in front passes each request to one of the services.

  \<^bold>\<open>The theories.\<close>  All sources are below \<^verbatim>\<open>src/src/\<close>.
  \<^item> \<^verbatim>\<open>Prelude\<close>: hash maps as association lists (\<^verbatim>\<open>hmap\<close>; their order is the iteration order),
    hash sets as distinct lists, machine integers as words, of which \<^verbatim>\<open>sint\<close> gives the signed
    reading, the collection \<^verbatim>\<open>keeps\<close>.  \<^verbatim>\<open>Rust_Strings\<close>: a string is its list of code points;
    UTF-8, trimming, splitting, parsing and printing of integers as the standard library does it.
  \<^item> \<^verbatim>\<open>Uleb128\<close>, \<^verbatim>\<open>Wire\<close>, \<^verbatim>\<open>Packets\<close> (\<^verbatim>\<open>protocol/\<close>): the variable-length numbers, the primitive
    readers and writers, every packet builder and both packet parsers.  A reader maps the input
    to a result and the rest; a result is a value, an error or a panic.  \<^verbatim>\<open>Floats\<close>: the binary
    floats, with rounding, conversion and decimal printing computed on exact rationals.
  \<^item> \<^verbatim>\<open>Bancho_State\<close> (\<^verbatim>\<open>bancho/session.rs\<close>, \<^verbatim>\<open>channels.rs\<close>, \<^verbatim>\<open>state.rs\<close>): the shared state and its
    operations.  \<^verbatim>\<open>Delivery\<close>: the session invariant and the locale of the broadcasts, interpreted
    for each of them: a broadcast only appends to packet queues.  \<^verbatim>\<open>Rooms\<close>: the room invariant
    and what leaving a match does.  \<^verbatim>\<open>Tasks\<close>: the state with the list of spawned database writes,
    and the live-room rows.
  \<^item> \<^verbatim>\<open>Match_Edits\<close>, \<^verbatim>\<open>Match_Result\<close>, \<^verbatim>\<open>Multiplayer\<close>, \<^verbatim>\<open>Spectating\<close>, \<^verbatim>\<open>Chat\<close>, \<^verbatim>\<open>Handler\<close>
    (\<^verbatim>\<open>bancho/handler.rs\<close>): one definition per arm of \<^verbatim>\<open>handle_client_packets\<close>, the end of a
    match, and the packet loop.  \<^verbatim>\<open>Chat_Filter\<close> (\<^verbatim>\<open>filter.rs\<close>), \<^verbatim>\<open>Bot\<close> (\<^verbatim>\<open>bot.rs\<close>),
    \<^verbatim>\<open>Chat_Db\<close> (\<^verbatim>\<open>db/chat.rs\<close>, a table as the list of its rows).
  \<^item> \<^verbatim>\<open>Security\<close> (\<^verbatim>\<open>utils/security.rs\<close>), \<^verbatim>\<open>Login\<close> and \<^verbatim>\<open>Server\<close> (\<^verbatim>\<open>server/bancho.rs\<close>, the pruning
    task of \<^verbatim>\<open>main.rs\<close>): logging in, polling, and the relation \<^verbatim>\<open>reachable\<close>: a state is reachable
    by packets of any session, logins, polls, delivered chat history and pruning, in any order.
    \<^verbatim>\<open>Invariants\<close>: every arm keeps the three invariants.
  \<^item> \<^verbatim>\<open>Sql\<close>: what the queries use of SQL: comparison without case, \<^verbatim>\<open>ORDER BY\<close> as a stable sort,
    \<^verbatim>\<open>LIMIT\<close>.  A table is the list of its rows in the order of their row ids.  \<^verbatim>\<open>Users_Db\<close>
    (\<^verbatim>\<open>db/users.rs\<close>), \<^verbatim>\<open>Beatmaps_Db\<close> (\<^verbatim>\<open>db/beatmaps.rs\<close>), \<^verbatim>\<open>Scores_Db\<close> (\<^verbatim>\<open>db/scores.rs\<close>),
    \<^verbatim>\<open>Multi_Db\<close> (\<^verbatim>\<open>db/multi.rs\<close>), \<^verbatim>\<open>Match_Db\<close> (\<^verbatim>\<open>db/matches.rs\<close>): the tables with their
    constraints, every query and update, and the invariant of each database.  \<^verbatim>\<open>Accounts\<close>: the
    user table behind the login, and what a login writes to it (\<^verbatim>\<open>login_db\<close>).  \<^verbatim>\<open>Live_Rooms\<close>: the spawned writes run on the live-room tables.
  \<^item> \<^verbatim>\<open>Float_Ops\<close>, \<^verbatim>\<open>Score_Calc\<close> (\<^verbatim>\<open>utils/score_calc.rs\<close>): accuracy, grades and performance points
    on binary floats.  \<^verbatim>\<open>Images\<close> (\<^verbatim>\<open>server/avatars.rs\<close>): uploaded pictures without metadata.
  \<^item> \<^verbatim>\<open>Ip_Text\<close>, \<^verbatim>\<open>Http\<close>: addresses as text, requests and answers.  \<^verbatim>\<open>Rate_Limit\<close>
    (\<^verbatim>\<open>utils/ratelimit.rs\<close>): token buckets on binary floats; \<^verbatim>\<open>Float_Bounds\<close>, \<^verbatim>\<open>Rate_Bounds\<close>:
    their error bounds, and the budget of a client over any sequence of requests.
    \<^verbatim>\<open>Sessions\<close> (\<^verbatim>\<open>utils/crypto.rs\<close>, \<^verbatim>\<open>server/auth.rs\<close>), \<^verbatim>\<open>Badges_Db\<close> (\<^verbatim>\<open>db/badges.rs\<close>),
    \<^verbatim>\<open>Guards\<close> (\<^verbatim>\<open>server/ratelimit.rs\<close>): signed cookies, badges, and the layers of the services over
    the record \<^verbatim>\<open>site\<close>, the state the web handlers share.  \<^verbatim>\<open>Gateway\<close> (\<^verbatim>\<open>server/gateway.rs\<close>).
  \<^item> \<^verbatim>\<open>Forms\<close>, \<^verbatim>\<open>Score_Crypto\<close>, \<^verbatim>\<open>Web_Scores\<close>, \<^verbatim>\<open>Web_Accounts\<close>, \<^verbatim>\<open>Client_Pages\<close>,
    \<^verbatim>\<open>Map_Pages\<close> (\<^verbatim>\<open>server/web.rs\<close>, \<^verbatim>\<open>server/osufx.rs\<close>): the form parsers, the decryption of a
    score, submission and leaderboard, registration and the site API, and the fixed answers.
    \<^verbatim>\<open>Avatars\<close> (\<^verbatim>\<open>server/avatars.rs\<close>), \<^verbatim>\<open>Backgrounds\<close> (\<^verbatim>\<open>server/backgrounds.rs\<close>), \<^verbatim>\<open>Direct\<close>
    (\<^verbatim>\<open>server/direct.rs\<close>): pictures, menu backgrounds, the search and download of beatmaps.
  \<^item> \<^verbatim>\<open>Config\<close> (\<^verbatim>\<open>config.rs\<close>); \<^verbatim>\<open>Web_Site\<close> and \<^verbatim>\<open>Bancho_Site\<close> (\<^verbatim>\<open>server/mod.rs\<close>,
    \<^verbatim>\<open>server/bancho.rs\<close>): the routes of the two services behind their layers.  \<^verbatim>\<open>Site_Effects\<close>: the
    relation \<^verbatim>\<open>effect\<close> lists the handlers that change anything, and what each of them touches.
    \<^verbatim>\<open>Upkeep\<close> (\<^verbatim>\<open>db/backup.rs\<close>, \<^verbatim>\<open>utils/turnstile.rs\<close>, \<^verbatim>\<open>utils/telemetry.rs\<close>), \<^verbatim>\<open>Country\<close>
    (\<^verbatim>\<open>utils/country.rs\<close>), \<^verbatim>\<open>Friends_Db\<close> (\<^verbatim>\<open>db/friends.rs\<close>).
  \<^item> \<^verbatim>\<open>Samples\<close>: example data.  \<^verbatim>\<open>Room_Properties\<close>, \<^verbatim>\<open>Result_Properties\<close>,
    \<^verbatim>\<open>Protocol_Properties\<close>, \<^verbatim>\<open>Server_Properties\<close>, \<^verbatim>\<open>Chat_Properties\<close>, \<^verbatim>\<open>Database_Properties\<close>,
    \<^verbatim>\<open>Account_Properties\<close>, \<^verbatim>\<open>Score_Properties\<close>, \<^verbatim>\<open>Web_Properties\<close>, \<^verbatim>\<open>Site_Properties\<close>,
    \<^verbatim>\<open>Service_Properties\<close>: the properties; one with a hypothesis has an instance at concrete data.

  \<^bold>\<open>What the theorems show.\<close>  The rooms, the sessions and the spectators are consistent in every
  reachable state; a request is a sequence of steps of that relation and always ends, after at
  most one packet per seven bytes.  Packets reach exactly those they are meant for.  Joining,
  leaving, starting and finishing a match, and its result, do what they should, on the error
  branches as well.  A user who logs out, or logs in again, leaves nothing of the old session, and a
  match emptied by it is deleted from the live rooms.  What is written to the wire is read back, up
  to what the packet leaves out.  The live rooms in the database are the open matches once the writes
  have run; a submitted score is credited once, also when it comes again much later, and the
  statistics it leaves are those a recalculation finds; an account that registers under a name
  without a tag can log in again; an uploaded picture loses the metadata chunks of a PNG or WebP and
  the metadata segments before the first scan of a JPEG, and nothing else; a backup keeps the newest.
  Through the web service badges change by administrators only, pictures by their owner or an
  administrator, and scores by who knows the password of the player; in a tier configured for at
  least one request a minute the rate limit holds over any window of time, and a client who waits is
  served; a cookie authenticates the user it was issued to for a week and ends with a change of the
  password; on the routes for login, logout and registration through the site and on the
  profile, background and badge interfaces a request from a foreign site changes nothing (other routes, such as \<^verbatim>\<open>POST /users\<close>,
  are not guarded); a form is read back as it was written.  A few theorems show where the
  code falls short: an oversized string ends the request, numbers lose bits, an id that is still
  in use is taken again, a disconnect leaves a finished match in progress, a revoked session that is
  spelled differently still counts.

  \<^bold>\<open>Bounds and fuel.\<close>  The packet loop recurses on the body, which each packet shortens by seven
  bytes or more; reading a number stops after ten bytes.  The room invariant holds while fewer
  than 65535 matches have been created, since ids have 16 bits and are reused without a check.
  The bounds of the rate limiter hold for times below \<open>2 ^ 64\<close> nanoseconds and name the rounding of
  the floats.  Row ids are assumed below \<open>2 ^ 31\<close> where a theorem says so.  Sums of scores are added as
  SQLite adds them (\<^verbatim>\<open>sql_plus\<close> in \<^verbatim>\<open>Users_Db\<close>): they leave the integers at 64 bits, and reading one
  that did panics; the theorem on submissions assumes that they fit.

  \<^bold>\<open>Choices of the model.\<close>  An arm of the packet loop is one step, also where it releases and
  takes the lock again.  Spawned database writes are recorded in order of spawning; \<^verbatim>\<open>Live_Rooms\<close>
  and \<^verbatim>\<open>Match_Db\<close> run them in that order.  The statements of one database call run together.
  Code outside the repository is a parameter: the fields of \<^verbatim>\<open>services\<close> (queries, lower-casing,
  the random number), \<^verbatim>\<open>accounts\<close> (password checks, fingerprints, user queries), \<^verbatim>\<open>env\<close> (clock,
  configuration) and \<^verbatim>\<open>login_config\<close>.  Integer overflow wraps, as in a release build.

  For the web the parameters are \<^verbatim>\<open>crypto\<close> and \<^verbatim>\<open>score_crypto\<close> (HMAC, bcrypt, MD5, Base64,
  Rijndael), \<^verbatim>\<open>framework\<close> (extractors, rejections, answers to unknown routes), \<^verbatim>\<open>surroundings\<close>
  (mirrors, built-in pictures, environment) and \<^verbatim>\<open>clock\<close>; JSON stays a tree, files are a map from
  paths to bytes, and a handler that panics gives no answer.  The router of the
  web site is built on an \<^verbatim>\<open>AppState\<close> of its own program, so it sees the sessions of that state.

  \<^bold>\<open>Not modelled.\<close>  Start-up of the programs (\<^verbatim>\<open>main.rs\<close>, \<^verbatim>\<open>bin/\<close>) but for their workers, the
  opening of the databases (library calls and schema text; the constraints are in the models),
  \<^verbatim>\<open>state.rs\<close>, a record of handles, the module lists, the tests, and logging.
\<close>

end
